(* ===== verification/Trb.thy ===== *)
theory Trb
  imports Prelude
begin

text \<open>
  Transfer request blocks (\<open>src/device/xhci/trb.rs\<close> with the type codes of
  \<open>src/device/pci/constants.rs\<close>): the events the controller writes and the commands, link and
  transfer TRBs it reads. A \<open>RawTrbBuffer\<close> (\<open>[u8; 16]\<close>) is a list of 16 bytes. Every parser keeps
  the source's assertion on the TRB type as a fault, so that parsing without a panic is a theorem.
\<close>

section \<open>Constants\<close>

type_synonym raw_trb_buffer = "u8 list"

record raw_trb =
  raw_address :: u64
  raw_buffer :: raw_trb_buffer

definition zeroed_trb_buffer :: raw_trb_buffer where
  "zeroed_trb_buffer = replicate 16 0"

abbreviation (input) NORMAL :: u8 where "NORMAL \<equiv> 1"
abbreviation (input) SETUP_STAGE :: u8 where "SETUP_STAGE \<equiv> 2"
abbreviation (input) DATA_STAGE :: u8 where "DATA_STAGE \<equiv> 3"
abbreviation (input) STATUS_STAGE :: u8 where "STATUS_STAGE \<equiv> 4"
abbreviation (input) ISOCH :: u8 where "ISOCH \<equiv> 5"
abbreviation (input) LINK :: u8 where "LINK \<equiv> 6"
abbreviation (input) EVENT_DATA :: u8 where "EVENT_DATA \<equiv> 7"
abbreviation (input) NO_OP :: u8 where "NO_OP \<equiv> 8"
abbreviation (input) ENABLE_SLOT_COMMAND :: u8 where "ENABLE_SLOT_COMMAND \<equiv> 9"
abbreviation (input) DISABLE_SLOT_COMMAND :: u8 where "DISABLE_SLOT_COMMAND \<equiv> 10"
abbreviation (input) ADDRESS_DEVICE_COMMAND :: u8 where "ADDRESS_DEVICE_COMMAND \<equiv> 11"
abbreviation (input) CONFIGURE_ENDPOINT_COMMAND :: u8 where "CONFIGURE_ENDPOINT_COMMAND \<equiv> 12"
abbreviation (input) EVALUATE_CONTEXT_COMMAND :: u8 where "EVALUATE_CONTEXT_COMMAND \<equiv> 13"
abbreviation (input) RESET_ENDPOINT_COMMAND :: u8 where "RESET_ENDPOINT_COMMAND \<equiv> 14"
abbreviation (input) STOP_ENDPOINT_COMMAND :: u8 where "STOP_ENDPOINT_COMMAND \<equiv> 15"
abbreviation (input) SET_TR_DEQUEUE_POINTER_COMMAND :: u8 where "SET_TR_DEQUEUE_POINTER_COMMAND \<equiv> 16"
abbreviation (input) RESET_DEVICE_COMMAND :: u8 where "RESET_DEVICE_COMMAND \<equiv> 17"
abbreviation (input) FORCE_EVENT_COMMAND :: u8 where "FORCE_EVENT_COMMAND \<equiv> 18"
abbreviation (input) NEGOTIATE_BANDWIDTH_COMMAND :: u8 where "NEGOTIATE_BANDWIDTH_COMMAND \<equiv> 19"
abbreviation (input) SET_LATENCY_TOLERANCE_VALUE_COMMAND :: u8 where
  "SET_LATENCY_TOLERANCE_VALUE_COMMAND \<equiv> 20"
abbreviation (input) GET_PORT_BANDWIDTH_COMMAND :: u8 where "GET_PORT_BANDWIDTH_COMMAND \<equiv> 21"
abbreviation (input) FORCE_HEADER_COMMAND :: u8 where "FORCE_HEADER_COMMAND \<equiv> 22"
abbreviation (input) NO_OP_COMMAND :: u8 where "NO_OP_COMMAND \<equiv> 23"
abbreviation (input) TRANSFER_EVENT :: u8 where "TRANSFER_EVENT \<equiv> 32"
abbreviation (input) COMMAND_COMPLETION_EVENT :: u8 where "COMMAND_COMPLETION_EVENT \<equiv> 33"
abbreviation (input) PORT_STATUS_CHANGE_EVENT :: u8 where "PORT_STATUS_CHANGE_EVENT \<equiv> 34"

section \<open>Completion codes\<close>

datatype completion_code =
    Invalid | Success | DataBufferError | BabbleDetectedError | UsbTransactionError | TrbError
  | StallError | ResourceError | BandwidthError | NoSlotsAvailableError | InvalidStreamTypeError
  | SlotNotEnabledError | EndpointNotEnabledError | ShortPacket | RingUnderrun | RingOverrun
  | VfEventRingFullError | ParameterError | BandwidthOverrunError | ContextStateError
  | NoPingResponseError | EventRingFullError | IncompatibleDeviceError | MissedServiceError
  | CommandRingStopped | CommandAborted | Stopped | StoppedLengthInvalid | StoppedShortedPacket
  | MaxExitLatencyTooLargeError | Reserved | IsochBufferOverrun | EventLostError | UndefinedError
  | InvalidStreamIdError | SecondaryBandwidthError | SplitTransactionError

text \<open>The discriminants count up from 0 in the order of the declaration.\<close>

primrec cc_byte :: "completion_code \<Rightarrow> u8" where
  "cc_byte Invalid = 0"
| "cc_byte Success = 1"
| "cc_byte DataBufferError = 2"
| "cc_byte BabbleDetectedError = 3"
| "cc_byte UsbTransactionError = 4"
| "cc_byte TrbError = 5"
| "cc_byte StallError = 6"
| "cc_byte ResourceError = 7"
| "cc_byte BandwidthError = 8"
| "cc_byte NoSlotsAvailableError = 9"
| "cc_byte InvalidStreamTypeError = 10"
| "cc_byte SlotNotEnabledError = 11"
| "cc_byte EndpointNotEnabledError = 12"
| "cc_byte ShortPacket = 13"
| "cc_byte RingUnderrun = 14"
| "cc_byte RingOverrun = 15"
| "cc_byte VfEventRingFullError = 16"
| "cc_byte ParameterError = 17"
| "cc_byte BandwidthOverrunError = 18"
| "cc_byte ContextStateError = 19"
| "cc_byte NoPingResponseError = 20"
| "cc_byte EventRingFullError = 21"
| "cc_byte IncompatibleDeviceError = 22"
| "cc_byte MissedServiceError = 23"
| "cc_byte CommandRingStopped = 24"
| "cc_byte CommandAborted = 25"
| "cc_byte Stopped = 26"
| "cc_byte StoppedLengthInvalid = 27"
| "cc_byte StoppedShortedPacket = 28"
| "cc_byte MaxExitLatencyTooLargeError = 29"
| "cc_byte Reserved = 30"
| "cc_byte IsochBufferOverrun = 31"
| "cc_byte EventLostError = 32"
| "cc_byte UndefinedError = 33"
| "cc_byte InvalidStreamIdError = 34"
| "cc_byte SecondaryBandwidthError = 35"
| "cc_byte SplitTransactionError = 36"

section \<open>Event TRBs\<close>

datatype event_trb =
    Transfer (te_trb_pointer: u64) (te_trb_transfer_length: u32) (te_completion_code: completion_code)
      (te_event_data: bool) (te_endpoint_id: u8) (te_slot_id: u8)
  | CommandCompletion (ce_command_trb_pointer: u64) (ce_command_completion_parameter: u32)
      (ce_completion_code: completion_code) (ce_slot_id: u8)
  | PortStatusChange (pe_port_id: u8)

definition new_command_completion_event_trb ::
  "u64 \<Rightarrow> u32 \<Rightarrow> completion_code \<Rightarrow> u8 \<Rightarrow> event_trb res" where
  "new_command_completion_event_trb command_trb_pointer parameter code slot =
     rbind (require (command_trb_pointer AND 0x0f = 0) AssertFailed) (\<lambda>_.
     rbind (require (parameter AND 0xff000000 = 0) AssertFailed) (\<lambda>_.
     Inr (CommandCompletion command_trb_pointer parameter code slot)))"

definition new_port_status_change_event_trb :: "u8 \<Rightarrow> event_trb" where
  "new_port_status_change_event_trb port_id = PortStatusChange port_id"

definition new_transfer_event_trb ::
  "u64 \<Rightarrow> u32 \<Rightarrow> completion_code \<Rightarrow> bool \<Rightarrow> u8 \<Rightarrow> u8 \<Rightarrow> event_trb" where
  "new_transfer_event_trb trb_pointer trb_transfer_length code event_data endpoint_id slot_id =
     Transfer trb_pointer trb_transfer_length code event_data endpoint_id slot_id"

definition event_data_bytes :: "event_trb \<Rightarrow> raw_trb_buffer" where
  "event_data_bytes e = (case e of
     Transfer ptr len code ed ep slot \<Rightarrow>
       (overwrite (overwrite zeroed_trb_buffer 0 (le_bytes 8 ptr)) 8 (le_bytes 3 len))
         [11 := cc_byte code, 12 := push_bit 2 (of_bool ed), 13 := push_bit 2 TRANSFER_EVENT,
          14 := ep, 15 := slot]
   | CommandCompletion ptr parameter code slot \<Rightarrow>
       (overwrite (overwrite zeroed_trb_buffer 0 (le_bytes 8 ptr)) 8 (le_bytes 3 parameter))
         [11 := cc_byte code, 13 := push_bit 2 COMMAND_COMPLETION_EVENT, 15 := slot]
   | PortStatusChange port \<Rightarrow>
       zeroed_trb_buffer
         [3 := port, 11 := cc_byte Success, 13 := push_bit 2 PORT_STATUS_CHANGE_EVENT])"

definition event_to_bytes :: "event_trb \<Rightarrow> bool \<Rightarrow> raw_trb_buffer" where
  "event_to_bytes e cycle_bit =
     (let trb_data = event_data_bytes e in
      trb_data[12 := (trb_data ! 12 AND NOT 0x1) OR of_bool cycle_bit])"


section \<open>Command TRBs\<close>

datatype trb_parse_error =
    UnsupportedOptionalCommand u8 string
  | UnknownTrbType u8
  | RsvdZViolation

datatype disable_slot_data = DisableSlotData (ds_slot_id: u8)

datatype address_device_data =
  AddressDeviceData (ad_input_context_pointer: u64) (ad_block_set_address_request: bool)
    (ad_slot_id: u8)

datatype configure_endpoint_data =
  ConfigureEndpointData (cfg_input_context_pointer: u64) (cfg_deconfigure: bool) (cfg_slot_id: u8)

datatype evaluate_context_data =
  EvaluateContextData (ec_input_context_pointer: u64) (ec_slot_id: u8)

datatype reset_endpoint_data = ResetEndpointData (re_slot_id: u8) (re_endpoint_id: u8)

datatype stop_endpoint_data = StopEndpointData (se_endpoint_id: u8) (se_slot_id: u8)

datatype set_tr_dequeue_pointer_data =
  SetTrDequeuePointerData (sd_dequeue_cycle_state: bool) (sd_stream_context_type: u8)
    (sd_dequeue_pointer: u64) (sd_stream_id: u16) (sd_endpoint_id: u8) (sd_slot_id: u8)

datatype reset_device_data = ResetDeviceData (rd_slot_id: u8)

datatype command_trb_variant =
    NoOpCommand
  | EnableSlot
  | DisableSlot disable_slot_data
  | AddressDevice address_device_data
  | ConfigureEndpoint configure_endpoint_data
  | EvaluateContext evaluate_context_data
  | ResetEndpoint reset_endpoint_data
  | StopEndpoint stop_endpoint_data
  | SetTrDequeuePointer set_tr_dequeue_pointer_data
  | ResetDevice reset_device_data
  | ForceHeader
  | UnrecognizedCommand raw_trb_buffer trb_parse_error

text \<open>What the parsers share: the type field, and the assertion on it.\<close>

definition trb_type :: "raw_trb_buffer \<Rightarrow> u8" where
  "trb_type b = drop_bit 2 (b ! 13)"

definition assert_type :: "u8 \<Rightarrow> raw_trb_buffer \<Rightarrow> unit res" where
  "assert_type t b = require (trb_type b = t) AssertFailed"

abbreviation data_u64 :: "raw_trb_buffer \<Rightarrow> u64" where
  "data_u64 b \<equiv> of_le_bytes (slice b 0 8)"

type_synonym 'a parsed = "(trb_parse_error + 'a) res"

definition parse_disable_slot :: "raw_trb_buffer \<Rightarrow> disable_slot_data parsed" where
  "parse_disable_slot b = rbind (assert_type DISABLE_SLOT_COMMAND b) (\<lambda>_.
     Inr (Inr (DisableSlotData (b ! 15))))"

definition parse_address_device :: "raw_trb_buffer \<Rightarrow> address_device_data parsed" where
  "parse_address_device b = rbind (assert_type ADDRESS_DEVICE_COMMAND b) (\<lambda>_.
     let input_context_pointer = data_u64 b in
     if input_context_pointer AND 0xf \<noteq> 0 then Inr (Inl RsvdZViolation)
     else Inr (Inr (AddressDeviceData input_context_pointer (b ! 13 AND 0x2 \<noteq> 0) (b ! 15))))"

definition parse_configure_endpoint :: "raw_trb_buffer \<Rightarrow> configure_endpoint_data parsed" where
  "parse_configure_endpoint b = rbind (assert_type CONFIGURE_ENDPOINT_COMMAND b) (\<lambda>_.
     let input_context_pointer = data_u64 b in
     if input_context_pointer AND 0xf \<noteq> 0 then Inr (Inl RsvdZViolation)
     else Inr (Inr (ConfigureEndpointData input_context_pointer (b ! 13 AND 0x2 \<noteq> 0) (b ! 15))))"

definition parse_evaluate_context :: "raw_trb_buffer \<Rightarrow> evaluate_context_data parsed" where
  "parse_evaluate_context b = rbind (assert_type EVALUATE_CONTEXT_COMMAND b) (\<lambda>_.
     let input_context_pointer = data_u64 b in
     if input_context_pointer AND 0xf \<noteq> 0 then Inr (Inl RsvdZViolation)
     else Inr (Inr (EvaluateContextData input_context_pointer (b ! 15))))"

definition parse_reset_endpoint :: "raw_trb_buffer \<Rightarrow> reset_endpoint_data parsed" where
  "parse_reset_endpoint b = rbind (assert_type RESET_ENDPOINT_COMMAND b) (\<lambda>_.
     Inr (Inr (ResetEndpointData (b ! 15) (b ! 14 AND 0x1f))))"

definition parse_stop_endpoint :: "raw_trb_buffer \<Rightarrow> stop_endpoint_data parsed" where
  "parse_stop_endpoint b = rbind (assert_type STOP_ENDPOINT_COMMAND b) (\<lambda>_.
     Inr (Inr (StopEndpointData (b ! 14 AND 0x1f) (b ! 15))))"

definition parse_set_tr_dequeue_pointer :: "raw_trb_buffer \<Rightarrow> set_tr_dequeue_pointer_data parsed" where
  "parse_set_tr_dequeue_pointer b =
     (let dequeue_pointer_bytes = (slice b 0 8)[0 := slice b 0 8 ! 0 AND 0xf0] in
      Inr (Inr (SetTrDequeuePointerData (b ! 0 AND 1 \<noteq> 0) (b ! 0 AND 0xe)
        (of_le_bytes dequeue_pointer_bytes) (of_le_bytes (slice b 11 2))
        (b ! 14 AND 0x1f) (b ! 15))))"

definition parse_reset_device :: "raw_trb_buffer \<Rightarrow> reset_device_data parsed" where
  "parse_reset_device b = rbind (assert_type RESET_DEVICE_COMMAND b) (\<lambda>_.
     Inr (Inr (ResetDeviceData (b ! 15))))"

text \<open>The glue function \<open>parse\<close>; \<open>unrecognized\<close> is the trait \<open>TrbVariant\<close>.\<close>

definition parse_glue ::
  "(raw_trb_buffer \<Rightarrow> trb_parse_error \<Rightarrow> 'o) \<Rightarrow> (raw_trb_buffer \<Rightarrow> 'i parsed) \<Rightarrow> ('i \<Rightarrow> 'o) \<Rightarrow>
     raw_trb_buffer \<Rightarrow> 'o res" where
  "parse_glue unrecognized p variant_constructor b =
     rbind (p b) (\<lambda>r. Inr (case r of Inl err \<Rightarrow> unrecognized b err | Inr d \<Rightarrow> variant_constructor d))"

definition command_parse :: "raw_trb_buffer \<Rightarrow> command_trb_variant res" where
  "command_parse b =
     (let t = trb_type b; unsupported = (\<lambda>n name.
            Inr (UnrecognizedCommand b (UnsupportedOptionalCommand n name))) in
      if t = NO_OP_COMMAND then Inr NoOpCommand
      else if t = ENABLE_SLOT_COMMAND then Inr EnableSlot
      else if t = DISABLE_SLOT_COMMAND
        then parse_glue UnrecognizedCommand parse_disable_slot DisableSlot b
      else if t = ADDRESS_DEVICE_COMMAND
        then parse_glue UnrecognizedCommand parse_address_device AddressDevice b
      else if t = CONFIGURE_ENDPOINT_COMMAND
        then parse_glue UnrecognizedCommand parse_configure_endpoint ConfigureEndpoint b
      else if t = EVALUATE_CONTEXT_COMMAND
        then parse_glue UnrecognizedCommand parse_evaluate_context EvaluateContext b
      else if t = RESET_ENDPOINT_COMMAND
        then parse_glue UnrecognizedCommand parse_reset_endpoint ResetEndpoint b
      else if t = STOP_ENDPOINT_COMMAND
        then parse_glue UnrecognizedCommand parse_stop_endpoint StopEndpoint b
      else if t = SET_TR_DEQUEUE_POINTER_COMMAND
        then parse_glue UnrecognizedCommand parse_set_tr_dequeue_pointer SetTrDequeuePointer b
      else if t = RESET_DEVICE_COMMAND
        then parse_glue UnrecognizedCommand parse_reset_device ResetDevice b
      else if t = FORCE_EVENT_COMMAND then unsupported 18 ''Force Event Command''
      else if t = NEGOTIATE_BANDWIDTH_COMMAND then unsupported 19 ''Negotiate Bandwidth Command''
      else if t = SET_LATENCY_TOLERANCE_VALUE_COMMAND
        then unsupported 20 ''Set Latency Tolerance Value Command''
      else if t = GET_PORT_BANDWIDTH_COMMAND then unsupported 21 ''Get Port Bandwidth Command''
      else if t = FORCE_HEADER_COMMAND then Inr ForceHeader
      else Inr (UnrecognizedCommand b (UnknownTrbType t)))"

section \<open>Link TRBs\<close>

datatype link_trb =
  LinkTrb (ring_segment_pointer: u64) (toggle_cycle: bool) (link_interrupt_on_completion: bool)

definition link_parse :: "raw_trb_buffer \<Rightarrow> link_trb option" where
  "link_parse b =
     (if trb_type b \<noteq> LINK then None
      else
        let p = data_u64 b;
            p' = (if p AND 0xf \<noteq> 0 then p AND NOT 0xf else p) in
        Some (LinkTrb p' (b ! 12 AND 0x2 \<noteq> 0) (b ! 12 AND 0x20 \<noteq> 0)))"

section \<open>Transfer TRBs\<close>

datatype normal_trb_data =
  NormalTrbData (nd_data_pointer: u64) (nd_transfer_length: u32) (nd_chain: bool)
    (nd_interrupt_on_completion: bool) (nd_interrupt_on_short: bool) (nd_immediate_data: bool)

datatype setup_stage_trb_data =
  SetupStageTrbData (ss_request_type: u8) (ss_request: u8) (ss_value: u16) (ss_index: u16)
    (ss_length: u16) (ss_interrupt_on_completion: bool)

datatype data_stage_trb_data =
  DataStageTrbData (dd_data_pointer: u64) (dd_transfer_length: u16) (dd_chain: bool)
    (dd_interrupt_on_completion: bool) (dd_immediate_data: bool) (dd_direction: bool)

datatype status_stage_trb_data =
  StatusStageTrbData (st_chain: bool) (st_interrupt_on_completion: bool) (st_direction: bool)

datatype event_data_trb_data =
  EventDataTrbData (ed_event_data: u64) (ed_chain: bool) (ed_interrupt_on_completion: bool)

datatype no_op_trb_data = NoOpTrbData (no_chain: bool) (no_interrupt_on_completion: bool)

datatype transfer_trb_variant =
    Normal normal_trb_data
  | SetupStage setup_stage_trb_data
  | DataStage data_stage_trb_data
  | StatusStage status_stage_trb_data
  | Isoch
  | EventData event_data_trb_data
  | NoOpTransfer no_op_trb_data
  | UnrecognizedTransfer raw_trb_buffer trb_parse_error

record transfer_trb =
  tt_address :: u64
  tt_variant :: transfer_trb_variant

definition parse_normal :: "raw_trb_buffer \<Rightarrow> normal_trb_data parsed" where
  "parse_normal b = rbind (assert_type NORMAL b) (\<lambda>_.
     let transfer_length = of_le_bytes [b ! 8, b ! 9, b ! 10 AND 0x01, 0] in
     Inr (Inr (NormalTrbData (data_u64 b) transfer_length (b ! 12 AND 0x10 \<noteq> 0)
       (b ! 12 AND 0x20 \<noteq> 0) (b ! 12 AND 0x04 \<noteq> 0) (b ! 12 AND 0x40 \<noteq> 0))))"

definition parse_setup_stage :: "raw_trb_buffer \<Rightarrow> setup_stage_trb_data parsed" where
  "parse_setup_stage b = rbind (assert_type SETUP_STAGE b) (\<lambda>_.
     Inr (Inr (SetupStageTrbData (b ! 0) (b ! 1)
       (ucast (b ! 2) + push_bit 8 (ucast (b ! 3)))
       (ucast (b ! 4) + push_bit 8 (ucast (b ! 5)))
       (ucast (b ! 6) + push_bit 8 (ucast (b ! 7)))
       (b ! 12 AND 0x20 \<noteq> 0))))"

definition parse_data_stage :: "raw_trb_buffer \<Rightarrow> data_stage_trb_data parsed" where
  "parse_data_stage b = rbind (assert_type DATA_STAGE b) (\<lambda>_.
     Inr (Inr (DataStageTrbData (data_u64 b) (of_le_bytes (slice b 8 2)) (b ! 12 AND 0x10 \<noteq> 0)
       (b ! 12 AND 0x20 \<noteq> 0) (b ! 12 AND 0x40 \<noteq> 0) (b ! 14 AND 0x1 \<noteq> 0))))"

definition parse_status_stage :: "raw_trb_buffer \<Rightarrow> status_stage_trb_data parsed" where
  "parse_status_stage b = rbind (assert_type STATUS_STAGE b) (\<lambda>_.
     Inr (Inr (StatusStageTrbData (b ! 12 AND 0x10 \<noteq> 0) (b ! 12 AND 0x20 \<noteq> 0) (b ! 14 AND 0x1 \<noteq> 0))))"

definition parse_event_data :: "raw_trb_buffer \<Rightarrow> event_data_trb_data parsed" where
  "parse_event_data b = rbind (assert_type EVENT_DATA b) (\<lambda>_.
     Inr (Inr (EventDataTrbData (data_u64 b) (b ! 12 AND 0x10 \<noteq> 0) (b ! 12 AND 0x20 \<noteq> 0))))"

definition parse_no_op :: "raw_trb_buffer \<Rightarrow> no_op_trb_data parsed" where
  "parse_no_op b = rbind (assert_type NO_OP b) (\<lambda>_.
     Inr (Inr (NoOpTrbData (b ! 12 AND 0x10 \<noteq> 0) (b ! 12 AND 0x20 \<noteq> 0))))"

definition transfer_parse :: "raw_trb_buffer \<Rightarrow> transfer_trb_variant res" where
  "transfer_parse b =
     (let t = trb_type b in
      if t = NORMAL then parse_glue UnrecognizedTransfer parse_normal Normal b
      else if t = SETUP_STAGE then parse_glue UnrecognizedTransfer parse_setup_stage SetupStage b
      else if t = DATA_STAGE then parse_glue UnrecognizedTransfer parse_data_stage DataStage b
      else if t = STATUS_STAGE then parse_glue UnrecognizedTransfer parse_status_stage StatusStage b
      else if t = ISOCH then Inr Isoch
      else if t = EVENT_DATA then parse_glue UnrecognizedTransfer parse_event_data EventData b
      else if t = NO_OP then parse_glue UnrecognizedTransfer parse_no_op NoOpTransfer b
      else Inr (UnrecognizedTransfer b (UnknownTrbType t)))"

lemmas trb_parser_defs =
  parse_disable_slot_def parse_address_device_def parse_configure_endpoint_def
  parse_evaluate_context_def parse_reset_endpoint_def parse_stop_endpoint_def
  parse_set_tr_dequeue_pointer_def parse_reset_device_def parse_normal_def parse_setup_stage_def
  parse_data_stage_def parse_status_stage_def parse_event_data_def parse_no_op_def


section \<open>Parsing never panics\<close>

text \<open>
  Parsing is total. For every buffer the guest may place on a ring, the command and the
  transfer parser return a variant; the assertions inside the type-specific parsers cannot fail.
\<close>

lemma trb_parsing_total: "is_ok (command_parse b) \<and> is_ok (transfer_parse b)"
  by (simp add: command_parse_def transfer_parse_def Let_def parse_glue_def assert_type_def
      trb_parser_defs)

end
