(* ===== verification/TrbLayout.thy ===== *)
theory TrbLayout
  imports Trb
begin

text \<open>
  The TRB layouts of xHCI section 6.4, written down a second time as the driver side sees them:
  what a driver decodes from an event TRB and how it encodes a command. The theorems relate them
  to the controller's encoder and parsers.
\<close>

section \<open>The layout of event TRBs\<close>

text \<open>The fields of an event TRB as xHCI 6.4.2 lays them out.\<close>

definition ev_cycle :: "raw_trb_buffer \<Rightarrow> bool" where "ev_cycle b = bit (b ! 12) 0"
definition ev_pointer :: "raw_trb_buffer \<Rightarrow> u64" where "ev_pointer b = of_le_bytes (slice b 0 8)"
definition ev_length :: "raw_trb_buffer \<Rightarrow> u32" where "ev_length b = of_le_bytes (slice b 8 3)"

lemma zeroed_trb_buffer_simps [simp]:
  "length zeroed_trb_buffer = 16" "i < 16 \<Longrightarrow> zeroed_trb_buffer ! i = 0"
  by (simp_all add: zeroed_trb_buffer_def)

lemma u64_bytes [simp]: "of_le_bytes (le_bytes 8 (w :: u64)) = w"
  by (simp add: of_le_bytes_le_bytes)

lemma slice_event_data [simp]:
  assumes "length p = 8" "length q = 3"
  shows "slice (overwrite (overwrite zeroed_trb_buffer 0 p) 8 q) 0 8 = p"
    and "slice (overwrite (overwrite zeroed_trb_buffer 0 p) 8 q) 8 3 = q"
    and "length (overwrite (overwrite zeroed_trb_buffer 0 p) 8 q) = 16"
    and "overwrite (overwrite zeroed_trb_buffer 0 p) 8 q ! 12 = 0"
  using assms
  by (auto simp: slice_def overwrite_def zeroed_trb_buffer_def nth_append)

lemma slice_list_update [simp]: "off + n \<le> i \<Longrightarrow> slice (xs[i := x]) off n = slice xs off n"
  by (simp add: slice_def drop_update_swap take_update_cancel flip: take_drop)

text \<open>
  Event TRBs on the wire. The bytes of an event have the type, pointer, length, completion
  code, endpoint and slot of the event at the positions a driver reads them from, with the cycle
  bit of the ring; lengths and parameters are cut to their 24 bits.
\<close>

theorem event_to_bytes_layout:
  "length (event_to_bytes e c) = 16 \<and> ev_cycle (event_to_bytes e c) = c \<and>
   (case e of
      Transfer p l code ed ep slot \<Rightarrow>
        trb_type (event_to_bytes e c) = TRANSFER_EVENT \<and> ev_pointer (event_to_bytes e c) = p \<and>
        ev_length (event_to_bytes e c) = take_bit 24 l \<and> event_to_bytes e c ! 11 = cc_byte code \<and>
        bit (event_to_bytes e c ! 12) 2 = ed \<and> event_to_bytes e c ! 14 = ep \<and>
        event_to_bytes e c ! 15 = slot
    | CommandCompletion p par code slot \<Rightarrow>
        trb_type (event_to_bytes e c) = COMMAND_COMPLETION_EVENT \<and>
        ev_pointer (event_to_bytes e c) = p \<and> ev_length (event_to_bytes e c) = take_bit 24 par \<and>
        event_to_bytes e c ! 11 = cc_byte code \<and> event_to_bytes e c ! 15 = slot
    | PortStatusChange port \<Rightarrow>
        trb_type (event_to_bytes e c) = PORT_STATUS_CHANGE_EVENT \<and>
        event_to_bytes e c ! 3 = port \<and> event_to_bytes e c ! 11 = cc_byte Success)"
  by (cases e; cases c)
    (simp_all add: event_to_bytes_def event_data_bytes_def Let_def ev_cycle_def ev_pointer_def
      ev_length_def trb_type_def bit_simps of_le_bytes_prefix take_bit_word_eq_self)

section \<open>Command TRBs as a driver writes them\<close>

text \<open>The four dwords of a command: parameter, status, and the control bytes.\<close>

definition trb_image :: "u64 \<Rightarrow> u32 \<Rightarrow> u8 \<Rightarrow> u8 \<Rightarrow> u8 \<Rightarrow> u8 \<Rightarrow> raw_trb_buffer" where
  "trb_image parameter status flags t b14 b15 =
     le_bytes 8 parameter @ le_bytes 4 status @ [flags, t, b14, b15]"

fun driver_command :: "command_trb_variant \<Rightarrow> u8 \<Rightarrow> raw_trb_buffer" where
  "driver_command NoOpCommand fl = trb_image 0 0 fl (push_bit 2 NO_OP_COMMAND) 0 0"
| "driver_command EnableSlot fl = trb_image 0 0 fl (push_bit 2 ENABLE_SLOT_COMMAND) 0 0"
| "driver_command (DisableSlot (DisableSlotData slot)) fl =
     trb_image 0 0 fl (push_bit 2 DISABLE_SLOT_COMMAND) 0 slot"
| "driver_command (AddressDevice (AddressDeviceData p bsr slot)) fl =
     trb_image p 0 fl (push_bit 2 ADDRESS_DEVICE_COMMAND OR push_bit 1 (of_bool bsr)) 0 slot"
| "driver_command (ConfigureEndpoint (ConfigureEndpointData p dc slot)) fl =
     trb_image p 0 fl (push_bit 2 CONFIGURE_ENDPOINT_COMMAND OR push_bit 1 (of_bool dc)) 0 slot"
| "driver_command (EvaluateContext (EvaluateContextData p slot)) fl =
     trb_image p 0 fl (push_bit 2 EVALUATE_CONTEXT_COMMAND) 0 slot"
| "driver_command (ResetEndpoint (ResetEndpointData slot ep)) fl =
     trb_image 0 0 fl (push_bit 2 RESET_ENDPOINT_COMMAND) ep slot"
| "driver_command (StopEndpoint (StopEndpointData ep slot)) fl =
     trb_image 0 0 fl (push_bit 2 STOP_ENDPOINT_COMMAND) ep slot"
| "driver_command (SetTrDequeuePointer (SetTrDequeuePointerData dcs sct p stream ep slot)) fl =
     trb_image (p OR ucast sct OR of_bool dcs) (push_bit 16 (ucast stream)) fl
       (push_bit 2 SET_TR_DEQUEUE_POINTER_COMMAND) ep slot"
| "driver_command (ResetDevice (ResetDeviceData slot)) fl =
     trb_image 0 0 fl (push_bit 2 RESET_DEVICE_COMMAND) 0 slot"
| "driver_command ForceHeader fl = trb_image 0 0 fl (push_bit 2 FORCE_HEADER_COMMAND) 0 0"
| "driver_command (UnrecognizedCommand b e) fl = b"

lemma trb_image_simps [simp]:
  "length (trb_image p s f t b14 b15) = 16"
  "trb_image p s f t b14 b15 ! 12 = f"
  "trb_image p s f t b14 b15 ! 13 = t"
  "trb_image p s f t b14 b15 ! 14 = b14"
  "trb_image p s f t b14 b15 ! 15 = b15"
  "slice (trb_image p s f t b14 b15) 0 8 = le_bytes 8 p"
  by (simp_all add: trb_image_def nth_append slice_def)

lemma trb_image_data [simp]: "of_le_bytes (slice (trb_image p s f t b14 b15) 0 8) = (p :: u64)"
  by (simp add: of_le_bytes_le_bytes)

text \<open>The commands of the layout, by the widths of their fields: pointers to 16 bytes, 5-bit endpoint
  ids, a stream context type in bits 1 to 3. Those the parser has no name for are no commands.\<close>

fun fields_fit :: "command_trb_variant \<Rightarrow> bool" where
  "fields_fit (AddressDevice (AddressDeviceData p bsr slot)) = (p AND 0xf = 0)"
| "fields_fit (ConfigureEndpoint (ConfigureEndpointData p dc slot)) = (p AND 0xf = 0)"
| "fields_fit (EvaluateContext (EvaluateContextData p slot)) = (p AND 0xf = 0)"
| "fields_fit (ResetEndpoint (ResetEndpointData slot ep)) = (ep AND 0x1f = ep)"
| "fields_fit (StopEndpoint (StopEndpointData ep slot)) = (ep AND 0x1f = ep)"
| "fields_fit (SetTrDequeuePointer (SetTrDequeuePointerData dcs sct p stream ep slot)) =
     (p AND 0xf = 0 \<and> sct AND 0xe = sct \<and> ep AND 0x1f = ep)"
| "fields_fit (UnrecognizedCommand b e) = False"
| "fields_fit c = True"

lemma bsr_byte [simp]:
  "drop_bit 2 (push_bit 2 (11 :: u8) OR push_bit 1 (of_bool b)) = 11"
  "drop_bit 2 (push_bit 2 (12 :: u8) OR push_bit 1 (of_bool b)) = 12"
  "(push_bit 2 (11 :: u8) OR push_bit 1 (of_bool b)) AND 0x2 \<noteq> 0 \<longleftrightarrow> b"
  "(push_bit 2 (12 :: u8) OR push_bit 1 (of_bool b)) AND 0x2 \<noteq> 0 \<longleftrightarrow> b"
  by (cases b; simp)+

lemma low_nibble_clear: "(p :: u64) AND 0xf = 0 \<Longrightarrow> k < 4 \<Longrightarrow> \<not> bit p k"
proof -
  assume "p AND 0xf = 0" "k < 4"
  moreover have "(0xf :: u64) = mask 4" by (simp add: mask_eq_exp_minus_1)
  ultimately have "\<not> bit (p AND mask 4) k" by simp
  then show "\<not> bit p k" using \<open>k < 4\<close> by (simp add: bit_simps)
qed

lemma sct_bits: "(sct :: u8) AND 0xe = sct \<Longrightarrow> bit sct k \<Longrightarrow> k < 4"
proof -
  assume "sct AND 0xe = sct" "bit sct k"
  then have "bit (0xe :: u8) k" by (metis bit_and_iff)
  moreover have "(0xe :: u8) AND mask 4 = 0xe" by (simp add: mask_eq_exp_minus_1)
  ultimately show "k < 4" by (metis bit_and_iff bit_mask_iff)
qed

lemma dequeue_pointer_bytes:
  fixes dcs :: bool
  assumes "(p :: u64) AND 0xf = 0" "(sct :: u8) AND 0xe = sct"
  defines "q \<equiv> p OR ucast sct OR of_bool dcs"
  shows "of_le_bytes ((le_bytes 8 q)[0 := le_bytes 8 q ! 0 AND 0xf0]) = p"
proof (rule bit_word_eqI)
  fix k assume "k < LENGTH(64)"
  then have k: "k < 64" "k div 8 < 8" by auto
  have f0: "bit (0xf0 :: u8) j \<longleftrightarrow> 4 \<le> j" if "j < 8" for j
  proof -
    have "(0xf0 :: u8) = NOT (mask 4)" by (simp add: mask_eq_exp_minus_1)
    show ?thesis unfolding \<open>0xf0 = NOT (mask 4)\<close> using that by (auto simp: bit_simps)
  qed
  have hi: "bit q k = bit p k" if "4 \<le> k"
    using that sct_bits [OF assms(2), of k] by (auto simp: q_def bit_simps)
  have lo: "\<not> bit p k" if "k < 4" using low_nibble_clear [OF assms(1) that] .
  show "bit (of_le_bytes ((le_bytes 8 q)[0 := le_bytes 8 q ! 0 AND 0xf0]) :: u64) k = bit p k"
  proof (cases "k < 8")
    case True
    then show ?thesis
      using k hi lo f0 [of k] by (auto simp: bit_of_le_bytes nth_list_update bit_simps)
  next
    case False
    then have "k div 8 \<noteq> 0" by (simp add: div_eq_0_iff)
    moreover have "8 * (k div 8) + k mod 8 = k" by simp
    ultimately show ?thesis
      using k hi False by (auto simp: bit_of_le_bytes nth_list_update bit_simps)
  qed
qed

lemma high_byte [simp]: "ucast (ucast (drop_bit 8 (w :: u16)) :: u8) = drop_bit 8 w"
  by (rule bit_word_eqI) (auto simp: bit_simps dest: bit_imp_le_length)

lemma set_tr_dequeue_parse:
  assumes "p AND 0xf = 0" "sct AND 0xe = sct" "ep AND 0x1f = ep"
  shows "command_parse (driver_command
      (SetTrDequeuePointer (SetTrDequeuePointerData dcs sct p stream ep slot)) fl) =
    Inr (SetTrDequeuePointer (SetTrDequeuePointerData dcs sct p
      (ucast (drop_bit 8 stream) OR push_bit 8 (ucast fl)) ep slot))"
proof -
  let ?q = "p OR ucast sct OR of_bool dcs"
  let ?b = "trb_image ?q (push_bit 16 (ucast stream)) fl 0x40 ep slot"
  have b0: "?b ! 0 = ucast ?q" by (simp add: trb_image_def nth_append)
  have "bit (ucast ?q :: u8) 0 = dcs"
    using low_nibble_clear [OF assms(1), of 0] arg_cong [OF assms(2), of "\<lambda>w. bit w 0"]
    by (auto simp: bit_simps)
  then have dcs: "(ucast ?q :: u8) AND 1 \<noteq> 0 \<longleftrightarrow> dcs"
    by (auto simp: and_one_eq odd_iff_mod_2_eq_one bit_0)
  have sct: "(ucast ?q :: u8) AND 0xe = sct"
  proof (rule bit_word_eqI)
    fix k assume k: "k < LENGTH(8)"
    have "bit (0xe :: u8) k \<longleftrightarrow> k = 1 \<or> k = 2 \<or> k = 3"
      using k by (simp add: bit_iff_odd_drop_bit less_Suc_eq numeral_eq_Suc) fastforce
    moreover have "bit sct k = bit (sct AND 0xe) k" using assms(2) by simp
    ultimately show "bit ((ucast ?q :: u8) AND 0xe) k = bit sct k"
      using low_nibble_clear [OF assms(1), of k] k by (auto simp: bit_simps)
  qed
  have stream: "slice ?b 11 2 = [ucast (drop_bit 8 stream), fl]"
  proof -
    have "le_bytes 4 (push_bit 16 (ucast stream) :: u32) ! 3 = ucast (drop_bit 8 stream)"
      by (rule bit_word_eqI) (auto simp: bit_simps)
    then show ?thesis
      by (simp add: trb_image_def slice_def drop_Cons' le_bytes_def upt_rec numeral_eq_Suc)
  qed
  show ?thesis
    using dcs sct assms dequeue_pointer_bytes [OF assms(1,2), of dcs]
    by (simp add: command_parse_def Let_def trb_type_def parse_glue_def
      parse_set_tr_dequeue_pointer_def b0 stream)
qed

text \<open>
  C40: How every command that fits the layout of xHCI 6.4.3 is parsed, whatever its flag byte holds: as the
  command the driver wrote, except for the stream id of Set TR Dequeue Pointer. The two bytes of that are
  read one position too far: the low byte of what the parser returns is the high byte of the driver's
  stream id, the high byte is the flag byte, cycle bit included. So that command survives exactly if the
  two happen to agree.
\<close>

theorem command_roundtrip:
  assumes "fields_fit v"
  shows "command_parse (driver_command v fl) =
      Inr (case v of
        SetTrDequeuePointer (SetTrDequeuePointerData dcs sct p stream ep slot) \<Rightarrow>
          SetTrDequeuePointer (SetTrDequeuePointerData dcs sct p
            (ucast (drop_bit 8 stream) OR push_bit 8 (ucast fl)) ep slot)
      | _ \<Rightarrow> v)"
proof (cases "\<exists>d. v = SetTrDequeuePointer d")
  case True
  then obtain dcs sct p stream ep slot where
    "v = SetTrDequeuePointer (SetTrDequeuePointerData dcs sct p stream ep slot)"
    by (metis set_tr_dequeue_pointer_data.exhaust)
  then show ?thesis using assms set_tr_dequeue_parse [of p sct ep dcs stream slot fl] by simp
next
  case False
  then show ?thesis using assms
    by (cases "(v, fl)" rule: driver_command.cases)
      (simp_all add: command_parse_def Let_def trb_type_def parse_glue_def assert_type_def
        trb_parser_defs)
qed

text \<open>Stream 1 of endpoint 2, with the cycle bit set, is read as stream 256.\<close>

theorem command_roundtrip_witness:
  "command_parse (driver_command
      (SetTrDequeuePointer (SetTrDequeuePointerData True 0 0x1000 1 2 3)) 1) =
    Inr (SetTrDequeuePointer (SetTrDequeuePointerData True 0 0x1000 0x100 2 3)) \<and>
   command_parse (driver_command (AddressDevice (AddressDeviceData 0x1000 True 3)) 1) =
     Inr (AddressDevice (AddressDeviceData 0x1000 True 3))"
  using command_roundtrip [of "SetTrDequeuePointer (SetTrDequeuePointerData True 0 0x1000 1 2 3)" 1]
    command_roundtrip [of "AddressDevice (AddressDeviceData 0x1000 True 3)" 1] by simp

section \<open>Transfer TRBs as a driver writes them\<close>

definition trb_flags :: "bool \<Rightarrow> bool \<Rightarrow> bool \<Rightarrow> bool \<Rightarrow> bool \<Rightarrow> u8" where
  "trb_flags cycle isp chain ioc idt = of_bool cycle OR push_bit 2 (of_bool isp) OR
     push_bit 4 (of_bool chain) OR push_bit 5 (of_bool ioc) OR push_bit 6 (of_bool idt)"

fun driver_transfer :: "transfer_trb_variant \<Rightarrow> bool \<Rightarrow> raw_trb_buffer" where
  "driver_transfer (Normal (NormalTrbData p len ch ioc isp idt)) c =
     trb_image p len (trb_flags c isp ch ioc idt) (push_bit 2 NORMAL) 0 0"
| "driver_transfer (SetupStage (SetupStageTrbData rt rq v i l ioc)) c =
     [rt, rq] @ le_bytes 2 v @ le_bytes 2 i @ le_bytes 2 l @ le_bytes 4 (8 :: u32) @
     [trb_flags c False False ioc True, push_bit 2 SETUP_STAGE, 0, 0]"
| "driver_transfer (DataStage (DataStageTrbData p len ch ioc idt dir)) c =
     trb_image p (ucast len) (trb_flags c False ch ioc idt) (push_bit 2 DATA_STAGE) (of_bool dir) 0"
| "driver_transfer (StatusStage (StatusStageTrbData ch ioc dir)) c =
     trb_image 0 0 (trb_flags c False ch ioc False) (push_bit 2 STATUS_STAGE) (of_bool dir) 0"
| "driver_transfer Isoch c = trb_image 0 0 (of_bool c) (push_bit 2 ISOCH) 0 0"
| "driver_transfer (EventData (EventDataTrbData d ch ioc)) c =
     trb_image d 0 (trb_flags c False ch ioc False) (push_bit 2 EVENT_DATA) 0 0"
| "driver_transfer (NoOpTransfer (NoOpTrbData ch ioc)) c =
     trb_image 0 0 (trb_flags c False ch ioc False) (push_bit 2 NO_OP) 0 0"
| "driver_transfer (UnrecognizedTransfer b e) c = b"

lemma trb_flags_simps [simp]:
  "trb_flags c isp ch ioc idt AND 0x10 \<noteq> 0 \<longleftrightarrow> ch"
  "trb_flags c isp ch ioc idt AND 0x20 \<noteq> 0 \<longleftrightarrow> ioc"
  "trb_flags c isp ch ioc idt AND 0x04 \<noteq> 0 \<longleftrightarrow> isp"
  "trb_flags c isp ch ioc idt AND 0x40 \<noteq> 0 \<longleftrightarrow> idt"
  by (cases c; cases isp; cases ch; cases ioc; cases idt; simp add: trb_flags_def)+

text \<open>A transfer length has 17 bits in a Normal TRB.\<close>

fun plain_transfer :: "transfer_trb_variant \<Rightarrow> bool" where
  "plain_transfer (Normal (NormalTrbData p len ch ioc isp idt)) = (len < 0x20000)"
| "plain_transfer (UnrecognizedTransfer b e) = False"
| "plain_transfer t = True"

lemma length17:
  assumes "(len :: u32) < 0x20000"
  shows "of_le_bytes [ucast len, ucast (drop_bit 8 len), ucast (drop_bit 16 len) AND (1 :: u8), 0] = len"
proof (rule bit_word_eqI)
  fix k assume k: "k < LENGTH(32)"
  have "unat len < 2 ^ 17" using assms by (simp add: word_less_nat_alt)
  then have "len = take_bit 17 len"
    by (simp add: word_unat_eq_iff unsigned_take_bit_eq take_bit_nat_eq_self)
  then have hi: "bit len k \<Longrightarrow> k < 17" by (metis bit_take_bit_iff)
  consider "k < 8" | "8 \<le> k" "k < 16" | "k = 16" | "17 \<le> k" by linarith
  then show "bit (of_le_bytes [ucast len, ucast (drop_bit 8 len),
      ucast (drop_bit 16 len) AND (1 :: u8), 0] :: u32) k = bit len k"
  proof cases
    case 4
    then have "k div 8 = 3 \<or> k div 8 = 2 \<and> 0 < k mod 8" using k by simp presburger
    then show ?thesis using hi 4 by (auto simp: bit_of_le_bytes bit_simps bit_1_iff)
  next
    case 2
    then have "k div 8 = 1" "8 + k mod 8 = k" "k - 8 < 8" by presburger+
    then show ?thesis using 2 by (simp add: bit_of_le_bytes bit_simps)
  qed (use k in \<open>auto simp: bit_of_le_bytes bit_simps bit_1_iff\<close>)
qed

lemma byte_sum: "ucast (ucast w :: u8) + push_bit 8 (ucast (ucast (drop_bit 8 w) :: u8)) = (w :: u16)"
proof -
  have "ucast (ucast w :: u8) + push_bit 8 (ucast (ucast (drop_bit 8 w) :: u8)) =
      (ucast (ucast w :: u8) :: u16) OR push_bit 8 (ucast (ucast (drop_bit 8 w) :: u8))"
    by (rule disjunctive_add) (auto simp: bit_simps dest: bit_imp_le_length)
  also have "\<dots> = w"
    by (rule bit_word_eqI) (auto simp: bit_simps, metis le_add_diff_inverse not_less)
  finally show ?thesis .
qed


lemma trb_image_status [simp]:
  "trb_image p s f t b14 b15 ! 8 = ucast s"
  "trb_image p s f t b14 b15 ! 9 = ucast (drop_bit 8 s)"
  "trb_image p s f t b14 b15 ! 10 = ucast (drop_bit 16 s)"
  "slice (trb_image p s f t b14 b15) 8 2 = [ucast s, ucast (drop_bit 8 s)]"
  by (simp_all add: trb_image_def nth_append slice_def le_bytes_4)

lemma length16 [simp]:
  "of_le_bytes [ucast (ucast (len :: u16) :: u32), ucast (drop_bit 8 (ucast len :: u32))] = len"
proof -
  have "[ucast (ucast len :: u32), ucast (drop_bit 8 (ucast len :: u32))] = le_bytes 2 len"
    unfolding le_bytes_2 by (auto intro!: bit_word_eqI simp: bit_simps)
  then show ?thesis by (simp add: of_le_bytes_le_bytes)
qed

lemma byte_sum_high [simp]: "ucast (ucast w :: u8) + push_bit 8 (drop_bit 8 w) = (w :: u16)"
  using byte_sum [of w] by simp

text \<open>
  Transfer TRB round trip. Every transfer TRB a driver encodes in the layout of xHCI 6.4.1 is
  parsed back to itself, with either cycle bit.
\<close>

theorem transfer_roundtrip:
  "plain_transfer v \<Longrightarrow> transfer_parse (driver_transfer v c) = Inr v"
  by (cases "(v, c)" rule: driver_transfer.cases)
    (simp_all add: transfer_parse_def Let_def trb_type_def parse_glue_def assert_type_def
      parse_normal_def parse_data_stage_def parse_status_stage_def parse_event_data_def
      parse_no_op_def parse_setup_stage_def le_bytes_2 le_bytes_4 byte_sum length17
      del: of_le_bytes.simps)

theorem transfer_roundtrip_witness:
  "transfer_parse (driver_transfer (Normal (NormalTrbData 0x1234 0x1ffff True False True False)) True)
     = Inr (Normal (NormalTrbData 0x1234 0x1ffff True False True False))"
  by (rule transfer_roundtrip) simp

end
