(* ===== verification/Handover.thy ===== *)
theory Handover
  imports Prelude
begin

text \<open>
  Sharing one controller between several vfio-user connections (\<open>src/shared_backend.rs\<close>): the
  ownership record, its staged two-phase hand-over, and the data path of a connection. Every
  operation is one critical section of the ownership lock, hence one step; the one place where
  the source waits inside an operation (the parked registration reply) is split into steps. Time is
  a number of milliseconds, passed in where the source reads the clock. Files are an arbitrary type
  with what the operating system says about them; the wrapped \<open>XhciBackend\<close> is a record of the
  operations of the \<open>ServerBackend\<close> trait. The two debug-build test hooks that sleep and the
  environment variable that disables the guard are not modelled. Epochs are natural numbers: they
  count hand-overs; the one place where a client's epoch is incremented checks for overflow.
\<close>

type_synonym io_error = string
type_synonym time = nat
type_synonym conn = u64

definition NO_OWNER :: conn where "NO_OWNER = - 1"

section \<open>Data\<close>

record 'f registration =
  reg_index :: u32
  reg_flags :: u32
  reg_start :: u32
  reg_count :: u32
  reg_fds :: "'f list"

record 'f candidate =
  cand_id :: conn
  cand_reg :: "'f registration"
  cand_deadline :: time
  cand_ready :: bool

record 'f ownership =
  owner :: conn
  prev :: conn
  epoch :: nat
  committed_at :: "time option"
  candidate :: "'f candidate option"
  owner_reg :: "'f registration option"
  prev_reg :: "'f registration option"
  mapped :: "conn \<rightharpoonup> (u64 \<times> u64) list"
  live :: "conn set"
  lease :: time
  preflight_timeout :: time
  require_ready :: bool
  auto_reclaim :: bool
  require_device :: bool
  block_registration :: bool
  require_controller :: bool
  controller_seen :: bool
  device_count :: "u64 option"
  disable_owner_guard :: bool

datatype handover_error =
    NoCandidate
  | WrongCandidate
  | PreflightTimeout
  | NotReady
  | BadEventFd
  | DeviceGone
  | DmaIncomplete
  | IrqMismatch
  | NotPreviousOwner
  | PreviousGone
  | EpochMismatch
  | LeaseExpired
  | BackendError string

primrec handover_code :: "handover_error \<Rightarrow> string" where
  "handover_code NoCandidate = ''ENO_CANDIDATE''"
| "handover_code WrongCandidate = ''EWRONG_CANDIDATE''"
| "handover_code PreflightTimeout = ''EPREFLIGHT_TIMEOUT''"
| "handover_code NotReady = ''EPREFLIGHT_NOT_READY''"
| "handover_code BadEventFd = ''EPREFLIGHT_A4_EVENTFD''"
| "handover_code DeviceGone = ''EPREFLIGHT_A5_DEVICE_GONE''"
| "handover_code IrqMismatch = ''EPREFLIGHT_B3_IRQ_MISMATCH''"
| "handover_code DmaIncomplete = ''EPREFLIGHT_A3_DMA_INCOMPLETE''"
| "handover_code NotPreviousOwner = ''ERECLAIM_NOT_PREVIOUS_OWNER''"
| "handover_code PreviousGone = ''ERECLAIM_PREV_GONE''"
| "handover_code EpochMismatch = ''EEPOCH_MISMATCH''"
| "handover_code LeaseExpired = ''ERECLAIM_LEASE_EXPIRED''"
| "handover_code (BackendError e) = ''EBACKEND''"

record handover_status =
  hs_owner :: "conn option"
  hs_prev :: "conn option"
  hs_candidate :: "conn option"
  hs_epoch :: nat
  hs_candidate_ready :: bool
  hs_lease_ms :: nat
  hs_live :: "conn list"
  hs_devices :: "u64 option"
  hs_require_device :: bool
  hs_require_ready :: bool
  hs_binding :: bool
  hs_controller :: bool
  hs_deferred_a3 :: bool

text \<open>What the operating system does with files: duplicating a descriptor, its metadata, and the
  contents of its \<open>/proc/self/fdinfo\<close> entry.\<close>

record 'f os_files =
  try_clone :: "'f \<Rightarrow> io_error + 'f"
  metadata_ok :: "'f \<Rightarrow> bool"
  fdinfo :: "'f \<Rightarrow> string option"

text \<open>The trait \<open>ServerBackend\<close> of the wrapped controller.\<close>

record ('f, 'b) backend_ops =
  be_region_read :: "'b \<Rightarrow> u32 \<Rightarrow> u64 \<Rightarrow> nat \<Rightarrow> 'b \<times> (io_error + u8 list)"
  be_region_write :: "'b \<Rightarrow> u32 \<Rightarrow> u64 \<Rightarrow> u8 list \<Rightarrow> 'b \<times> (io_error + unit)"
  be_dma_map :: "'b \<Rightarrow> bool \<times> bool \<Rightarrow> u64 \<Rightarrow> u64 \<Rightarrow> u64 \<Rightarrow> 'f option \<Rightarrow> 'b \<times> (io_error + unit)"
  be_dma_unmap :: "'b \<Rightarrow> u64 \<Rightarrow> u64 \<Rightarrow> 'b \<times> (io_error + unit)"
  be_reset :: "'b \<Rightarrow> 'b \<times> (io_error + unit)"
  be_set_irqs :: "'b \<Rightarrow> 'f registration \<Rightarrow> 'b \<times> (io_error + unit)"

record ('f, 'b) shared =
  sh_backend :: 'b
  sh_ownership :: "'f ownership"
  sh_next_id :: u64

record connection =
  conn_id :: conn
  established :: bool

section \<open>Helpers\<close>

fun clone_fds :: "'f os_files \<Rightarrow> 'f list \<Rightarrow> io_error + 'f list" where
  "clone_fds os [] = Inr []"
| "clone_fds os (f # fs) =
     rbind (try_clone os f) (\<lambda>g. rbind (clone_fds os fs) (\<lambda>gs. Inr (g # gs)))"

definition duplicate :: "'f os_files \<Rightarrow> 'f registration \<Rightarrow> io_error + 'f registration" where
  "duplicate os reg = rbind (clone_fds os (reg_fds reg)) (\<lambda>fds. Inr (reg\<lparr>reg_fds := fds\<rparr>))"

fun contains_text :: "string \<Rightarrow> string \<Rightarrow> bool" where
  "contains_text [] p = (p = [])"
| "contains_text (c # cs) p = (take (length p) (c # cs) = p \<or> contains_text cs p)"

definition is_eventfd :: "'f os_files \<Rightarrow> 'f \<Rightarrow> bool" where
  "is_eventfd os f =
     (if \<not> metadata_ok os f then False
      else case fdinfo os f of Some text \<Rightarrow> contains_text text ''eventfd-count:'' | None \<Rightarrow> False)"

text \<open>\<open>ha + hs\<close> is unchecked in the source; the ranges come from successful mappings, which end
  inside the address space.\<close>

definition ranges_cover :: "(u64 \<times> u64) list \<Rightarrow> (u64 \<times> u64) list \<Rightarrow> bool" where
  "ranges_cover have needed =
     list_all (\<lambda>(a, s). list_ex (\<lambda>(ha, hs). ha \<le> a \<and>
       (case checked_add a s of Some e \<Rightarrow> e \<le> ha + hs | None \<Rightarrow> False)) have) needed"

definition mapped_of :: "'f ownership \<Rightarrow> conn \<Rightarrow> (u64 \<times> u64) list" where
  "mapped_of ow cid = (case mapped ow cid of Some rs \<Rightarrow> rs | None \<Rightarrow> [])"

definition handover_init :: "'b \<Rightarrow> ('f, 'b) shared" where
  "handover_init b =
     \<lparr>sh_backend = b,
      sh_ownership =
        \<lparr>owner = NO_OWNER, prev = NO_OWNER, epoch = 0, committed_at = None, candidate = None,
         owner_reg = None, prev_reg = None, mapped = Map.empty, live = {}, lease = 5000,
         preflight_timeout = 2000, require_ready = True, auto_reclaim = True,
         require_device = True, block_registration = False, require_controller = False,
         controller_seen = False, device_count = None, disable_owner_guard = False\<rparr>,
      sh_next_id = 0\<rparr>"


section \<open>Policy and bookkeeping\<close>

definition upd :: "'a option \<Rightarrow> 'a \<Rightarrow> 'a" where
  "upd v old = (case v of Some new \<Rightarrow> new | None \<Rightarrow> old)"

definition configure_handover ::
  "('f, 'b) shared \<Rightarrow> time option \<Rightarrow> time option \<Rightarrow> bool option \<Rightarrow> bool option \<Rightarrow> bool option \<Rightarrow>
     bool option \<Rightarrow> bool option \<Rightarrow> ('f, 'b) shared" where
  "configure_handover st v_lease v_timeout v_ready v_reclaim v_device v_block v_controller =
     st\<lparr>sh_ownership := (sh_ownership st)
       \<lparr>lease := upd v_lease (lease (sh_ownership st)),
        preflight_timeout := upd v_timeout (preflight_timeout (sh_ownership st)),
        require_ready := upd v_ready (require_ready (sh_ownership st)),
        auto_reclaim := upd v_reclaim (auto_reclaim (sh_ownership st)),
        require_device := upd v_device (require_device (sh_ownership st)),
        block_registration := upd v_block (block_registration (sh_ownership st)),
        require_controller := upd v_controller (require_controller (sh_ownership st))\<rparr>\<rparr>"

definition note_controller_seen :: "('f, 'b) shared \<Rightarrow> ('f, 'b) shared" where
  "note_controller_seen st = st\<lparr>sh_ownership := (sh_ownership st)\<lparr>controller_seen := True\<rparr>\<rparr>"

definition note_device_inventory :: "('f, 'b) shared \<Rightarrow> u64 \<Rightarrow> ('f, 'b) shared" where
  "note_device_inventory st devices =
     st\<lparr>sh_ownership := (sh_ownership st)\<lparr>device_count := Some devices\<rparr>\<rparr>"

text \<open>\<open>connect\<close> reserves an id (\<open>fetch_add\<close> wraps); \<open>establish\<close> records the live client.\<close>

definition connect :: "('f, 'b) shared \<Rightarrow> ('f, 'b) shared \<times> connection" where
  "connect st = (st\<lparr>sh_next_id := sh_next_id st + 1\<rparr>,
     \<lparr>conn_id = sh_next_id st, established = False\<rparr>)"

definition establish :: "('f, 'b) shared \<Rightarrow> conn \<Rightarrow> ('f, 'b) shared" where
  "establish st cid =
     st\<lparr>sh_ownership := (sh_ownership st)\<lparr>live := insert cid (live (sh_ownership st))\<rparr>\<rparr>"

definition touch :: "('f, 'b) shared \<Rightarrow> connection \<Rightarrow> ('f, 'b) shared \<times> connection" where
  "touch st c =
     (if established c then (st, c) else (establish st (conn_id c), c\<lparr>established := True\<rparr>))"

definition expire_candidate :: "'f ownership \<Rightarrow> time \<Rightarrow> 'f ownership \<times> conn option" where
  "expire_candidate ow now =
     (case candidate ow of
        None \<Rightarrow> (ow, None)
      | Some c \<Rightarrow>
          if now \<le> cand_deadline c then (ow, None)
          else (ow\<lparr>candidate := None\<rparr>, Some (cand_id c)))"

definition preflight_hard ::
  "'f os_files \<Rightarrow> 'f ownership \<Rightarrow> 'f candidate \<Rightarrow> (u64 \<times> u64) list \<Rightarrow> bool \<Rightarrow> handover_error + unit"
  where
  "preflight_hard os ow cand owner_ranges check_dma =
     (if list_ex (\<lambda>f. \<not> is_eventfd os f) (reg_fds (cand_reg cand)) then Inl BadEventFd
      else if require_device ow \<and> device_count ow = Some 0 then Inl DeviceGone
      else if (case owner_reg ow of
          Some r \<Rightarrow> (reg_index (cand_reg cand), reg_start (cand_reg cand), reg_count (cand_reg cand)) \<noteq>
                     (reg_index r, reg_start r, reg_count r)
        | None \<Rightarrow> False) then Inl IrqMismatch
      else if \<not> check_dma then Inr ()
      else if \<not> ranges_cover (mapped_of ow (cand_id cand)) owner_ranges then Inl DmaIncomplete
      else Inr ())"

definition install_registration ::
  "'f os_files \<Rightarrow> ('f, 'b) backend_ops \<Rightarrow> 'b \<Rightarrow> 'f registration \<Rightarrow>
     'b \<times> (handover_error + 'f registration)" where
  "install_registration os bops b reg =
     (case duplicate os reg of
        Inl e \<Rightarrow> (b, Inl (BackendError e))
      | Inr recorded \<Rightarrow>
          (case clone_fds os (reg_fds reg) of
             Inl e \<Rightarrow> (b, Inl (BackendError e))
           | Inr fds \<Rightarrow>
               (case be_set_irqs bops b (reg\<lparr>reg_fds := fds\<rparr>) of
                  (b', Inl e) \<Rightarrow> (b', Inl (BackendError e))
                | (b', Inr _) \<Rightarrow> (b', Inr recorded))))"

definition make_unowned :: "'f ownership \<Rightarrow> 'f ownership" where
  "make_unowned ow =
     ow\<lparr>owner := NO_OWNER, owner_reg := None, prev := NO_OWNER, prev_reg := None,
        candidate := None, committed_at := None, epoch := epoch ow + 1\<rparr>"

text \<open>The three options of \<open>disconnect\<close>, after the bookkeeping and the owner check.\<close>

definition promote_candidate ::
  "'f os_files \<Rightarrow> ('f, 'b) backend_ops \<Rightarrow> 'b \<Rightarrow> 'f ownership \<Rightarrow> (u64 \<times> u64) list \<Rightarrow> time \<Rightarrow>
     'b \<times> 'f ownership" where
  "promote_candidate os bops b ow owner_ranges now =
     (if \<not> auto_reclaim ow then (b, make_unowned ow)
      else case candidate ow of
        None \<Rightarrow> (b, make_unowned ow)
      | Some cand \<Rightarrow>
          let ow1 = ow\<lparr>candidate := None\<rparr> in
          (case preflight_hard os ow1 cand owner_ranges True of
             Inl e \<Rightarrow> (b, make_unowned ow1)
           | Inr _ \<Rightarrow>
               (case install_registration os bops b (cand_reg cand) of
                  (b', Inr recorded) \<Rightarrow>
                    (b', ow1\<lparr>owner := cand_id cand, prev := NO_OWNER, prev_reg := None,
                       owner_reg := Some recorded, committed_at := Some now, epoch := epoch ow1 + 1\<rparr>)
                | (b', Inl e) \<Rightarrow> (b', make_unowned ow1))))"

definition disconnect ::
  "'f os_files \<Rightarrow> ('f, 'b) backend_ops \<Rightarrow> ('f, 'b) shared \<Rightarrow> conn \<Rightarrow> time \<Rightarrow> ('f, 'b) shared" where
  "disconnect os bops st cid now =
     (let ow0 = (sh_ownership st)\<lparr>live := live (sh_ownership st) - {cid}\<rparr>;
          owner_ranges = mapped_of ow0 cid;
          ow = ow0\<lparr>mapped := (mapped ow0)(cid := None)\<rparr>;
          b = sh_backend st in
      if owner ow \<noteq> cid then st\<lparr>sh_ownership := ow\<rparr>
      else
        let (b', ow') =
          (if auto_reclaim ow \<and> prev ow \<noteq> NO_OWNER \<and> prev ow \<in> live ow then
             (case prev_reg ow of
                None \<Rightarrow> promote_candidate os bops b ow owner_ranges now
              | Some reg \<Rightarrow>
                  (case install_registration os bops b reg of
                     (b1, Inr recorded) \<Rightarrow>
                       (b1, ow\<lparr>prev_reg := None, owner := prev ow, prev := NO_OWNER,
                          owner_reg := Some recorded, committed_at := Some now,
                          epoch := epoch ow + 1\<rparr>)
                   | (b1, Inl e) \<Rightarrow> promote_candidate os bops b1 ow owner_ranges now))
           else promote_candidate os bops b ow owner_ranges now)
        in st\<lparr>sh_backend := b', sh_ownership := ow'\<rparr>)"

section \<open>The control path\<close>

definition deferred_a3 :: "'f ownership \<Rightarrow> bool" where
  "deferred_a3 ow \<longleftrightarrow> block_registration ow \<and> (controller_seen ow \<or> require_controller ow)"

definition opt_id :: "conn \<Rightarrow> conn option" where
  "opt_id c = (if c \<noteq> NO_OWNER then Some c else None)"

definition render_locked :: "'f ownership \<Rightarrow> handover_status" where
  "render_locked ow =
     \<lparr>hs_owner = opt_id (owner ow), hs_prev = opt_id (prev ow),
      hs_candidate = map_option cand_id (candidate ow), hs_epoch = epoch ow,
      hs_candidate_ready = (case candidate ow of Some c \<Rightarrow> cand_ready c | None \<Rightarrow> False),
      hs_lease_ms = lease ow, hs_live = sorted_list_of_set (live ow), hs_devices = device_count ow,
      hs_require_device = require_device ow, hs_require_ready = require_ready ow,
      hs_binding = block_registration ow, hs_controller = controller_seen ow,
      hs_deferred_a3 = deferred_a3 ow\<rparr>"

type_synonym ('f, 'b) outcome = "('f, 'b) shared \<times> (handover_error + handover_status)"

definition handover_status_of :: "('f, 'b) shared \<Rightarrow> time \<Rightarrow> ('f, 'b) shared \<times> handover_status" where
  "handover_status_of st now =
     (let ow = fst (expire_candidate (sh_ownership st) now) in
      (st\<lparr>sh_ownership := ow\<rparr>, render_locked ow))"

text \<open>One round of the loop of \<open>handover_watch\<close>: \<open>None\<close> goes back to waiting on the condition
  variable.\<close>

definition handover_watch_round ::
  "('f, 'b) shared \<Rightarrow> nat \<Rightarrow> time \<Rightarrow> time \<Rightarrow> ('f, 'b) shared \<times> handover_status option" where
  "handover_watch_round st start_epoch deadline now =
     (let ow = fst (expire_candidate (sh_ownership st) now) in
      (st\<lparr>sh_ownership := ow\<rparr>,
       if candidate ow \<noteq> None \<or> epoch ow \<noteq> start_epoch \<or> deadline \<le> now
       then Some (render_locked ow) else None))"

definition handover_ready :: "('f, 'b) shared \<Rightarrow> conn \<Rightarrow> time \<Rightarrow> ('f, 'b) outcome" where
  "handover_ready st cid now =
     (let (ow, expired) = expire_candidate (sh_ownership st) now in
      case candidate ow of
        Some c \<Rightarrow>
          if cand_id c = cid then
            let ow' = ow\<lparr>candidate := Some (c\<lparr>cand_ready := True\<rparr>)\<rparr> in
            (st\<lparr>sh_ownership := ow'\<rparr>, Inr (render_locked ow'))
          else (st\<lparr>sh_ownership := ow\<rparr>, Inl WrongCandidate)
      | None \<Rightarrow> (st\<lparr>sh_ownership := ow\<rparr>,
                 Inl (if expired = Some cid then PreflightTimeout else NoCandidate)))"

definition handover_abort :: "('f, 'b) shared \<Rightarrow> conn \<Rightarrow> time \<Rightarrow> ('f, 'b) outcome" where
  "handover_abort st cid now =
     (let ow = fst (expire_candidate (sh_ownership st) now) in
      case candidate ow of
        Some c \<Rightarrow>
          if cand_id c = cid then
            let ow' = ow\<lparr>candidate := None\<rparr> in
            (st\<lparr>sh_ownership := ow'\<rparr>, Inr (render_locked ow'))
          else (st\<lparr>sh_ownership := ow\<rparr>, Inl WrongCandidate)
      | None \<Rightarrow> (st\<lparr>sh_ownership := ow\<rparr>, Inl NoCandidate))"


text \<open>
  The commit. \<open>Inl\<close> of the fault sum is the panic of \<open>epoch + 1\<close>, evaluated only when the caller
  already owns the device. Once the candidate is taken, a failing \<open>dup\<close> or a failing backend loses
  it.
\<close>

definition commit_install ::
  "'f os_files \<Rightarrow> ('f, 'b) backend_ops \<Rightarrow> ('f, 'b) shared \<Rightarrow> 'f ownership \<Rightarrow> 'f candidate \<Rightarrow> time \<Rightarrow>
     ('f, 'b) outcome" where
  "commit_install os bops st ow0 cand now =
     (let ow = ow0\<lparr>candidate := None\<rparr> in
      case duplicate os (cand_reg cand) of
        Inl e \<Rightarrow> (st\<lparr>sh_ownership := ow\<rparr>, Inl (BackendError e))
      | Inr recorded \<Rightarrow>
          (case be_set_irqs bops (sh_backend st) (cand_reg cand) of
             (b', Inl e) \<Rightarrow> (st\<lparr>sh_backend := b', sh_ownership := ow\<rparr>, Inl (BackendError e))
           | (b', Inr _) \<Rightarrow>
               let ow' = ow\<lparr>prev := owner ow, prev_reg := owner_reg ow, owner := cand_id cand,
                     owner_reg := Some recorded, epoch := epoch ow + 1, committed_at := Some now\<rparr> in
               (st\<lparr>sh_backend := b', sh_ownership := ow'\<rparr>, Inr (render_locked ow'))))"

definition handover_commit ::
  "'f os_files \<Rightarrow> ('f, 'b) backend_ops \<Rightarrow> ('f, 'b) shared \<Rightarrow> conn \<Rightarrow> nat \<Rightarrow> time \<Rightarrow>
     ('f, 'b) outcome res" where
  "handover_commit os bops st cid ep now =
     (let (ow, expired) = expire_candidate (sh_ownership st) now;
          st1 = st\<lparr>sh_ownership := ow\<rparr> in
      case candidate ow of
        None \<Rightarrow>
          if owner ow = cid then
            rbind (require (ep + 1 < 2 ^ 64) ArithOverflow) (\<lambda>_.
            Inr (st1, if ep + 1 = epoch ow then Inr (render_locked ow)
                      else if expired = Some cid then Inl PreflightTimeout
                      else Inl NoCandidate))
          else Inr (st1, Inl (if expired = Some cid then PreflightTimeout else NoCandidate))
      | Some cand \<Rightarrow> Inr (
          if ep \<noteq> epoch ow then (st1, Inl EpochMismatch)
          else if cand_id cand \<noteq> cid then (st1, Inl WrongCandidate)
          else if require_ready ow \<and> \<not> cand_ready cand then (st1, Inl NotReady)
          else
            (case preflight_hard os ow cand (mapped_of ow (owner ow)) (\<not> deferred_a3 ow) of
               Inl e \<Rightarrow> (st1, Inl e)
             | Inr _ \<Rightarrow> commit_install os bops st1 ow cand now)))"

definition handover_reclaim ::
  "'f os_files \<Rightarrow> ('f, 'b) backend_ops \<Rightarrow> ('f, 'b) shared \<Rightarrow> conn \<Rightarrow> nat \<Rightarrow> time \<Rightarrow> ('f, 'b) outcome"
  where
  "handover_reclaim os bops st cid ep now =
     (let ow = fst (expire_candidate (sh_ownership st) now);
          st1 = st\<lparr>sh_ownership := ow\<rparr> in
      if prev ow = NO_OWNER \<or> prev ow \<noteq> cid then (st1, Inl NotPreviousOwner)
      else if cid \<notin> live ow then (st1, Inl PreviousGone)
      else if ep \<noteq> epoch ow then (st1, Inl EpochMismatch)
      else if (case committed_at ow of None \<Rightarrow> True | Some t \<Rightarrow> lease ow < now - t)
        then (st1, Inl LeaseExpired)
      else
        (case prev_reg ow of
           None \<Rightarrow> (st1, Inl NotPreviousOwner)
         | Some reg \<Rightarrow>
             (case install_registration os bops (sh_backend st1) reg of
                (b', Inl e) \<Rightarrow> (st1\<lparr>sh_backend := b'\<rparr>, Inl e)
              | (b', Inr recorded) \<Rightarrow>
                  let ow' = ow\<lparr>prev_reg := None, owner := cid, prev := NO_OWNER,
                        owner_reg := Some recorded, epoch := epoch ow + 1\<rparr> in
                  (st1\<lparr>sh_backend := b', sh_ownership := ow'\<rparr>, Inr (render_locked ow')))))"

section \<open>The data path of a connection\<close>

definition guard_disabled :: "'f ownership \<Rightarrow> bool" where
  "guard_disabled ow = disable_owner_guard ow"

definition owns_device :: "connection \<Rightarrow> 'f ownership \<Rightarrow> bool" where
  "owns_device c ow \<longleftrightarrow> guard_disabled ow \<or> owner ow = conn_id c"

definition is_stale :: "connection \<Rightarrow> 'f ownership \<Rightarrow> bool" where
  "is_stale c ow \<longleftrightarrow> \<not> owns_device c ow \<and> owner ow \<noteq> NO_OWNER"

type_synonym ('f, 'b, 'r) conn_step = "('f, 'b) shared \<times> connection \<times> (io_error + 'r)"

definition sb_region_read ::
  "('f, 'b) backend_ops \<Rightarrow> ('f, 'b) shared \<Rightarrow> connection \<Rightarrow> u32 \<Rightarrow> u64 \<Rightarrow> nat \<Rightarrow>
     ('f, 'b, u8 list) conn_step" where
  "sb_region_read bops st0 c0 region offset n =
     (let (st, c) = touch st0 c0; (b', r) = be_region_read bops (sh_backend st) region offset n in
      (st\<lparr>sh_backend := b'\<rparr>, c, r))"

definition sb_region_write ::
  "('f, 'b) backend_ops \<Rightarrow> ('f, 'b) shared \<Rightarrow> connection \<Rightarrow> u32 \<Rightarrow> u64 \<Rightarrow> u8 list \<Rightarrow>
     ('f, 'b, unit) conn_step" where
  "sb_region_write bops st0 c0 region offset data =
     (let (st, c) = touch st0 c0; (b', r) = be_region_write bops (sh_backend st) region offset data in
      (st\<lparr>sh_backend := b'\<rparr>, c, r))"

definition sb_dma_map ::
  "('f, 'b) backend_ops \<Rightarrow> ('f, 'b) shared \<Rightarrow> connection \<Rightarrow> bool \<times> bool \<Rightarrow> u64 \<Rightarrow> u64 \<Rightarrow> u64 \<Rightarrow>
     'f option \<Rightarrow> ('f, 'b, unit) conn_step" where
  "sb_dma_map bops st0 c0 flags offset address sz fd =
     (let (st, c) = touch st0 c0; ow = sh_ownership st;
          (b', r) = be_dma_map bops (sh_backend st) flags offset address sz fd;
          ow' = (if \<not> isl r
                 then ow\<lparr>mapped := (mapped ow)(conn_id c \<mapsto> mapped_of ow (conn_id c) @ [(address, sz)])\<rparr>
                 else ow) in
      (st\<lparr>sh_backend := b', sh_ownership := ow'\<rparr>, c, r))"

definition sb_dma_unmap ::
  "('f, 'b) backend_ops \<Rightarrow> ('f, 'b) shared \<Rightarrow> connection \<Rightarrow> u64 \<Rightarrow> u64 \<Rightarrow> ('f, 'b, unit) conn_step"
  where
  "sb_dma_unmap bops st0 c0 address sz =
     (let (st, c) = touch st0 c0; ow = sh_ownership st in
      if is_stale c ow then (st, c, Inr ())
      else
        let (b', r) = be_dma_unmap bops (sh_backend st) address sz;
            ow' = (if \<not> isl r then
                (case mapped ow (conn_id c) of
                   Some ranges \<Rightarrow> ow\<lparr>mapped := (mapped ow)(conn_id c \<mapsto>
                       filter (\<lambda>(a, s). \<not> (a = address \<and> s = sz)) ranges)\<rparr>
                 | None \<Rightarrow> ow)
              else ow) in
        (st\<lparr>sh_backend := b', sh_ownership := ow'\<rparr>, c, r))"

definition sb_reset ::
  "('f, 'b) backend_ops \<Rightarrow> ('f, 'b) shared \<Rightarrow> connection \<Rightarrow> ('f, 'b, unit) conn_step" where
  "sb_reset bops st0 c0 =
     (let (st, c) = touch st0 c0 in
      if is_stale c (sh_ownership st) then (st, c, Inr ())
      else let (b', r) = be_reset bops (sh_backend st) in (st\<lparr>sh_backend := b'\<rparr>, c, r))"

text \<open>
  \<open>set_irqs\<close> ends with a reply, or parks the reply of a staged candidate with a deadline.
  \<open>validate\<close> is \<open>validate_irq_request\<close> of \<open>src/xhci_backend.rs\<close>. The three clock readings are the
  one at the entry, the one when the candidate's window starts again, and the one of parking.
\<close>

datatype irqs_reply = Replied "io_error + unit" | Parked time

text \<open>The MSI-X index of the VFIO ABI, a constant of the binding crate.\<close>

definition VFIO_PCI_MSIX_IRQ_INDEX :: u32 where "VFIO_PCI_MSIX_IRQ_INDEX = 2"

definition validate_irq_request :: "u32 \<Rightarrow> u32 \<Rightarrow> io_error + unit" where
  "validate_irq_request index count =
     (if index \<noteq> VFIO_PCI_MSIX_IRQ_INDEX then Inl ''only MSI-X interrupts are supported''
      else if 1 < count then Inl ''only a single interrupt is supported''
      else Inr ())"

definition sb_set_irqs ::
  "'f os_files \<Rightarrow> ('f, 'b) backend_ops \<Rightarrow> ('f, 'b) shared \<Rightarrow> connection \<Rightarrow> 'f registration \<Rightarrow>
     time \<Rightarrow> time \<Rightarrow> time \<Rightarrow> ('f, 'b) shared \<times> connection \<times> irqs_reply" where
  "sb_set_irqs os bops st0 c0 reg now1 now2 now3 =
     (let (st, c) = touch st0 c0;
          ow = fst (expire_candidate (sh_ownership st) now1);
          st1 = st\<lparr>sh_ownership := ow\<rparr> in
      if reg_fds reg = [] then
        if \<not> owns_device c ow then (st1, c, Replied (Inr ()))
        else let (b', r) = be_set_irqs bops (sh_backend st1) reg in
             (st1\<lparr>sh_backend := b'\<rparr>, c, Replied r)
      else
        (case validate_irq_request (reg_index reg) (reg_count reg) of
           Inl e \<Rightarrow> (st1, c, Replied (Inl e))
         | Inr _ \<Rightarrow>
             if owner ow = NO_OWNER \<or> owner ow = conn_id c then
               (case clone_fds os (reg_fds reg) of
                  Inl e \<Rightarrow> (st1, c, Replied (Inl e))
                | Inr cloned \<Rightarrow>
                    let (b', r) = be_set_irqs bops (sh_backend st1) reg;
                        ow' = (if \<not> isl r then
                            ow\<lparr>owner := conn_id c, owner_reg := Some (reg\<lparr>reg_fds := cloned\<rparr>),
                               epoch := (if owner ow = NO_OWNER then epoch ow + 1 else epoch ow)\<rparr>
                          else ow) in
                    (st1\<lparr>sh_backend := b', sh_ownership := ow'\<rparr>, c, Replied r))
             else
               let ready = (case candidate ow of Some d \<Rightarrow> cand_id d = conn_id c \<and> cand_ready d
                                               | None \<Rightarrow> False);
                   ow' = ow\<lparr>candidate := Some \<lparr>cand_id = conn_id c, cand_reg = reg,
                       cand_deadline = now2 + preflight_timeout ow, cand_ready = ready\<rparr>\<rparr> in
               (st1\<lparr>sh_ownership := ow'\<rparr>, c,
                if deferred_a3 ow then Parked (now3 + preflight_timeout ow) else Replied (Inr ()))))"

text \<open>One round of the parked loop, under the lock: \<open>None\<close> waits on.\<close>

definition parked_round ::
  "('f, 'b) shared \<Rightarrow> connection \<Rightarrow> time \<Rightarrow> time \<Rightarrow> ('f, 'b) shared \<times> (io_error + unit) option" where
  "parked_round st c deadline now =
     (let ow = sh_ownership st in
      if owner ow = conn_id c then (st, Some (Inr ()))
      else if (case candidate ow of Some d \<Rightarrow> cand_id d \<noteq> conn_id c | None \<Rightarrow> True)
        then (st, Some (Inl ''the hand-over of this device was refused''))
      else if deadline \<le> now
        then (st\<lparr>sh_ownership := ow\<lparr>candidate := None\<rparr>\<rparr>,
              Some (Inl ''no hand-over decision arrived in time''))
      else (st, None))"

end
