(* ===== verification/HandoverInv.thy ===== *)
theory HandoverInv
  imports Handover
begin

text \<open>
  What the hand-over protects. The operations are put into one step relation on the shared state,
  with any connection issuing any command at any time; the invariants hold in every reachable
  state. The backend is used through a contract: what it reports about its interrupt line.
\<close>

section \<open>Well-formed ownership\<close>

definition wf_reg :: "'f registration \<Rightarrow> bool" where
  "wf_reg r \<longleftrightarrow> reg_fds r \<noteq> []"

definition wf_ownership :: "'f ownership \<Rightarrow> bool" where
  "wf_ownership ow \<longleftrightarrow>
     (owner ow \<noteq> NO_OWNER \<longleftrightarrow> owner_reg ow \<noteq> None) \<and>
     (prev ow \<noteq> NO_OWNER \<longleftrightarrow> prev_reg ow \<noteq> None) \<and>
     (prev ow \<noteq> NO_OWNER \<longrightarrow> owner ow \<noteq> NO_OWNER) \<and>
     (\<forall>c. candidate ow = Some c \<longrightarrow> owner ow \<noteq> NO_OWNER \<and> cand_id c \<noteq> NO_OWNER \<and> wf_reg (cand_reg c)) \<and>
     (\<forall>r. owner_reg ow = Some r \<longrightarrow> wf_reg r) \<and> (\<forall>r. prev_reg ow = Some r \<longrightarrow> wf_reg r)"

text \<open>How one operation may move the ownership: the epoch counts the changes of owner.\<close>

definition fenced :: "'f ownership \<Rightarrow> 'f ownership \<Rightarrow> bool" where
  "fenced ow ow' \<longleftrightarrow> epoch ow' = epoch ow \<and> owner ow' = owner ow \<or> epoch ow' = epoch ow + 1"

lemma fenced_same [simp]: "epoch ow' = epoch ow \<Longrightarrow> owner ow' = owner ow \<Longrightarrow> fenced ow ow'"
  by (simp add: fenced_def)

lemma fenced_succ [simp]: "epoch ow' = Suc (epoch ow) \<Longrightarrow> fenced ow ow'"
  by (simp add: fenced_def)

lemma clone_fds_length: "clone_fds os fs = Inr gs \<Longrightarrow> length gs = length fs"
  by (induction fs arbitrary: gs) auto

lemma clone_fds_nonempty: "clone_fds os fs = Inr gs \<Longrightarrow> gs = [] \<longleftrightarrow> fs = []"
  using clone_fds_length by (metis length_0_conv)

lemma duplicate_wf: "duplicate os r = Inr r' \<Longrightarrow> wf_reg r' = wf_reg r"
  by (auto simp: duplicate_def wf_reg_def clone_fds_nonempty)

lemma install_registration_Inr:
  "install_registration os bops b r = (b', Inr r') \<Longrightarrow>
     duplicate os r = Inr r' \<and> (\<exists>fds. clone_fds os (reg_fds r) = Inr fds \<and>
       be_set_irqs bops b (r\<lparr>reg_fds := fds\<rparr>) = (b', Inr ()))"
  by (auto simp: install_registration_def split: sum.splits prod.splits)

lemma install_registration_Inl:
  "install_registration os bops b r = (b', Inl e) \<Longrightarrow>
     b' = b \<or> (\<exists>fds e'. be_set_irqs bops b (r\<lparr>reg_fds := fds\<rparr>) = (b', Inl e'))"
  by (auto simp: install_registration_def split: sum.splits prod.splits)

lemma expire_cases:
  "expire_candidate ow now = (ow', x) \<Longrightarrow>
     ow' = ow \<and> x = None \<or>
     (\<exists>c. candidate ow = Some c \<and> cand_deadline c < now \<and> ow' = ow\<lparr>candidate := None\<rparr> \<and> x = Some (cand_id c))"
  by (auto simp: expire_candidate_def split: option.splits if_splits)

lemma expire_wf [inv_intros]: "wf_ownership ow \<Longrightarrow> wf_ownership (fst (expire_candidate ow now))"
  by (auto simp: expire_candidate_def wf_ownership_def split: option.splits)

lemma expire_keeps [simp]:
  "owner (fst (expire_candidate ow now)) = owner ow"
  "epoch (fst (expire_candidate ow now)) = epoch ow"
  "prev (fst (expire_candidate ow now)) = prev ow"
  "owner_reg (fst (expire_candidate ow now)) = owner_reg ow"
  "prev_reg (fst (expire_candidate ow now)) = prev_reg ow"
  "live (fst (expire_candidate ow now)) = live ow"
  "mapped (fst (expire_candidate ow now)) = mapped ow"
  "committed_at (fst (expire_candidate ow now)) = committed_at ow"
  "lease (fst (expire_candidate ow now)) = lease ow"
  by (auto simp: expire_candidate_def split: option.splits)

lemma make_unowned_wf [inv_intros]: "wf_ownership (make_unowned ow)"
  by (simp add: make_unowned_def wf_ownership_def)

lemma make_unowned_fenced [simp]:
  "epoch (make_unowned ow) = Suc (epoch ow)" "owner (make_unowned ow) = NO_OWNER"
  by (simp_all add: make_unowned_def)

section \<open>Each operation keeps the invariant and the fence\<close>

lemma promote_candidate_wf:
  assumes "promote_candidate os bops b ow rs now = (b', ow')" "wf_ownership ow"
  shows "wf_ownership ow' \<and> epoch ow' = Suc (epoch ow)"
  using assms
  by (auto simp: promote_candidate_def Let_def make_unowned_wf wf_ownership_def [of "_\<lparr>owner := _\<rparr>"]
      split: if_splits option.splits sum.splits prod.splits dest!: install_registration_Inr)
    (auto simp: wf_ownership_def make_unowned_def dest: duplicate_wf)


abbreviation ok_move :: "('f, 'b) shared \<Rightarrow> ('f, 'b) shared \<Rightarrow> bool" where
  "ok_move st st' \<equiv> wf_ownership (sh_ownership st') \<and> fenced (sh_ownership st) (sh_ownership st')"

lemma wf_bookkeeping [simp]:
  "wf_ownership (ow\<lparr>live := l\<rparr>) = wf_ownership ow"
  "wf_ownership (ow\<lparr>mapped := m\<rparr>) = wf_ownership ow"
  "wf_ownership (ow\<lparr>controller_seen := b\<rparr>) = wf_ownership ow"
  "wf_ownership (ow\<lparr>device_count := n\<rparr>) = wf_ownership ow"
  by (simp_all add: wf_ownership_def)

lemma wf_drop_candidate: "wf_ownership ow \<Longrightarrow> wf_ownership (ow\<lparr>candidate := None\<rparr>)"
  by (simp add: wf_ownership_def)

lemma disconnect_ok [inv_intros]:
  assumes "wf_ownership (sh_ownership st)"
  shows "ok_move st (disconnect os bops st cid now)"
proof -
  let ?ow = "(sh_ownership st)\<lparr>live := live (sh_ownership st) - {cid},
    mapped := (mapped (sh_ownership st))(cid := None)\<rparr>"
  have wf: "wf_ownership ?ow" using assms by simp
  have bk: "wf_ownership (?ow\<lparr>prev_reg := None, owner := prev ?ow, prev := NO_OWNER,
      owner_reg := Some r', committed_at := Some now, epoch := epoch ?ow + 1\<rparr>)"
    if "prev ?ow \<noteq> NO_OWNER" "prev_reg ?ow = Some r" "duplicate os r = Inr r'" for r r'
    using wf that duplicate_wf [OF that(3)] by (simp add: wf_ownership_def)
  show ?thesis
    unfolding disconnect_def Let_def
    using wf bk
    by (auto split: prod.splits option.splits sum.splits if_splits
        dest!: install_registration_Inr promote_candidate_wf)
qed

lemma ready_ok [inv_intros]:
  assumes "wf_ownership (sh_ownership st)"
  shows "ok_move st (fst (handover_ready st cid now))"
proof -
  let ?ow = "fst (expire_candidate (sh_ownership st) now)"
  have wf: "wf_ownership ?ow" using expire_wf [OF assms] .
  then have "wf_ownership (?ow\<lparr>candidate := Some (c\<lparr>cand_ready := True\<rparr>)\<rparr>)"
    if "candidate ?ow = Some c" for c
    using that by (auto simp: wf_ownership_def)
  then show ?thesis
    using wf by (auto simp: handover_ready_def Let_def case_prod_unfold split: option.splits)
qed

lemma abort_ok [inv_intros]:
  assumes "wf_ownership (sh_ownership st)"
  shows "ok_move st (fst (handover_abort st cid now))"
  using expire_wf [OF assms, of now]
  by (auto simp: handover_abort_def Let_def wf_drop_candidate split: option.splits)

lemma commit_install_ok:
  assumes "wf_ownership ow" "candidate ow = Some cand" "commit_install os bops st ow cand now = (st', r)"
  shows "wf_ownership (sh_ownership st') \<and> fenced ow (sh_ownership st')"
  using assms(3) wf_drop_candidate [OF assms(1)] assms(1,2)
  by (auto simp: commit_install_def Let_def fenced_def split: sum.splits prod.splits)
    (auto simp: wf_ownership_def dest: duplicate_wf)

lemma commit_ok [inv_intros]:
  assumes "wf_ownership (sh_ownership st)" "handover_commit os bops st cid ep now = Inr (st', r)"
  shows "ok_move st st'"
proof -
  let ?ow = "fst (expire_candidate (sh_ownership st) now)"
  have wf: "wf_ownership ?ow" using expire_wf [OF assms(1)] .
  have f: "fenced ?ow ow2 = fenced (sh_ownership st) ow2" for ow2
    by (simp add: fenced_def)
  show ?thesis
    using assms(2) wf
    by (auto simp: handover_commit_def Let_def case_prod_unfold
        split: option.splits if_splits sum.splits dest: commit_install_ok [OF wf, unfolded f])
qed

lemma reclaim_ok [inv_intros]:
  assumes "wf_ownership (sh_ownership st)" "handover_reclaim os bops st cid ep now = (st', r)"
  shows "ok_move st st'"
proof -
  let ?ow = "fst (expire_candidate (sh_ownership st) now)"
  have wf: "wf_ownership ?ow" using expire_wf [OF assms(1)] .
  have bk: "wf_ownership (?ow\<lparr>prev_reg := None, owner := prev ?ow, prev := NO_OWNER,
      owner_reg := Some r', epoch := Suc (epoch ?ow)\<rparr>)"
    if "prev ?ow \<noteq> NO_OWNER" "prev_reg ?ow = Some r" "duplicate os r = Inr r'" for r r'
    using wf that duplicate_wf [OF that(3)] by (simp add: wf_ownership_def)
  show ?thesis
    using assms(2) wf bk
    by (auto simp: handover_reclaim_def Let_def split: option.splits if_splits sum.splits prod.splits
        dest!: install_registration_Inr)
qed

lemma touch_ownership:
  "touch st c = (st', c') \<Longrightarrow> conn_id c' = conn_id c \<and> sh_backend st' = sh_backend st \<and>
     (\<exists>l. sh_ownership st' = (sh_ownership st)\<lparr>live := l\<rparr>)"
  by (cases "established c")
    (auto simp: touch_def establish_def intro: exI [of _ "live (sh_ownership st)"])

lemma set_irqs_ok [inv_intros]:
  assumes "wf_ownership (sh_ownership st)" "conn_id c \<noteq> NO_OWNER"
    "sb_set_irqs os bops st c reg n1 n2 n3 = (st', c', r)"
  shows "ok_move st st'"
proof -
  obtain st1 c1 where t: "touch st c = (st1, c1)" by (cases "touch st c")
  obtain l where l: "conn_id c1 = conn_id c" "sh_ownership st1 = (sh_ownership st)\<lparr>live := l\<rparr>"
    using touch_ownership [OF t] by blast
  let ?ow = "fst (expire_candidate (sh_ownership st1) n1)"
  have "wf_ownership (sh_ownership st1)" using assms(1) l(2) by simp
  then have wf: "wf_ownership ?ow" by (rule expire_wf)
  have same: "owner ?ow = owner (sh_ownership st)" "epoch ?ow = epoch (sh_ownership st)"
    using l(2) by simp_all
  have own: "wf_ownership (?ow\<lparr>owner := conn_id c, owner_reg := Some (reg\<lparr>reg_fds := fds\<rparr>), epoch := e\<rparr>)"
    if "clone_fds os (reg_fds reg) = Inr fds" "reg_fds reg \<noteq> []" for fds e
    using wf assms(2) clone_fds_nonempty [OF that(1)] that(2) by (simp add: wf_ownership_def wf_reg_def)
  have stage: "wf_ownership (?ow\<lparr>candidate := Some \<lparr>cand_id = conn_id c, cand_reg = reg,
      cand_deadline = d, cand_ready = b\<rparr>\<rparr>)" if "owner ?ow \<noteq> NO_OWNER" "reg_fds reg \<noteq> []" for d b
    using wf assms(2) that by (simp add: wf_ownership_def wf_reg_def)
  show ?thesis
    using assms(3) wf own stage same
    by (auto simp: sb_set_irqs_def t Let_def l(1) split: if_splits sum.splits prod.splits)
qed

lemma parked_ok [inv_intros]:
  assumes "wf_ownership (sh_ownership st)"
  shows "ok_move st (fst (parked_round st c deadline now))"
  using assms by (auto simp: parked_round_def Let_def wf_drop_candidate split: option.splits)

lemma dma_map_ok [inv_intros]:
  assumes "wf_ownership (sh_ownership st)" "sb_dma_map bops st c fl off a n fd = (st', c', r)"
  shows "ok_move st st'"
  using assms
  by (auto simp: sb_dma_map_def touch_def establish_def Let_def split: if_splits prod.splits)

lemma dma_unmap_ok [inv_intros]:
  assumes "wf_ownership (sh_ownership st)" "sb_dma_unmap bops st c a n = (st', c', r)"
  shows "ok_move st st'"
  using assms
  by (auto simp: sb_dma_unmap_def touch_def establish_def Let_def split: if_splits prod.splits option.splits)

lemma reset_ok [inv_intros]:
  assumes "wf_ownership (sh_ownership st)" "sb_reset bops st c = (st', c', r)"
  shows "ok_move st st'"
  using assms by (auto simp: sb_reset_def touch_def establish_def Let_def split: if_splits prod.splits)


section \<open>Reachable states\<close>

inductive ho_step ::
  "'f os_files \<Rightarrow> ('f, 'b) backend_ops \<Rightarrow> ('f, 'b) shared \<Rightarrow> ('f, 'b) shared \<Rightarrow> bool"
  for os :: "'f os_files" and bops :: "('f, 'b) backend_ops" where
  step_connect: "connect st = (st', c) \<Longrightarrow> ho_step os bops st st'"
| step_configure: "ho_step os bops st (configure_handover st v1 v2 v3 v4 v5 v6 v7)"
| step_controller: "ho_step os bops st (note_controller_seen st)"
| step_inventory: "ho_step os bops st (note_device_inventory st n)"
| step_disconnect: "ho_step os bops st (disconnect os bops st cid now)"
| step_status: "ho_step os bops st (fst (handover_status_of st now))"
| step_watch: "ho_step os bops st (fst (handover_watch_round st e d now))"
| step_ready: "ho_step os bops st (fst (handover_ready st cid now))"
| step_abort: "ho_step os bops st (fst (handover_abort st cid now))"
| step_commit: "handover_commit os bops st cid ep now = Inr (st', r) \<Longrightarrow> ho_step os bops st st'"
| step_reclaim: "handover_reclaim os bops st cid ep now = (st', r) \<Longrightarrow> ho_step os bops st st'"
| step_read: "sb_region_read bops st c rg off n = (st', c', rd) \<Longrightarrow> ho_step os bops st st'"
| step_write: "sb_region_write bops st c rg off bs = (st', c', rw) \<Longrightarrow> ho_step os bops st st'"
| step_map: "sb_dma_map bops st c fl off a n fd = (st', c', rm) \<Longrightarrow> ho_step os bops st st'"
| step_unmap: "sb_dma_unmap bops st c a n = (st', c', ru) \<Longrightarrow> ho_step os bops st st'"
| step_reset: "sb_reset bops st c = (st', c', rr) \<Longrightarrow> ho_step os bops st st'"
| step_irqs: "conn_id c \<noteq> NO_OWNER \<Longrightarrow> sb_set_irqs os bops st c reg n1 n2 n3 = (st', c', ri) \<Longrightarrow>
    ho_step os bops st st'"
| step_parked: "ho_step os bops st (fst (parked_round st c d now))"

inductive ho_reach ::
  "'f os_files \<Rightarrow> ('f, 'b) backend_ops \<Rightarrow> 'b \<Rightarrow> ('f, 'b) shared \<Rightarrow> bool"
  for os :: "'f os_files" and bops :: "('f, 'b) backend_ops" and b0 :: 'b where
  reach_init: "ho_reach os bops b0 (handover_init b0)"
| reach_step: "ho_reach os bops b0 st \<Longrightarrow> ho_step os bops st st' \<Longrightarrow> ho_reach os bops b0 st'"

lemma ho_step_ok:
  assumes "ho_step os bops st st'" "wf_ownership (sh_ownership st)"
  shows "ok_move st st'"
  using assms
proof (induction rule: ho_step.induct)
  case (step_connect st st' c)
  then show ?case by (auto simp: connect_def)
next
  case (step_configure st v1 v2 v3 v4 v5 v6 v7)
  then show ?case by (simp add: configure_handover_def wf_ownership_def)
next
  case (step_status st now)
  then show ?case by (simp add: handover_status_of_def Let_def expire_wf)
next
  case (step_watch st e d now)
  then show ?case by (simp add: handover_watch_round_def Let_def expire_wf)
next
  case (step_read st c rg off n st' c' rd)
  then show ?case
    by (auto simp: sb_region_read_def touch_def establish_def Let_def split: if_splits prod.splits)
next
  case (step_write st c rg off bs st' c' rw)
  then show ?case
    by (auto simp: sb_region_write_def touch_def establish_def Let_def split: if_splits prod.splits)
next
  case (step_disconnect st cid now)
  then show ?case by (rule disconnect_ok)
next
  case (step_ready st cid now)
  then show ?case by (rule ready_ok)
next
  case (step_abort st cid now)
  then show ?case by (rule abort_ok)
next
  case (step_parked st c d now)
  then show ?case by (rule parked_ok)
next
  case (step_commit st cid ep now st' r)
  then show ?case using commit_ok by blast
next
  case (step_reclaim st cid ep now st' r)
  then show ?case using reclaim_ok by blast
next
  case (step_map st c fl off a n fd st' c' rm)
  then show ?case using dma_map_ok by blast
next
  case (step_unmap st c a n st' c' ru)
  then show ?case using dma_unmap_ok by blast
next
  case (step_reset st c st' c' rr)
  then show ?case using reset_ok by blast
next
  case (step_irqs c st reg n1 n2 n3 st' c' ri)
  then show ?case using set_irqs_ok by blast
qed (simp_all add: note_controller_seen_def note_device_inventory_def)

lemma wf_init: "wf_ownership (sh_ownership (handover_init b))"
  by (simp add: handover_init_def wf_ownership_def)

lemma ho_reach_wf: "ho_reach os bops b0 st \<Longrightarrow> wf_ownership (sh_ownership st)"
  by (induction rule: ho_reach.induct) (auto simp: wf_init dest: ho_step_ok)

section \<open>The interrupt line belongs to the owner\<close>

text \<open>
  What the wrapped backend promises about its interrupt line: an accepted registration installs
  the first descriptor (or a dummy line when there is none), a refused one and every other command
  leave the line. Duplicating a descriptor keeps the object (\<open>obj\<close>) it refers to.
\<close>

locale irq_backend =
  fixes os :: "'f os_files" and bops :: "('f, 'b) backend_ops"
    and line :: "'b \<Rightarrow> 'f option" and obj :: "'f \<Rightarrow> nat"
  assumes clone_obj: "try_clone os f = Inr g \<Longrightarrow> obj g = obj f"
    and irqs_ok: "be_set_irqs bops b reg = (b', Inr u) \<Longrightarrow>
      map_option obj (line b') = (case reg_fds reg of [] \<Rightarrow> None | f # _ \<Rightarrow> Some (obj f))"
    and irqs_err: "be_set_irqs bops b reg = (b', Inl e) \<Longrightarrow> line b' = line b"
    and read_line: "be_region_read bops b rg off n = (b', r) \<Longrightarrow> line b' = line b"
    and write_line: "be_region_write bops b rg off bs = (b', r') \<Longrightarrow> line b' = line b"
    and map_line: "be_dma_map bops b fl off a sz fd = (b', r') \<Longrightarrow> line b' = line b"
    and unmap_line: "be_dma_unmap bops b a sz = (b', r') \<Longrightarrow> line b' = line b"
    and reset_line: "be_reset bops b = (b', r') \<Longrightarrow> line b' = line b"
begin

definition owner_line :: "'f ownership \<Rightarrow> nat option" where
  "owner_line ow = (case owner_reg ow of Some r \<Rightarrow>
     (case reg_fds r of f # _ \<Rightarrow> Some (obj f) | [] \<Rightarrow> None) | None \<Rightarrow> None)"

definition line_inv :: "('f, 'b) shared \<Rightarrow> bool" where
  "line_inv st \<longleftrightarrow> owner (sh_ownership st) \<noteq> NO_OWNER \<longrightarrow>
     line (sh_backend st) = None \<or>
     map_option obj (line (sh_backend st)) = owner_line (sh_ownership st)"

lemma clone_fds_obj: "clone_fds os fs = Inr gs \<Longrightarrow> map obj gs = map obj fs"
  by (induction fs arbitrary: gs) (auto dest: clone_obj)

lemma first_obj:
  "map obj gs = map obj fs \<Longrightarrow> (case gs of [] \<Rightarrow> None | f # _ \<Rightarrow> Some (obj f)) =
     (case fs of [] \<Rightarrow> None | f # _ \<Rightarrow> Some (obj f))"
  by (cases gs; cases fs) auto

lemma install_line:
  assumes "install_registration os bops b reg = (b', Inr r')"
  shows "map_option obj (line b') = (case reg_fds r' of [] \<Rightarrow> None | f # _ \<Rightarrow> Some (obj f))"
proof -
  obtain fds gs where c: "clone_fds os (reg_fds reg) = Inr fds" "r' = reg\<lparr>reg_fds := fds\<rparr>"
      "clone_fds os (reg_fds reg) = Inr gs" "be_set_irqs bops b (reg\<lparr>reg_fds := gs\<rparr>) = (b', Inr ())"
    using install_registration_Inr [OF assms] by (auto simp: duplicate_def)
  then show ?thesis using irqs_ok [OF c(4)] by simp
qed

lemma install_line_err:
  "install_registration os bops b reg = (b', Inl e) \<Longrightarrow> line b' = line b"
  using install_registration_Inl irqs_err by metis

lemma line_inv_keep:
  assumes "line_inv st" "line (sh_backend st') = line (sh_backend st)"
    "owner (sh_ownership st') = owner (sh_ownership st)"
    "owner_reg (sh_ownership st') = owner_reg (sh_ownership st)"
  shows "line_inv st'"
  using assms by (simp add: line_inv_def owner_line_def)

lemma line_inv_install:
  assumes "owner_reg (sh_ownership st') = Some r"
    "map_option obj (line (sh_backend st')) = (case reg_fds r of [] \<Rightarrow> None | f # _ \<Rightarrow> Some (obj f))"
  shows "line_inv st'"
  using assms by (auto simp: line_inv_def owner_line_def split: list.splits)

lemma line_inv_unowned: "owner (sh_ownership st') = NO_OWNER \<Longrightarrow> line_inv st'"
  by (simp add: line_inv_def)


lemma promote_line:
  assumes "promote_candidate os bops b ow rs now = (b', ow')" "sh_backend st' = b'" "sh_ownership st' = ow'"
  shows "line_inv st'"
proof (cases "owner ow' = NO_OWNER")
  case False
  then obtain reg r where "install_registration os bops b reg = (b', Inr r)" "owner_reg ow' = Some r"
    using assms(1)
    by (auto simp: promote_candidate_def Let_def
        split: if_splits option.splits sum.splits prod.splits)
  then show ?thesis using install_line assms(2,3) by (intro line_inv_install [of st' r]) auto
qed (use assms line_inv_unowned in auto)

lemma disconnect_line:
  assumes "line_inv st"
  shows "line_inv (disconnect os bops st cid now)"
proof (cases "owner (sh_ownership st) = cid")
  case False
  then show ?thesis
    using assms by (intro line_inv_keep [OF assms]) (simp_all add: disconnect_def Let_def)
next
  case True
  let ?ow = "(sh_ownership st)\<lparr>live := live (sh_ownership st) - {cid},
    mapped := (mapped (sh_ownership st))(cid := None)\<rparr>"
  let ?rs = "mapped_of ((sh_ownership st)\<lparr>live := live (sh_ownership st) - {cid}\<rparr>) cid"
  show ?thesis
  proof (cases "auto_reclaim ?ow \<and> prev ?ow \<noteq> NO_OWNER \<and> prev ?ow \<in> live ?ow")
    case False
    then show ?thesis
      using True by (intro promote_line [of _ ?ow ?rs now])
        (auto simp: disconnect_def Let_def split: prod.splits)
  next
    case auto: True
    show ?thesis
    proof (cases "prev_reg ?ow")
      case None
      then show ?thesis
        using True auto by (intro promote_line [of _ ?ow ?rs now])
          (auto simp: disconnect_def Let_def split: prod.splits)
    next
      case (Some reg)
      obtain b1 r where i: "install_registration os bops (sh_backend st) reg = (b1, r)"
        by (cases "install_registration os bops (sh_backend st) reg")
      show ?thesis
      proof (cases r)
        case (Inl e)
        then show ?thesis
          using True auto Some i by (intro promote_line [of b1 ?ow ?rs now])
            (auto simp: disconnect_def Let_def split: prod.splits)
      next
        case (Inr r')
        then show ?thesis
          using True auto Some i install_line [of "sh_backend st" reg b1 r']
          by (intro line_inv_install [of _ r']) (auto simp: disconnect_def Let_def)
      qed
    qed
  qed
qed

lemma commit_line:
  assumes "line_inv st" "handover_commit os bops st cid ep now = Inr (st', r)"
  shows "line_inv st'"
proof -
  let ?ow = "fst (expire_candidate (sh_ownership st) now)" let ?st1 = "st\<lparr>sh_ownership := ?ow\<rparr>"
  have keep: "line_inv ?st1" by (rule line_inv_keep [OF assms(1)]) simp_all
  have install: "line_inv st2" if ci: "commit_install os bops ?st1 ?ow cand now = (st2, q)" for cand st2 q
  proof (cases "duplicate os (cand_reg cand)")
    case (Inl e)
    then show ?thesis using ci by (intro line_inv_keep [OF keep]) (auto simp: commit_install_def Let_def)
  next
    case (Inr rec)
    obtain fds where fds: "clone_fds os (reg_fds (cand_reg cand)) = Inr fds" "reg_fds rec = fds"
      using Inr by (auto simp: duplicate_def)
    obtain b' x where b': "be_set_irqs bops (sh_backend st) (cand_reg cand) = (b', x)"
      by (cases "be_set_irqs bops (sh_backend st) (cand_reg cand)")
    show ?thesis
    proof (cases x)
      case (Inl e)
      then show ?thesis
        using ci Inr b' irqs_err [of "sh_backend st" "cand_reg cand" b' e]
        by (intro line_inv_keep [OF keep]) (auto simp: commit_install_def Let_def)
    next
      case (Inr u)
      then show ?thesis
        using ci \<open>duplicate os (cand_reg cand) = Inr rec\<close> b' irqs_ok [of "sh_backend st" "cand_reg cand" b' u]
          first_obj [OF clone_fds_obj [OF fds(1)]] fds(2)
        by (intro line_inv_install [of _ rec]) (auto simp: commit_install_def Let_def)
    qed
  qed
  show ?thesis
    using assms(2) keep install
    by (auto simp: handover_commit_def Let_def case_prod_unfold split: option.splits if_splits sum.splits)
qed

lemma reclaim_line:
  assumes "line_inv st" "handover_reclaim os bops st cid ep now = (st', r)"
  shows "line_inv st'"
proof -
  let ?ow = "fst (expire_candidate (sh_ownership st) now)"
  have keep: "line_inv (st\<lparr>sh_ownership := ?ow\<rparr>)" by (rule line_inv_keep [OF assms(1)]) simp_all
  have err: "line_inv (st\<lparr>sh_ownership := ?ow, sh_backend := b'\<rparr>)"
    if "install_registration os bops (sh_backend st) reg = (b', Inl e)" for reg b' e
    using install_line_err [OF that] by (intro line_inv_keep [OF keep]) simp_all
  have ok: "line_inv st2"
    if "install_registration os bops (sh_backend st) reg = (b', Inr r')" "sh_backend st2 = b'"
      "owner_reg (sh_ownership st2) = Some r'" for reg b' r' st2
    using install_line [OF that(1)] that(2,3) by (intro line_inv_install [of _ r']) simp_all
  show ?thesis
    using assms(2) keep err ok
    by (auto simp: handover_reclaim_def Let_def split: option.splits if_splits sum.splits prod.splits)
qed

lemma set_irqs_line:
  assumes "line_inv st" "sb_set_irqs os bops st c reg n1 n2 n3 = (st', c', r)"
  shows "line_inv st'"
proof -
  obtain st1 c1 where t: "touch st c = (st1, c1)" by (cases "touch st c")
  then have t1: "sh_backend st1 = sh_backend st" "owner (sh_ownership st1) = owner (sh_ownership st)"
      "owner_reg (sh_ownership st1) = owner_reg (sh_ownership st)" "conn_id c1 = conn_id c"
    using touch_ownership [OF t] by auto
  let ?ow = "fst (expire_candidate (sh_ownership st1) n1)"
  have keep: "line_inv st2" if "line (sh_backend st2) = line (sh_backend st)"
      "owner (sh_ownership st2) = owner ?ow" "owner_reg (sh_ownership st2) = owner_reg ?ow" for st2
    using that t1 by (intro line_inv_keep [OF assms(1)]) simp_all
  obtain b' x where b': "be_set_irqs bops (sh_backend st) reg = (b', x)"
    by (cases "be_set_irqs bops (sh_backend st) reg")
  show ?thesis
  proof (cases "isl x")
    case True
    then have "line b' = line (sh_backend st)" using b' irqs_err by (metis isl_def)
    then show ?thesis
      using assms(2) b' True t1 by (intro keep)
        (auto simp: sb_set_irqs_def t Let_def split: if_splits sum.splits)
  next
    case False
    then have x: "x = Inr ()" by (cases x) auto
    have off: "line_inv st2" if "reg_fds reg = []" "sh_backend st2 = b'" for st2
      using irqs_ok [OF b' [unfolded x]] that by (simp add: line_inv_def)
    have on: "line_inv st2" if "clone_fds os (reg_fds reg) = Inr fds" "sh_backend st2 = b'"
        "owner_reg (sh_ownership st2) = Some (reg\<lparr>reg_fds := fds\<rparr>)" for fds st2
      using irqs_ok [OF b' [unfolded x]] first_obj [OF clone_fds_obj [OF that(1)]] that(2,3)
      by (intro line_inv_install [OF that(3)]) simp
    show ?thesis
      using assms(2) b' x t1 keep off on
      by (auto simp: sb_set_irqs_def t Let_def split: if_splits sum.splits)
  qed
qed


lemma line_step:
  assumes "ho_step os bops st st'" "line_inv st"
  shows "line_inv st'"
  using assms
proof (induction rule: ho_step.induct)
  case (step_disconnect st cid now)
  then show ?case by (rule disconnect_line)
next
  case (step_commit st cid ep now st' r)
  then show ?case using commit_line by blast
next
  case (step_reclaim st cid ep now st' r)
  then show ?case using reclaim_line by blast
next
  case (step_irqs c st reg n1 n2 n3 st' c' ri)
  then show ?case using set_irqs_line by blast
next
  case (step_connect st st' c)
  then show ?case by (intro line_inv_keep [OF step_connect(2)]) (auto simp: connect_def)
next
  case (step_configure st v1 v2 v3 v4 v5 v6 v7)
  then show ?case by (intro line_inv_keep [OF step_configure]) (simp_all add: configure_handover_def)
next
  case (step_controller st)
  then show ?case by (intro line_inv_keep [OF step_controller]) (simp_all add: note_controller_seen_def)
next
  case (step_inventory st n)
  then show ?case by (intro line_inv_keep [OF step_inventory]) (simp_all add: note_device_inventory_def)
next
  case (step_status st now)
  then show ?case by (intro line_inv_keep [OF step_status]) (simp_all add: handover_status_of_def Let_def)
next
  case (step_watch st e d now)
  then show ?case
    by (intro line_inv_keep [OF step_watch]) (simp_all add: handover_watch_round_def Let_def)
next
  case (step_ready st cid now)
  then show ?case
    by (intro line_inv_keep [OF step_ready])
      (auto simp: handover_ready_def Let_def case_prod_unfold split: option.splits)
next
  case (step_abort st cid now)
  then show ?case
    by (intro line_inv_keep [OF step_abort])
      (auto simp: handover_abort_def Let_def split: option.splits)
next
  case (step_read st c rg off n st' c' rd)
  then show ?case
    by (intro line_inv_keep [OF step_read(2)])
      (auto simp: sb_region_read_def touch_def establish_def Let_def read_line split: if_splits prod.splits)
next
  case (step_write st c rg off bs st' c' rw)
  then show ?case
    by (intro line_inv_keep [OF step_write(2)])
      (auto simp: sb_region_write_def touch_def establish_def Let_def write_line split: if_splits prod.splits)
next
  case (step_map st c fl off a n fd st' c' rm)
  then show ?case
    by (intro line_inv_keep [OF step_map(2)])
      (auto simp: sb_dma_map_def touch_def establish_def Let_def map_line split: if_splits prod.splits)
next
  case (step_unmap st c a n st' c' ru)
  then show ?case
    by (intro line_inv_keep [OF step_unmap(2)])
      (auto simp: sb_dma_unmap_def touch_def establish_def Let_def unmap_line
        split: if_splits prod.splits option.splits)
next
  case (step_reset st c st' c' rr)
  then show ?case
    by (intro line_inv_keep [OF step_reset(2)])
      (auto simp: sb_reset_def touch_def establish_def Let_def reset_line split: if_splits prod.splits)
next
  case (step_parked st c d now)
  then show ?case
    by (intro line_inv_keep [OF step_parked]) (auto simp: parked_round_def Let_def split: option.splits)
qed

lemma line_reach: "ho_reach os bops b0 st \<Longrightarrow> line_inv st"
proof (induction rule: ho_reach.induct)
  case reach_init
  show ?case by (simp add: line_inv_def handover_init_def)
next
  case (reach_step st st')
  show ?case by (rule line_step [OF reach_step(2,3)])
qed

end

section \<open>Safety of the hand-over\<close>

text \<open>
  C1: Ownership invariants. In every reachable state of the shared backend, under any interleaving
  of connections, controllers and clocks: a staged candidate implies an owner, an owner (and a
  previous owner) has a registration with a descriptor that can be installed again, and every
  step either leaves owner and epoch alone or advances the epoch by exactly one.
\<close>

theorem handover_invariants:
  assumes "ho_reach os bops b0 st"
  shows "wf_ownership (sh_ownership st) \<and>
    (\<forall>st'. ho_step os bops st st' \<longrightarrow> fenced (sh_ownership st) (sh_ownership st'))"
  using ho_reach_wf [OF assms] ho_step_ok by blast

text \<open>
  C2: A stale connection is harmless. While another connection owns the device, a connection's
  unmap, reset and interrupt registration do not reach the backend at all, and they change neither
  the owner nor its registration nor the epoch: at most the connection becomes the candidate.
\<close>

theorem stale_connection_harmless:
  assumes "is_stale c (sh_ownership st)"
  shows "sh_backend (fst (sb_dma_unmap bops st c a n)) = sh_backend st \<and>
    sh_backend (fst (sb_reset bops st c)) = sh_backend st \<and>
    sh_backend (fst (sb_set_irqs os bops st c reg n1 n2 n3)) = sh_backend st \<and>
    (\<forall>st' \<in> {fst (sb_dma_unmap bops st c a n), fst (sb_reset bops st c),
        fst (sb_set_irqs os bops st c reg n1 n2 n3)}.
      owner (sh_ownership st') = owner (sh_ownership st) \<and>
      owner_reg (sh_ownership st') = owner_reg (sh_ownership st) \<and>
      epoch (sh_ownership st') = epoch (sh_ownership st) \<and>
      mapped (sh_ownership st') = mapped (sh_ownership st))"
proof -
  obtain st1 c1 where t: "touch st c = (st1, c1)" by (cases "touch st c")
  obtain l where l: "conn_id c1 = conn_id c" "sh_backend st1 = sh_backend st"
      "sh_ownership st1 = (sh_ownership st)\<lparr>live := l\<rparr>" using touch_ownership [OF t] by blast
  have stale: "is_stale c1 (sh_ownership st1)" "owner (sh_ownership st) \<noteq> conn_id c"
      "owner (sh_ownership st) \<noteq> NO_OWNER" "\<not> owns_device c1 (fst (expire_candidate (sh_ownership st1) n1))"
    using assms l by (auto simp: is_stale_def owns_device_def guard_disabled_def expire_candidate_def
        split: option.splits)
  have unmap: "fst (sb_dma_unmap bops st c a n) = st1" and reset: "fst (sb_reset bops st c) = st1"
    using stale(1) by (simp_all add: sb_dma_unmap_def sb_reset_def t Let_def)
  have irqs: "sh_backend (fst (sb_set_irqs os bops st c reg n1 n2 n3)) = sh_backend st"
    "owner (sh_ownership (fst (sb_set_irqs os bops st c reg n1 n2 n3))) = owner (sh_ownership st)"
    "owner_reg (sh_ownership (fst (sb_set_irqs os bops st c reg n1 n2 n3))) = owner_reg (sh_ownership st)"
    "epoch (sh_ownership (fst (sb_set_irqs os bops st c reg n1 n2 n3))) = epoch (sh_ownership st)"
    "mapped (sh_ownership (fst (sb_set_irqs os bops st c reg n1 n2 n3))) = mapped (sh_ownership st)"
    using stale l by (auto simp: sb_set_irqs_def t Let_def split: sum.splits)
  show ?thesis using unmap reset irqs l by simp
qed


text \<open>
  C3: What a commit does. An accepted commit either repeats the last one (same owner, epoch one
  ahead of the caller's, nothing but an expiry happens) or hands the device from the owner to the
  named, staged candidate: the caller saw the current epoch, the candidate passed the preflight,
  the old owner becomes the previous owner with its registration kept, and the epoch advances.
\<close>

theorem commit_accepted:
  assumes "handover_commit os bops st cid ep now = Inr (st', Inr status)"
  defines "ow \<equiv> fst (expire_candidate (sh_ownership st) now)"
  shows "sh_ownership st' = ow \<and> owner ow = cid \<and> epoch ow = ep + 1 \<and> sh_backend st' = sh_backend st \<or>
    (\<exists>cand recorded. candidate ow = Some cand \<and> cand_id cand = cid \<and> epoch ow = ep \<and>
      (require_ready ow \<longrightarrow> cand_ready cand) \<and>
      preflight_hard os ow cand (mapped_of ow (owner ow)) (\<not> deferred_a3 ow) = Inr () \<and>
      duplicate os (cand_reg cand) = Inr recorded \<and>
      be_set_irqs bops (sh_backend st) (cand_reg cand) = (sh_backend st', Inr ()) \<and>
      sh_ownership st' = ow\<lparr>candidate := None, prev := owner ow, prev_reg := owner_reg ow, owner := cid,
        owner_reg := Some recorded, epoch := ep + 1, committed_at := Some now\<rparr>)"
  using assms(1) unfolding ow_def
  by (auto simp: handover_commit_def commit_install_def Let_def case_prod_unfold
      split: option.splits if_splits sum.splits prod.splits intro: prod_eqI)

text \<open>
  A refused commit changes nothing. Unless the operating system or the backend fails, a commit
  that returns an error leaves the backend and everything but an expired candidate as they were,
  so the candidate stays staged and the caller may retry.
\<close>

theorem commit_refused:
  assumes "handover_commit os bops st cid ep now = Inr (st', Inl e)" "\<forall>m. e \<noteq> BackendError m"
  shows "st' = st\<lparr>sh_ownership := fst (expire_candidate (sh_ownership st) now)\<rparr>"
  using assms
  by (auto simp: handover_commit_def commit_install_def Let_def case_prod_unfold
      split: option.splits if_splits sum.splits prod.splits)

text \<open>
  C10: A parked registration is always answered, and truthfully. A round of the parked loop at or
  after the deadline replies; a positive reply is given only to the owner; and the loop never
  changes the owner, the epoch or the backend, so a refusal leaves the incumbent untouched.
\<close>

theorem parked_reply:
  "(deadline \<le> now \<longrightarrow> snd (parked_round st c deadline now) \<noteq> None) \<and>
   (snd (parked_round st c deadline now) = Some (Inr ()) \<longleftrightarrow> owner (sh_ownership st) = conn_id c) \<and>
   sh_backend (fst (parked_round st c deadline now)) = sh_backend st \<and>
   owner (sh_ownership (fst (parked_round st c deadline now))) = owner (sh_ownership st) \<and>
   owner_reg (sh_ownership (fst (parked_round st c deadline now))) = owner_reg (sh_ownership st) \<and>
   epoch (sh_ownership (fst (parked_round st c deadline now))) = epoch (sh_ownership st)"
  by (auto simp: parked_round_def Let_def split: option.splits)

text \<open>Reclaim, and the owner's disappearance.\<close>

text \<open>
  C11: Reclaim is lease-bounded and fenced. It succeeds only for the live previous owner, at the
  current epoch and within the lease of the commit; it then reinstalls the registration kept for
  that owner, and the new epoch shuts out every actor that saw an older one.
\<close>

theorem reclaim_accepted:
  assumes "handover_reclaim os bops st cid ep now = (st', Inr status)"
  shows "prev (sh_ownership st) = cid \<and> cid \<noteq> NO_OWNER \<and> cid \<in> live (sh_ownership st) \<and>
    epoch (sh_ownership st) = ep \<and> owner (sh_ownership st') = cid \<and> prev (sh_ownership st') = NO_OWNER \<and>
    epoch (sh_ownership st') = ep + 1 \<and>
    (\<exists>reg t. prev_reg (sh_ownership st) = Some reg \<and>
      committed_at (sh_ownership st) = Some t \<and> now - t \<le> lease (sh_ownership st) \<and>
      install_registration os bops (sh_backend st) reg = (sh_backend st', Inr (the (owner_reg (sh_ownership st')))))"
  using assms
  by (auto simp: handover_reclaim_def Let_def split: if_splits option.splits sum.splits prod.splits)

end
