(* ===== verification/HandoverTrace.thy ===== *)
theory HandoverTrace
  imports HandoverInv
begin

text \<open>
  The disappearance of the owner, and concrete runs of the hand-over: a boot registration, a staged
  candidate, a commit, a reclaim, and the run in which the device ends up with a connection that is
  gone. The runs use a backend that only remembers its interrupt line.
\<close>

section \<open>When a connection goes away\<close>

text \<open>
  Who may inherit the device, in this order: the previous owner, if it is live and its registration is
  kept, and the staged candidate, if it passes the checks of a hand-over (its files are eventfds, a device
  is there when one is asked for, its interrupts have the shape of the owner's, its mappings cover the
  owner's). The first one whose registration the backend takes gets it.
\<close>

definition may_inherit :: "'f os_files \<Rightarrow> 'f ownership \<Rightarrow> conn \<Rightarrow> 'f candidate \<Rightarrow> bool" where
  "may_inherit os ow cid c \<longleftrightarrow>
     list_all (is_eventfd os) (reg_fds (cand_reg c)) \<and>
     \<not> (require_device ow \<and> device_count ow = Some 0) \<and>
     (case owner_reg ow of
        Some r \<Rightarrow> reg_index (cand_reg c) = reg_index r \<and> reg_start (cand_reg c) = reg_start r \<and>
          reg_count (cand_reg c) = reg_count r
      | None \<Rightarrow> True) \<and>
     ranges_cover (if cand_id c = cid then [] else mapped_of ow (cand_id c)) (mapped_of ow cid)"

definition staged_heir :: "'f os_files \<Rightarrow> 'f ownership \<Rightarrow> conn \<Rightarrow> (conn \<times> 'f registration) list" where
  "staged_heir os ow cid =
     (case candidate ow of
        Some c \<Rightarrow> if auto_reclaim ow \<and> may_inherit os ow cid c then [(cand_id c, cand_reg c)] else []
      | None \<Rightarrow> [])"

definition heirs :: "'f os_files \<Rightarrow> 'f ownership \<Rightarrow> conn \<Rightarrow> (conn \<times> 'f registration) list" where
  "heirs os ow cid =
     (case prev_reg ow of
        Some r \<Rightarrow> if auto_reclaim ow \<and> prev ow \<noteq> NO_OWNER \<and> prev ow \<in> live ow - {cid} then [(prev ow, r)] else []
      | None \<Rightarrow> []) @ staged_heir os ow cid"

fun first_installed ::
  "'f os_files \<Rightarrow> ('f, 'b) backend_ops \<Rightarrow> 'b \<Rightarrow> (conn \<times> 'f registration) list \<Rightarrow>
     'b \<times> (conn \<times> 'f registration) option" where
  "first_installed os bops b [] = (b, None)"
| "first_installed os bops b ((c, r) # hs) =
     (case install_registration os bops b r of
        (b1, Inr recorded) \<Rightarrow> (b1, Some (c, recorded))
      | (b1, Inl e) \<Rightarrow> first_installed os bops b1 hs)"

lemma preflight_inherit:
  "preflight_hard os (ow\<lparr>live := l, mapped := (mapped ow)(cid := None), candidate := None\<rparr>) c (mapped_of ow cid) True = Inr () \<longleftrightarrow>
    may_inherit os ow cid c"
  by (auto simp: preflight_hard_def may_inherit_def mapped_of_def list_all_iff list_ex_iff split: option.splits)

lemma heirs_members: "(c, r) \<in> set (heirs os ow cid) \<Longrightarrow>
    c \<in> live ow - {cid} \<or> (\<exists>k. candidate ow = Some k \<and> c = cand_id k)"
  by (cases "candidate ow"; cases "prev_reg ow") (auto simp: heirs_def staged_heir_def split: if_splits)

lemma first_installed_member: "first_installed os bops b hs = (b', Some (c, r)) \<Longrightarrow> \<exists>r'. (c, r') \<in> set hs"
  by (induction hs arbitrary: b rule: list.induct) (force split: prod.splits sum.splits)+

text \<open>The ownership after the bookkeeping.\<close>

abbreviation departed :: "'f ownership \<Rightarrow> conn \<Rightarrow> 'f ownership" where
  "departed ow cid \<equiv> ow\<lparr>live := live ow - {cid}, mapped := (mapped ow)(cid := None)\<rparr>"

lemma promote_first:
  "promote_candidate os bops b (departed ow cid) (mapped_of ow cid) now =
     (case first_installed os bops b (staged_heir os ow cid) of
        (b', Some (c, recorded)) \<Rightarrow> (b', (departed ow cid)\<lparr>candidate := None, owner := c, prev := NO_OWNER, prev_reg := None,
          owner_reg := Some recorded, committed_at := Some now, epoch := Suc (epoch ow)\<rparr>)
      | (b', None) \<Rightarrow> (b', make_unowned (departed ow cid)))"
proof (cases "candidate ow")
  case None
  then show ?thesis by (simp add: promote_candidate_def staged_heir_def)
next
  case (Some a)
  have pf: "preflight_hard os ((departed ow cid)\<lparr>candidate := None\<rparr>) a (mapped_of ow cid) True = Inr () \<longleftrightarrow> may_inherit os ow cid a"
    using preflight_inherit [where os = os and ow = ow and l = "live ow - {cid}" and cid = cid and c = a] by simp
  show ?thesis
  proof (cases "preflight_hard os ((departed ow cid)\<lparr>candidate := None\<rparr>) a (mapped_of ow cid) True")
    case (Inl e)
    then show ?thesis using Some pf by (simp add: promote_candidate_def make_unowned_def staged_heir_def)
  next
    case (Inr u)
    then show ?thesis using Some pf
      by (simp add: promote_candidate_def make_unowned_def staged_heir_def split: prod.split sum.split)
  qed
qed

lemma departed_owner:
  assumes "(b', ow') = promote_candidate os bops b1 (departed ow cid) (mapped_of ow cid) now"
    "first_installed os bops b (heirs os ow cid) = first_installed os bops b1 (staged_heir os ow cid)"
  shows "live ow' = live ow - {cid} \<and> mapped ow' = (mapped ow)(cid := None) \<and>
    epoch ow' = Suc (epoch ow) \<and> prev ow' = NO_OWNER \<and> prev_reg ow' = None \<and>
    (case first_installed os bops b (heirs os ow cid) of
       (b2, Some (c, recorded)) \<Rightarrow> b' = b2 \<and> owner ow' = c \<and> owner_reg ow' = Some recorded \<and> committed_at ow' = Some now
     | (b2, None) \<Rightarrow> b' = b2 \<and> owner ow' = NO_OWNER \<and> owner_reg ow' = None \<and> candidate ow' = None)"
proof (cases "first_installed os bops b1 (staged_heir os ow cid)")
  case (Pair b2 x)
  then show ?thesis using assms(1) unfolding promote_first assms(2) by (cases x) (auto simp: make_unowned_def)
qed

lemma disconnect_owner:
  fixes os :: "'f os_files" and bops :: "('f, 'b) backend_ops" and st :: "('f, 'b) shared"
    and cid :: conn and now :: time
  assumes "owner (sh_ownership st) = cid"
  defines "ow \<equiv> sh_ownership st"
  defines "b' \<equiv> sh_backend (disconnect os bops st cid now)" and "ow' \<equiv> sh_ownership (disconnect os bops st cid now)"
  shows "live ow' = live ow - {cid} \<and> mapped ow' = (mapped ow)(cid := None) \<and>
    epoch ow' = Suc (epoch ow) \<and> prev ow' = NO_OWNER \<and> prev_reg ow' = None \<and>
    (case first_installed os bops (sh_backend st) (heirs os ow cid) of
       (b2, Some (c, recorded)) \<Rightarrow> b' = b2 \<and> owner ow' = c \<and> owner_reg ow' = Some recorded \<and> committed_at ow' = Some now
     | (b2, None) \<Rightarrow> b' = b2 \<and> owner ow' = NO_OWNER \<and> owner_reg ow' = None \<and> candidate ow' = None)"
proof -
  have d: "(b', ow') =
      (if auto_reclaim ow \<and> prev ow \<noteq> NO_OWNER \<and> prev ow \<in> live ow - {cid} then
         (case prev_reg ow of
            None \<Rightarrow> promote_candidate os bops (sh_backend st) (departed ow cid) (mapped_of ow cid) now
          | Some reg \<Rightarrow> (case install_registration os bops (sh_backend st) reg of
              (b1, Inr recorded) \<Rightarrow> (b1, (departed ow cid)\<lparr>prev_reg := None, owner := prev ow, prev := NO_OWNER,
                owner_reg := Some recorded, committed_at := Some now, epoch := Suc (epoch ow)\<rparr>)
            | (b1, Inl e) \<Rightarrow> promote_candidate os bops b1 (departed ow cid) (mapped_of ow cid) now))
       else promote_candidate os bops (sh_backend st) (departed ow cid) (mapped_of ow cid) now)"
    using assms(1) unfolding b'_def ow'_def ow_def disconnect_def
    by (simp add: Let_def mapped_of_def split: prod.split option.split sum.split)
  show ?thesis
  proof (cases "auto_reclaim ow \<and> prev ow \<noteq> NO_OWNER \<and> prev ow \<in> live ow - {cid} \<and> prev_reg ow \<noteq> None")
    case False
    have "(b', ow') = promote_candidate os bops (sh_backend st) (departed ow cid) (mapped_of ow cid) now"
      using d False by (cases "prev_reg ow") (auto split: if_split_asm)
    moreover have "heirs os ow cid = staged_heir os ow cid" using False by (cases "prev_reg ow") (auto simp: heirs_def)
    ultimately show ?thesis by (intro departed_owner) simp_all
  next
    case True
    then obtain r where r: "prev_reg ow = Some r" by blast
    have h: "heirs os ow cid = (prev ow, r) # staged_heir os ow cid" using True r by (simp add: heirs_def)
    obtain b1 res where i: "install_registration os bops (sh_backend st) r = (b1, res)" by force
    show ?thesis
    proof (cases res)
      case (Inl e)
      have "(b', ow') = promote_candidate os bops b1 (departed ow cid) (mapped_of ow cid) now" using d True r i Inl by simp
      then show ?thesis by (rule departed_owner) (simp add: h i Inl)
    next
      case (Inr recorded)
      then show ?thesis using d True r i by (simp add: h)
    qed
  qed
qed

text \<open>
  C6: The successor of a departed owner. When a connection ends, its liveness and its mappings are
  forgotten and those of the others are kept. If it was not the owner, nothing else changes. If it was, the
  epoch goes up by one and the device goes to the first heir whose registration can be installed: the
  live previous owner, else the staged candidate that passes the checks of a hand-over, and to nobody when
  automatic reclaim is off or none can be installed; the backend is left as the attempts leave it. The new
  owner is a live connection, provided that the staged candidate, if any, is.
\<close>

theorem disconnect_successor:
  fixes os :: "'f os_files" and bops :: "('f, 'b) backend_ops" and st :: "('f, 'b) shared"
    and cid :: conn and now :: time
  defines "ow \<equiv> sh_ownership st"
  defines "st' \<equiv> disconnect os bops st cid now"
  defines "ow' \<equiv> sh_ownership st'"
  shows "live ow' = live ow - {cid} \<and> mapped ow' = (mapped ow)(cid := None) \<and>
    (owner ow \<noteq> cid \<longrightarrow> sh_backend st' = sh_backend st \<and>
      ow' = ow\<lparr>live := live ow - {cid}, mapped := (mapped ow)(cid := None)\<rparr>) \<and>
    (owner ow = cid \<longrightarrow> epoch ow' = Suc (epoch ow) \<and> prev ow' = NO_OWNER \<and> prev_reg ow' = None \<and>
      (case first_installed os bops (sh_backend st) (heirs os ow cid) of
         (b', Some (c, recorded)) \<Rightarrow> sh_backend st' = b' \<and> owner ow' = c \<and> owner_reg ow' = Some recorded \<and>
           committed_at ow' = Some now
       | (b', None) \<Rightarrow> sh_backend st' = b' \<and> owner ow' = NO_OWNER \<and> owner_reg ow' = None \<and> candidate ow' = None)) \<and>
    (owner ow = cid \<and> (\<forall>c. candidate ow = Some c \<longrightarrow> cand_id c \<in> live ow \<and> cand_id c \<noteq> cid) \<longrightarrow>
      owner ow' = NO_OWNER \<or> owner ow' \<in> live ow')"
proof (cases "owner ow = cid")
  case False
  then show ?thesis by (simp add: ow'_def st'_def ow_def disconnect_def Let_def)
next
  case True
  note d = disconnect_owner [OF True [unfolded ow_def], of os bops now, folded ow_def st'_def ow'_def]
  have "owner ow' = NO_OWNER \<or> owner ow' \<in> live ow'"
    if c: "\<forall>c. candidate ow = Some c \<longrightarrow> cand_id c \<in> live ow \<and> cand_id c \<noteq> cid"
  proof (cases "first_installed os bops (sh_backend st) (heirs os ow cid)")
    case (Pair b' x)
    show ?thesis
    proof (cases x)
      case None
      then show ?thesis using d Pair by simp
    next
      case (Some y)
      obtain k r where y: "y = (k, r)" by (cases y)
      obtain r' where "(k, r') \<in> set (heirs os ow cid)" using first_installed_member Pair Some y by metis
      from heirs_members [OF this] c have "k \<in> live ow - {cid}" by auto
      then show ?thesis using d Pair Some y by simp
    qed
  qed
  then show ?thesis using d True by simp
qed

section \<open>Concrete runs\<close>

definition plain_os :: "nat os_files" where
  "plain_os = \<lparr>try_clone = Inr, metadata_ok = (\<lambda>_. True), fdinfo = (\<lambda>_. Some ''eventfd-count: 0'')\<rparr>"

definition line_backend :: "(nat, nat option) backend_ops" where
  "line_backend =
     \<lparr>be_region_read = (\<lambda>b rg off n. (b, Inr (replicate n 0))),
      be_region_write = (\<lambda>b rg off bs. (b, Inr ())),
      be_dma_map = (\<lambda>b fl off a n fd. (b, Inr ())),
      be_dma_unmap = (\<lambda>b a n. (b, Inr ())),
      be_reset = (\<lambda>b. (b, Inl ''device reset is not supported'')),
      be_set_irqs = (\<lambda>b reg. (case reg_fds reg of [] \<Rightarrow> None | f # _ \<Rightarrow> Some f, Inr ()))\<rparr>"

definition reg_example :: "nat \<Rightarrow> nat registration" where
  "reg_example fd = \<lparr>reg_index = 2, reg_flags = 0, reg_start = 0, reg_count = 1, reg_fds = [fd]\<rparr>"

definition conn_example :: "conn \<Rightarrow> connection" where
  "conn_example cid = \<lparr>conn_id = cid, established = False\<rparr>"

lemma eventfd_example [simp]: "is_eventfd plain_os f"
  by (simp add: is_eventfd_def plain_os_def)

lemma try_clone_example [simp]: "try_clone plain_os f = Inr f"
  by (simp add: plain_os_def)

lemma clone_example [simp]: "clone_fds plain_os fs = Inr fs"
  by (induction fs) simp_all

lemma validate_example [simp]: "validate_irq_request 2 1 = Inr ()"
  by (simp add: validate_irq_request_def VFIO_PCI_MSIX_IRQ_INDEX_def)

text \<open>Connection 0 boots; connection 1 registers and is staged.\<close>

definition run_boot :: "(nat, nat option) shared" where
  "run_boot = fst (sb_set_irqs plain_os line_backend (handover_init None) (conn_example 0)
     (reg_example 10) 0 0 0)"

definition run_staged :: "(nat, nat option) shared" where
  "run_staged = fst (sb_set_irqs plain_os line_backend run_boot (conn_example 1) (reg_example 11) 100 100 100)"

definition run_ready :: "(nat, nat option) shared" where
  "run_ready = fst (handover_ready run_staged 1 200)"

text \<open>The two branches of \<open>set_irqs\<close> the runs take: claiming an unowned device, and being staged.\<close>

lemma set_irqs_claims:
  assumes "\<not> established c" "reg_fds reg \<noteq> []" "validate_irq_request (reg_index reg) (reg_count reg) = Inr ()"
    "candidate (sh_ownership st) = None" "owner (sh_ownership st) = NO_OWNER"
    "clone_fds os (reg_fds reg) = Inr fds" "be_set_irqs bops (sh_backend st) reg = (b', Inr ())"
  shows "fst (sb_set_irqs os bops st c reg n1 n2 n3) =
    st\<lparr>sh_backend := b', sh_ownership := (sh_ownership st)\<lparr>live := insert (conn_id c) (live (sh_ownership st)),
      owner := conn_id c, owner_reg := Some (reg\<lparr>reg_fds := fds\<rparr>), epoch := Suc (epoch (sh_ownership st))\<rparr>\<rparr>"
  using assms by (simp add: sb_set_irqs_def touch_def establish_def expire_candidate_def Let_def)

lemma set_irqs_stages:
  assumes "\<not> established c" "reg_fds reg \<noteq> []" "validate_irq_request (reg_index reg) (reg_count reg) = Inr ()"
    "candidate (sh_ownership st) = None" "owner (sh_ownership st) \<noteq> NO_OWNER"
    "owner (sh_ownership st) \<noteq> conn_id c"
  shows "fst (sb_set_irqs os bops st c reg n1 n2 n3) =
    st\<lparr>sh_ownership := (sh_ownership st)\<lparr>live := insert (conn_id c) (live (sh_ownership st)),
      candidate := Some \<lparr>cand_id = conn_id c, cand_reg = reg,
        cand_deadline = n2 + preflight_timeout (sh_ownership st), cand_ready = False\<rparr>\<rparr>\<rparr>"
  using assms by (simp add: sb_set_irqs_def touch_def establish_def expire_candidate_def Let_def)

lemma step_irqs_fst:
  assumes "conn_id c \<noteq> NO_OWNER"
  shows "ho_step os bops st (fst (sb_set_irqs os bops st c reg n1 n2 n3))"
  by (cases "sb_set_irqs os bops st c reg n1 n2 n3") (auto intro: step_irqs [OF assms])

lemma run_reach:
  "ho_reach plain_os line_backend None run_boot"
  "ho_reach plain_os line_backend None run_staged"
  "ho_reach plain_os line_backend None run_ready"
proof -
  have ne: "conn_id (conn_example 0) \<noteq> NO_OWNER" "conn_id (conn_example 1) \<noteq> NO_OWNER"
    by (simp_all add: conn_example_def NO_OWNER_def)
  show boot: "ho_reach plain_os line_backend None run_boot"
    unfolding run_boot_def by (rule reach_step [OF reach_init step_irqs_fst [OF ne(1)]])
  show staged: "ho_reach plain_os line_backend None run_staged"
    unfolding run_staged_def by (rule reach_step [OF boot step_irqs_fst [OF ne(2)]])
  show "ho_reach plain_os line_backend None run_ready"
    unfolding run_ready_def by (rule reach_step [OF staged step_ready])
qed

lemma reg_fds_example [simp]: "reg_fds (reg_example n) = [n]" "reg_index (reg_example n) = 2"
  "reg_count (reg_example n) = 1" "(reg_example n)\<lparr>reg_fds := [n]\<rparr> = reg_example n"
  by (simp_all add: reg_example_def)

lemma conn_example_simps [simp]: "conn_id (conn_example n) = n" "\<not> established (conn_example n)"
  by (simp_all add: conn_example_def)

lemma line_backend_irqs [simp]:
  "be_set_irqs line_backend b r = (case reg_fds r of [] \<Rightarrow> None | f # _ \<Rightarrow> Some f, Inr ())"
  by (simp add: line_backend_def)

lemma handover_init_simps [simp]:
  "sh_backend (handover_init b) = b" "candidate (sh_ownership (handover_init b)) = None"
  "owner (sh_ownership (handover_init b)) = NO_OWNER" "epoch (sh_ownership (handover_init b)) = 0"
  "prev (sh_ownership (handover_init b)) = NO_OWNER" "prev_reg (sh_ownership (handover_init b)) = None"
  "mapped (sh_ownership (handover_init b)) = Map.empty" "live (sh_ownership (handover_init b)) = {}"
  "auto_reclaim (sh_ownership (handover_init b))" "require_ready (sh_ownership (handover_init b))"
  "require_device (sh_ownership (handover_init b))" "\<not> block_registration (sh_ownership (handover_init b))"
  "device_count (sh_ownership (handover_init b)) = None" "lease (sh_ownership (handover_init b)) = 5000"
  "preflight_timeout (sh_ownership (handover_init b)) = 2000"
  "committed_at (sh_ownership (handover_init b)) = None" "\<not> disable_owner_guard (sh_ownership (handover_init b))"
  by (simp_all add: handover_init_def)

lemma run_boot_eq:
  "run_boot = (handover_init None)\<lparr>sh_backend := Some 10, sh_ownership := (sh_ownership (handover_init (None :: nat option)))
     \<lparr>live := {0}, owner := 0, owner_reg := Some (reg_example 10), epoch := 1\<rparr>\<rparr>"
  unfolding run_boot_def
  by (subst set_irqs_claims [where fds = "[10]" and b' = "Some 10"]) simp_all

lemma no_owner_small [simp]: "NO_OWNER \<noteq> 0" "NO_OWNER \<noteq> 1" "0 \<noteq> NO_OWNER" "1 \<noteq> NO_OWNER"
  by (simp_all add: NO_OWNER_def)

lemma run_staged_eq:
  "run_staged = run_boot\<lparr>sh_ownership := (sh_ownership run_boot)
     \<lparr>live := {1, 0}, candidate := Some \<lparr>cand_id = 1, cand_reg = reg_example 11,
        cand_deadline = 2100, cand_ready = False\<rparr>\<rparr>\<rparr>"
  unfolding run_staged_def by (subst set_irqs_stages) (simp_all add: run_boot_eq)

lemma run_ready_eq:
  "run_ready = run_boot\<lparr>sh_ownership := (sh_ownership run_boot)
     \<lparr>live := {1, 0}, candidate := Some \<lparr>cand_id = 1, cand_reg = reg_example 11,
        cand_deadline = 2100, cand_ready = True\<rparr>\<rparr>\<rparr>"
  by (simp add: run_ready_def run_staged_eq handover_ready_def expire_candidate_def Let_def)


lemmas run_eqs = run_boot_eq run_staged_eq run_ready_eq

lemma preflight_example:
  assumes "reg_fds (cand_reg c) = [f]" "device_count ow = None" "owner_reg ow = Some r"
    "reg_index (cand_reg c) = reg_index r" "reg_start (cand_reg c) = reg_start r"
    "reg_count (cand_reg c) = reg_count r"
  shows "preflight_hard plain_os ow c [] chk = Inr ()"
  using assms by (simp add: preflight_hard_def ranges_cover_def)

lemma reg_start_example [simp]: "reg_start (reg_example n) = 0"
  by (simp add: reg_example_def)

lemma mapped_none [simp]: "mapped ow = Map.empty \<Longrightarrow> mapped_of ow c = []"
  by (simp add: mapped_of_def)

lemma duplicate_example [simp]: "duplicate plain_os (reg_example n) = Inr (reg_example n)"
  by (simp add: duplicate_def reg_example_def)

text \<open>The controller commits the ready candidate; connection 0 reclaims within its lease.\<close>

definition run_committed :: "(nat, nat option) shared" where
  "run_committed = run_ready\<lparr>sh_backend := Some 11, sh_ownership := (sh_ownership run_ready)
     \<lparr>candidate := None, prev := 0, prev_reg := Some (reg_example 10), owner := 1,
      owner_reg := Some (reg_example 11), epoch := 2, committed_at := Some 300\<rparr>\<rparr>"

lemma run_commit:
  "handover_commit plain_os line_backend run_ready 1 1 300 =
     Inr (run_committed, Inr (render_locked (sh_ownership run_committed)))"
proof -
  let ?ow = "sh_ownership run_ready"
  have "preflight_hard plain_os ?ow \<lparr>cand_id = 1, cand_reg = reg_example 11, cand_deadline = 2100,
      cand_ready = True\<rparr> [] chk = Inr ()" for chk
    by (rule preflight_example [where r = "reg_example 10"]) (simp_all add: run_eqs)
  moreover have "mapped_of ?ow 0 = []" by (simp add: run_eqs)
  ultimately show ?thesis
    by (simp add: handover_commit_def commit_install_def expire_candidate_def run_ready_eq run_staged_eq
        run_boot_eq run_committed_def Let_def numeral_2_eq_2)
qed

lemma run_reclaim:
  "handover_reclaim plain_os line_backend run_committed 0 2 400 =
     (run_committed\<lparr>sh_backend := Some 10, sh_ownership := (sh_ownership run_committed)
        \<lparr>prev_reg := None, owner := 0, prev := NO_OWNER, owner_reg := Some (reg_example 10), epoch := 3\<rparr>\<rparr>,
      Inr (render_locked (sh_ownership (run_committed\<lparr>sh_backend := Some 10, sh_ownership := (sh_ownership run_committed)
        \<lparr>prev_reg := None, owner := 0, prev := NO_OWNER, owner_reg := Some (reg_example 10), epoch := 3\<rparr>\<rparr>))))"
  by (simp add: handover_reclaim_def expire_candidate_def run_committed_def run_eqs install_registration_def Let_def)

section \<open>Instances of the safety properties\<close>

theorem handover_invariants_witness:
  "wf_ownership (sh_ownership run_ready) \<and>
    fenced (sh_ownership run_ready) (sh_ownership (disconnect plain_os line_backend run_ready 0 300))"
  using handover_invariants [OF run_reach(3)] step_disconnect by blast

theorem stale_connection_harmless_witness:
  "sh_backend (fst (sb_reset line_backend run_boot (conn_example 1))) = Some 10"
  using stale_connection_harmless [of "conn_example 1" run_boot line_backend]
  by (simp add: is_stale_def owns_device_def guard_disabled_def run_boot_eq)

theorem commit_accepted_witness:
  "\<exists>cand. candidate (sh_ownership run_ready) = Some cand \<and> cand_id cand = 1 \<and> owner (sh_ownership run_committed) = 1"
  using commit_accepted [OF run_commit]
  by (auto simp: expire_candidate_def run_committed_def run_eqs)

theorem commit_refused_witness:
  "handover_commit plain_os line_backend run_staged 1 1 300 = Inr (run_staged, Inl NotReady)"
proof -
  have e: "expire_candidate (sh_ownership run_staged) 300 = (sh_ownership run_staged, None)"
    by (simp add: expire_candidate_def run_staged_eq)
  have "\<exists>st'. handover_commit plain_os line_backend run_staged 1 1 300 = Inr (st', Inl NotReady)"
    by (simp add: handover_commit_def e Let_def) (simp add: run_staged_eq run_boot_eq)
  then obtain st' where st': "handover_commit plain_os line_backend run_staged 1 1 300 = Inr (st', Inl NotReady)"
    by blast
  then show ?thesis using commit_refused [OF st'] e by simp
qed

theorem parked_reply_witness:
  "snd (parked_round run_staged (conn_example 1) 2200 2200) \<noteq> None"
  using parked_reply [of 2200 2200 run_staged "conn_example 1"] by simp

theorem reclaim_accepted_witness:
  "prev (sh_ownership run_committed) = 0 \<and> epoch (sh_ownership run_committed) = 2"
  using reclaim_accepted [OF run_reclaim] by simp

theorem disconnect_successor_witness:
  "owner (sh_ownership run_committed) = 1 \<and>
   owner (sh_ownership (disconnect plain_os line_backend run_committed 1 900)) = 0 \<and>
   epoch (sh_ownership (disconnect plain_os line_backend run_committed 1 900)) = 3 \<and>
   sh_backend (disconnect plain_os line_backend run_committed 1 900) = Some 10"
proof -
  have h: "heirs plain_os (sh_ownership run_committed) 1 = [(0, reg_example 10)]"
    "owner (sh_ownership run_committed) = 1" "epoch (sh_ownership run_committed) = 2"
    by (simp_all add: heirs_def staged_heir_def run_committed_def run_eqs)
  have "first_installed plain_os line_backend (sh_backend run_committed) [(0, reg_example 10)] = (Some 10, Some (0, reg_example 10))"
    by (simp add: install_registration_def)
  then show ?thesis using disconnect_successor [of plain_os line_backend run_committed 1 900] h by simp
qed

text \<open>
  A departed candidate can inherit the device. The liveness of the successor above needs its
  proviso: a candidate that disconnected stays staged, its deadline is not checked when the owner
  leaves, and the promotion then installs the interrupt line of a connection that is gone.
\<close>

theorem dead_candidate_promoted:
  "\<exists>st. ho_reach plain_os line_backend None st \<and> owner (sh_ownership st) = 1 \<and> 1 \<notin> live (sh_ownership st) \<and>
     sh_backend st = Some 11"
proof -
  let ?a = "disconnect plain_os line_backend run_staged 1 300"
  let ?b = "disconnect plain_os line_backend ?a 0 90000"
  have a: "?a = run_staged\<lparr>sh_ownership := (sh_ownership run_staged)\<lparr>live := {0}, mapped := Map.empty\<rparr>\<rparr>"
    by (simp add: disconnect_def run_staged_eq run_boot_eq Let_def insert_Diff_if)
  have "preflight_hard plain_os ow \<lparr>cand_id = 1, cand_reg = reg_example 11, cand_deadline = 2100,
      cand_ready = False\<rparr> [] True = Inr ()" if "device_count ow = None" "owner_reg ow = Some (reg_example 10)" for ow
    using that by (intro preflight_example [where r = "reg_example 10"]) simp_all
  then have b: "owner (sh_ownership ?b) = 1 \<and> live (sh_ownership ?b) = {} \<and> sh_backend ?b = Some 11"
    unfolding a by (simp add: disconnect_def promote_candidate_def install_registration_def run_staged_eq
        run_boot_eq Let_def)
  have "ho_reach plain_os line_backend None ?b"
    by (rule reach_step [OF reach_step [OF run_reach(2) step_disconnect] step_disconnect])
  then show ?thesis using b by auto
qed

end
