(* ===== verification/Interval.thy ===== *)
theory Interval
  imports Prelude
begin

text \<open>
  Half-open ranges with the interval operations of \<open>src/device/interval.rs\<close>. Rust's
  \<open>Range<T>\<close> is the record \<open>range\<close>; the trait's blanket implementation needs only an ordered
  element type, as here.
\<close>

record 'a range =
  range_start :: 'a
  range_end :: 'a

definition mk_range :: "'a \<Rightarrow> 'a \<Rightarrow> 'a range" where
  "mk_range s e = \<lparr>range_start = s, range_end = e\<rparr>"

text \<open>\<open>Range::contains\<close> and \<open>Range::is_empty\<close> of the standard library.\<close>

definition range_contains :: "'a::linorder range \<Rightarrow> 'a \<Rightarrow> bool" where
  "range_contains r v \<longleftrightarrow> range_start r \<le> v \<and> v < range_end r"

definition range_is_empty :: "'a::linorder range \<Rightarrow> bool" where
  "range_is_empty r \<longleftrightarrow> \<not> range_start r < range_end r"

definition intersection :: "'a::linorder range \<Rightarrow> 'a range \<Rightarrow> 'a range" where
  "intersection self other =
     mk_range (max (range_start self) (range_start other)) (min (range_end self) (range_end other))"

definition contains_interval :: "'a::linorder range \<Rightarrow> 'a range \<Rightarrow> bool" where
  "contains_interval self other \<longleftrightarrow> intersection self other = other"

definition overlaps :: "'a::linorder range \<Rightarrow> 'a range \<Rightarrow> bool" where
  "overlaps self other \<longleftrightarrow> \<not> range_is_empty self \<and> \<not> range_is_empty (intersection self other)"

lemma range_sel [simp]:
  "range_start (mk_range s e) = s" "range_end (mk_range s e) = e"
  by (simp_all add: mk_range_def)

lemma range_eqI: "range_start r = range_start q \<Longrightarrow> range_end r = range_end q \<Longrightarrow> r = (q :: 'a range)"
  by (cases r, cases q) simp

lemma intersection_contains:
  "range_contains (intersection r q) v \<longleftrightarrow> range_contains r v \<and> range_contains q v"
  by (auto simp: intersection_def range_contains_def)

lemma intersection_commute: "intersection r q = intersection q r"
  by (simp add: intersection_def max.commute min.commute)

lemma contains_interval_iff:
  "contains_interval r q \<longleftrightarrow> range_start r \<le> range_start q \<and> range_end q \<le> range_end r"
  by (cases q) (auto simp: contains_interval_def intersection_def mk_range_def max_def min_def)

lemma contains_interval_mem:
  "contains_interval r q \<Longrightarrow> range_contains q v \<Longrightarrow> range_contains r v"
  by (auto simp: contains_interval_iff range_contains_def)

lemma overlaps_iff: "overlaps r q \<longleftrightarrow> (\<exists>v. range_contains r v \<and> range_contains q v)"
proof
  assume "overlaps r q"
  then have "range_contains (intersection r q) (max (range_start r) (range_start q))"
    by (auto simp: overlaps_def range_is_empty_def intersection_def range_contains_def)
  then show "\<exists>v. range_contains r v \<and> range_contains q v"
    by (auto simp: intersection_contains)
next
  assume "\<exists>v. range_contains r v \<and> range_contains q v"
  then show "overlaps r q"
    by (auto simp: overlaps_def range_is_empty_def intersection_def range_contains_def)
qed

lemma overlaps_commute: "overlaps r q \<longleftrightarrow> overlaps q r"
  by (auto simp: overlaps_iff)

lemma overlapsD: "\<not> overlaps r q \<Longrightarrow> range_contains r v \<Longrightarrow> \<not> range_contains q v"
  by (auto simp: overlaps_iff)

lemma contains_overlaps:
  "contains_interval r q \<Longrightarrow> \<not> range_is_empty q \<Longrightarrow> overlaps r q"
  by (auto simp: contains_interval_iff overlaps_def range_is_empty_def intersection_def
      max_def min_def)

end
