(* ===== verification/Bus.thy ===== *)
theory Bus
  imports Interval
begin

text \<open>
  The memory bus of \<open>src/device/bus.rs\<close>: request sizes and requests, the \<open>BusDevice\<close> trait, the
  default device and the multiplexing \<open>Bus\<close>. The trait object \<open>dyn BusDevice\<close> is modelled by
  dictionary passing: a record of the trait's operations on a state type, so that every user of
  a \<open>BusDeviceRef\<close> takes the record as an argument. Methods with interior mutability return the
  new state. Offsets into bulk data and iterator positions are naturals: the iterator's
  constructor has checked that the end of the request is a \<open>u64\<close>.
\<close>

section \<open>Requests\<close>

datatype request_size = Size1 | Size2 | Size4 | Size8

primrec size_bytes :: "request_size \<Rightarrow> nat" where
  "size_bytes Size1 = 1"
| "size_bytes Size2 = 2"
| "size_bytes Size4 = 4"
| "size_bytes Size8 = 8"

definition request_size_try_from :: "u64 \<Rightarrow> request_size option" where
  "request_size_try_from value =
     (if value = 1 then Some Size1
      else if value = 2 then Some Size2
      else if value = 4 then Some Size4
      else if value = 8 then Some Size8
      else None)"

record request =
  req_addr :: u64
  req_size :: request_size

definition request_new :: "u64 \<Rightarrow> request_size \<Rightarrow> request" where
  "request_new addr sz = \<lparr>req_addr = addr, req_size = sz\<rparr>"

text \<open>\<open>Request::iter_bytes\<close>: the end of the range is an unchecked \<open>+\<close> on \<open>u64\<close>.\<close>

definition iter_bytes :: "request \<Rightarrow> request list res" where
  "iter_bytes r =
     rbind (of_opt ArithOverflow (checked_add (req_addr r) (of_nat (size_bytes (req_size r)))))
       (\<lambda>_. Inr (map (\<lambda>i. request_new (req_addr r + of_nat i) Size1) [0..<size_bytes (req_size r)]))"

text \<open>\<open>TryInto<Range<u64>> for Request\<close>; \<open>None\<close> is \<open>WrappingRequestError\<close>.\<close>

definition request_range :: "request \<Rightarrow> u64 range option" where
  "request_range r =
     map_option (mk_range (req_addr r))
       (checked_add (req_addr r) (of_nat (size_bytes (req_size r))))"

section \<open>The device trait\<close>

record 'd bus_device =
  dev_size :: "'d \<Rightarrow> u64"
  dev_read :: "'d \<Rightarrow> request \<Rightarrow> u64 res"
  dev_write :: "'d \<Rightarrow> request \<Rightarrow> u64 \<Rightarrow> 'd res"
  dev_read_bulk :: "'d \<Rightarrow> u64 \<Rightarrow> nat \<Rightarrow> u8 list res"
  dev_write_bulk :: "'d \<Rightarrow> u64 \<Rightarrow> u8 list \<Rightarrow> 'd res"

text \<open>The provided methods: bytewise, with wrapping addresses.\<close>

fun default_read_bulk :: "('d \<Rightarrow> request \<Rightarrow> u64 res) \<Rightarrow> 'd \<Rightarrow> u64 \<Rightarrow> nat \<Rightarrow> u8 list res" where
  "default_read_bulk rd d offset 0 = Inr []"
| "default_read_bulk rd d offset (Suc n) =
     rbind (rd d (request_new offset Size1)) (\<lambda>v.
     rbind (default_read_bulk rd d (offset + 1) n) (\<lambda>vs.
     Inr (ucast v # vs)))"

fun default_write_bulk ::
  "('d \<Rightarrow> request \<Rightarrow> u64 \<Rightarrow> 'd res) \<Rightarrow> 'd \<Rightarrow> u64 \<Rightarrow> u8 list \<Rightarrow> 'd res" where
  "default_write_bulk wr d offset [] = Inr d"
| "default_write_bulk wr d offset (v # vs) =
     rbind (wr d (request_new offset Size1) (ucast v)) (\<lambda>d'.
     default_write_bulk wr d' (offset + 1) vs)"

text \<open>
  The provided \<open>compare_exchange_request\<close>: a read and a write, not atomic. The result is the
  \<open>Result<u64, u64>\<close> of the source, \<open>Inr\<close> for \<open>Ok\<close>.
\<close>

definition compare_exchange_request ::
  "'d bus_device \<Rightarrow> 'd \<Rightarrow> request \<Rightarrow> u64 \<Rightarrow> u64 \<Rightarrow> ('d \<times> (u64 + u64)) res" where
  "compare_exchange_request ops d req current new =
     rbind (dev_read ops d req) (\<lambda>old.
       if old = current
       then rbind (dev_write ops d req new) (\<lambda>d'. Inr (d', Inr current))
       else Inr (d, Inl old))"

section \<open>The default device\<close>

record default_device =
  dd_size :: u64

definition default_device_new_with_size :: "u64 \<Rightarrow> default_device" where
  "default_device_new_with_size sz = \<lparr>dd_size = sz\<rparr>"

definition default_device_read :: "default_device \<Rightarrow> request \<Rightarrow> u64 res" where
  "default_device_read d r = Inr (drop_bit (64 - 8 * size_bytes (req_size r)) (- 1))"

definition default_device_write :: "default_device \<Rightarrow> request \<Rightarrow> u64 \<Rightarrow> default_device res" where
  "default_device_write d r v = Inr d"

definition default_device_ops :: "default_device bus_device" where
  "default_device_ops =
     \<lparr>dev_size = dd_size,
      dev_read = default_device_read,
      dev_write = default_device_write,
      dev_read_bulk = default_read_bulk default_device_read,
      dev_write_bulk = default_write_bulk default_device_write\<rparr>"

section \<open>The bus\<close>

record 'd device_entry =
  ent_range :: "u64 range"
  ent_device :: 'd

record 'd bus =
  bus_devices :: "'d device_entry list"
  bus_error_device :: default_device
  bus_default :: 'd

datatype add_bus_device_error =
    OverlapsExistingDevice (existing_range: "u64 range") (overlap_added: "u64 range")
  | DeviceOutOfRange (oor_bus_size: u64) (oor_added: "u64 range")

definition bus_new_with_default :: "'d bus_device \<Rightarrow> 'd \<Rightarrow> 'd bus" where
  "bus_new_with_default ops d =
     \<lparr>bus_devices = [],
      bus_error_device = default_device_new_with_size (dev_size ops d),
      bus_default = d\<rparr>"

text \<open>\<open>mk\<close> is the coercion of a \<open>DefaultDevice\<close> to the trait object.\<close>

definition bus_new :: "'d bus_device \<Rightarrow> (default_device \<Rightarrow> 'd) \<Rightarrow> u64 \<Rightarrow> 'd bus" where
  "bus_new ops mk sz = bus_new_with_default ops (mk (default_device_new_with_size sz))"

definition bus_size :: "'d bus_device \<Rightarrow> 'd bus \<Rightarrow> u64" where
  "bus_size ops b = dev_size ops (bus_default b)"

definition bus_add ::
  "'d bus_device \<Rightarrow> 'd bus \<Rightarrow> u64 \<Rightarrow> 'd \<Rightarrow> add_bus_device_error + 'd bus" where
  "bus_add ops b start_addr device =
     (case checked_add start_addr (dev_size ops device) of
        None \<Rightarrow> Inl (DeviceOutOfRange (bus_size ops b)
                  (mk_range start_addr (start_addr + dev_size ops device)))
      | Some end_addr \<Rightarrow>
          let rng = mk_range start_addr end_addr in
          if bus_size ops b < range_end rng
          then Inl (DeviceOutOfRange (bus_size ops b) rng)
          else (case find (\<lambda>e. overlaps (ent_range e) rng) (bus_devices b) of
              Some e \<Rightarrow> Inl (OverlapsExistingDevice (ent_range e) rng)
            | None \<Rightarrow> Inr (b\<lparr>bus_devices :=
                bus_devices b @ [\<lparr>ent_range = rng, ent_device = device\<rparr>]\<rparr>)))"

text \<open>
  \<open>to_device_request\<close>: the index of the device that claims the request, or the error device, with
  the transformed request. \<open>None\<close> leaves the request to the default device.
\<close>

datatype target = ToDevice nat | ToErrorDevice

fun route :: "'d device_entry list \<Rightarrow> nat \<Rightarrow> u64 range \<Rightarrow> request \<Rightarrow> (request \<times> target) option" where
  "route [] i rng r = None"
| "route (e # es) i rng r =
     (if contains_interval (ent_range e) rng
      then Some (r\<lparr>req_addr := req_addr r - range_start (ent_range e)\<rparr>, ToDevice i)
      else if overlaps (ent_range e) rng then Some (r, ToErrorDevice)
      else route es (Suc i) rng r)"

definition to_device_request :: "'d bus \<Rightarrow> request \<Rightarrow> (request \<times> target) option" where
  "to_device_request b r =
     (case request_range r of None \<Rightarrow> None | Some rng \<Rightarrow> route (bus_devices b) 0 rng r)"

definition set_device :: "'d bus \<Rightarrow> nat \<Rightarrow> 'd \<Rightarrow> 'd bus" where
  "set_device b i d =
     b\<lparr>bus_devices := (bus_devices b)[i := (bus_devices b ! i)\<lparr>ent_device := d\<rparr>]\<rparr>"

definition bus_read :: "'d bus_device \<Rightarrow> 'd bus \<Rightarrow> request \<Rightarrow> u64 res" where
  "bus_read ops b r =
     (case to_device_request b r of
        Some (rel, ToDevice i) \<Rightarrow> dev_read ops (ent_device (bus_devices b ! i)) rel
      | Some (rel, ToErrorDevice) \<Rightarrow> default_device_read (bus_error_device b) rel
      | None \<Rightarrow> dev_read ops (bus_default b) r)"

definition bus_write :: "'d bus_device \<Rightarrow> 'd bus \<Rightarrow> request \<Rightarrow> u64 \<Rightarrow> 'd bus res" where
  "bus_write ops b r v =
     (case to_device_request b r of
        Some (rel, ToDevice i) \<Rightarrow>
          rbind (dev_write ops (ent_device (bus_devices b ! i)) rel v) (\<lambda>d. Inr (set_device b i d))
      | Some (rel, ToErrorDevice) \<Rightarrow>
          rbind (default_device_write (bus_error_device b) rel v)
            (\<lambda>d. Inr (b\<lparr>bus_error_device := d\<rparr>))
      | None \<Rightarrow> rbind (dev_write ops (bus_default b) r v) (\<lambda>d. Inr (b\<lparr>bus_default := d\<rparr>)))"

subsection \<open>Bulk requests\<close>

text \<open>
  One element of the iterator: the device (\<open>None\<close> for the default device), the offset inside it
  and the part of the data slice.
\<close>

record chunk =
  ch_device :: "nat option"
  ch_offset :: u64
  ch_start :: nat
  ch_end :: nat

definition entry_has :: "'d device_entry \<Rightarrow> nat \<Rightarrow> bool" where
  "entry_has e a \<longleftrightarrow> unat (range_start (ent_range e)) \<le> a \<and> a < unat (range_end (ent_range e))"

fun find_entry :: "'d device_entry list \<Rightarrow> nat \<Rightarrow> nat option" where
  "find_entry [] a = None"
| "find_entry (e # es) a = (if entry_has e a then Some 0 else map_option Suc (find_entry es a))"

definition bulk_next :: "'d bus \<Rightarrow> nat \<Rightarrow> nat \<Rightarrow> nat \<Rightarrow> (chunk \<times> nat) option res" where
  "bulk_next b request_start request_end cur =
     rbind (require (request_start \<le> cur \<and> cur \<le> request_end) AssertFailed) (\<lambda>_.
     if \<not> cur < request_end then Inr None
     else
       let data_offset = cur - request_start;
           remaining = request_end - request_start - data_offset in
       rbind (require (0 < remaining) AssertFailed) (\<lambda>_.
       let ch = (case find_entry (bus_devices b) cur of
           Some i \<Rightarrow>
             (let rng = ent_range (bus_devices b ! i);
                  device_offset = cur - unat (range_start rng);
                  chunk_size =
                    min remaining (unat (range_end rng) - unat (range_start rng) - device_offset)
              in \<lparr>ch_device = Some i, ch_offset = of_nat device_offset,
                  ch_start = data_offset, ch_end = data_offset + chunk_size\<rparr>)
         | None \<Rightarrow> \<lparr>ch_device = None, ch_offset = of_nat cur,
                    ch_start = data_offset, ch_end = data_offset + 1\<rparr>) in
       rbind (require (0 < ch_end ch - ch_start ch) AssertFailed) (\<lambda>_.
       Inr (Some (ch, cur + (ch_end ch - ch_start ch))))))"

lemma bulk_next_progress:
  "bulk_next b s e cur = Inr (Some (ch, cur')) \<Longrightarrow> cur < e \<and> cur < cur'"
  by (auto simp: bulk_next_def Let_def split: if_splits option.splits)

definition chunk_read_bulk :: "'d bus_device \<Rightarrow> 'd bus \<Rightarrow> chunk \<Rightarrow> u8 list res" where
  "chunk_read_bulk ops b ch =
     dev_read_bulk ops
       (case ch_device ch of Some i \<Rightarrow> ent_device (bus_devices b ! i) | None \<Rightarrow> bus_default b)
       (ch_offset ch) (ch_end ch - ch_start ch)"

definition chunk_write_bulk :: "'d bus_device \<Rightarrow> 'd bus \<Rightarrow> chunk \<Rightarrow> u8 list \<Rightarrow> 'd bus res" where
  "chunk_write_bulk ops b ch data =
     (let part = slice data (ch_start ch) (ch_end ch - ch_start ch) in
      case ch_device ch of
        Some i \<Rightarrow> rbind (dev_write_bulk ops (ent_device (bus_devices b ! i)) (ch_offset ch) part)
          (\<lambda>d. Inr (set_device b i d))
      | None \<Rightarrow> rbind (dev_write_bulk ops (bus_default b) (ch_offset ch) part)
          (\<lambda>d. Inr (b\<lparr>bus_default := d\<rparr>)))"

text \<open>The \<open>for_each\<close> loops over the iterator. The chunks are contiguous, so the filled data
  slice is the concatenation of what the devices return.\<close>

function bus_read_loop ::
  "'d bus_device \<Rightarrow> 'd bus \<Rightarrow> nat \<Rightarrow> nat \<Rightarrow> nat \<Rightarrow> u8 list res" where
  "bus_read_loop ops b s e cur =
     rbind (bulk_next b s e cur) (\<lambda>item. case item of
       None \<Rightarrow> Inr []
     | Some (ch, cur') \<Rightarrow>
         rbind (chunk_read_bulk ops b ch) (\<lambda>bs.
         rbind (bus_read_loop ops b s e cur') (\<lambda>rest. Inr (bs @ rest))))"
  by pat_completeness auto
termination
  by (relation "measure (\<lambda>(ops, b, s, e, cur). e - cur)")
    (auto dest!: bulk_next_progress)

function bus_write_loop ::
  "'d bus_device \<Rightarrow> 'd bus \<Rightarrow> nat \<Rightarrow> nat \<Rightarrow> u8 list \<Rightarrow> nat \<Rightarrow> 'd bus res" where
  "bus_write_loop ops b s e data cur =
     rbind (bulk_next b s e cur) (\<lambda>item. case item of
       None \<Rightarrow> Inr b
     | Some (ch, cur') \<Rightarrow>
         rbind (chunk_write_bulk ops b ch data) (\<lambda>b'. bus_write_loop ops b' s e data cur'))"
  by pat_completeness auto
termination
  by (relation "measure (\<lambda>(ops, b, s, e, data, cur). e - cur)")
    (auto dest!: bulk_next_progress)

declare bus_read_loop.simps [simp del] bus_write_loop.simps [simp del]

definition bus_read_bulk :: "'d bus_device \<Rightarrow> 'd bus \<Rightarrow> u64 \<Rightarrow> nat \<Rightarrow> u8 list res" where
  "bus_read_bulk ops b offset n =
     rbind (require (unat offset + n < 2 ^ 64) ArithOverflow) (\<lambda>_.
     bus_read_loop ops b (unat offset) (unat offset + n) (unat offset))"

definition bus_write_bulk :: "'d bus_device \<Rightarrow> 'd bus \<Rightarrow> u64 \<Rightarrow> u8 list \<Rightarrow> 'd bus res" where
  "bus_write_bulk ops b offset data =
     rbind (require (unat offset + length data < 2 ^ 64) ArithOverflow) (\<lambda>_.
     bus_write_loop ops b (unat offset) (unat offset + length data) data (unat offset))"

definition bus_ops :: "'d bus_device \<Rightarrow> 'd bus bus_device" where
  "bus_ops ops =
     \<lparr>dev_size = bus_size ops,
      dev_read = bus_read ops,
      dev_write = bus_write ops,
      dev_read_bulk = bus_read_bulk ops,
      dev_write_bulk = bus_write_bulk ops\<rparr>"


section \<open>Well-formed busses and routing\<close>

text \<open>
  What \<open>Bus::add\<close> maintains: every entry's range has the size of its device and lies on the bus,
  and no two entries overlap.
\<close>

definition entry_fits :: "'d bus_device \<Rightarrow> u64 \<Rightarrow> 'd device_entry \<Rightarrow> bool" where
  "entry_fits ops sz e \<longleftrightarrow>
     unat (range_end (ent_range e)) =
       unat (range_start (ent_range e)) + unat (dev_size ops (ent_device e)) \<and>
     range_end (ent_range e) \<le> sz"

definition disjoint_entries :: "'d device_entry list \<Rightarrow> bool" where
  "disjoint_entries es \<longleftrightarrow>
     (\<forall>i < length es. \<forall>j < length es. i \<noteq> j \<longrightarrow> \<not> overlaps (ent_range (es ! i)) (ent_range (es ! j)))"

definition wf_bus :: "'d bus_device \<Rightarrow> 'd bus \<Rightarrow> bool" where
  "wf_bus ops b \<longleftrightarrow>
     (\<forall>e \<in> set (bus_devices b). entry_fits ops (bus_size ops b) e) \<and>
     disjoint_entries (bus_devices b)"

lemma wf_bus_new_with_default [inv_intros]: "wf_bus ops (bus_new_with_default ops d)"
  by (simp add: wf_bus_def bus_new_with_default_def disjoint_entries_def)

lemma disjoint_entries_snoc:
  "disjoint_entries (es @ [e]) \<longleftrightarrow>
     disjoint_entries es \<and> (\<forall>e' \<in> set es. \<not> overlaps (ent_range e') (ent_range e))"
proof
  assume a: "disjoint_entries (es @ [e])"
  have "\<not> overlaps (ent_range (es ! i)) (ent_range e)" if "i < length es" for i
    using a [unfolded disjoint_entries_def, rule_format, of i "length es"] that
    by (simp add: nth_append)
  moreover have "\<not> overlaps (ent_range (es ! i)) (ent_range (es ! j))"
    if "i < length es" "j < length es" "i \<noteq> j" for i j
    using a [unfolded disjoint_entries_def, rule_format, of i j] that by (simp add: nth_append)
  ultimately show "disjoint_entries es \<and> (\<forall>e' \<in> set es. \<not> overlaps (ent_range e') (ent_range e))"
    by (auto simp: in_set_conv_nth disjoint_entries_def)
next
  assume a: "disjoint_entries es \<and> (\<forall>e' \<in> set es. \<not> overlaps (ent_range e') (ent_range e))"
  show "disjoint_entries (es @ [e])"
    unfolding disjoint_entries_def
  proof (intro allI impI)
    fix i j assume ij: "i < length (es @ [e])" "j < length (es @ [e])" "i \<noteq> j"
    consider "i < length es" "j < length es" | "i < length es" "j = length es"
      | "i = length es" "j < length es"
      using ij by fastforce
    then show "\<not> overlaps (ent_range ((es @ [e]) ! i)) (ent_range ((es @ [e]) ! j))"
      using a ij(3) by cases (auto simp: nth_append disjoint_entries_def overlaps_commute [of "ent_range e"])
  qed
qed

lemma bus_add_Inr:
  "bus_add ops b s d = Inr b' \<longleftrightarrow>
     unat s + unat (dev_size ops d) < 2 ^ 64 \<and> s + dev_size ops d \<le> bus_size ops b \<and>
     (\<forall>e \<in> set (bus_devices b). \<not> overlaps (ent_range e) (mk_range s (s + dev_size ops d))) \<and>
     b' = b\<lparr>bus_devices := bus_devices b @
            [\<lparr>ent_range = mk_range s (s + dev_size ops d), ent_device = d\<rparr>]\<rparr>"
  by (auto simp: bus_add_def Let_def checked_add_def find_None_iff find_Some_iff not_less
      split: option.splits)

lemma bus_add_wf [inv_intros]:
  assumes "wf_bus ops b" "bus_add ops b s d = Inr b'"
  shows "wf_bus ops b'"
  using assms unat_add_lt [of s "dev_size ops d"]
  by (auto simp: bus_add_Inr wf_bus_def disjoint_entries_snoc entry_fits_def bus_size_def)

lemma entry_has_iff: "a < 2 ^ 64 \<Longrightarrow> entry_has e a \<longleftrightarrow> range_contains (ent_range e) (of_nat a)"
  by (simp add: entry_has_def range_contains_def word_le_nat_alt word_less_nat_alt unat_of_nat)

lemma entry_has_bound: "entry_has e a \<Longrightarrow> a + 1 < 2 ^ 64"
  using unat_lt_max [of "range_end (ent_range e)"] by (simp add: entry_has_def)

lemma entry_unique:
  assumes "disjoint_entries es" "i < length es" "j < length es"
    "entry_has (es ! i) a" "entry_has (es ! j) a"
  shows "i = j"
  using assms entry_has_bound [OF assms(4)]
  by (auto simp: disjoint_entries_def overlaps_iff entry_has_iff)

lemma find_entry_Some:
  "find_entry es a = Some i \<Longrightarrow> i < length es \<and> entry_has (es ! i) a"
  by (induction es arbitrary: i) (auto split: if_splits)

lemma find_entry_None: "find_entry es a = None \<longleftrightarrow> (\<forall>e \<in> set es. \<not> entry_has e a)"
  by (induction es) auto

lemma find_entry_eq:
  assumes "disjoint_entries es" "i < length es" "entry_has (es ! i) a"
  shows "find_entry es a = Some i"
proof (cases "find_entry es a")
  case None
  then show ?thesis using assms by (auto simp: find_entry_None)
next
  case (Some j)
  then show ?thesis using assms find_entry_Some [OF Some] entry_unique by metis
qed

lemma find_entry_ranges:
  "map ent_range es = map ent_range es' \<Longrightarrow> find_entry es a = find_entry es' a"
proof (induction es arbitrary: es')
  case (Cons e es)
  then show ?case by (cases es') (auto simp: entry_has_def)
qed simp

lemma route_shift:
  "route es (Suc k) rng r = map_option (\<lambda>(r', t). (r', case t of ToDevice i \<Rightarrow> ToDevice (Suc i)
     | ToErrorDevice \<Rightarrow> ToErrorDevice)) (route es k rng r)"
  by (induction es arbitrary: k) auto

lemma route_None:
  assumes "\<not> range_is_empty rng" "\<forall>e \<in> set es. \<not> overlaps (ent_range e) rng"
  shows "route es k rng r = None"
  using assms by (induction es arbitrary: k) (auto dest: contains_overlaps)

lemma disjoint_entries_Cons:
  "disjoint_entries (e # es) \<Longrightarrow> disjoint_entries es \<and> (\<forall>e' \<in> set es. \<not> overlaps (ent_range e) (ent_range e'))"
proof -
  assume a: "disjoint_entries (e # es)"
  have "\<not> overlaps (ent_range (es ! i)) (ent_range (es ! j))"
    if "i < length es" "j < length es" "i \<noteq> j" for i j
    using a [unfolded disjoint_entries_def, rule_format, of "Suc i" "Suc j"] that by simp
  moreover have "\<not> overlaps (ent_range e) (ent_range (es ! i))" if "i < length es" for i
    using a [unfolded disjoint_entries_def, rule_format, of 0 "Suc i"] that by simp
  ultimately show ?thesis by (auto simp: disjoint_entries_def in_set_conv_nth)
qed

lemma route_ToDevice:
  assumes "disjoint_entries es" "\<not> range_is_empty rng" "i < length es"
    "contains_interval (ent_range (es ! i)) rng"
  shows "route es k rng r =
     Some (r\<lparr>req_addr := req_addr r - range_start (ent_range (es ! i))\<rparr>, ToDevice (k + i))"
  using assms
proof (induction es arbitrary: i k)
  case (Cons e es)
  show ?case
  proof (cases i)
    case 0
    then show ?thesis using Cons.prems by simp
  next
    case (Suc j)
    have "overlaps (ent_range (es ! j)) rng"
      using Cons.prems Suc by (auto intro: contains_overlaps)
    have dj: "\<not> overlaps (ent_range e) (ent_range (es ! j))"
      using Cons.prems Suc disjoint_entries_Cons by fastforce
    then have "\<not> overlaps (ent_range e) rng"
      using Cons.prems Suc by (auto simp: overlaps_iff dest: contains_interval_mem)
    then show ?thesis
      using Cons.IH [of j "Suc k"] Cons.prems Suc disjoint_entries_Cons [of e es]
      by (auto dest: contains_overlaps)
  qed
qed simp

lemma route_sound:
  "route es k rng r = Some (r', ToDevice i) \<Longrightarrow>
     k \<le> i \<and> i - k < length es \<and> contains_interval (ent_range (es ! (i - k))) rng \<and>
     r' = r\<lparr>req_addr := req_addr r - range_start (ent_range (es ! (i - k)))\<rparr>"
proof (induction es arbitrary: k)
  case (Cons e es)
  then show ?case
    by (cases "i = k") (fastforce simp: nth_Cons' Suc_le_eq split: if_splits)+
qed simp

lemma route_error:
  "route es k rng r = Some (r', ToErrorDevice) \<Longrightarrow>
     r' = r \<and> (\<exists>e \<in> set es. overlaps (ent_range e) rng \<and> \<not> contains_interval (ent_range e) rng)"
  by (induction es arbitrary: k) (auto split: if_splits)

lemma route_NoneD: "route es k rng r = None \<Longrightarrow> e \<in> set es \<Longrightarrow> \<not> overlaps (ent_range e) rng"
  by (induction es arbitrary: k) (auto split: if_splits)

end
