(* ===== verification/BusContract.thy ===== *)
theory BusContract
  imports Bus
begin

text \<open>
  The contract of a \<open>BusDevice\<close> as memory: bulk accesses inside the device read and update its
  bytes one by one, of which some may be read-only. The contract is a locale; the bus is shown to
  meet it whenever its devices do, so a bus stacks on top of other busses. A second locale adds
  what single requests do.
\<close>

lemma ucast_u8_u64 [simp]: "ucast (ucast (b :: u8) :: u64) = b"
  by (rule bit_word_eqI) (auto simp: bit_simps)

section \<open>Byte updates\<close>

definition patch :: "(nat \<Rightarrow> 'b) \<Rightarrow> (nat \<Rightarrow> bool) \<Rightarrow> nat \<Rightarrow> 'b list \<Rightarrow> nat \<Rightarrow> 'b" where
  "patch f p off bs a = (if off \<le> a \<and> a < off + length bs \<and> p a then bs ! (a - off) else f a)"

lemma patch_Nil [simp]: "patch f p off [] = f"
  by (auto simp: patch_def fun_eq_iff)

lemma patch_append:
  "patch (patch f p off xs) p (off + length xs) ys = patch f p off (xs @ ys)"
  by (auto simp: patch_def fun_eq_iff nth_append)

lemma patch_Cons:
  "patch (patch f p off [x]) p (Suc off) ys = patch f p off (x # ys)"
  using patch_append [of f p off "[x]" ys] by simp

lemma patch_outside: "a < off \<or> off + length bs \<le> a \<Longrightarrow> patch f p off bs a = f a"
  by (auto simp: patch_def)

lemma patch_inside:
  "off \<le> a \<Longrightarrow> a < off + length bs \<Longrightarrow> p a \<Longrightarrow> patch f p off bs a = bs ! (a - off)"
  by (simp add: patch_def)

section \<open>The contract of a device\<close>

locale bulk_device =
  fixes ops :: "'d bus_device"
    and ok :: "'d \<Rightarrow> bool"
    and byte_at :: "'d \<Rightarrow> nat \<Rightarrow> u8"
    and writable :: "'d \<Rightarrow> nat \<Rightarrow> bool"
  assumes read_bulk_law:
    "ok d \<Longrightarrow> unat off + n \<le> unat (dev_size ops d) \<Longrightarrow>
      dev_read_bulk ops d off n = Inr (map (byte_at d) [unat off..<unat off + n])"
    and write_bulk_law:
    "ok d \<Longrightarrow> unat off + length bs \<le> unat (dev_size ops d) \<Longrightarrow>
      \<exists>d'. dev_write_bulk ops d off bs = Inr d' \<and> ok d' \<and> dev_size ops d' = dev_size ops d \<and>
        byte_at d' = patch (byte_at d) (writable d) (unat off) bs \<and> writable d' = writable d"

text \<open>Devices that also serve multi-byte requests in one access, little-endian.\<close>

locale word_device = bulk_device +
  assumes read_law:
    "ok d \<Longrightarrow> unat (req_addr r) + size_bytes (req_size r) \<le> unat (dev_size ops d) \<Longrightarrow>
      dev_read ops d r = Inr (of_le_bytes (map (byte_at d)
        [unat (req_addr r)..<unat (req_addr r) + size_bytes (req_size r)]))"
    and write_law:
    "ok d \<Longrightarrow> unat (req_addr r) + size_bytes (req_size r) \<le> unat (dev_size ops d) \<Longrightarrow>
      \<exists>d'. dev_write ops d r v = Inr d' \<and> ok d' \<and> dev_size ops d' = dev_size ops d \<and>
        byte_at d' = patch (byte_at d) (writable d) (unat (req_addr r))
          (le_bytes (size_bytes (req_size r)) v) \<and> writable d' = writable d"

section \<open>The provided bulk methods\<close>

lemma unat_Suc_offset: "unat off + Suc n < 2 ^ 64 \<Longrightarrow> unat (off + 1 :: u64) = Suc (unat off)"
  using unat_add_lt [of off 1] by simp

text \<open>Reading and writing byte by byte is what the contract asks, for a device that does single
  bytes right.\<close>

lemma default_read_bulk_bytes:
  fixes f :: "nat \<Rightarrow> u8"
  assumes "\<And>a. unat a < lim \<Longrightarrow> rd d (request_new a Size1) = Inr (ucast (f (unat a)))"
    and "lim < 2 ^ 64" "unat off + n \<le> lim"
  shows "default_read_bulk rd d off n = Inr (map f [unat off..<unat off + n])"
  using assms(3)
proof (induction n arbitrary: off)
  case (Suc n)
  note u = unat_Suc_offset [of off n]
  show ?case
  proof (cases n)
    case 0
    then show ?thesis using Suc.prems assms(1) [of off] by simp
  next
    case (Suc m)
    then have "unat (off + 1) = Suc (unat off)" using Suc.prems assms(2) u by linarith
    then show ?thesis
      using Suc.prems Suc.IH [of "off + 1"] assms(1) [of off]
      by (simp add: upt_conv_Cons del: upt_Suc)
  qed
qed simp

lemma default_write_bulk_bytes:
  assumes step: "\<And>d a v. P d \<Longrightarrow> unat a < lim \<Longrightarrow>
      \<exists>d'. wr d (request_new a Size1) (ucast (v :: u8)) = Inr d' \<and> P d' \<and>
        g d' = patch (g d) w (unat a) [v]"
    and "lim < 2 ^ 64" "unat off + length bs \<le> lim" "P d"
  shows "\<exists>d'. default_write_bulk wr d off bs = Inr d' \<and> P d' \<and>
    g d' = patch (g d) w (unat off) bs"
  using assms(3,4)
proof (induction bs arbitrary: off d)
  case (Cons v vs)
  obtain d1 where d1: "wr d (request_new off Size1) (ucast v) = Inr d1" "P d1"
      "g d1 = patch (g d) w (unat off) [v]"
    using step [of d off v] Cons.prems by auto
  show ?case
  proof (cases vs)
    case Nil
    then show ?thesis using d1 by simp
  next
    case (Cons v' vs')
    have "unat off + Suc (length vs) < 2 ^ 64" using Cons.prems assms(2) by simp
    then have u: "unat (off + 1) = Suc (unat off)" by (rule unat_Suc_offset)
    moreover have "unat (off + 1) + length vs \<le> lim" using u Cons.prems by simp
    ultimately show ?thesis
      using d1 Cons.IH [of "off + 1" d1] by (auto simp: patch_Cons)
  qed
qed simp


section \<open>The bus meets the contract of its devices\<close>

lemma set_device_simps [simp]:
  "bus_default (set_device b i d) = bus_default b"
  "bus_error_device (set_device b i d) = bus_error_device b"
  "length (bus_devices (set_device b i d)) = length (bus_devices b)"
  "i < length (bus_devices b) \<Longrightarrow> j < length (bus_devices b) \<Longrightarrow>
     ent_range (bus_devices (set_device b i d) ! j) = ent_range (bus_devices b ! j)"
  "i < length (bus_devices b) \<Longrightarrow> j < length (bus_devices b) \<Longrightarrow>
     ent_device (bus_devices (set_device b i d) ! j) =
       (if i = j then d else ent_device (bus_devices b ! j))"
  by (auto simp: set_device_def nth_list_update)

lemma find_entry_set_device [simp]:
  assumes "i < length (bus_devices b)"
  shows "find_entry (bus_devices (set_device b i d)) a = find_entry (bus_devices b) a"
  by (rule find_entry_ranges, rule nth_equalityI) (use assms in auto)

lemma set_device_wf:
  assumes "wf_bus ops b" "i < length (bus_devices b)"
    "dev_size ops d = dev_size ops (ent_device (bus_devices b ! i))"
  shows "wf_bus ops (set_device b i d)"
proof -
  have "entry_fits ops (bus_size ops b) (bus_devices (set_device b i d) ! j)"
    if "j < length (bus_devices b)" for j
  proof -
    have "entry_fits ops (bus_size ops b) (bus_devices b ! j)"
      using assms(1) that by (auto simp: wf_bus_def)
    then show ?thesis using assms(2,3) that by (auto simp: entry_fits_def)
  qed
  moreover have "disjoint_entries (bus_devices (set_device b i d))"
    using assms by (simp add: wf_bus_def disjoint_entries_def)
  ultimately show ?thesis
    by (auto simp: wf_bus_def in_set_conv_nth bus_size_def)
qed

text \<open>The byte a bus shows at an address, and whether it may be written: that of the entry that
  claims the address, of the default device otherwise.\<close>

definition bus_byte :: "('d \<Rightarrow> nat \<Rightarrow> 'b) \<Rightarrow> 'd bus \<Rightarrow> nat \<Rightarrow> 'b" where
  "bus_byte f b a =
     (case find_entry (bus_devices b) a of
        Some i \<Rightarrow> f (ent_device (bus_devices b ! i)) (a - unat (range_start (ent_range (bus_devices b ! i))))
      | None \<Rightarrow> f (bus_default b) a)"

definition ok_bus :: "'d bus_device \<Rightarrow> ('d \<Rightarrow> bool) \<Rightarrow> 'd bus \<Rightarrow> bool" where
  "ok_bus ops ok b \<longleftrightarrow>
     wf_bus ops b \<and> (\<forall>e \<in> set (bus_devices b). ok (ent_device e)) \<and> ok (bus_default b)"

lemma bulk_next_cases:
  assumes "s \<le> cur" "cur < e" "e < 2 ^ 64"
  obtains (device) i ch where "find_entry (bus_devices b) cur = Some i"
      "ch_device ch = Some i" "ch_start ch = cur - s" "ch_start ch < ch_end ch" "ch_end ch \<le> e - s"
      "unat (ch_offset ch) = cur - unat (range_start (ent_range (bus_devices b ! i)))"
      "cur + (ch_end ch - ch_start ch) \<le> unat (range_end (ent_range (bus_devices b ! i)))"
      "bulk_next b s e cur = Inr (Some (ch, cur + (ch_end ch - ch_start ch)))"
    | (gap) ch where "find_entry (bus_devices b) cur = None"
      "ch_device ch = None" "ch_start ch = cur - s" "ch_end ch = Suc (ch_start ch)"
      "unat (ch_offset ch) = cur"
      "bulk_next b s e cur = Inr (Some (ch, Suc cur))"
proof (cases "find_entry (bus_devices b) cur")
  case None
  show ?thesis
    by (rule gap [of "\<lparr>ch_device = None, ch_offset = of_nat cur, ch_start = cur - s,
          ch_end = cur - s + 1\<rparr>"])
      (use assms None in \<open>auto simp: bulk_next_def Let_def unat_of_nat\<close>)
next
  case (Some i)
  define rng where "rng = ent_range (bus_devices b ! i)"
  define n where "n = min (e - cur) (unat (range_end rng) - cur)"
  have in_rng: "unat (range_start rng) \<le> cur" "cur < unat (range_end rng)"
    using find_entry_Some [OF Some] by (auto simp: entry_has_def rng_def)
  have n: "n = min (e - s - (cur - s)) (unat (range_end rng) - unat (range_start rng) -
      (cur - unat (range_start rng)))" "0 < n" "n \<le> e - cur" "cur + n \<le> unat (range_end rng)"
    using assms in_rng by (auto simp: n_def)
  define ch where "ch = \<lparr>ch_device = Some i, ch_offset = of_nat (cur - unat (range_start rng)),
      ch_start = cur - s, ch_end = cur - s + n\<rparr>"
  have step: "bulk_next b s e cur = Inr (Some (ch, cur + n))"
    using assms Some in_rng n(2) by (simp add: bulk_next_def Let_def n(1) ch_def rng_def [symmetric])
  have off: "unat (ch_offset ch) = cur - unat (range_start rng)"
    using assms by (simp add: ch_def unat_of_nat)
  have "cur - s + n \<le> e - s" using n(3) assms by simp
  then show ?thesis
    using device [OF Some, of ch] step off n(2,4) by (simp add: ch_def rng_def)
qed


lemma append_take_drop_slice:
  "s \<le> a \<Longrightarrow> a \<le> b \<Longrightarrow> take (b - a) (drop (a - s) xs) @ drop (b - s) xs = drop (a - s) xs"
  using append_take_drop_id [of "b - a" "drop (a - s) xs"] by simp

context bulk_device
begin

abbreviation lim :: "'d \<Rightarrow> nat" where "lim m \<equiv> unat (dev_size ops m)"

lemma entry_room:
  assumes "ok_bus ops ok b" "i < length (bus_devices b)" "ch_device ch = Some i"
    "unat (ch_offset ch) = cur - unat (range_start (ent_range (bus_devices b ! i)))"
    "unat (range_start (ent_range (bus_devices b ! i))) \<le> cur"
    "cur + (ch_end ch - ch_start ch) \<le> unat (range_end (ent_range (bus_devices b ! i)))"
  shows "unat (ch_offset ch) + (ch_end ch - ch_start ch)
      \<le> unat (dev_size ops (ent_device (bus_devices b ! i)))"
    and "ok (ent_device (bus_devices b ! i))"
proof -
  have "entry_fits ops (bus_size ops b) (bus_devices b ! i)"
    using assms(1,2) by (simp add: ok_bus_def wf_bus_def)
  then show "unat (ch_offset ch) + (ch_end ch - ch_start ch)
      \<le> unat (dev_size ops (ent_device (bus_devices b ! i)))"
    using assms(4-6) by (simp add: entry_fits_def)
  show "ok (ent_device (bus_devices b ! i))" using assms(1,2) by (simp add: ok_bus_def)
qed

lemma bus_byte_entry:
  assumes "disjoint_entries (bus_devices b)" "i < length (bus_devices b)"
    "unat (range_start (ent_range (bus_devices b ! i))) \<le> a"
    "a < unat (range_end (ent_range (bus_devices b ! i)))"
  shows "bus_byte f b a =
    f (ent_device (bus_devices b ! i)) (a - unat (range_start (ent_range (bus_devices b ! i))))"
  using find_entry_eq [OF assms(1,2)] assms(3,4) by (simp add: bus_byte_def entry_has_def)

lemma map_upt_shift:
  assumes "k \<le> a" "\<And>j. a \<le> j \<Longrightarrow> j < a + n \<Longrightarrow> g j = f (j - k)"
  shows "map f [a - k..<a + n - k] = map g [a..<a + n]"
  by (rule nth_equalityI) (use assms in auto)

lemma chunk_read:
  assumes "ok_bus ops ok b" "s \<le> cur" "cur < e" "e \<le> unat (bus_size ops b)"
    "bulk_next b s e cur = Inr (Some (ch, cur'))"
  shows "chunk_read_bulk ops b ch = Inr (map (bus_byte byte_at b) [cur..<cur'])"
proof -
  have e: "e < 2 ^ 64" using assms(4) unat_lt_max [of "bus_size ops b"] by simp
  show ?thesis
  proof (cases rule: bulk_next_cases [OF assms(2,3) e, of b, case_names device gap])
    case (device i c)
    have i: "i < length (bus_devices b)"
        "unat (range_start (ent_range (bus_devices b ! i))) \<le> cur"
      using find_entry_Some [OF device(1)] by (auto simp: entry_has_def)
    have c: "c = ch" "cur' = cur + (ch_end ch - ch_start ch)" using device(8) assms(5) by auto
    note room = entry_room [OF assms(1) i(1) device(2,6) i(2) device(7)]
    have "bus_byte byte_at b a = byte_at (ent_device (bus_devices b ! i))
        (a - unat (range_start (ent_range (bus_devices b ! i))))"
      if "cur \<le> a" "a < cur'" for a
      using assms(1) i that device(7) c
      by (intro bus_byte_entry) (auto simp: ok_bus_def wf_bus_def)
    then show ?thesis
      using read_bulk_law [OF room(2,1)] device(2,6) i(2) c
        map_upt_shift [OF i(2), of "ch_end ch - ch_start ch" "bus_byte byte_at b"
          "byte_at (ent_device (bus_devices b ! i))"]
      by (simp add: chunk_read_bulk_def)
  next
    case (gap c)
    have c: "c = ch" "cur' = Suc cur" using gap(6) assms(5) by auto
    have "ok (bus_default b)" using assms(1) by (simp add: ok_bus_def)
    then show ?thesis
      using read_bulk_law [of "bus_default b" "ch_offset ch" 1] gap c assms
      by (simp add: chunk_read_bulk_def bus_byte_def bus_size_def)
  qed
qed

lemma bulk_next_ok:
  assumes "s \<le> cur" "cur < e" "e < 2 ^ 64"
  obtains ch cur' where "bulk_next b s e cur = Inr (Some (ch, cur'))" "cur < cur'" "cur' \<le> e"
    "ch_start ch = cur - s" "ch_end ch = cur' - s"
  using assms by (cases rule: bulk_next_cases [OF assms, of b]) fastforce+

lemma bulk_next_done: "s \<le> e \<Longrightarrow> bulk_next b s e e = Inr None"
  by (simp add: bulk_next_def)

lemma bus_read_loop_bytes:
  assumes "ok_bus ops ok b" "s \<le> cur" "cur \<le> e" "e \<le> unat (bus_size ops b)"
  shows "bus_read_loop ops b s e cur = Inr (map (bus_byte byte_at b) [cur..<e])"
  using assms(2,3)
proof (induction "e - cur" arbitrary: cur rule: less_induct)
  case less
  have e: "e < 2 ^ 64" using assms(4) unat_lt_max [of "bus_size ops b"] by simp
  show ?case
  proof (cases "cur < e")
    case True
    obtain ch cur' where n: "bulk_next b s e cur = Inr (Some (ch, cur'))" "cur < cur'" "cur' \<le> e"
      using bulk_next_ok [OF less(2) True e, of b] by metis
    then have "[cur..<e] = [cur..<cur'] @ [cur'..<e]"
      using upt_add_eq_append [of cur cur' "e - cur'"] by simp
    then show ?thesis
      using n chunk_read [OF assms(1) less(2) True assms(4) n(1)] less(1) [of cur'] less(2)
      by (subst bus_read_loop.simps) simp
  next
    case False
    then show ?thesis using less(2,3) by (subst bus_read_loop.simps) (simp add: bulk_next_done)
  qed
qed

definition written :: "'d bus \<Rightarrow> nat \<Rightarrow> u8 list \<Rightarrow> 'd bus \<Rightarrow> bool" where
  "written b off bs b' \<longleftrightarrow> ok_bus ops ok b' \<and> bus_size ops b' = bus_size ops b \<and>
     bus_byte byte_at b' = patch (bus_byte byte_at b) (bus_byte writable b) off bs \<and>
     bus_byte writable b' = bus_byte writable b"

lemma written_entry:
  assumes "ok_bus ops ok b" "i < length (bus_devices b)"
    "unat (range_start (ent_range (bus_devices b ! i))) \<le> off"
    "off + length bs \<le> unat (range_end (ent_range (bus_devices b ! i)))"
    "ok d" "dev_size ops d = dev_size ops (ent_device (bus_devices b ! i))"
    "byte_at d = patch (byte_at (ent_device (bus_devices b ! i)))
       (writable (ent_device (bus_devices b ! i)))
       (off - unat (range_start (ent_range (bus_devices b ! i)))) bs"
    "writable d = writable (ent_device (bus_devices b ! i))"
  shows "written b off bs (set_device b i d)"
proof -
  have wf: "wf_bus ops b" "disjoint_entries (bus_devices b)"
    using assms(1) by (auto simp: ok_bus_def wf_bus_def)
  have "ok_bus ops ok (set_device b i d)"
    using assms(1,2,5) set_device_wf [OF wf(1) assms(2,6)]
    by (auto simp: ok_bus_def all_set_conv_all_nth)
  moreover have "bus_byte byte_at (set_device b i d) a =
      patch (bus_byte byte_at b) (bus_byte writable b) off bs a" for a
  proof (cases "find_entry (bus_devices b) a = Some i")
    case True
    then have "entry_has (bus_devices b ! i) a" using find_entry_Some by blast
    then show ?thesis
      using True assms(2-4,7) by (auto simp: bus_byte_def patch_def entry_has_def)
  next
    case False
    then have "\<not> entry_has (bus_devices b ! i) a"
      using find_entry_eq [OF wf(2) assms(2)] by blast
    then show ?thesis
      using False assms(2-4) find_entry_Some [of "bus_devices b" a]
      by (auto simp: bus_byte_def patch_def entry_has_def split: option.splits)
  qed
  moreover have "bus_byte writable (set_device b i d) a = bus_byte writable b a" for a
    using assms(2,8) find_entry_Some [of "bus_devices b" a]
    by (cases "find_entry (bus_devices b) a") (auto simp: bus_byte_def)
  ultimately show ?thesis by (simp add: written_def bus_size_def fun_eq_iff)
qed

lemma chunk_write:
  assumes "ok_bus ops ok b" "s \<le> cur" "cur < e" "e \<le> unat (bus_size ops b)"
    "length data = e - s" "bulk_next b s e cur = Inr (Some (ch, cur'))"
  shows "\<exists>b'. chunk_write_bulk ops b ch data = Inr b' \<and>
    written b cur (slice data (cur - s) (cur' - cur)) b'"
proof -
  have e: "e < 2 ^ 64" using assms(4) unat_lt_max [of "bus_size ops b"] by simp
  show ?thesis
  proof (cases rule: bulk_next_cases [OF assms(2,3) e, of b, case_names device gap])
    case (device i c)
    have i: "i < length (bus_devices b)"
        "unat (range_start (ent_range (bus_devices b ! i))) \<le> cur"
      using find_entry_Some [OF device(1)] by (auto simp: entry_has_def)
    have c: "c = ch" "cur' = cur + (ch_end ch - ch_start ch)" using device(8) assms(6) by auto
    define part where "part = slice data (ch_start ch) (ch_end ch - ch_start ch)"
    have len: "length part = ch_end ch - ch_start ch"
      using device(3-5) c assms(5) by (simp add: part_def)
    note room = entry_room [OF assms(1) i(1) device(2,6) i(2) device(7)]
    obtain d where d: "dev_write_bulk ops (ent_device (bus_devices b ! i)) (ch_offset ch) part = Inr d"
      "ok d" "dev_size ops d = dev_size ops (ent_device (bus_devices b ! i))"
      "byte_at d = patch (byte_at (ent_device (bus_devices b ! i)))
         (writable (ent_device (bus_devices b ! i))) (unat (ch_offset ch)) part"
      "writable d = writable (ent_device (bus_devices b ! i))"
      using write_bulk_law [OF room(2), of "ch_offset ch" part] room(1) c len by auto
    have "written b cur part (set_device b i d)"
      using d device(6,7) c len i by (intro written_entry [OF assms(1)]) auto
    then show ?thesis
      using d(1) device(2,3) c by (simp add: chunk_write_bulk_def part_def)
  next
    case (gap c)
    have c: "c = ch" "cur' = Suc cur" using gap(6) assms(6) by auto
    define part where "part = slice data (ch_start ch) 1"
    have len: "length part = 1" using gap(3,4) c assms(2,3,5) by (simp add: part_def)
    have def: "ok (bus_default b)" using assms(1) by (simp add: ok_bus_def)
    obtain d where d: "dev_write_bulk ops (bus_default b) (ch_offset ch) part = Inr d"
      "ok d" "dev_size ops d = dev_size ops (bus_default b)"
      "byte_at d = patch (byte_at (bus_default b)) (writable (bus_default b)) cur part"
      "writable d = writable (bus_default b)"
      using write_bulk_law [OF def, of "ch_offset ch" part] gap(5) c len assms(3,4)
      by (auto simp: bus_size_def)
    have "bus_byte byte_at (b\<lparr>bus_default := d\<rparr>) a =
        patch (bus_byte byte_at b) (bus_byte writable b) cur part a" for a
      using d(4) gap(1) len by (cases "a = cur") (auto simp: bus_byte_def patch_def split: option.splits)
    moreover have "bus_byte writable (b\<lparr>bus_default := d\<rparr>) a = bus_byte writable b a" for a
      using d(5) by (simp add: bus_byte_def split: option.splits)
    ultimately have "written b cur part (b\<lparr>bus_default := d\<rparr>)"
      using assms(1) d(2,3) by (simp add: written_def ok_bus_def wf_bus_def bus_size_def fun_eq_iff)
    then show ?thesis
      using d(1) gap(2,3,4) c by (simp add: chunk_write_bulk_def part_def)
  qed
qed

lemma written_trans:
  assumes "written b off xs b1" "written b1 (off + length xs) ys b2"
  shows "written b off (xs @ ys) b2"
  using assms by (simp add: written_def patch_append)

lemma bus_write_loop_bytes:
  assumes "ok_bus ops ok b" "s \<le> cur" "cur \<le> e" "e \<le> unat (bus_size ops b)" "length data = e - s"
  shows "\<exists>b'. bus_write_loop ops b s e data cur = Inr b' \<and> written b cur (drop (cur - s) data) b'"
  using assms(1-4)
proof (induction "e - cur" arbitrary: b cur rule: less_induct)
  case less
  have e: "e < 2 ^ 64" using less(5) unat_lt_max [of "bus_size ops b"] by simp
  show ?case
  proof (cases "cur < e")
    case True
    obtain ch cur' where n: "bulk_next b s e cur = Inr (Some (ch, cur'))" "cur < cur'" "cur' \<le> e"
      using bulk_next_ok [OF less(3) True e, of b] by metis
    obtain b1 where b1: "chunk_write_bulk ops b ch data = Inr b1"
        "written b cur (slice data (cur - s) (cur' - cur)) b1"
      using chunk_write [OF less(2,3) True less(5) assms(5) n(1)] by blast
    have lt: "e - cur' < e - cur" using n by simp
    obtain b2 where b2: "bus_write_loop ops b1 s e data cur' = Inr b2"
        "written b1 cur' (drop (cur' - s) data) b2"
      using less(1) [OF lt, of b1] b1(2) n less(3,5) by (fastforce simp: written_def)
    have "length (slice data (cur - s) (cur' - cur)) = cur' - cur"
      using n less(3) assms(5) by simp
    then have "written b cur (slice data (cur - s) (cur' - cur) @ drop (cur' - s) data) b2"
      using b2(2) n by (intro written_trans [OF b1(2)]) simp
    moreover have "slice data (cur - s) (cur' - cur) @ drop (cur' - s) data = drop (cur - s) data"
      using n less(3) by (simp add: slice_def append_take_drop_slice)
    ultimately show ?thesis
      using b1(1) b2(1) n(1) by (subst bus_write_loop.simps) simp
  next
    case False
    then show ?thesis using less(2-4) assms(5)
      by (subst bus_write_loop.simps) (simp add: bulk_next_done written_def)
  qed
qed

text \<open>The bus is again a device of the contract.\<close>

lemma bus_contract:
  "bulk_device (bus_ops ops) (ok_bus ops ok) (bus_byte byte_at) (bus_byte writable)"
proof
  fix b :: "'d bus" and off :: u64 and n :: nat
  assume a: "ok_bus ops ok b" "unat off + n \<le> unat (dev_size (bus_ops ops) b)"
  then have "unat off + n < 2 ^ 64" using unat_lt_max [of "bus_size ops b"] by (simp add: bus_ops_def)
  then show "dev_read_bulk (bus_ops ops) b off n =
      Inr (map (bus_byte byte_at b) [unat off..<unat off + n])"
    using a bus_read_loop_bytes [of b "unat off" "unat off" "unat off + n"]
    by (simp add: bus_ops_def bus_read_bulk_def)
next
  fix b :: "'d bus" and off :: u64 and bs :: "u8 list"
  assume a: "ok_bus ops ok b" "unat off + length bs \<le> unat (dev_size (bus_ops ops) b)"
  then have "unat off + length bs < 2 ^ 64"
    using unat_lt_max [of "bus_size ops b"] by (simp add: bus_ops_def)
  then show "\<exists>b'. dev_write_bulk (bus_ops ops) b off bs = Inr b' \<and> ok_bus ops ok b' \<and>
      dev_size (bus_ops ops) b' = dev_size (bus_ops ops) b \<and>
      bus_byte byte_at b' = patch (bus_byte byte_at b) (bus_byte writable b) (unat off) bs \<and>
      bus_byte writable b' = bus_byte writable b"
    using a bus_write_loop_bytes [of b "unat off" "unat off" "unat off + length bs" bs]
    by (auto simp: bus_ops_def bus_write_bulk_def written_def)
qed

end

end
