(* ===== verification/RegisterSet.thy ===== *)
theory RegisterSet
  imports BusContract
begin

text \<open>
  MMIO register files (\<open>src/device/register_set.rs\<close>): the builder with its writability masks, and the
  byte semantics of guest accesses. The const generic \<open>SIZE\<close> is the length of the data; every
  builder method returns the fault it would panic with. One-indexed arrays
  (\<open>src/one_indexed_array/mod.rs\<close>) are here too: ports, slots and endpoints are numbered from one.
\<close>

section \<open>One-indexed arrays\<close>

text \<open>The index is a \<open>usize\<close>; \<open>index.wrapping_sub(1)\<close> turns zero into the largest one.\<close>

definition below :: "nat \<Rightarrow> nat" where
  "below i = (if i = 0 then 2 ^ 64 - 1 else i - 1)"

definition one_get :: "'a list \<Rightarrow> nat \<Rightarrow> 'a option" where
  "one_get xs i = (if below i < length xs then Some (xs ! below i) else None)"

definition one_index :: "'a list \<Rightarrow> nat \<Rightarrow> 'a res" where
  "one_index xs i = (if below i < length xs then Inr (xs ! below i) else Inl OutOfBounds)"

definition one_put :: "'a list \<Rightarrow> nat \<Rightarrow> 'a \<Rightarrow> 'a list res" where
  "one_put xs i x = (if below i < length xs then Inr (xs[below i := x]) else Inl OutOfBounds)"

definition one_enumerate :: "'a list \<Rightarrow> (nat \<times> 'a) list" where
  "one_enumerate xs = map (\<lambda>(i, e). (i + 1, e)) (zip [0..<length xs] xs)"

lemma below_iff: "length xs < 2 ^ 64 \<Longrightarrow> below i < length xs \<longleftrightarrow> 1 \<le> i \<and> i \<le> length xs"
  by (cases i) (auto simp: below_def)

lemma one_get_iff:
  "length xs < 2 ^ 64 \<Longrightarrow> one_get xs i = Some x \<longleftrightarrow> 1 \<le> i \<and> i \<le> length xs \<and> xs ! (i - 1) = x"
  by (auto simp: one_get_def below_iff below_def)

lemma one_get_0 [simp]: "length xs < 2 ^ 64 \<Longrightarrow> one_get xs 0 = None"
  by (simp add: one_get_def below_def)

lemma one_index_in [simp]: "i < length xs \<Longrightarrow> one_index xs (Suc i) = Inr (xs ! i)"
  by (simp add: one_index_def below_def)

lemma one_put_in [simp]: "i < length xs \<Longrightarrow> one_put xs (Suc i) x = Inr (xs[i := x])"
  by (simp add: one_put_def below_def)

lemma one_get_in [simp]: "i < length xs \<Longrightarrow> one_get xs (Suc i) = Some (xs ! i)"
  by (simp add: one_get_def below_def)

section \<open>The builder\<close>

record register_set_builder =
  rb_data :: "u8 list"
  rb_rw_mask :: "u8 list"
  rb_w1c_mask :: "u8 list"

record register_set =
  rs_data :: "u8 list"
  rs_rw_mask :: "u8 list"
  rs_w1c_mask :: "u8 list"

definition rb_new :: "nat \<Rightarrow> register_set_builder" where
  "rb_new sz = \<lparr>rb_data = replicate sz 0xFF, rb_rw_mask = replicate sz 0, rb_w1c_mask = replicate sz 0\<rparr>"

definition init_u8 :: "register_set_builder \<Rightarrow> nat \<Rightarrow> u8 \<Rightarrow> u8 \<Rightarrow> u8 \<Rightarrow> register_set_builder res" where
  "init_u8 b pos v wm w1c =
     rbind (require (pos < length (rb_data b)) AssertFailed) (\<lambda>_.
     Inr (b\<lparr>rb_data := (rb_data b)[pos := v], rb_rw_mask := (rb_rw_mask b)[pos := wm],
            rb_w1c_mask := (rb_w1c_mask b)[pos := w1c]\<rparr>))"

fun init_bytes ::
  "register_set_builder \<Rightarrow> nat \<Rightarrow> u8 list \<Rightarrow> u8 list \<Rightarrow> u8 list \<Rightarrow> register_set_builder res" where
  "init_bytes b pos (v # vs) (m # ms) (c # cs) =
     rbind (init_u8 b pos v m c) (\<lambda>b'. init_bytes b' (pos + 1) vs ms cs)"
| "init_bytes b pos _ _ _ = Inr b"

definition init_u8_slice ::
  "register_set_builder \<Rightarrow> nat \<Rightarrow> u8 list \<Rightarrow> u8 list \<Rightarrow> u8 list \<Rightarrow> register_set_builder res" where
  "init_u8_slice b pos vs ms cs =
     rbind (require (length vs = length ms) AssertFailed) (\<lambda>_.
     rbind (require (length vs = length cs) AssertFailed) (\<lambda>_.
     init_bytes b pos vs ms cs))"

definition init_u16_le :: "register_set_builder \<Rightarrow> nat \<Rightarrow> u16 \<Rightarrow> u16 \<Rightarrow> u16 \<Rightarrow> register_set_builder res" where
  "init_u16_le b pos v m c = init_u8_slice b pos (le_bytes 2 v) (le_bytes 2 m) (le_bytes 2 c)"

definition init_u32_le :: "register_set_builder \<Rightarrow> nat \<Rightarrow> u32 \<Rightarrow> u32 \<Rightarrow> u32 \<Rightarrow> register_set_builder res" where
  "init_u32_le b pos v m c = init_u8_slice b pos (le_bytes 4 v) (le_bytes 4 m) (le_bytes 4 c)"

definition init_u64_le :: "register_set_builder \<Rightarrow> nat \<Rightarrow> u64 \<Rightarrow> u64 \<Rightarrow> u64 \<Rightarrow> register_set_builder res" where
  "init_u64_le b pos v m c = init_u8_slice b pos (le_bytes 8 v) (le_bytes 8 m) (le_bytes 8 c)"

definition u8_at where "u8_at pos v m b = init_u8 b pos v m 0"
definition u8_ro_at where "u8_ro_at pos v b = u8_at pos v 0 b"
definition u8_rw_at where "u8_rw_at pos v b = u8_at pos v 0xFF b"
definition u8_w1c_at where "u8_w1c_at pos v b = init_u8 b pos v 0 0xFF"
definition u16_le_at where "u16_le_at pos v m b = init_u16_le b pos v m 0"
definition u16_le_ro_at where "u16_le_ro_at pos v b = u16_le_at pos v 0 b"
definition u16_le_rw_at where "u16_le_rw_at pos v b = u16_le_at pos v 0xFFFF b"
definition u16_le_w1c_at where "u16_le_w1c_at pos v b = init_u16_le b pos v 0 0xFFFF"
definition u32_le_at where "u32_le_at pos v m b = init_u32_le b pos v m 0"
definition u32_le_ro_at where "u32_le_ro_at pos v b = u32_le_at pos v 0 b"
definition u32_le_rw_at where "u32_le_rw_at pos v b = u32_le_at pos v 0xFFFFFFFF b"
definition u32_le_w1c_at where "u32_le_w1c_at pos v b = init_u32_le b pos v 0 0xFFFFFFFF"
definition u64_le_at where "u64_le_at pos v m b = init_u64_le b pos v m 0"
definition u64_le_ro_at where "u64_le_ro_at pos v b = u64_le_at pos v 0 b"
definition u64_le_rw_at where "u64_le_rw_at pos v b = u64_le_at pos v 0xFFFFFFFFFFFFFFFF b"
definition u64_le_w1c_at where "u64_le_w1c_at pos v b = init_u64_le b pos v 0 0xFFFFFFFFFFFFFFFF"

definition register_set_at :: "nat \<Rightarrow> register_set \<Rightarrow> register_set_builder \<Rightarrow> register_set_builder res" where
  "register_set_at pos regs b =
     rbind (require (length (rs_data regs) \<le> length (rb_data b)) AssertFailed) (\<lambda>_.
     rbind (require (pos + length (rs_data regs) \<le> length (rb_data b)) AssertFailed) (\<lambda>_.
     Inr (b\<lparr>rb_data := overwrite (rb_data b) pos (rs_data regs),
            rb_rw_mask := overwrite (rb_rw_mask b) pos (rs_rw_mask regs),
            rb_w1c_mask := overwrite (rb_w1c_mask b) pos (rs_w1c_mask regs)\<rparr>)))"

definition rb_build :: "register_set_builder \<Rightarrow> register_set res" where
  "rb_build b =
     rbind (require (list_all2 (\<lambda>m c. m AND c = 0) (rb_rw_mask b) (rb_w1c_mask b)) AssertFailed) (\<lambda>_.
     Inr \<lparr>rs_data = rb_data b, rs_rw_mask = rb_rw_mask b, rs_w1c_mask = rb_w1c_mask b\<rparr>)"

section \<open>Accesses\<close>

definition byte_index :: "u8 list \<Rightarrow> u64 \<Rightarrow> u8 res" where
  "byte_index bs a = (if unat a < length bs then Inr (bs ! unat a) else Inl OutOfBounds)"

text \<open>\<open>write_direct\<close>: the device's own update, whatever the masks.\<close>

fun write_direct_loop :: "register_set \<Rightarrow> (request \<times> u8) list \<Rightarrow> register_set res" where
  "write_direct_loop r [] = Inr r"
| "write_direct_loop r ((q, v) # qs) =
     rbind (byte_index (rs_data r) (req_addr q)) (\<lambda>_.
     write_direct_loop (r\<lparr>rs_data := (rs_data r)[unat (req_addr q) := v]\<rparr>) qs)"

definition rs_write_direct :: "register_set \<Rightarrow> request \<Rightarrow> u64 \<Rightarrow> register_set res" where
  "rs_write_direct r req v =
     rbind (iter_bytes req) (\<lambda>qs. write_direct_loop r (zip qs (le_bytes 8 v)))"

text \<open>A guest write: writable bits take the new value, W1C bits written with one are cleared.\<close>

definition guest_byte :: "u8 \<Rightarrow> u8 \<Rightarrow> u8 \<Rightarrow> u8 \<Rightarrow> u8" where
  "guest_byte old rw w1c v = ((old AND NOT rw) OR (v AND rw)) AND NOT (v AND w1c)"

fun rs_write_loop :: "register_set \<Rightarrow> (request \<times> u8) list \<Rightarrow> register_set res" where
  "rs_write_loop r [] = Inr r"
| "rs_write_loop r ((q, v) # qs) =
     rbind (byte_index (rs_rw_mask r) (req_addr q)) (\<lambda>rw.
     rbind (byte_index (rs_data r) (req_addr q)) (\<lambda>old.
     rbind (byte_index (rs_w1c_mask r) (req_addr q)) (\<lambda>w1c.
     rs_write_loop (r\<lparr>rs_data := (rs_data r)[unat (req_addr q) := guest_byte old rw w1c v]\<rparr>) qs)))"

definition rs_write :: "register_set \<Rightarrow> request \<Rightarrow> u64 \<Rightarrow> register_set res" where
  "rs_write r req v = rbind (iter_bytes req) (\<lambda>qs. rs_write_loop r (zip qs (le_bytes 8 v)))"

text \<open>\<open>fold_iter_le\<close>: more than eight bytes are a panic.\<close>

fun fold_le :: "nat \<Rightarrow> u64 \<Rightarrow> u8 list \<Rightarrow> u64 res" where
  "fold_le pos acc [] = Inr acc"
| "fold_le pos acc (b # bs) =
     rbind (require (pos < 8) AssertFailed) (\<lambda>_.
     fold_le (Suc pos) (acc OR push_bit (8 * pos) (ucast b)) bs)"

fun index_all :: "u8 list \<Rightarrow> request list \<Rightarrow> u8 list res" where
  "index_all bs [] = Inr []"
| "index_all bs (q # qs) =
     rbind (byte_index bs (req_addr q)) (\<lambda>v. rbind (index_all bs qs) (\<lambda>vs. Inr (v # vs)))"

definition rs_read :: "register_set \<Rightarrow> request \<Rightarrow> u64 res" where
  "rs_read r req = rbind (iter_bytes req) (\<lambda>qs. rbind (index_all (rs_data r) qs) (fold_le 0 0))"

definition rs_size :: "register_set \<Rightarrow> u64" where
  "rs_size r = of_nat (length (rs_data r))"

section \<open>What an access does\<close>

definition wf_rs :: "register_set \<Rightarrow> bool" where
  "wf_rs r \<longleftrightarrow> length (rs_rw_mask r) = length (rs_data r) \<and> length (rs_w1c_mask r) = length (rs_data r) \<and>
     length (rs_data r) < 2 ^ 64 \<and> list_all2 (\<lambda>m c. m AND c = 0) (rs_rw_mask r) (rs_w1c_mask r)"

text \<open>The data after a guest wrote the bytes \<open>bs\<close> at \<open>p\<close>.\<close>

definition guest_patch :: "register_set \<Rightarrow> nat \<Rightarrow> u8 list \<Rightarrow> u8 list" where
  "guest_patch r p bs = map (\<lambda>i. if p \<le> i \<and> i < p + length bs
     then guest_byte (rs_data r ! i) (rs_rw_mask r ! i) (rs_w1c_mask r ! i) (bs ! (i - p))
     else rs_data r ! i) [0..<length (rs_data r)]"

lemma length_guest_patch [simp]: "length (guest_patch r p bs) = length (rs_data r)"
  by (simp add: guest_patch_def)

definition byte_requests :: "u64 \<Rightarrow> nat \<Rightarrow> request list" where
  "byte_requests a n = map (\<lambda>i. request_new (a + of_nat i) Size1) [0..<n]"

lemma byte_requests_Suc:
  "byte_requests a (Suc n) = request_new a Size1 # byte_requests (a + 1) n"
  by (simp add: byte_requests_def upt_conv_Cons map_Suc_upt [symmetric] del: upt_Suc) (simp add: add.assoc)

lemma byte_requests_0 [simp]: "byte_requests a 0 = []" by (simp add: byte_requests_def)

lemma iter_bytes_in:
  "unat a + size_bytes sz < 2 ^ 64 \<Longrightarrow>
     iter_bytes (request_new a sz) = Inr (byte_requests a (size_bytes sz))"
  by (cases sz) (simp_all add: iter_bytes_def byte_requests_def request_new_def checked_add_def)

lemma fold_le_in:
  "pos + length bs \<le> 8 \<Longrightarrow> fold_le pos acc bs = Inr (acc OR push_bit (8 * pos) (of_le_bytes bs))"
  by (induction bs arbitrary: pos acc) (simp_all add: push_bit_or or.assoc add.commute)

lemma unat_Suc_lt: "unat a + Suc n \<le> k \<Longrightarrow> k < 2 ^ 64 \<Longrightarrow> unat (a + 1 :: u64) = Suc (unat a)"
  by (simp add: unat_add_lt)

lemma index_all_in:
  "unat a + n \<le> length bs \<Longrightarrow> length bs < 2 ^ 64 \<Longrightarrow>
     index_all bs (byte_requests a n) = Inr (slice bs (unat a) n)"
proof (induction n arbitrary: a)
  case (Suc n)
  have "slice bs (unat a) (Suc n) = bs ! unat a # slice bs (Suc (unat a)) n"
    using Suc.prems by (simp add: slice_def Cons_nth_drop_Suc [symmetric])
  then show ?case
    using Suc.IH [of "a + 1"] Suc.prems unat_Suc_lt [OF Suc.prems]
    by (simp add: byte_requests_Suc byte_index_def request_new_def)
qed (simp add: slice_def)

lemma size_bytes_le_8: "size_bytes sz \<le> 8" by (cases sz) simp_all

lemma rs_read_in:
  assumes "wf_rs r" "unat a + size_bytes sz \<le> length (rs_data r)"
  shows "rs_read r (request_new a sz) = Inr (of_le_bytes (slice (rs_data r) (unat a) (size_bytes sz)))"
proof -
  have "length (rs_data r) < 2 ^ 64" using assms(1) by (simp add: wf_rs_def)
  then show ?thesis
    using assms(2) size_bytes_le_8 [of sz]
    by (simp add: rs_read_def iter_bytes_in index_all_in fold_le_in)
qed

lemma guest_patch_Cons:
  assumes "p + Suc (length bs) \<le> length (rs_data r)"
  shows "guest_patch (r\<lparr>rs_data := (rs_data r)[p := guest_byte (rs_data r ! p) (rs_rw_mask r ! p) (rs_w1c_mask r ! p) b]\<rparr>)
      (Suc p) bs = guest_patch r p (b # bs)"
  using assms by (intro nth_equalityI) (auto simp: guest_patch_def nth_list_update nth_Cons' le_Suc_eq)

lemma rs_write_loop_in:
  assumes "length (rs_rw_mask r) = length (rs_data r)" "length (rs_w1c_mask r) = length (rs_data r)"
    "unat a + length bs \<le> length (rs_data r)" "length (rs_data r) < 2 ^ 64"
  shows "rs_write_loop r (zip (byte_requests a (length bs)) bs) =
    Inr (r\<lparr>rs_data := guest_patch r (unat a) bs\<rparr>)"
  using assms
proof (induction bs arbitrary: a r)
  case Nil
  have "guest_patch r (unat a) [] = rs_data r"
    by (rule nth_equalityI) (auto simp: guest_patch_def)
  then show ?case by simp
next
  case (Cons b bs)
  let ?r = "r\<lparr>rs_data := (rs_data r)[unat a := guest_byte (rs_data r ! unat a) (rs_rw_mask r ! unat a)
      (rs_w1c_mask r ! unat a) b]\<rparr>"
  have u: "unat (a + 1) = Suc (unat a)" using unat_Suc_lt [of a "length bs"] Cons.prems(3,4) by simp
  have "rs_write_loop ?r (zip (byte_requests (a + 1) (length bs)) bs) =
      Inr (?r\<lparr>rs_data := guest_patch ?r (Suc (unat a)) bs\<rparr>)"
    using Cons.IH [of ?r "a + 1"] Cons.prems u by simp
  then show ?case
    using Cons.prems guest_patch_Cons [of "unat a" bs r b]
    by (simp add: byte_requests_Suc byte_index_def request_new_def)
qed

lemma rs_write_in:
  assumes "wf_rs r" "unat a + size_bytes sz \<le> length (rs_data r)"
  shows "rs_write r (request_new a sz) v =
    Inr (r\<lparr>rs_data := guest_patch r (unat a) (le_bytes (size_bytes sz) v)\<rparr>)"
proof -
  have lt: "length (rs_data r) < 2 ^ 64" using assms(1) by (simp add: wf_rs_def)
  have "zip (byte_requests a (size_bytes sz)) (le_bytes 8 v) =
      zip (byte_requests a (size_bytes sz)) (le_bytes (size_bytes sz) v)"
    by (cases sz) (simp_all add: le_bytes_def byte_requests_def upt_rec)
  then show ?thesis
    using rs_write_loop_in [of r a "le_bytes (size_bytes sz) v"] assms lt
    by (simp add: rs_write_def iter_bytes_in wf_rs_def)
qed

lemma rs_write_wf [inv_intros]:
  "wf_rs r \<Longrightarrow> unat a + size_bytes sz \<le> length (rs_data r) \<Longrightarrow> rs_write r (request_new a sz) v = Inr r' \<Longrightarrow>
     wf_rs r' \<and> rs_rw_mask r' = rs_rw_mask r \<and> rs_w1c_mask r' = rs_w1c_mask r \<and>
     length (rs_data r') = length (rs_data r)"
  by (auto simp: rs_write_in wf_rs_def)

lemma index_all_out:
  "index_all bs (byte_requests a n) = Inr vs \<Longrightarrow> unat a + n < 2 ^ 64 \<Longrightarrow> 0 < n \<Longrightarrow> unat a + n \<le> length bs"
proof (induction n arbitrary: a vs)
  case (Suc n)
  have here: "unat a < length bs"
    using Suc.prems(1) by (auto simp: byte_requests_Suc byte_index_def request_new_def split: if_splits)
  show ?case
  proof (cases "n = 0")
    case True
    then show ?thesis using here by simp
  next
    case False
    have u: "unat (a + 1) = Suc (unat a)" using Suc.prems(2) by (simp add: unat_add_lt)
    then show ?thesis using Suc.IH [of "a + 1"] Suc.prems False by (auto simp: byte_requests_Suc)
  qed
qed simp

lemma rs_write_loop_out:
  "rs_write_loop r (zip (byte_requests a (length bs)) bs) = Inr r' \<Longrightarrow> unat a + length bs < 2 ^ 64 \<Longrightarrow> bs \<noteq> [] \<Longrightarrow>
     unat a + length bs \<le> length (rs_data r)"
proof (induction bs arbitrary: a r)
  case (Cons b bs)
  obtain r1 where here: "unat a < length (rs_data r)" and
    r1: "rs_write_loop r1 (zip (byte_requests (a + 1) (length bs)) bs) = Inr r'" "length (rs_data r1) = length (rs_data r)"
    using Cons.prems(1) by (auto simp: byte_requests_Suc byte_index_def request_new_def split: if_splits)
  show ?case
  proof (cases "bs = []")
    case True
    then show ?thesis using here by simp
  next
    case False
    have "unat (a + 1) = Suc (unat a)" using Cons.prems(2) by (simp add: unat_add_lt)
    then show ?thesis using Cons.IH [OF r1(1)] Cons.prems r1(2) False by simp
  qed
qed simp

definition in_range :: "register_set \<Rightarrow> request \<Rightarrow> bool" where
  "in_range r req \<longleftrightarrow> unat (req_addr req) + size_bytes (req_size req) \<le> length (rs_data r)"

lemma size_bytes_pos [simp]: "0 < size_bytes sz" by (cases sz) simp_all

lemma iter_bytes_Inr:
  "iter_bytes req = Inr qs \<Longrightarrow> unat (req_addr req) + size_bytes (req_size req) < 2 ^ 64 \<and>
     qs = byte_requests (req_addr req) (size_bytes (req_size req))"
  by (cases "req_size req") (auto simp: iter_bytes_def byte_requests_def checked_add_def split: if_splits)

lemma request_eta: "request_new (req_addr req) (req_size req) = req"
  by (simp add: request_new_def)

lemma zip_le_bytes:
  "zip (byte_requests a (size_bytes sz)) (le_bytes 8 v) =
     zip (byte_requests a (size_bytes sz)) (le_bytes (size_bytes sz) (v :: u64))"
  by (cases sz) (simp_all add: le_bytes_def byte_requests_def upt_rec)

lemma rs_read_ok_iff: "wf_rs r \<Longrightarrow> is_ok (rs_read r req) \<longleftrightarrow> in_range r req"
proof
  assume "wf_rs r" "in_range r req"
  then show "is_ok (rs_read r req)"
    using rs_read_in [of r "req_addr req" "req_size req"] by (simp add: in_range_def request_eta)
next
  assume "is_ok (rs_read r req)"
  then obtain v where "rs_read r req = Inr v" by (cases "rs_read r req") auto
  then obtain qs vs where qs: "iter_bytes req = Inr qs" "index_all (rs_data r) qs = Inr vs"
    by (auto simp: rs_read_def)
  then show "in_range r req"
    using iter_bytes_Inr [OF qs(1)] index_all_out [of "rs_data r" "req_addr req" "size_bytes (req_size req)" vs]
    by (simp add: in_range_def)
qed

lemma rs_write_ok_iff: "wf_rs r \<Longrightarrow> is_ok (rs_write r req v) \<longleftrightarrow> in_range r req"
proof
  assume "wf_rs r" "in_range r req"
  then show "is_ok (rs_write r req v)"
    using rs_write_in [of r "req_addr req" "req_size req"] by (simp add: in_range_def request_eta)
next
  assume "is_ok (rs_write r req v)"
  then obtain r' where "rs_write r req v = Inr r'" by (cases "rs_write r req v") auto
  then obtain qs where qs: "iter_bytes req = Inr qs" "rs_write_loop r (zip qs (le_bytes 8 v)) = Inr r'"
    by (auto simp: rs_write_def)
  let ?bs = "le_bytes (size_bytes (req_size req)) v"
  have "rs_write_loop r (zip (byte_requests (req_addr req) (length ?bs)) ?bs) = Inr r'"
    using qs iter_bytes_Inr [OF qs(1)] by (simp add: zip_le_bytes)
  then show "in_range r req"
    using rs_write_loop_out [of r "req_addr req" ?bs r'] iter_bytes_Inr [OF qs(1)] size_bytes_pos [of "req_size req"]
    by (simp add: in_range_def flip: length_0_conv)
qed

lemma disjoint_masks: "wf_rs r \<Longrightarrow> i < length (rs_data r) \<Longrightarrow> rs_rw_mask r ! i AND rs_w1c_mask r ! i = 0"
  by (auto simp: wf_rs_def list_all2_conv_all_nth)

lemma bit_guest_byte:
  assumes "m AND c = 0" "k < 8"
  shows "bit (guest_byte old m c v) k = (if bit m k then bit v k else if bit c k then bit old k \<and> \<not> bit v k else bit old k)"
proof -
  have "\<not> (bit m k \<and> bit c k)" using assms(1) by (metis bit_0_eq bit_and_iff bot_apply bot_bool_def)
  then show ?thesis using assms(2) by (auto simp: guest_byte_def bit_simps)
qed

text \<open>
  Register semantics. An access panics exactly when it leaves the register file; a guest write
  keeps the masks, and it changes exactly the addressed bits the masks allow: writable bits take the
  written value, write-one-to-clear bits written with one become zero, everything else stays.
\<close>

theorem register_access:
  assumes "wf_rs r"
  shows "(is_ok (rs_read r req) \<longleftrightarrow> in_range r req) \<and> (is_ok (rs_write r req v) \<longleftrightarrow> in_range r req) \<and>
    (\<forall>r'. rs_write r req v = Inr r' \<longrightarrow> wf_rs r' \<and> rs_rw_mask r' = rs_rw_mask r \<and>
       rs_w1c_mask r' = rs_w1c_mask r \<and> length (rs_data r') = length (rs_data r) \<and>
       (\<forall>i < length (rs_data r). \<forall>k < 8. bit (rs_data r' ! i) k =
         (if i < unat (req_addr req) \<or> unat (req_addr req) + size_bytes (req_size req) \<le> i then bit (rs_data r ! i) k
          else let w = bit v (8 * (i - unat (req_addr req)) + k) in
            if bit (rs_rw_mask r ! i) k then w
            else if bit (rs_w1c_mask r ! i) k then bit (rs_data r ! i) k \<and> \<not> w
            else bit (rs_data r ! i) k)))"
proof -
  let ?a = "req_addr req" and ?sz = "req_size req"
  have "wf_rs r' \<and> rs_rw_mask r' = rs_rw_mask r \<and>
       rs_w1c_mask r' = rs_w1c_mask r \<and> length (rs_data r') = length (rs_data r) \<and>
       (\<forall>i < length (rs_data r). \<forall>k < 8. bit (rs_data r' ! i) k =
         (if i < unat ?a \<or> unat ?a + size_bytes ?sz \<le> i then bit (rs_data r ! i) k
          else let w = bit v (8 * (i - unat ?a) + k) in
            if bit (rs_rw_mask r ! i) k then w
            else if bit (rs_w1c_mask r ! i) k then bit (rs_data r ! i) k \<and> \<not> w
            else bit (rs_data r ! i) k))" if w: "rs_write r req v = Inr r'" for r'
  proof -
    have range: "unat ?a + size_bytes ?sz \<le> length (rs_data r)"
      using rs_write_ok_iff [OF assms, of req v] w by (simp add: in_range_def)
    have r': "r' = r\<lparr>rs_data := guest_patch r (unat ?a) (le_bytes (size_bytes ?sz) v)\<rparr>"
      using rs_write_in [OF assms range, of v] w by (simp add: request_eta)
    have "bit (le_bytes (size_bytes ?sz) v ! j) k = bit v (8 * j + k)" if "j < size_bytes ?sz" "k < 8" for j k
      using that by (simp add: bit_simps)
    then show ?thesis
      using rs_write_wf [OF assms range, of v r'] w disjoint_masks [OF assms]
      by (auto simp: request_eta r' guest_patch_def bit_guest_byte Let_def)
  qed
  then show ?thesis using rs_read_ok_iff [OF assms] rs_write_ok_iff [OF assms] by blast
qed

theorem register_access_witness:
  "is_ok (rs_read \<lparr>rs_data = [0xAB, 1], rs_rw_mask = [0x0F, 0], rs_w1c_mask = [0, 1]\<rparr> (request_new 0 Size2))"
  using register_access [of "\<lparr>rs_data = [0xAB, 1], rs_rw_mask = [0x0F, 0], rs_w1c_mask = [0, 1]\<rparr>" "request_new 0 Size2" 0]
  by (simp add: wf_rs_def in_range_def request_new_def)

end
