(* ===== verification/PciConfig.thy ===== *)
theory PciConfig
  imports RegisterSet
begin

text \<open>
  The PCI Configuration Space (\<open>src/device/pci/config_space.rs\<close>) with its builder, capabilities and
  BARs, and the MSI-X table (\<open>src/device/pci/msix_table.rs\<close>); the constants are those of
  \<open>src/device/pci/constants.rs\<close>. A builder chain is \<open>chain\<close>, which stops at the first panic.
\<close>

fun chain :: "('a \<Rightarrow> 'a res) list \<Rightarrow> 'a \<Rightarrow> 'a res" where
  "chain [] x = Inr x"
| "chain (f # fs) x = rbind (f x) (chain fs)"

section \<open>Constants\<close>

definition CONFIG_SIZE :: nat where "CONFIG_SIZE = 256"
definition MAX_BARS :: nat where "MAX_BARS = 6"
definition CAPABILITY_POINTER_MASK :: u8 where "CAPABILITY_POINTER_MASK = 0xfc"
definition INITIAL_CAPABILITY_OFFSET :: u8 where "INITIAL_CAPABILITY_OFFSET = 0x40"
definition MSIX_MAX_VECTORS :: u16 where "MSIX_MAX_VECTORS = 0x800"
definition MSIX_CONTROL_WRITABLE :: u16 where "MSIX_CONTROL_WRITABLE = 0xC000"
definition COMMAND_WRITABLE_BITS :: u16 where "COMMAND_WRITABLE_BITS = 0x077F"
definition STATUS_CAPABILITIES :: u16 where "STATUS_CAPABILITIES = 0x10"

text \<open>Offsets of the standard fields.\<close>

abbreviation (input) "off_vendor \<equiv> 0x0 :: nat"
abbreviation (input) "off_device \<equiv> 0x2 :: nat"
abbreviation (input) "off_command \<equiv> 0x4 :: nat"
abbreviation (input) "off_status \<equiv> 0x6 :: nat"
abbreviation (input) "off_revision \<equiv> 0x8 :: nat"
abbreviation (input) "off_prog_if \<equiv> 0x9 :: nat"
abbreviation (input) "off_subclass \<equiv> 0xA :: nat"
abbreviation (input) "off_class \<equiv> 0xB :: nat"
abbreviation (input) "off_cache_line_size \<equiv> 0xC :: nat"
abbreviation (input) "off_latency_timer \<equiv> 0xD :: nat"
abbreviation (input) "off_header_type \<equiv> 0xE :: nat"
abbreviation (input) "off_bist \<equiv> 0xF :: nat"
abbreviation (input) "off_bar_0 \<equiv> 0x10 :: nat"
abbreviation (input) "off_subsystem_vendor_id \<equiv> 0x2C :: nat"
abbreviation (input) "off_subsystem_id \<equiv> 0x2E :: nat"
abbreviation (input) "off_rom_bar \<equiv> 0x30 :: nat"
abbreviation (input) "off_capabilities_pointer \<equiv> 0x34 :: nat"
abbreviation (input) "off_irq_line \<equiv> 0x3C :: nat"
abbreviation (input) "off_irq_pin \<equiv> 0x3D :: nat"
abbreviation (input) "off_min_gnt \<equiv> 0x3E :: nat"
abbreviation (input) "off_max_lat \<equiv> 0x3F :: nat"

section \<open>The builder\<close>

datatype request_kind = PortIO | Memory

datatype bar_info = BarInfo (bar_size: u32) (bar_kind: request_kind)

record config_space_builder =
  csb_regs :: register_set_builder
  csb_multifunction :: bool
  csb_revision :: u8
  csb_interrupt_pin :: u8
  csb_interrupt_line :: u8
  csb_status :: u16
  csb_bars :: "bar_info option list"
  csb_next_capability_offset :: u8
  csb_last_capability_pointer :: u8
  csb_has_custom_registers :: bool

record config_space =
  cs_regs :: register_set
  cs_bars :: "bar_info option list"

definition on_regs ::
  "(register_set_builder \<Rightarrow> register_set_builder res) \<Rightarrow> config_space_builder \<Rightarrow> config_space_builder res" where
  "on_regs f b = rbind (f (csb_regs b)) (\<lambda>r. Inr (b\<lparr>csb_regs := r\<rparr>))"

definition csb_new :: "u16 \<Rightarrow> u16 \<Rightarrow> config_space_builder res" where
  "csb_new vendor device =
     rbind (chain ([u16_le_ro_at off_vendor vendor, u16_le_ro_at off_device device,
              u16_le_at off_command 0 COMMAND_WRITABLE_BITS, u8_rw_at off_cache_line_size 0,
              u8_rw_at off_latency_timer 0, u8_ro_at off_bist 0, u32_le_ro_at off_rom_bar 0,
              u8_ro_at off_min_gnt 0, u8_ro_at off_max_lat 0] @
            map (\<lambda>i. u32_le_ro_at (off_bar_0 + i * 4) 0) [0..<MAX_BARS])
          (rb_new CONFIG_SIZE)) (\<lambda>regs. Inr
     \<lparr>csb_regs = regs, csb_multifunction = False, csb_revision = 0, csb_interrupt_pin = 0,
      csb_interrupt_line = 255, csb_status = 0, csb_bars = replicate MAX_BARS None,
      csb_next_capability_offset = INITIAL_CAPABILITY_OFFSET,
      csb_last_capability_pointer = of_nat off_capabilities_pointer,
      csb_has_custom_registers = False\<rparr>)"

definition csb_class :: "u8 \<Rightarrow> u8 \<Rightarrow> u8 \<Rightarrow> config_space_builder \<Rightarrow> config_space_builder res" where
  "csb_class cls subclass prog_if =
     on_regs (chain [u8_ro_at off_class cls, u8_ro_at off_subclass subclass, u8_ro_at off_prog_if prog_if])"

definition csb_subsystem :: "u16 \<Rightarrow> u16 \<Rightarrow> config_space_builder \<Rightarrow> config_space_builder res" where
  "csb_subsystem vendor_id sub_id =
     on_regs (chain [u16_le_ro_at off_subsystem_vendor_id vendor_id, u16_le_ro_at off_subsystem_id sub_id])"

definition csb_set_revision :: "u8 \<Rightarrow> config_space_builder \<Rightarrow> config_space_builder" where
  "csb_set_revision r b = b\<lparr>csb_revision := r\<rparr>"

definition csb_set_multifunction :: "config_space_builder \<Rightarrow> config_space_builder" where
  "csb_set_multifunction b = b\<lparr>csb_multifunction := True\<rparr>"

definition csb_set_interrupt_pin :: "u8 \<Rightarrow> config_space_builder \<Rightarrow> config_space_builder" where
  "csb_set_interrupt_pin irq_pin b = b\<lparr>csb_interrupt_pin := irq_pin\<rparr>"

definition csb_set_interrupt_line :: "u8 \<Rightarrow> config_space_builder \<Rightarrow> config_space_builder" where
  "csb_set_interrupt_line irq_line b = b\<lparr>csb_interrupt_line := irq_line\<rparr>"

definition csb_custom_registers ::
  "(register_set_builder \<Rightarrow> register_set_builder res) \<Rightarrow> config_space_builder \<Rightarrow> config_space_builder res" where
  "csb_custom_registers f b =
     rbind (require (csb_next_capability_offset b = INITIAL_CAPABILITY_OFFSET) AssertFailed) (\<lambda>_.
     rbind (on_regs f b) (\<lambda>b. Inr (b\<lparr>csb_has_custom_registers := True\<rparr>)))"

definition is_power_of_two :: "u32 \<Rightarrow> bool" where
  "is_power_of_two n \<longleftrightarrow> n \<noteq> 0 \<and> n AND (n - 1) = 0"

definition mem32_nonprefetchable_bar :: "u8 \<Rightarrow> u32 \<Rightarrow> config_space_builder \<Rightarrow> config_space_builder res" where
  "mem32_nonprefetchable_bar index sz b =
     rbind (require (unat index < MAX_BARS) AssertFailed) (\<lambda>_.
     rbind (require (csb_bars b ! unat index = None) AssertFailed) (\<lambda>_.
     rbind (require (is_power_of_two sz) AssertFailed) (\<lambda>_.
     rbind (require (16 \<le> sz) AssertFailed) (\<lambda>_.
     rbind (on_regs (u32_le_at (off_bar_0 + unat index * 4) 0 (NOT (sz - 1))) b) (\<lambda>b.
     Inr (b\<lparr>csb_bars := (csb_bars b)[unat index := Some (BarInfo sz Memory)]\<rparr>))))))"

text \<open>
  The alignment of the next capability adds \<open>!usize::from(mask)\<close>, a number close to the largest
  \<open>usize\<close>; the sum is checked.
\<close>

definition capability :: "u8 \<Rightarrow> register_set \<Rightarrow> config_space_builder \<Rightarrow> config_space_builder res" where
  "capability capability_id regs b =
     (let offset = csb_next_capability_offset b;
          next_offset = unat offset + 2 + length (rs_data regs) in
     rbind (require (offset AND NOT CAPABILITY_POINTER_MASK = 0) AssertFailed) (\<lambda>_.
     rbind (require (\<not> csb_has_custom_registers b) AssertFailed) (\<lambda>_.
     rbind (require (next_offset \<le> 255) AssertFailed) (\<lambda>_.
     rbind (of_opt ArithOverflow (checked_add (of_nat next_offset) (NOT (ucast CAPABILITY_POINTER_MASK :: u64)))) (\<lambda>s.
     rbind (on_regs (chain [u8_ro_at (unat (csb_last_capability_pointer b)) offset,
              u8_ro_at (unat offset) capability_id, register_set_at (unat offset + 2) regs]) b) (\<lambda>b.
     rbind (of_opt ArithOverflow (checked_add offset 1)) (\<lambda>lp.
     Inr (b\<lparr>csb_next_capability_offset := ucast s AND CAPABILITY_POINTER_MASK,
            csb_last_capability_pointer := lp\<rparr>))))))))"

definition has_bar :: "config_space_builder \<Rightarrow> u8 \<Rightarrow> request_kind \<Rightarrow> u32 \<Rightarrow> bool res" where
  "has_bar b bar_no kind minimum_size =
     rbind (require (unat bar_no < length (csb_bars b)) OutOfBounds) (\<lambda>_.
     Inr (case csb_bars b ! unat bar_no of
            Some i \<Rightarrow> bar_kind i = kind \<and> minimum_size \<le> bar_size i | None \<Rightarrow> False))"

definition div_ceil :: "u32 \<Rightarrow> u32 \<Rightarrow> u32" where
  "div_ceil a d = (if a mod d = 0 then a div d else a div d + 1)"

definition msix_capability ::
  "u16 \<Rightarrow> u8 \<Rightarrow> u32 \<Rightarrow> u8 \<Rightarrow> u32 \<Rightarrow> config_space_builder \<Rightarrow> config_space_builder res" where
  "msix_capability msix_count table_bar_no table_bar_offset pba_bar_no pba_bar_offset b =
     rbind (require (0 < msix_count) AssertFailed) (\<lambda>_.
     rbind (require (msix_count \<le> MSIX_MAX_VECTORS) AssertFailed) (\<lambda>_.
     rbind (require (table_bar_offset AND 0x3 = 0) AssertFailed) (\<lambda>_.
     rbind (of_opt ArithOverflow (checked_add table_bar_offset (ucast msix_count * 16))) (\<lambda>table_end.
     rbind (has_bar b table_bar_no Memory table_end) (\<lambda>ok1.
     rbind (require ok1 AssertFailed) (\<lambda>_.
     rbind (require (pba_bar_offset AND 0x3 = 0) AssertFailed) (\<lambda>_.
     let pba_bytes = div_ceil (ucast msix_count) 8 in
     rbind (of_opt ArithOverflow (checked_add pba_bar_offset (div_ceil pba_bytes 8))) (\<lambda>pba_end.
     rbind (has_bar b pba_bar_no Memory pba_end) (\<lambda>ok2.
     rbind (require ok2 AssertFailed) (\<lambda>_.
     rbind (chain [u16_le_at 0 (msix_count - 1) MSIX_CONTROL_WRITABLE,
                   u32_le_ro_at 2 (table_bar_offset OR ucast table_bar_no),
                   u32_le_rw_at 6 (pba_bar_offset OR ucast pba_bar_no)] (rb_new 10)) (\<lambda>rb.
     rbind (rb_build rb) (\<lambda>msix_cap.
     capability 0x11 msix_cap b))))))))))))"

definition csb_config_space :: "config_space_builder \<Rightarrow> config_space res" where
  "csb_config_space b =
     rbind (chain [u8_rw_at off_irq_line (csb_interrupt_line b), u8_ro_at off_irq_pin (csb_interrupt_pin b),
              u16_le_ro_at off_status (csb_status b OR
                (if csb_next_capability_offset b = INITIAL_CAPABILITY_OFFSET then 0 else STATUS_CAPABILITIES)),
              u8_ro_at off_revision (csb_revision b),
              u8_ro_at off_header_type (0 OR (if csb_multifunction b then 0x80 else 0)),
              u8_ro_at (unat (csb_last_capability_pointer b)) 0] (csb_regs b)) (\<lambda>rb.
     rbind (rb_build rb) (\<lambda>r. Inr \<lparr>cs_regs = r, cs_bars = csb_bars b\<rparr>))"

section \<open>The configuration space\<close>

definition cs_read :: "config_space \<Rightarrow> request \<Rightarrow> u64 res" where
  "cs_read cs req = rs_read (cs_regs cs) req"

definition cs_write :: "config_space \<Rightarrow> request \<Rightarrow> u64 \<Rightarrow> config_space res" where
  "cs_write cs req v = rbind (rs_write (cs_regs cs) req v) (\<lambda>r. Inr (cs\<lparr>cs_regs := r\<rparr>))"

definition cs_bar :: "config_space \<Rightarrow> u8 \<Rightarrow> bar_info option" where
  "cs_bar cs bar_no = (if unat bar_no < length (cs_bars cs) then cs_bars cs ! unat bar_no else None)"

text \<open>One step of the capability iterator: the state is the offset of the next pointer, zero at the end.\<close>

definition cap_next :: "config_space \<Rightarrow> u8 \<Rightarrow> (u8 \<times> u8 option) res" where
  "cap_next cs cap_offset =
     (if cap_offset = 0 then Inr (0, None)
      else rbind (cs_read cs (request_new (ucast cap_offset) Size1)) (\<lambda>v.
        let cap_ptr = ucast v AND CAPABILITY_POINTER_MASK in
        if cap_ptr = 0 then Inr (0, None) else Inr (cap_ptr + 1, Some cap_ptr)))"

section \<open>The MSI-X table\<close>

definition MSIX_ENTRY_SIZE :: nat where "MSIX_ENTRY_SIZE = 16"

record msix_table =
  mt_registers :: register_set

datatype msi_message = MsiMessage (msi_address: u64) (msi_data: u16)

definition vector_count :: "nat \<Rightarrow> nat" where
  "vector_count sz = (sz div MSIX_ENTRY_SIZE) mod 2 ^ 16"

definition msix_new :: "nat \<Rightarrow> msix_table res" where
  "msix_new sz =
     rbind (require (sz mod MSIX_ENTRY_SIZE = 0) AssertFailed) (\<lambda>_.
     rbind (require (0 < sz) AssertFailed) (\<lambda>_.
     rbind (require (sz \<le> unat MSIX_MAX_VECTORS * MSIX_ENTRY_SIZE) AssertFailed) (\<lambda>_.
     rbind (chain (concat (map (\<lambda>v. [u64_le_rw_at (v * MSIX_ENTRY_SIZE + 0) 0,
                u32_le_rw_at (v * MSIX_ENTRY_SIZE + 8) 0, u32_le_rw_at (v * MSIX_ENTRY_SIZE + 12) 1])
              [0..<vector_count sz])) (rb_new sz)) (\<lambda>rb.
     rbind (rb_build rb) (\<lambda>r. Inr \<lparr>mt_registers = r\<rparr>)))))"

definition msix_vector :: "msix_table \<Rightarrow> u16 \<Rightarrow> msi_message option res" where
  "msix_vector t vector =
     rbind (require (unat vector < vector_count (length (rs_data (mt_registers t)))) AssertFailed) (\<lambda>_.
     let entry = ucast vector * 16;
         field = (\<lambda>foffset sz. rs_read (mt_registers t) (request_new (entry + foffset) sz)) in
     rbind (field 12 Size1) (\<lambda>control.
     if control AND 1 = 0 then
       rbind (field 0 Size8) (\<lambda>address.
       rbind (field 8 Size2) (\<lambda>d. Inr (Some (MsiMessage address (ucast d)))))
     else Inr None))"

definition msix_write :: "msix_table \<Rightarrow> request \<Rightarrow> u64 \<Rightarrow> msix_table res" where
  "msix_write t req v = rbind (rs_write (mt_registers t) req v) (\<lambda>r. Inr \<lparr>mt_registers = r\<rparr>)"

text \<open>The configuration space of the controller (\<open>XhciController::build_config_space\<close>).\<close>

definition build_config_space :: "config_space res" where
  "build_config_space =
     rbind (csb_new 0x1b36 0x000d) (\<lambda>b.
     rbind (chain [csb_class 0xc 0x03 0x30, mem32_nonprefetchable_bar 0 (4 * 0x1000),
              mem32_nonprefetchable_bar 3 (2 * 0x1000), msix_capability 1 3 0 3 0x1000] b)
       csb_config_space)"

section \<open>The controller's configuration space\<close>

lemma replicate_update_same [simp]: "(replicate n x)[i := x] = replicate n x"
  by (induction n arbitrary: i) (auto split: nat.splits)

lemma disjoint_zero [simp]: "length ms = n \<Longrightarrow> list_all2 (\<lambda>m c. m AND c = 0) ms (replicate n (0 :: u8))"
  by (simp add: list_all2_conv_all_nth)

lemma overwrite_Nil [simp]: "p \<le> length xs \<Longrightarrow> overwrite xs p [] = xs"
  by (simp add: overwrite_def)

lemma overwrite_Cons:
  "p + Suc (length ys) \<le> length xs \<Longrightarrow> overwrite xs p (y # ys) = overwrite (xs[p := y]) (Suc p) ys"
  by (intro nth_equalityI) (auto simp: nth_overwrite nth_list_update nth_Cons')

lemmas builder_defs = u8_at_def u8_ro_at_def u8_rw_at_def u16_le_at_def u16_le_ro_at_def u32_le_at_def
  u32_le_ro_at_def u32_le_rw_at_def init_u16_le_def init_u32_le_def init_u8_slice_def init_u8_def on_regs_def

lemma csb_new_ok:
  "is_ok (csb_new v d)"
  by (simp add: csb_new_def builder_defs rb_new_def CONFIG_SIZE_def MAX_BARS_def COMMAND_WRITABLE_BITS_def
      le_bytes_2 le_bytes_4 upt_rec)


text \<open>Facts of the built space: the masks, and the read-only fields.\<close>

lemma list_update_numeral: "(x # xs)[numeral n := y] = x # xs[pred_numeral n := y]"
  by (simp add: numeral_eq_Suc)

lemma replicate_6: "replicate 6 x = [x, x, x, x, x, x]"
  by (simp add: numeral_eq_Suc)

lemma replicate_10: "replicate 10 x = [x, x, x, x, x, x, x, x, x, x]"
  by (simp add: numeral_eq_Suc)

lemmas config_defs = build_config_space_def csb_new_def csb_class_def mem32_nonprefetchable_bar_def
  msix_capability_def has_bar_def capability_def csb_config_space_def register_set_at_def rb_build_def
  builder_defs rb_new_def CONFIG_SIZE_def MAX_BARS_def COMMAND_WRITABLE_BITS_def
  CAPABILITY_POINTER_MASK_def INITIAL_CAPABILITY_OFFSET_def MSIX_MAX_VECTORS_def MSIX_CONTROL_WRITABLE_def
  STATUS_CAPABILITIES_def is_power_of_two_def div_ceil_def checked_add_def

lemma build_config_space_ok:
  "\<exists>c. build_config_space = Inr c \<and> length (rs_data (cs_regs c)) = 256 \<and>
     length (rs_rw_mask (cs_regs c)) = 256 \<and> rs_w1c_mask (cs_regs c) = replicate 256 0 \<and>
     cs_bars c = [Some (BarInfo 0x4000 Memory), None, None, Some (BarInfo 0x2000 Memory), None, None] \<and>
     map ((!) (rs_data (cs_regs c))) [0, 1, 2, 3] = [0x36, 0x1b, 0x0d, 0x00] \<and>
     map ((!) (rs_rw_mask (cs_regs c))) [0, 1, 2, 3] = [0, 0, 0, 0] \<and>
     map ((!) (rs_data (cs_regs c))) [6, 7, 9, 10, 11, 0x34] = [0x10, 0, 0x30, 0x03, 0x0c, 0x40] \<and>
     map ((!) (rs_rw_mask (cs_regs c))) [6, 7, 9, 10, 11, 0x34] = [0, 0, 0, 0, 0, 0] \<and>
     map ((!) (rs_data (cs_regs c))) [0x40, 0x41, 0x44, 0x45, 0x46, 0x47] = [0x11, 0, 0x03, 0, 0, 0] \<and>
     map ((!) (rs_rw_mask (cs_regs c))) [0x40, 0x41, 0x44, 0x45, 0x46, 0x47] = [0, 0, 0, 0, 0, 0] \<and>
     map ((!) (rs_data (cs_regs c))) [0x10, 0x11, 0x12, 0x13, 0x1c, 0x1d, 0x1e, 0x1f] = [0, 0, 0, 0, 0, 0, 0, 0] \<and>
     map ((!) (rs_rw_mask (cs_regs c))) [0x10, 0x11, 0x12, 0x13, 0x1c, 0x1d, 0x1e, 0x1f] =
       [0, 0xC0, 0xFF, 0xFF, 0, 0xE0, 0xFF, 0xFF]"
  by (simp add: config_defs le_bytes_2 le_bytes_4 upt_rec Let_def replicate_6 replicate_10
      list_update_numeral overwrite_Cons)

end
