(* ===== verification/PciGuest.thy ===== *)
theory PciGuest
  imports PciConfig
begin

text \<open>
  What the configuration space keeps under arbitrary guest writes: the read-only fields, and the
  masks that size the BARs.
\<close>

section \<open>What the guest can do to it\<close>

fun cs_writes :: "config_space \<Rightarrow> (request \<times> u64) list \<Rightarrow> config_space res" where
  "cs_writes c [] = Inr c"
| "cs_writes c ((q, v) # ws) = rbind (cs_write c q v) (\<lambda>c'. cs_writes c' ws)"

text \<open>\<open>c\<close> differs from \<open>c0\<close> in writable bits only; there are no write-one-to-clear bits.\<close>

definition cs_from :: "config_space \<Rightarrow> config_space \<Rightarrow> bool" where
  "cs_from c0 c \<longleftrightarrow> cs_bars c = cs_bars c0 \<and> rs_rw_mask (cs_regs c) = rs_rw_mask (cs_regs c0) \<and>
     rs_w1c_mask (cs_regs c) = replicate 256 0 \<and> length (rs_data (cs_regs c)) = 256 \<and>
     length (rs_rw_mask (cs_regs c0)) = 256 \<and>
     (\<forall>i < 256. rs_data (cs_regs c) ! i AND NOT (rs_rw_mask (cs_regs c0) ! i) =
        rs_data (cs_regs c0) ! i AND NOT (rs_rw_mask (cs_regs c0) ! i))"

lemma cs_from_wf: "cs_from c0 c \<Longrightarrow> wf_rs (cs_regs c)"
  by (simp add: cs_from_def wf_rs_def)

lemma guest_byte_rw: "guest_byte old m 0 v = (old AND NOT m) OR (v AND m)"
  by (simp add: guest_byte_def)

lemma guest_byte_ro: "guest_byte old m 0 v AND NOT m = old AND NOT m"
  by (rule bit_word_eqI) (auto simp: guest_byte_def bit_simps)

lemma cs_write_in:
  assumes "cs_from c0 c" "unat (req_addr q) + size_bytes (req_size q) \<le> 256"
  shows "cs_write c q v = Inr (c\<lparr>cs_regs := (cs_regs c)
    \<lparr>rs_data := guest_patch (cs_regs c) (unat (req_addr q)) (le_bytes (size_bytes (req_size q)) v)\<rparr>\<rparr>)"
  using rs_write_in [OF cs_from_wf [OF assms(1)], of "req_addr q" "req_size q" v] assms
  by (simp add: cs_write_def cs_from_def request_eta)

lemma cs_write_from:
  assumes "cs_from c0 c" "unat (req_addr q) + size_bytes (req_size q) \<le> 256"
  shows "\<exists>c'. cs_write c q v = Inr c' \<and> cs_from c0 c'"
  using assms by (auto simp: cs_write_in cs_from_def guest_patch_def guest_byte_ro)

lemma cs_writes_from:
  assumes "cs_from c0 c" "list_all (\<lambda>(q, v). unat (req_addr q) + size_bytes (req_size q) \<le> 256) ws"
  shows "\<exists>c'. cs_writes c ws = Inr c' \<and> cs_from c0 c'"
  using assms
proof (induction ws arbitrary: c)
  case (Cons w ws)
  obtain q v where w: "w = (q, v)" by (cases w)
  obtain c1 where "cs_write c q v = Inr c1" "cs_from c0 c1"
    using cs_write_from Cons.prems w by fastforce
  then show ?case using Cons.IH [of c1] Cons.prems(2) w by simp
qed simp

lemma cs_from_byte:
  "cs_from c0 c \<Longrightarrow> i < 256 \<Longrightarrow> rs_rw_mask (cs_regs c0) ! i = 0 \<Longrightarrow> rs_data (cs_regs c) ! i = rs_data (cs_regs c0) ! i"
  by (fastforce simp: cs_from_def)

lemma slice_list: "p + n \<le> length xs \<Longrightarrow> slice xs p n = map ((!) xs) [p..<p + n]"
  by (intro nth_equalityI) simp_all

lemma cs_read_in:
  "cs_from c0 c \<Longrightarrow> unat a + size_bytes sz \<le> 256 \<Longrightarrow>
     cs_read c (request_new a sz) = Inr (of_le_bytes (map ((!) (rs_data (cs_regs c))) [unat a..<unat a + size_bytes sz]))"
  using rs_read_in [OF cs_from_wf] by (simp add: cs_read_def cs_from_def slice_list)

lemma of_le_bytes_and:
  "length xs = length ys \<Longrightarrow> of_le_bytes (map2 (AND) xs ys) = (of_le_bytes xs AND of_le_bytes ys :: 'a::len word)"
  by (rule bit_word_eqI) (auto simp: bit_of_le_bytes bit_simps)

text \<open>A BAR: the low bytes are zero outside the writable mask.\<close>

lemma bar_sizing:
  assumes c: "cs_from c0 c" and p: "unat a + 4 \<le> 256"
    and zero: "map ((!) (rs_data (cs_regs c0))) [unat a..<unat a + 4] = [0, 0, 0, 0]"
    and m: "map ((!) (rs_rw_mask (cs_regs c0))) [unat a..<unat a + 4] = ms"
  shows "\<exists>c'. cs_write c (request_new a Size4) v = Inr c' \<and>
    cs_read c' (request_new a Size4) = Inr (v AND of_le_bytes ms)"
proof -
  let ?d = "guest_patch (cs_regs c) (unat a) (le_bytes 4 v)"
  let ?c = "c\<lparr>cs_regs := (cs_regs c)\<lparr>rs_data := ?d\<rparr>\<rparr>"
  have w: "cs_write c (request_new a Size4) v = Inr ?c"
    using cs_write_in [OF c, of "request_new a Size4" v] p by (simp add: request_new_def)
  have frm: "cs_from c0 ?c"
    using cs_write_from [OF c, of "request_new a Size4" v] w p by (simp add: request_new_def)
  have lm: "length ms = 4" using m by (metis length_map length_upt diff_add_inverse)
  have nm: "ms ! i = rs_rw_mask (cs_regs c0) ! (unat a + i)" if "i < 4" for i
    using that m by (auto simp flip: m)
  have "?d ! (unat a + i) = le_bytes 4 v ! i AND ms ! i" if i: "i < 4" for i
  proof -
    have "rs_data (cs_regs c0) ! (unat a + i) = 0"
      using arg_cong [OF zero, of "\<lambda>l. l ! i"] i by (cases i; cases "i - 1"; cases "i - 2") (auto simp: nth_Cons')
    then have "rs_data (cs_regs c) ! (unat a + i) AND NOT (rs_rw_mask (cs_regs c0) ! (unat a + i)) = 0"
      using c i p by (simp add: cs_from_def)
    then show ?thesis
      using c i p by (simp add: guest_patch_def cs_from_def guest_byte_rw nm del: nth_le_bytes)
  qed
  then have "map ((!) ?d) [unat a..<unat a + 4] = map2 (AND) (le_bytes 4 v) ms"
    by (intro nth_equalityI) (simp_all add: lm del: nth_le_bytes)
  then have "cs_read ?c (request_new a Size4) = Inr (take_bit 32 v AND of_le_bytes ms)"
    using cs_read_in [OF frm, of a Size4] p lm by (simp add: of_le_bytes_and of_le_bytes_prefix)
  moreover have "take_bit 32 v AND of_le_bytes ms = v AND of_le_bytes ms"
    by (rule bit_word_eqI) (use lm in \<open>auto simp: bit_of_le_bytes bit_simps\<close>)
  ultimately show ?thesis using w by auto
qed


lemma xhci_config_space:
  obtains c0 where "build_config_space = Inr c0" "cs_from c0 c0"
    "map ((!) (rs_data (cs_regs c0))) [0, 1, 2, 3] = [0x36, 0x1b, 0x0d, 0x00]"
    "map ((!) (rs_rw_mask (cs_regs c0))) [0, 1, 2, 3] = [0, 0, 0, 0]"
    "map ((!) (rs_data (cs_regs c0))) [6, 7, 9, 10, 11, 0x34] = [0x10, 0, 0x30, 0x03, 0x0c, 0x40]"
    "map ((!) (rs_rw_mask (cs_regs c0))) [6, 7, 9, 10, 11, 0x34] = [0, 0, 0, 0, 0, 0]"
    "map ((!) (rs_data (cs_regs c0))) [0x40, 0x41, 0x44, 0x45, 0x46, 0x47] = [0x11, 0, 0x03, 0, 0, 0]"
    "map ((!) (rs_rw_mask (cs_regs c0))) [0x40, 0x41, 0x44, 0x45, 0x46, 0x47] = [0, 0, 0, 0, 0, 0]"
    "map ((!) (rs_data (cs_regs c0))) [0x10, 0x11, 0x12, 0x13, 0x1c, 0x1d, 0x1e, 0x1f] = [0, 0, 0, 0, 0, 0, 0, 0]"
    "map ((!) (rs_rw_mask (cs_regs c0))) [0x10, 0x11, 0x12, 0x13, 0x1c, 0x1d, 0x1e, 0x1f] =
       [0, 0xC0, 0xFF, 0xFF, 0, 0xE0, 0xFF, 0xFF]"
    "cs_bars c0 = [Some (BarInfo 0x4000 Memory), None, None, Some (BarInfo 0x2000 Memory), None, None]"
proof -
  obtain c where c: "cs_from c c \<and> build_config_space = Inr c" "build_config_space = Inr c" and rest:
    "length (rs_data (cs_regs c)) = 256" "length (rs_rw_mask (cs_regs c)) = 256"
    "rs_w1c_mask (cs_regs c) = replicate 256 0"
    using build_config_space_ok by (auto simp: cs_from_def)
  then show ?thesis
    using that [of c] build_config_space_ok unfolding c(2) sum.inject ex_simps(1) by (elim exE conjE) simp
qed

text \<open>
  C36: The configuration space under a guest. The controller's configuration space builds without a
  panic; after any sequence of guest writes inside it (whatever their size, alignment and value) the
  guest still reads the vendor and device id, the class code, the capability flag and pointer, and
  the MSI-X capability id and table location; and writing a BAR always reads back the written value
  with the bits below the BAR's size cleared, which is how a guest sizes it.
\<close>

theorem config_space_guest:
  assumes "list_all (\<lambda>(q, v). unat (req_addr q) + size_bytes (req_size q) \<le> 256) ws"
  shows "\<exists>c0 c. build_config_space = Inr c0 \<and> cs_writes c0 ws = Inr c \<and>
    cs_read c (request_new 0 Size4) = Inr 0x000d1b36 \<and>
    cs_read c (request_new 6 Size2) = Inr 0x0010 \<and>
    map (\<lambda>a. cs_read c (request_new a Size1)) [9, 10, 11] = [Inr 0x30, Inr 0x03, Inr 0x0c] \<and>
    cap_next c 0x34 = Inr (0x41, Some 0x40) \<and> cap_next c 0x41 = Inr (0, None) \<and>
    cs_read c (request_new 0x40 Size1) = Inr 0x11 \<and> cs_read c (request_new 0x44 Size4) = Inr 3 \<and>
    cs_bar c 0 = Some (BarInfo 0x4000 Memory) \<and> cs_bar c 3 = Some (BarInfo 0x2000 Memory) \<and>
    (\<exists>c'. cs_write c (request_new 0x10 Size4) v = Inr c' \<and>
       cs_read c' (request_new 0x10 Size4) = Inr (v AND 0xFFFFC000)) \<and>
    (\<exists>c'. cs_write c (request_new 0x1c Size4) v = Inr c' \<and>
       cs_read c' (request_new 0x1c Size4) = Inr (v AND 0xFFFFE000))"
proof -
  obtain c0 where c0: "build_config_space = Inr c0" "cs_from c0 c0" and facts:
    "map ((!) (rs_data (cs_regs c0))) [0, 1, 2, 3] = [0x36, 0x1b, 0x0d, 0x00]"
    "map ((!) (rs_rw_mask (cs_regs c0))) [0, 1, 2, 3] = [0, 0, 0, 0]"
    "map ((!) (rs_data (cs_regs c0))) [6, 7, 9, 10, 11, 0x34] = [0x10, 0, 0x30, 0x03, 0x0c, 0x40]"
    "map ((!) (rs_rw_mask (cs_regs c0))) [6, 7, 9, 10, 11, 0x34] = [0, 0, 0, 0, 0, 0]"
    "map ((!) (rs_data (cs_regs c0))) [0x40, 0x41, 0x44, 0x45, 0x46, 0x47] = [0x11, 0, 0x03, 0, 0, 0]"
    "map ((!) (rs_rw_mask (cs_regs c0))) [0x40, 0x41, 0x44, 0x45, 0x46, 0x47] = [0, 0, 0, 0, 0, 0]"
    and bars: "map ((!) (rs_data (cs_regs c0))) [0x10, 0x11, 0x12, 0x13, 0x1c, 0x1d, 0x1e, 0x1f] = [0, 0, 0, 0, 0, 0, 0, 0]"
    "map ((!) (rs_rw_mask (cs_regs c0))) [0x10, 0x11, 0x12, 0x13, 0x1c, 0x1d, 0x1e, 0x1f] =
       [0, 0xC0, 0xFF, 0xFF, 0, 0xE0, 0xFF, 0xFF]"
    "cs_bars c0 = [Some (BarInfo 0x4000 Memory), None, None, Some (BarInfo 0x2000 Memory), None, None]"
    by (rule xhci_config_space)
  obtain c where c: "cs_writes c0 ws = Inr c" "cs_from c0 c" using cs_writes_from [OF c0(2) assms] by blast
  note b = cs_from_byte [OF c(2)]
  have bytes: "map ((!) (rs_data (cs_regs c))) [0, 1, 2, 3] = [0x36, 0x1b, 0x0d, 0x00]"
    "map ((!) (rs_data (cs_regs c))) [6, 7, 9, 10, 11, 0x34] = [0x10, 0, 0x30, 0x03, 0x0c, 0x40]"
    "map ((!) (rs_data (cs_regs c))) [0x40, 0x41, 0x44, 0x45, 0x46, 0x47] = [0x11, 0, 0x03, 0, 0, 0]"
    using facts by (simp_all add: b)
  have bar: "\<exists>c'. cs_write c (request_new 0x10 Size4) v = Inr c' \<and>
      cs_read c' (request_new 0x10 Size4) = Inr (v AND of_le_bytes [0, 0xC0, 0xFF, 0xFF])"
    "\<exists>c'. cs_write c (request_new 0x1c Size4) v = Inr c' \<and>
      cs_read c' (request_new 0x1c Size4) = Inr (v AND of_le_bytes [0, 0xE0, 0xFF, 0xFF])"
    by (rule bar_sizing [OF c(2)]; use bars in \<open>simp add: upt_rec\<close>)+
  have reads: "cs_read c (request_new 0 Size4) = Inr 0x000d1b36"
    "cs_read c (request_new 6 Size2) = Inr 0x0010"
    "map (\<lambda>a. cs_read c (request_new a Size1)) [9, 10, 11, 0x34, 0x40, 0x41] =
       [Inr 0x30, Inr 0x03, Inr 0x0c, Inr 0x40, Inr 0x11, Inr 0]"
    "cs_read c (request_new 0x44 Size4) = Inr 3"
    using bytes by (simp_all add: cs_read_in [OF c(2)] upt_rec flip: numeral_2_eq_2 numeral_3_eq_3)
  have caps: "cap_next c 0x34 = Inr (0x41, Some 0x40)" "cap_next c 0x41 = Inr (0, None)"
    using reads(3) by (simp_all add: cap_next_def CAPABILITY_POINTER_MASK_def)
  have "cs_bar c 0 = Some (BarInfo 0x4000 Memory)" "cs_bar c 3 = Some (BarInfo 0x2000 Memory)"
    using bars(3) c(2) by (simp_all add: cs_bar_def cs_from_def)
  then show ?thesis using c0(1) c(1) reads caps bar by auto
qed

theorem config_space_guest_witness:
  "\<exists>c0 c. build_config_space = Inr c0 \<and>
    cs_writes c0 [(request_new 0 Size4, 0), (request_new 0xF8 Size8, 5)] = Inr c \<and>
    cs_read c (request_new 0 Size4) = Inr 0x000d1b36"
proof -
  have "list_all (\<lambda>(q, v). unat (req_addr q) + size_bytes (req_size q) \<le> 256)
      [(request_new 0 Size4, 0 :: u64), (request_new 0xF8 Size8, 5)]"
    by (simp add: request_new_def)
  from config_space_guest [OF this, of 0] show ?thesis by blast
qed

end
