(* ===== verification/Response.thy ===== *)
theory Response
  imports Prelude
begin

text \<open>
  The answers of the hotplug socket (\<open>src/hotplug_protocol/response.rs\<close>) as the bytes that travel over
  it. Reading from the socket consumes a byte list; a closed socket, where the list ends early, is an
  input/output error.
\<close>

datatype response =
    SuccessfulOperation
  | ListFollowing
  | NoFreePort
  | CouldNotDetermineSpeed
  | FailedToOpenFd
  | NoSuchDevice
  | Invalid

primrec response_code :: "response \<Rightarrow> u8" where
  "response_code SuccessfulOperation = 0"
| "response_code ListFollowing = 1"
| "response_code NoFreePort = 2"
| "response_code CouldNotDetermineSpeed = 3"
| "response_code FailedToOpenFd = 4"
| "response_code NoSuchDevice = 5"
| "response_code Invalid = 6"

definition response_try_from :: "u8 \<Rightarrow> response" where
  "response_try_from v =
     (if v = 0 then SuccessfulOperation else if v = 1 then ListFollowing else if v = 2 then NoFreePort
      else if v = 3 then CouldNotDetermineSpeed else if v = 4 then FailedToOpenFd
      else if v = 5 then NoSuchDevice else Invalid)"

definition send_response :: "response \<Rightarrow> u8 list" where
  "send_response r = [response_code r]"

text \<open>The bytes written; the second assertion fires after the response byte has been sent.\<close>

definition send_device_list :: "response \<Rightarrow> (u8 \<times> u8) list \<Rightarrow> u8 list res" where
  "send_device_list r devices =
     rbind (require (r = ListFollowing) AssertFailed) (\<lambda>_.
     rbind (require (length devices \<le> 255) AssertFailed) (\<lambda>_.
     Inr (send_response r @ [of_nat (length devices)] @ concat (map (\<lambda>(bus, dev). [bus, dev]) devices))))"

datatype read_error = UnexpectedEof

definition read_exact :: "nat \<Rightarrow> u8 list \<Rightarrow> read_error + u8 list \<times> u8 list" where
  "read_exact n bs = (if length bs < n then Inl UnexpectedEof else Inr (take n bs, drop n bs))"

definition receive_response :: "u8 list \<Rightarrow> read_error + response \<times> u8 list" where
  "receive_response bs = rbind (read_exact 1 bs) (\<lambda>(buf, rest). Inr (response_try_from (hd buf), rest))"

fun pairs_of :: "u8 list \<Rightarrow> (u8 \<times> u8) list" where
  "pairs_of (b # d # rest) = (b, d) # pairs_of rest"
| "pairs_of _ = []"

text \<open>The length byte is doubled in 8 bits, with the overflow check of the profile.\<close>

definition receive_devices_list :: "response \<Rightarrow> u8 list \<Rightarrow> (read_error + (u8 \<times> u8) list) res" where
  "receive_devices_list r bs =
     rbind (require (r = ListFollowing) AssertFailed) (\<lambda>_.
     case read_exact 1 bs of
       Inl e \<Rightarrow> Inr (Inl e)
     | Inr (buf, rest) \<Rightarrow>
         rbind (require (unat (hd buf) * 2 < 256) ArithOverflow) (\<lambda>_.
         Inr (case read_exact (unat (hd buf * 2)) rest of
                Inl e \<Rightarrow> Inl e
              | Inr (data, _) \<Rightarrow> Inr (pairs_of data))))"

text \<open>What a client that asked for the list gets out of the server's answer.\<close>

definition list_exchange :: "(u8 \<times> u8) list \<Rightarrow> (read_error + (u8 \<times> u8) list) res" where
  "list_exchange devices =
     rbind (send_device_list ListFollowing devices) (\<lambda>wire.
     case receive_response wire of
       Inl e \<Rightarrow> Inr (Inl e)
     | Inr (r, rest) \<Rightarrow> receive_devices_list r rest)"

lemma response_try_from_code: "response_try_from (response_code r) = r"
  by (cases r) (simp_all add: response_try_from_def)

lemma response_wire_roundtrip: "receive_response (send_response r @ rest) = Inr (r, rest)"
  by (simp add: receive_response_def send_response_def read_exact_def response_try_from_code)

lemma pairs_of_concat: "pairs_of (concat (map (\<lambda>(bus, dev). [bus, dev]) ds)) = ds"
  by (induction ds) auto

lemma length_concat_pairs: "length (concat (map (\<lambda>(bus, dev). [bus, dev]) ds)) = 2 * length ds"
  by (induction ds) auto

lemma list_length_byte: "length ds \<le> 255 \<Longrightarrow> unat (of_nat (length ds) :: u8) = length ds"
  by (simp add: unat_of_nat)

lemma list_length_doubled:
  assumes "length ds \<le> 127"
  shows "unat (of_nat (length ds) * 2 :: u8) = 2 * length ds"
proof -
  have "(of_nat (length ds) * 2 :: u8) = of_nat (2 * length ds)" by simp
  then show ?thesis using assms by (simp only: unat_of_nat) simp
qed

lemma device_list_bytes:
  assumes "length ds \<le> 127"
  shows "\<exists>wire rest. send_device_list ListFollowing ds = Inr wire \<and> receive_response wire = Inr (ListFollowing, rest) \<and>
    receive_devices_list ListFollowing rest = Inr (Inr ds)"
  using assms
  by (simp add: send_device_list_def send_response_def receive_response_def response_try_from_def receive_devices_list_def
      read_exact_def list_length_byte list_length_doubled length_concat_pairs pairs_of_concat)

text \<open>
  The device list over the socket. A client gets back exactly the devices the server has sent, for
  up to 127 devices; from 128 devices on the client panics in the multiplication of the length byte,
  although the server accepts up to 255, and beyond that the server panics.
\<close>

theorem device_list_exchange:
  "list_exchange ds =
     (if length ds \<le> 127 then Inr (Inr ds) else if length ds \<le> 255 then Inl ArithOverflow else Inl AssertFailed)"
proof -
  have r: "receive_response (1 # bs) = Inr (ListFollowing, bs)" for bs
    by (simp add: receive_response_def read_exact_def response_try_from_def)
  show ?thesis
    by (auto simp: list_exchange_def send_device_list_def send_response_def r receive_devices_list_def
        read_exact_def list_length_byte list_length_doubled length_concat_pairs pairs_of_concat require_def)
qed

end
