(* ===== verification/HandoverProtocol.thy ===== *)
theory HandoverProtocol
  imports Handover Response "HOL-Library.Char_ord"
begin

text \<open>
  The text protocol of the two-phase hand-over (\<open>src/hotplug_protocol/handover.rs\<close>), the commands of
  the hotplug socket (\<open>command.rs\<close>) and the server's dispatch (\<open>hotplug_server.rs\<close>). Text is modelled
  over the characters up to U+00FF and travels as ASCII: a line with other bytes is a
  \<open>NotAscii\<close> value of the model. Error values are constructors for the messages of the source.
\<close>

section \<open>Words and numbers\<close>

text \<open>\<open>char::is_whitespace\<close> and \<open>split_whitespace\<close>.\<close>

definition is_ws :: "char \<Rightarrow> bool" where
  "is_ws c \<longleftrightarrow> (of_char c :: nat) \<in> {9, 10, 11, 12, 13, 32, 133, 160}"

fun split_words :: "string \<Rightarrow> string \<Rightarrow> string list" where
  "split_words w [] = (if w = [] then [] else [w])"
| "split_words w (c # cs) =
     (if is_ws c then (if w = [] then split_words [] cs else w # split_words [] cs)
      else split_words (w @ [c]) cs)"

definition split_whitespace :: "string \<Rightarrow> string list" where
  "split_whitespace s = split_words [] s"

fun join_words :: "string list \<Rightarrow> string" where
  "join_words [] = []"
| "join_words [w] = w"
| "join_words (w # v # ws) = w @ CHR '' '' # join_words (v # ws)"

text \<open>Display of an unsigned integer, and \<open>u64::from_str\<close>, which accepts a leading plus sign.\<close>

fun show_nat :: "nat \<Rightarrow> string" where
  "show_nat n = (if n < 10 then [char_of (48 + n)] else show_nat (n div 10) @ [char_of (48 + n mod 10)])"

declare show_nat.simps [simp del]

definition show_u64 :: "u64 \<Rightarrow> string" where
  "show_u64 v = show_nat (unat v)"

fun parse_digits :: "nat \<Rightarrow> string \<Rightarrow> nat option" where
  "parse_digits acc [] = Some acc"
| "parse_digits acc (c # cs) =
     (let d = of_char c in
      if 48 \<le> d \<and> d \<le> 57 then
        let v = acc * 10 + (d - 48) in if v < 2 ^ 64 then parse_digits v cs else None
      else None)"

definition parse_u64 :: "string \<Rightarrow> u64 option" where
  "parse_u64 s =
     (let d = (case s of [] \<Rightarrow> [] | c # r \<Rightarrow> if c = CHR ''+'' \<and> r \<noteq> [] then r else s) in
      if d = [] then None else map_option of_nat (parse_digits 0 d))"

section \<open>Commands\<close>

datatype handover_command =
    HoStatus
  | HoWatch u64
  | HoReady u64
  | HoCommit u64 u64
  | HoAbort u64 string
  | HoReclaim u64 u64

datatype protocol_error =
    EmptyCommand
  | MissingConn
  | ConnNotANumber
  | MissingEpoch
  | EpochNotANumber
  | MissingTimeout
  | TimeoutNotANumber
  | UnknownVerb string
  | TrailingArgument string
  | UnexpectedReply string
  | ReplyWithoutCode
  | ConnectionClosed
  | UnterminatedLine
  | NotAscii

definition one_line :: "string \<Rightarrow> string" where
  "one_line s = map (\<lambda>c. if c = CHR 0x0A \<or> c = CHR 0x0D then CHR '' '' else c) s"

primrec encode_command :: "handover_command \<Rightarrow> string" where
  "encode_command HoStatus = ''status''"
| "encode_command (HoWatch t) = ''watch '' @ show_u64 t"
| "encode_command (HoReady c) = ''ready '' @ show_u64 c"
| "encode_command (HoCommit c e) = ''commit '' @ show_u64 c @ '' '' @ show_u64 e"
| "encode_command (HoAbort c reason) =
     (if reason = [] then ''abort '' @ show_u64 c else ''abort '' @ show_u64 c @ '' '' @ one_line reason)"
| "encode_command (HoReclaim c e) = ''reclaim '' @ show_u64 c @ '' '' @ show_u64 e"

definition next_number ::
  "protocol_error \<Rightarrow> protocol_error \<Rightarrow> string list \<Rightarrow> protocol_error + u64 \<times> string list" where
  "next_number missing malformed ws =
     (case ws of
        [] \<Rightarrow> Inl missing
      | w # ws' \<Rightarrow> (case parse_u64 w of None \<Rightarrow> Inl malformed | Some v \<Rightarrow> Inr (v, ws')))"

abbreviation "next_conn \<equiv> next_number MissingConn ConnNotANumber"
abbreviation "next_epoch \<equiv> next_number MissingEpoch EpochNotANumber"
abbreviation "next_timeout \<equiv> next_number MissingTimeout TimeoutNotANumber"

definition parse_command :: "string \<Rightarrow> protocol_error + handover_command" where
  "parse_command line =
     (case split_whitespace line of
        [] \<Rightarrow> Inl EmptyCommand
      | verb # words \<Rightarrow>
          if verb = ''abort'' then
            rbind (next_conn words) (\<lambda>(conn, words). Inr (HoAbort conn (join_words words)))
          else
            rbind (if verb = ''status'' then Inr (HoStatus, words)
                   else if verb = ''watch'' then rbind (next_timeout words) (\<lambda>(t, words). Inr (HoWatch t, words))
                   else if verb = ''ready'' then rbind (next_conn words) (\<lambda>(c, words). Inr (HoReady c, words))
                   else if verb = ''commit'' then
                     rbind (next_conn words) (\<lambda>(c, words). rbind (next_epoch words) (\<lambda>(e, words). Inr (HoCommit c e, words)))
                   else if verb = ''reclaim'' then
                     rbind (next_conn words) (\<lambda>(c, words). rbind (next_epoch words) (\<lambda>(e, words). Inr (HoReclaim c e, words)))
                   else Inl (UnknownVerb verb)) (\<lambda>(cmd, words).
            case words of [] \<Rightarrow> Inr cmd | w # _ \<Rightarrow> Inl (TrailingArgument w)))"

section \<open>Replies\<close>

datatype handover_reply = ReplyOk string | ReplyErr string string

definition reply_error :: "string \<Rightarrow> string \<Rightarrow> handover_reply" where
  "reply_error code detail = ReplyErr code (one_line detail)"

primrec encode_reply :: "handover_reply \<Rightarrow> string" where
  "encode_reply (ReplyOk body) = ''ok '' @ body"
| "encode_reply (ReplyErr code detail) = ''err code='' @ code @ '' detail='' @ detail"

definition strip_prefix :: "string \<Rightarrow> string \<Rightarrow> string option" where
  "strip_prefix p s = (if take (length p) s = p then Some (drop (length p) s) else None)"

definition trim_start :: "string \<Rightarrow> string" where
  "trim_start s = dropWhile is_ws s"

fun reply_fields :: "string \<Rightarrow> string \<Rightarrow> string list \<Rightarrow> string \<times> string" where
  "reply_fields code detail [] = (code, detail)"
| "reply_fields code detail (field # later) =
     (case strip_prefix ''code='' field of
        Some v \<Rightarrow> reply_fields v detail later
      | None \<Rightarrow>
          (case strip_prefix ''detail='' field of
             Some v \<Rightarrow> reply_fields code v later
           | None \<Rightarrow> reply_fields code (if detail \<noteq> [] then detail @ CHR '' '' # field else detail) later))"

definition parse_reply :: "string \<Rightarrow> protocol_error + handover_reply" where
  "parse_reply line =
     (case strip_prefix ''ok'' line of
        Some body \<Rightarrow> Inr (ReplyOk (trim_start body))
      | None \<Rightarrow>
          (case strip_prefix ''err'' line of
             None \<Rightarrow> Inl (UnexpectedReply line)
           | Some rest \<Rightarrow>
               (let (code, detail) = reply_fields [] [] (split_whitespace rest) in
                if code = [] then Inl ReplyWithoutCode else Inr (ReplyErr code detail))))"

section \<open>Lines on the socket\<close>

definition MAX_LINE :: nat where "MAX_LINE = 1024"

definition bytes_of :: "string \<Rightarrow> u8 list" where
  "bytes_of s = map of_char s"

definition decode_text :: "u8 list \<Rightarrow> string option" where
  "decode_text bs = (if list_all (\<lambda>b. b < 128) bs then Some (map (\<lambda>b. char_of (unat b)) bs) else None)"

definition trim_line_end :: "string \<Rightarrow> string" where
  "trim_line_end s = rev (dropWhile (\<lambda>c. c = CHR 0x0A \<or> c = CHR 0x0D) (rev s))"

definition read_line :: "u8 list \<Rightarrow> protocol_error + string" where
  "read_line bs =
     (let limited = take (MAX_LINE + 1) bs in
      if limited = [] then Inl ConnectionClosed
      else if 10 \<notin> set limited then Inl UnterminatedLine
      else (case decode_text (takeWhile (\<lambda>b. b \<noteq> 10) limited) of
              None \<Rightarrow> Inl NotAscii
            | Some line \<Rightarrow> Inr (trim_line_end line)))"

definition COMMAND_ID :: u8 where "COMMAND_ID = 3"

definition send_command_line :: "handover_command \<Rightarrow> u8 list" where
  "send_command_line c = COMMAND_ID # bytes_of (encode_command c @ [CHR 0x0A])"

definition send_reply_line :: "handover_reply \<Rightarrow> u8 list" where
  "send_reply_line r = bytes_of (encode_reply r @ [CHR 0x0A])"

definition receive_reply :: "u8 list \<Rightarrow> protocol_error + handover_reply" where
  "receive_reply bs = rbind (read_line bs) parse_reply"

section \<open>The commands of the hotplug socket\<close>

text \<open>
  A socket is the list of what its receive calls return: bytes, and a file descriptor that came with
  the first of them. A receive call takes at most as many bytes as asked for; none at the end.
  \<open>'f\<close> is the type of files.
\<close>

datatype 'f command =
    AttachCommand u8 u8 'f
  | DetachCommand u8 u8
  | ListCommand
  | HandoverCommand handover_command

datatype receive_error =
    NotEnoughData nat nat
  | MissingFd
  | UnexpectedFd
  | UnknownCommand u8
  | HandoverError protocol_error

type_synonym 'f socket = "(u8 list \<times> 'f option) list"

definition COMMAND_ATTACH :: u8 where "COMMAND_ATTACH = 0"
definition COMMAND_DETACH :: u8 where "COMMAND_DETACH = 1"
definition COMMAND_LIST :: u8 where "COMMAND_LIST = 2"

primrec variant_to_id :: "'f command \<Rightarrow> u8" where
  "variant_to_id (AttachCommand bus dev fd) = COMMAND_ATTACH"
| "variant_to_id (DetachCommand bus dev) = COMMAND_DETACH"
| "variant_to_id ListCommand = COMMAND_LIST"
| "variant_to_id (HandoverCommand c) = COMMAND_ID"

primrec send_command :: "'f command \<Rightarrow> u8 list \<times> 'f option" where
  "send_command (AttachCommand bus dev fd) = ([COMMAND_ATTACH, bus, dev], Some fd)"
| "send_command (DetachCommand bus dev) = ([COMMAND_DETACH, bus, dev], None)"
| "send_command ListCommand = ([COMMAND_LIST, 0, 0], None)"
| "send_command (HandoverCommand c) = (send_command_line c, None)"

fun recv_with_fd :: "nat \<Rightarrow> 'f socket \<Rightarrow> u8 list \<times> 'f option \<times> 'f socket" where
  "recv_with_fd n [] = ([], None, [])"
| "recv_with_fd n ((bs, fd) # later) =
     (if length bs \<le> n then (bs, fd, later) else (take n bs, fd, (drop n bs, None) # later))"

lemma recv_with_fd_length: "length (fst (recv_with_fd n s)) \<le> n"
  by (cases s) auto

function read_rest :: "u8 list \<Rightarrow> 'f socket \<Rightarrow> receive_error + u8 list" where
  "read_rest filled s =
     (if length filled < 2 then
        (let (bs, extra, s') = recv_with_fd (2 - length filled) s in
         if bs = [] then Inl (NotEnoughData 2 (length filled))
         else if extra \<noteq> None then Inl UnexpectedFd
         else read_rest (filled @ bs) s')
      else Inr filled)"
  by pat_completeness auto
termination by (relation "measure (\<lambda>(filled, s). 2 - length filled)") (auto simp: length_greater_0_conv [symmetric] simp del: length_greater_0_conv)

declare read_rest.simps [simp del]

definition receive_command :: "'f socket \<Rightarrow> receive_error + 'f command" where
  "receive_command s =
     (let (ident, file, s') = recv_with_fd 1 s in
      if length ident \<noteq> 1 then Inl (NotEnoughData 1 (length ident))
      else if hd ident = COMMAND_ID then
        if file \<noteq> None then Inl UnexpectedFd
        else
          (case rbind (read_line (concat (map fst s'))) parse_command of
             Inl e \<Rightarrow> Inl (HandoverError e) | Inr c \<Rightarrow> Inr (HandoverCommand c))
      else
        rbind (read_rest [] s') (\<lambda>buf.
        case file of
          Some f \<Rightarrow> if hd ident = COMMAND_ATTACH then Inr (AttachCommand (buf ! 0) (buf ! 1) f) else Inl UnexpectedFd
        | None \<Rightarrow>
            if hd ident = COMMAND_ATTACH then Inl MissingFd
            else if hd ident = COMMAND_DETACH then Inr (DetachCommand (buf ! 0) (buf ! 1))
            else if hd ident = COMMAND_LIST then Inr ListCommand
            else Inl (UnknownCommand (hd ident))))"

section \<open>The status line\<close>

definition show_bool :: "bool \<Rightarrow> string" where
  "show_bool b = (if b then ''true'' else ''false'')"

definition show_id :: "u64 option \<Rightarrow> string" where
  "show_id v = (case v of None \<Rightarrow> ''-'' | Some v \<Rightarrow> show_u64 v)"

fun show_list :: "u64 list \<Rightarrow> string" where
  "show_list [] = []"
| "show_list [v] = show_u64 v"
| "show_list (v # w # vs) = show_u64 v @ '', '' @ show_list (w # vs)"

definition render_status :: "handover_status \<Rightarrow> string" where
  "render_status h =
     ''owner='' @ show_id (hs_owner h) @ '' prev='' @ show_id (hs_prev h) @
     '' candidate='' @ show_id (hs_candidate h) @ '' epoch='' @ show_nat (hs_epoch h) @
     '' ready='' @ show_bool (hs_candidate_ready h) @ '' lease_ms='' @ show_nat (hs_lease_ms h) @
     '' devices='' @ show_id (hs_devices h) @ '' require_ready='' @ show_bool (hs_require_ready h) @
     '' require_device='' @ show_bool (hs_require_device h) @ '' binding='' @ show_bool (hs_binding h) @
     '' controller='' @ show_bool (hs_controller h) @ '' deferred_a3='' @ show_bool (hs_deferred_a3 h) @
     '' live=['' @ show_list (hs_live h) @ '']''"

record handover_snapshot =
  sn_owner :: "u64 option"
  sn_prev :: "u64 option"
  sn_candidate :: "u64 option"
  sn_epoch :: u64
  sn_ready :: bool
  sn_lease_ms :: u64
  sn_binding :: bool
  sn_controller :: bool
  sn_deferred_a3 :: bool

definition snapshot_default :: handover_snapshot where
  "snapshot_default = \<lparr>sn_owner = None, sn_prev = None, sn_candidate = None, sn_epoch = 0, sn_ready = False,
     sn_lease_ms = 0, sn_binding = False, sn_controller = False, sn_deferred_a3 = False\<rparr>"

definition number :: "string \<Rightarrow> string \<Rightarrow> u64 option" where
  "number field key = Option.bind (strip_prefix key field) parse_u64"

text \<open>One link of the source's \<open>if let\<close> chain.\<close>

definition if_let :: "'a option \<Rightarrow> ('a \<Rightarrow> 'b) \<Rightarrow> 'b \<Rightarrow> 'b" where
  "if_let x f otherwise = (case x of Some v \<Rightarrow> f v | None \<Rightarrow> otherwise)"

definition snapshot_field :: "handover_snapshot \<Rightarrow> string \<Rightarrow> handover_snapshot" where
  "snapshot_field sn field =
     if_let (number field ''owner='') (\<lambda>v. sn\<lparr>sn_owner := Some v\<rparr>)
    (if_let (number field ''prev='') (\<lambda>v. sn\<lparr>sn_prev := Some v\<rparr>)
    (if_let (number field ''candidate='') (\<lambda>v. sn\<lparr>sn_candidate := Some v\<rparr>)
    (if_let (number field ''epoch='') (\<lambda>v. sn\<lparr>sn_epoch := v\<rparr>)
    (if_let (number field ''lease_ms='') (\<lambda>v. sn\<lparr>sn_lease_ms := v\<rparr>)
    (if_let (strip_prefix ''ready='' field) (\<lambda>v. sn\<lparr>sn_ready := (v = ''true'')\<rparr>)
    (if_let (strip_prefix ''binding='' field) (\<lambda>v. sn\<lparr>sn_binding := (v = ''true'')\<rparr>)
    (if_let (strip_prefix ''controller='' field) (\<lambda>v. sn\<lparr>sn_controller := (v = ''true'')\<rparr>)
    (if_let (strip_prefix ''deferred_a3='' field) (\<lambda>v. sn\<lparr>sn_deferred_a3 := (v = ''true'')\<rparr>) sn))))))))"

definition parse_snapshot :: "string \<Rightarrow> handover_snapshot" where
  "parse_snapshot body = foldl snapshot_field snapshot_default (split_whitespace body)"

definition resolve_role :: "handover_snapshot \<Rightarrow> string \<Rightarrow> u64 option" where
  "resolve_role sn role =
     (if role = ''owner'' then sn_owner sn else if role = ''prev'' then sn_prev sn
      else if role = ''candidate'' then sn_candidate sn else parse_u64 role)"

section \<open>The server's answers\<close>

definition handover_display :: "handover_error \<Rightarrow> string" where
  "handover_display he =
     (case he of
        NoCandidate \<Rightarrow> ''no hand-over candidate is staged''
      | WrongCandidate \<Rightarrow> ''the named connection is not the candidate''
      | PreflightTimeout \<Rightarrow> ''the candidate's preflight timed out''
      | NotReady \<Rightarrow> ''the driver has not declared the destination ready''
      | BadEventFd \<Rightarrow> ''the candidate's interrupt eventfd is not usable as an eventfd''
      | DeviceGone \<Rightarrow> ''no USB device is attached any more, so there is nothing to hand over''
      | IrqMismatch \<Rightarrow> ''the candidate registered a different interrupt vector than the owner''
      | DmaIncomplete \<Rightarrow> ''the candidate has not mapped the device's DMA ranges''
      | NotPreviousOwner \<Rightarrow> ''only the previous owner may reclaim''
      | PreviousGone \<Rightarrow> ''the previous owner is no longer connected''
      | EpochMismatch \<Rightarrow> ''stale epoch; the hand-over moved on''
      | LeaseExpired \<Rightarrow> ''the reclaim lease has expired''
      | BackendError e \<Rightarrow> ''backend error: '' @ e)"

definition reply_of :: "handover_error + handover_status \<Rightarrow> handover_reply" where
  "reply_of r =
     (case r of Inl e \<Rightarrow> reply_error (handover_code e) (handover_display e)
      | Inr status \<Rightarrow> ReplyOk (render_status status))"

text \<open>
  A watch parks the server until a round answers; \<open>rounds\<close> are the times at which it wakes up. No
  answer means that it is still parked.
\<close>

fun watch_rounds ::
  "('f, 'b) shared \<Rightarrow> nat \<Rightarrow> time \<Rightarrow> time list \<Rightarrow> ('f, 'b) shared \<times> handover_status option" where
  "watch_rounds st start deadline [] = (st, None)"
| "watch_rounds st start deadline (now # rounds) =
     (case handover_watch_round st start deadline now of
        (st', Some h) \<Rightarrow> (st', Some h)
      | (st', None) \<Rightarrow> watch_rounds st' start deadline rounds)"

text \<open>\<open>attached\<close> is the number of devices the ports report, \<open>now\<close> the time of the command.\<close>

fun handle_handover ::
  "'f os_files \<Rightarrow> ('f, 'b) backend_ops \<Rightarrow> ('f, 'b) shared option \<Rightarrow> handover_command \<Rightarrow> u64 \<Rightarrow> time \<Rightarrow> time list \<Rightarrow>
     (('f, 'b) shared option \<times> handover_reply option) res" where
  "handle_handover os bops None c attached now rounds =
     Inr (None, Some (reply_error ''ENOHANDOVER''
       ''usbvfiod serves a single vfio-user client; two-phase hand-over needs --max-clients > 1''))"
| "handle_handover os bops (Some st0) c attached now rounds =
     (let st = note_device_inventory (note_controller_seen st0) attached;
          answer = (\<lambda>(st', r). Inr (Some st', Some (reply_of r))) in
      case c of
        HoStatus \<Rightarrow> answer (case handover_status_of st now of (st', h) \<Rightarrow> (st', Inr h))
      | HoWatch timeout_ms \<Rightarrow>
          (case watch_rounds st (epoch (sh_ownership st)) (now + unat timeout_ms) rounds of
             (st', h) \<Rightarrow> Inr (Some st', map_option (\<lambda>h. ReplyOk (render_status h)) h))
      | HoReady cid \<Rightarrow> answer (handover_ready st cid now)
      | HoCommit cid ep \<Rightarrow> rbind (handover_commit os bops st cid (unat ep) now) answer
      | HoAbort cid reason \<Rightarrow> answer (handover_abort st cid now)
      | HoReclaim cid ep \<Rightarrow> answer (handover_reclaim os bops st cid (unat ep) now))"

end
