(* ===== verification/ProtocolRoundtrip.thy ===== *)
theory ProtocolRoundtrip
  imports HandoverProtocol
begin

text \<open>
  Round trips of the control protocol: a command arrives as it was sent, a status line is read back as
  the ownership it describes, a refusal keeps its code.
\<close>

section \<open>Words\<close>

definition is_word :: "string \<Rightarrow> bool" where
  "is_word w \<longleftrightarrow> w \<noteq> [] \<and> (\<forall>c \<in> set w. \<not> is_ws c)"

lemma split_words_append: "(\<forall>c \<in> set v. \<not> is_ws c) \<Longrightarrow> split_words w (v @ rest) = split_words (w @ v) rest"
  by (induction v arbitrary: w) auto

lemma space_ws [simp]: "is_ws CHR '' ''"
  by (simp add: is_ws_def)

lemma split_Nil [simp]: "split_whitespace [] = []"
  by (simp add: split_whitespace_def)

lemma split_space [simp]: "is_ws c \<Longrightarrow> split_whitespace (c # rest) = split_whitespace rest"
  by (simp add: split_whitespace_def)

lemma split_word_space: "is_word w \<Longrightarrow> split_whitespace (w @ CHR '' '' # rest) = w # split_whitespace rest"
  using split_words_append [of w "[]" "CHR '' '' # rest"] by (simp add: split_whitespace_def is_word_def)

lemma split_word: "is_word w \<Longrightarrow> split_whitespace w = [w]"
  using split_words_append [of w "[]" "[]"] by (simp add: split_whitespace_def is_word_def)

lemma split_join: "list_all is_word ws \<Longrightarrow> split_whitespace (join_words ws) = ws"
  by (induction ws rule: join_words.induct) (auto simp: split_word split_word_space)

lemma split_words_words: "(\<forall>c \<in> set w. \<not> is_ws c) \<Longrightarrow> list_all is_word (split_words w s)"
  by (induction w s rule: split_words.induct) (auto simp: is_word_def)

lemma split_words_map:
  "(\<And>c. is_ws (f c) = is_ws c) \<Longrightarrow> (\<And>c. \<not> is_ws c \<Longrightarrow> f c = c) \<Longrightarrow> split_words w (map f s) = split_words w s"
  by (induction s arbitrary: w) auto

lemma split_one_line: "split_whitespace (one_line s) = split_whitespace s"
  unfolding split_whitespace_def one_line_def by (rule split_words_map) (auto simp: is_ws_def)

section \<open>Numbers\<close>

lemma show_nat_ne [simp]: "show_nat n \<noteq> []"
  by (subst show_nat.simps) simp

lemma show_nat_chars: "c \<in> set (show_nat n) \<Longrightarrow> \<exists>d < 10. c = char_of (48 + d :: nat)"
proof (induction n rule: show_nat.induct)
  case (1 n)
  consider "n < 10" "c = char_of (48 + n)" | "\<not> n < 10" "c \<in> set (show_nat (n div 10))"
    | "c = char_of (48 + n mod 10)"
    using "1.prems" by (subst (asm) show_nat.simps) (auto split: if_splits)
  then show ?case
  proof cases
    case 3
    then show ?thesis by (intro exI [of _ "n mod 10"]) simp
  qed (use "1.IH" in auto)
qed

lemma digit_facts:
  assumes "d < 10"
  shows "\<not> is_ws (char_of (48 + d :: nat))" "char_of (48 + d :: nat) \<noteq> CHR ''+''"
    "(of_char (char_of (48 + d :: nat) :: char) :: nat) = 48 + d"
proof -
  show n: "(of_char (char_of (48 + d :: nat) :: char) :: nat) = 48 + d" using assms by simp
  then show "\<not> is_ws (char_of (48 + d :: nat))" using assms by (simp add: is_ws_def)
  show "char_of (48 + d :: nat) \<noteq> CHR ''+''"
  proof
    assume "char_of (48 + d :: nat) = CHR ''+''"
    then have "(48 + d :: nat) = of_char (CHR ''+'')" using n by metis
    then show False by simp
  qed
qed

lemma show_nat_word: "is_word (show_nat n)"
  using digit_facts(1) by (auto simp: is_word_def dest!: show_nat_chars)

lemma parse_digits_append:
  "parse_digits a (xs @ ys) = Option.bind (parse_digits a xs) (\<lambda>b. parse_digits b ys)"
  by (induction a xs rule: parse_digits.induct) (auto simp: Let_def)

lemma parse_show_nat: "n < 2 ^ 64 \<Longrightarrow> parse_digits 0 (show_nat n) = Some n"
proof (induction n rule: show_nat.induct)
  case (1 n)
  show ?case
  proof (cases "n < 10")
    case True
    then show ?thesis by (subst show_nat.simps) simp
  next
    case False
    then have "parse_digits 0 (show_nat (n div 10)) = Some (n div 10)" using 1 by auto
    moreover have "n div 10 * 10 + n mod 10 = n" by (simp add: mult.commute)
    ultimately show ?thesis using False 1(2)
      by (subst show_nat.simps) (simp add: parse_digits_append)
  qed
qed

lemma parse_u64_show_nat: "n < 2 ^ 64 \<Longrightarrow> parse_u64 (show_nat n) = Some (of_nat n)"
proof -
  assume n: "n < 2 ^ 64"
  obtain c r where c: "show_nat n = c # r" by (cases "show_nat n") auto
  then have "c \<noteq> CHR ''+''" using show_nat_chars [of c n] digit_facts(2) by auto
  then show ?thesis using parse_show_nat [OF n] c by (simp add: parse_u64_def)
qed

lemma parse_u64_show [simp]: "parse_u64 (show_u64 v) = Some v"
  using parse_u64_show_nat [of "unat v"] unsigned_less [of v] by (simp add: show_u64_def)

lemma show_u64_word [simp]: "is_word (show_u64 v)"
  by (simp add: show_u64_def show_nat_word)

section \<open>Commands\<close>

text \<open>What arrives: the reason of an abort has its white space normalised to single spaces.\<close>

fun normalised :: "handover_command \<Rightarrow> handover_command" where
  "normalised (HoAbort c reason) = HoAbort c (join_words (split_whitespace reason))"
| "normalised c = c"

lemma split_verbs:
  "split_whitespace ''status'' = [''status'']"
  "split_whitespace (''watch '' @ rest) = ''watch'' # split_whitespace rest"
  "split_whitespace (''ready '' @ rest) = ''ready'' # split_whitespace rest"
  "split_whitespace (''commit '' @ rest) = ''commit'' # split_whitespace rest"
  "split_whitespace (''abort '' @ rest) = ''abort'' # split_whitespace rest"
  "split_whitespace (''reclaim '' @ rest) = ''reclaim'' # split_whitespace rest"
  by (simp_all add: split_whitespace_def is_ws_def)

lemma split_number: "split_whitespace (show_u64 v @ '' '' @ rest) = show_u64 v # split_whitespace rest"
  using split_word_space [of "show_u64 v"] by simp

lemma parse_encode_command: "parse_command (encode_command c) = Inr (normalised c)"
proof (cases c)
  case (HoAbort conn reason)
  then show ?thesis
    by (simp only: encode_command.simps parse_command_def split_verbs split_number split_word show_u64_word
        split: if_split)
      (simp add: next_number_def split_one_line)
qed (simp_all only: encode_command.simps parse_command_def split_verbs split_number split_word show_u64_word,
    simp_all add: next_number_def)

section \<open>Lines\<close>

definition is_ascii :: "string \<Rightarrow> bool" where
  "is_ascii s \<longleftrightarrow> list_all (\<lambda>c. (of_char c :: nat) < 128) s"

definition no_break :: "string \<Rightarrow> bool" where
  "no_break s \<longleftrightarrow> list_all (\<lambda>c. c \<noteq> CHR 0x0A \<and> c \<noteq> CHR 0x0D) s"

lemma unat_of_char: "unat (of_char c :: u8) = of_char c"
proof -
  have "unat (of_nat (of_char c) :: u8) = of_char c" by (simp only: unat_of_nat) simp
  then show ?thesis by (simp only: of_nat_of_char)
qed

lemma of_char_eq_10: "(of_char c :: u8) = 10 \<longleftrightarrow> c = CHR 0x0A"
proof -
  have nl: "(of_char (CHR 0x0A) :: nat) = 10" "unat (10 :: u8) = 10" by simp_all
  have "(of_char c :: u8) = 10 \<longleftrightarrow> (of_char c :: nat) = of_char (CHR 0x0A)"
    by (simp only: word_unat_eq_iff unat_of_char nl)
  then show ?thesis by (simp only: of_char_eq_iff)
qed

lemma decode_bytes_of: "is_ascii s \<Longrightarrow> decode_text (bytes_of s) = Some s"
proof -
  assume a: "is_ascii s"
  have "map (\<lambda>b. char_of (unat b)) (bytes_of s) = s"
    by (simp add: bytes_of_def comp_def unat_of_char map_idI del: of_nat_of_char)
  moreover have "list_all (\<lambda>b. b < 128) (bytes_of s)"
    using a by (simp add: bytes_of_def list_all_iff is_ascii_def word_less_nat_alt unat_of_char)
  ultimately show ?thesis by (simp add: decode_text_def)
qed

lemma newline_in_bytes: "no_break s \<Longrightarrow> 10 \<notin> set (bytes_of s)"
proof
  assume "no_break s" "10 \<in> set (bytes_of s)"
  then obtain c where "c \<in> set s" "(of_char c :: u8) = 10" by (metis bytes_of_def in_set_conv_nth length_map nth_map)
  then show False using \<open>no_break s\<close> by (simp only: of_char_eq_10) (auto simp: no_break_def list_all_iff)
qed

lemma trim_no_break: "no_break s \<Longrightarrow> trim_line_end s = s"
proof -
  assume "no_break s"
  then have "dropWhile (\<lambda>c. c = CHR 0x0A \<or> c = CHR 0x0D) (rev s) = rev s"
  proof (cases "rev s")
    case (Cons c r)
    then have "c \<in> set s" by (metis list.set_intros(1) set_rev)
    then show ?thesis using \<open>no_break s\<close> Cons by (auto simp: no_break_def list_all_iff)
  qed simp
  then show ?thesis by (simp add: trim_line_end_def)
qed

lemma read_line_sent:
  assumes "is_ascii s" "no_break s"
  shows "read_line (bytes_of (s @ [CHR 0x0A]) @ later) =
    (if length s \<le> MAX_LINE then Inr s else Inl UnterminatedLine)"
proof (cases "length s \<le> MAX_LINE")
  case True
  let ?bs = "bytes_of s"
  have t: "take (MAX_LINE + 1) (bytes_of (s @ [CHR 0x0A]) @ later) = ?bs @ 10 # take (MAX_LINE - length s) later"
    using True by (simp add: bytes_of_def Suc_diff_le)
  have "takeWhile (\<lambda>b. b \<noteq> 10) (?bs @ 10 # take (MAX_LINE - length s) later) = ?bs"
    using newline_in_bytes [OF assms(2)] by (subst takeWhile_append2) auto
  then show ?thesis
    using True assms unfolding read_line_def Let_def t by (simp add: decode_bytes_of trim_no_break)
next
  case False
  then have t: "take (MAX_LINE + 1) (bytes_of (s @ [CHR 0x0A]) @ later) = take (MAX_LINE + 1) (bytes_of s)"
    by (simp add: bytes_of_def)
  have "10 \<notin> set (take (MAX_LINE + 1) (bytes_of s))" using newline_in_bytes [OF assms(2)] in_set_takeD by metis
  moreover have "take (MAX_LINE + 1) (bytes_of s) \<noteq> []" using False by (auto simp: bytes_of_def)
  ultimately show ?thesis using False unfolding read_line_def Let_def t by simp
qed

lemma show_nat_length: "n < 10 ^ Suc k \<Longrightarrow> length (show_nat n) \<le> Suc k"
proof (induction k arbitrary: n)
  case 0
  then show ?case by (subst show_nat.simps) simp
next
  case (Suc k)
  have "n div 10 < 10 ^ Suc k" using Suc.prems by (simp add: div_less_iff_less_mult)
  then show ?case using Suc.IH [of "n div 10"] by (subst show_nat.simps) simp
qed

lemma show_u64_length: "length (show_u64 v) \<le> 20"
proof -
  have "unat v < 10 ^ Suc 19" using unat_lt_max [of v] by simp
  then show ?thesis unfolding show_u64_def using show_nat_length [of "unat v" 19] by simp
qed

lemma show_nat_text: "is_ascii (show_nat n)" "no_break (show_nat n)"
proof -
  have "(of_char c :: nat) < 128 \<and> c \<noteq> CHR 0x0A \<and> c \<noteq> CHR 0x0D" if c: "c \<in> set (show_nat n)" for c
  proof -
    obtain d where d: "d < 10" "c = char_of (48 + d :: nat)" using c show_nat_chars by blast
    then have n: "(of_char c :: nat) = 48 + d" by simp
    have "c \<noteq> CHR 0x0A" "c \<noteq> CHR 0x0D" using n by auto
    then show ?thesis using d(1) n by simp
  qed
  then show "is_ascii (show_nat n)" "no_break (show_nat n)" by (auto simp: is_ascii_def no_break_def list_all_iff)
qed

lemma show_u64_chars: "is_ascii (show_u64 v)" "no_break (show_u64 v)"
  by (simp_all add: show_u64_def show_nat_text)

text \<open>The only free text of a command is the reason of an abort.\<close>

fun ascii_command :: "handover_command \<Rightarrow> bool" where
  "ascii_command (HoAbort c reason) = is_ascii reason"
| "ascii_command c = True"

lemma text_append [simp]:
  "is_ascii (s @ t) = (is_ascii s \<and> is_ascii t)" "no_break (s @ t) = (no_break s \<and> no_break t)"
  by (simp_all add: is_ascii_def no_break_def)

lemma one_line_text: "is_ascii s \<Longrightarrow> is_ascii (one_line s)" "no_break (one_line s)"
  by (auto simp: is_ascii_def no_break_def one_line_def list_all_iff)

lemma text_literals:
  "is_ascii ''status''" "no_break ''status''" "is_ascii ''watch ''" "no_break ''watch ''"
  "is_ascii ''ready ''" "no_break ''ready ''" "is_ascii ''commit ''" "no_break ''commit ''"
  "is_ascii ''abort ''" "no_break ''abort ''" "is_ascii ''reclaim ''" "no_break ''reclaim ''"
  "is_ascii '' ''" "no_break '' ''"
  by (simp_all add: is_ascii_def no_break_def)

lemma encode_text: "ascii_command c \<Longrightarrow> is_ascii (encode_command c)" "no_break (encode_command c)"
  by (cases c; simp only: encode_command.simps text_append text_literals show_u64_chars one_line_text ascii_command.simps
      simp_thms split: if_split)+

lemma handover_command_received:
  assumes "ascii_command h"
  shows "receive_command (send_command (HandoverCommand h) # later) =
    (if length (encode_command h) \<le> 1024 then Inr (HandoverCommand (normalised h)) else Inl (HandoverError UnterminatedLine))"
proof -
  have "is_ascii (encode_command h)" using assms encode_text by blast
  note line = read_line_sent [OF this encode_text(2)]
  have "recv_with_fd 1 (send_command (HandoverCommand h) # later) =
      ([COMMAND_ID], None, (bytes_of (encode_command h @ [CHR 0x0A]), None) # later)"
    by (simp add: send_command_line_def bytes_of_def)
  then show ?thesis
    by (simp add: receive_command_def line parse_encode_command MAX_LINE_def del: recv_with_fd.simps)
qed

lemma other_command_received:
  "\<forall>h. c \<noteq> HandoverCommand h \<Longrightarrow> receive_command (send_command c # later) = Inr c"
  by (cases c) (simp_all add: receive_command_def COMMAND_ATTACH_def COMMAND_DETACH_def COMMAND_LIST_def COMMAND_ID_def
    read_rest.simps)

text \<open>
  C39: What the server makes of a command of the hotplug client, whatever follows it on the socket. Attach,
  detach and list arrive as they were sent, an attach with its file descriptor. A hand-over command, whose
  reason has to be ASCII here, is one line of text: up to 1024 characters it arrives with the white space
  of its reason normalised, runs of it as one space and none at the ends, which for all commands but an
  abort is the command that was sent; the server refuses a longer line as unterminated.
\<close>

theorem command_over_socket:
  assumes "\<forall>h. c = HandoverCommand h \<longrightarrow> ascii_command h"
  shows "receive_command (send_command c # later) =
    (case c of
       HandoverCommand h \<Rightarrow>
         if length (encode_command h) \<le> 1024 then Inr (HandoverCommand (normalised h))
         else Inl (HandoverError UnterminatedLine)
     | _ \<Rightarrow> Inr c)"
proof (cases c)
  case (HandoverCommand h)
  then show ?thesis using handover_command_received [of h later] assms by simp
qed (use other_command_received [of c later] in auto)

theorem command_over_socket_witness:
  "receive_command [send_command (HandoverCommand (HoAbort 7 ''no  disk'') :: nat command)] =
     Inr (HandoverCommand (HoAbort 7 ''no disk''))"
proof -
  have "length (encode_command (HoAbort 7 ''no  disk'')) \<le> 1024"
    by (simp add: show_u64_def show_nat.simps one_line_def)
  then show ?thesis
    using command_over_socket [of "HandoverCommand (HoAbort 7 ''no  disk'') :: nat command" "[]"]
    by (simp add: is_ascii_def split_whitespace_def is_ws_def)
qed

section \<open>The status line\<close>

lemma snapshot_fields:
  "snapshot_field sn (''owner='' @ x) = (case parse_u64 x of Some v \<Rightarrow> sn\<lparr>sn_owner := Some v\<rparr> | None \<Rightarrow> sn)"
  "snapshot_field sn (''prev='' @ x) = (case parse_u64 x of Some v \<Rightarrow> sn\<lparr>sn_prev := Some v\<rparr> | None \<Rightarrow> sn)"
  "snapshot_field sn (''candidate='' @ x) = (case parse_u64 x of Some v \<Rightarrow> sn\<lparr>sn_candidate := Some v\<rparr> | None \<Rightarrow> sn)"
  "snapshot_field sn (''epoch='' @ x) = (case parse_u64 x of Some v \<Rightarrow> sn\<lparr>sn_epoch := v\<rparr> | None \<Rightarrow> sn)"
  "snapshot_field sn (''lease_ms='' @ x) = (case parse_u64 x of Some v \<Rightarrow> sn\<lparr>sn_lease_ms := v\<rparr> | None \<Rightarrow> sn)"
  "snapshot_field sn (''ready='' @ x) = sn\<lparr>sn_ready := (x = ''true'')\<rparr>"
  "snapshot_field sn (''binding='' @ x) = sn\<lparr>sn_binding := (x = ''true'')\<rparr>"
  "snapshot_field sn (''controller='' @ x) = sn\<lparr>sn_controller := (x = ''true'')\<rparr>"
  "snapshot_field sn (''deferred_a3='' @ x) = sn\<lparr>sn_deferred_a3 := (x = ''true'')\<rparr>"
  "snapshot_field sn (''devices='' @ x) = sn"
  "snapshot_field sn (''require_ready='' @ x) = sn"
  "snapshot_field sn (''require_device='' @ x) = sn"
  "snapshot_field sn (''live=['' @ x) = sn"
  "snapshot_field sn ('']'' @ x) = sn"
  by (simp_all add: snapshot_field_def if_let_def number_def strip_prefix_def split: option.split)

lemma snapshot_field_number: "snapshot_field sn (show_u64 v @ x) = sn"
proof -
  obtain c r where c: "show_u64 v = c # r" by (cases "show_u64 v") (auto simp: show_u64_def)
  then obtain d where d: "d < 10" "c = char_of (48 + d :: nat)"
    using show_nat_chars [of c "unat v"] by (auto simp: show_u64_def)
  have "(of_char c :: nat) = 48 + d" using d by simp
  then have "c \<notin> set ''opceldbr''" using d(1) by auto
  then show ?thesis
    by (simp add: c snapshot_field_def if_let_def number_def strip_prefix_def)
qed

lemma word_append: "is_word u \<Longrightarrow> is_word w \<Longrightarrow> is_word (u @ w)"
  by (auto simp: is_word_def)

lemma split_concat:
  "list_all is_word ws \<Longrightarrow> split_whitespace (concat (map (\<lambda>w. w @ '' '') ws) @ rest) = ws @ split_whitespace rest"
  by (induction ws) (simp_all add: split_word_space)

lemma literal_words: "is_word '',''" "is_word '']''" "is_word ''live=[''" "is_word ''-''" "is_word ''true''" "is_word ''false''"
  by (simp_all add: is_word_def is_ws_def)

lemma live_ignored:
  assumes "p = [] \<or> p = ''live=[''"
  shows "foldl snapshot_field sn (split_whitespace (p @ show_list vs @ '']'')) = sn"
  using assms
proof (induction vs arbitrary: p sn rule: show_list.induct)
  case 1
  then show ?case
    using snapshot_fields(13) [of sn "'']''"] snapshot_fields(14) [of sn "[]"]
    by (auto simp: split_word word_append literal_words simp del: append.simps)
      (simp_all add: split_word is_word_def is_ws_def)
next
  case (2 v)
  have "is_word (p @ show_u64 v @ '']'')"
    using 2 by (auto simp: word_append literal_words simp del: append_Cons)
  moreover have "snapshot_field sn (p @ show_u64 v @ '']'') = sn"
    using 2 snapshot_fields(13) [of sn "show_u64 v @ '']''"] snapshot_field_number [of sn v "'']''"] by auto
  ultimately show ?case by (simp add: split_word)
next
  case (3 v w vs)
  have "is_word (p @ show_u64 v @ '','')"
    using 3(2) by (auto simp: word_append literal_words simp del: append_Cons)
  from split_word_space [OF this, of "show_list (w # vs) @ '']''"]
  have s: "split_whitespace (p @ show_list (v # w # vs) @ '']'') =
      (p @ show_u64 v @ '','') # split_whitespace ([] @ show_list (w # vs) @ '']'')" by simp
  have "snapshot_field sn (p @ show_u64 v @ '','') = sn"
    using 3(2) snapshot_fields(13) [of sn "show_u64 v @ '',''"] snapshot_field_number [of sn v "'',''"] by auto
  then show ?case using 3(1) [of "[]" sn] unfolding s by simp
qed

definition status_words :: "handover_status \<Rightarrow> string list" where
  "status_words h =
     [''owner='' @ show_id (hs_owner h), ''prev='' @ show_id (hs_prev h), ''candidate='' @ show_id (hs_candidate h),
      ''epoch='' @ show_nat (hs_epoch h), ''ready='' @ show_bool (hs_candidate_ready h),
      ''lease_ms='' @ show_nat (hs_lease_ms h), ''devices='' @ show_id (hs_devices h),
      ''require_ready='' @ show_bool (hs_require_ready h), ''require_device='' @ show_bool (hs_require_device h),
      ''binding='' @ show_bool (hs_binding h), ''controller='' @ show_bool (hs_controller h),
      ''deferred_a3='' @ show_bool (hs_deferred_a3 h)]"

lemma render_words: "render_status h = concat (map (\<lambda>w. w @ '' '') (status_words h)) @ ''live=['' @ show_list (hs_live h) @ '']''"
  by (simp add: render_status_def status_words_def)

lemma show_words: "is_word (show_id v)" "is_word (show_bool b)"
  by (auto simp: show_id_def show_bool_def literal_words split: option.split)

lemma status_words_words: "list_all is_word (status_words h)"
proof -
  have "is_word ''owner=''" "is_word ''prev=''" "is_word ''candidate=''" "is_word ''epoch=''" "is_word ''ready=''"
    "is_word ''lease_ms=''" "is_word ''devices=''" "is_word ''require_ready=''" "is_word ''require_device=''"
    "is_word ''binding=''" "is_word ''controller=''" "is_word ''deferred_a3=''"
    by (simp_all add: is_word_def is_ws_def)
  then show ?thesis
    by (simp only: status_words_def list.pred_inject word_append show_words show_nat_word simp_thms)
qed

definition snapshot_of :: "handover_status \<Rightarrow> handover_snapshot" where
  "snapshot_of h = \<lparr>sn_owner = hs_owner h, sn_prev = hs_prev h, sn_candidate = hs_candidate h,
     sn_epoch = of_nat (hs_epoch h), sn_ready = hs_candidate_ready h, sn_lease_ms = of_nat (hs_lease_ms h),
     sn_binding = hs_binding h, sn_controller = hs_controller h, sn_deferred_a3 = hs_deferred_a3 h\<rparr>"

lemma parse_show_id: "parse_u64 (show_id v) = v"
  by (simp add: show_id_def parse_u64_def split: option.split) (metis parse_u64_def parse_u64_show)

lemma show_bool_true: "(show_bool b = ''true'') = b"
  by (simp add: show_bool_def)

lemma status_fields:
  assumes "hs_epoch h < 2 ^ 64" "hs_lease_ms h < 2 ^ 64"
  shows "foldl snapshot_field snapshot_default (status_words h) = snapshot_of h"
  using assms
  by (simp only: status_words_def foldl.simps snapshot_fields parse_show_id parse_u64_show_nat show_bool_true option.case)
    (auto simp: snapshot_default_def snapshot_of_def split: option.split)

text \<open>
  The status arrives. A client that receives the server's answer to an accepted command reads
  back exactly the ownership it describes: owner, previous owner, candidate, epoch and flags.
\<close>

theorem status_arrives:
  assumes "hs_epoch h < 2 ^ 64" "hs_lease_ms h < 2 ^ 64"
  shows "\<exists>body. parse_reply (encode_reply (reply_of (Inr h))) = Inr (ReplyOk body) \<and>
    parse_snapshot body = snapshot_of h"
proof -
  have "parse_snapshot (render_status h) = snapshot_of h"
    unfolding parse_snapshot_def render_words split_concat [OF status_words_words] foldl_append
      status_fields [OF assms] by (rule live_ignored) simp
  moreover have "trim_start (CHR '' '' # render_status h) = render_status h"
    by (simp add: trim_start_def render_status_def is_ws_def)
  then have "parse_reply (encode_reply (reply_of (Inr h))) = Inr (ReplyOk (render_status h))"
    by (simp add: reply_of_def parse_reply_def strip_prefix_def)
  ultimately show ?thesis by blast
qed

theorem status_arrives_witness:
  "\<exists>body. parse_reply (encode_reply (reply_of (Inr \<lparr>hs_owner = Some 0, hs_prev = None, hs_candidate = Some 1, hs_epoch = 1,
       hs_candidate_ready = True, hs_lease_ms = 5000, hs_live = [0, 1], hs_devices = None, hs_require_device = True,
       hs_require_ready = True, hs_binding = True, hs_controller = False, hs_deferred_a3 = False\<rparr>))) = Inr (ReplyOk body) \<and>
     sn_candidate (parse_snapshot body) = Some 1"
  using status_arrives [of "\<lparr>hs_owner = Some 0, hs_prev = None, hs_candidate = Some 1, hs_epoch = 1,
       hs_candidate_ready = True, hs_lease_ms = 5000, hs_live = [0, 1], hs_devices = None, hs_require_device = True,
       hs_require_ready = True, hs_binding = True, hs_controller = False, hs_deferred_a3 = False\<rparr>"]
  by (auto simp: snapshot_of_def)

section \<open>Refusals\<close>

text \<open>
  A refusal arrives. The client reads the stable code and the message of every refusal back as the
  server has sent it; only the free text of a backend error can be misread.
\<close>

theorem refusal_arrives:
  "case e of BackendError m \<Rightarrow> True
   | _ \<Rightarrow> parse_reply (encode_reply (reply_of (Inl e))) = Inr (ReplyErr (handover_code e) (handover_display e))"
  by (cases e) (simp_all, code_simp+)

text \<open>
  A backend error whose text contains a word that starts with \<open>code=\<close> replaces the stable code.
\<close>

lemma backend_error_code:
  "parse_reply (encode_reply (reply_of (Inl (BackendError ''errno code=EOK'')))) =
     Inr (ReplyErr ''EOK'' ''backend error: errno'')"
  by code_simp

end
