(* ===== verification/Registers.thy ===== *)
theory Registers
  imports Trb
begin

text \<open>
  The operational registers of \<open>src/device/xhci/registers.rs\<close>. A register is its value; the atomic
  read-modify-write of the source is one step. Waking the tasks that wait on a register's \<open>Notify\<close>
  is a result of the write; sending an event is an output.
\<close>

section \<open>PORTSC\<close>

datatype usb_version = USB2 | USB3

abbreviation (input) "portsc_CCS \<equiv> 0x1 :: u64"
abbreviation (input) "portsc_PED \<equiv> 0x2 :: u64"
abbreviation (input) "portsc_PR \<equiv> 0x10 :: u64"
abbreviation (input) "portsc_PLS \<equiv> 0x1e0 :: u64"
abbreviation (input) "portsc_PP \<equiv> 0x200 :: u64"
abbreviation (input) "portsc_CSC \<equiv> 0x20000 :: u64"
abbreviation (input) "portsc_PEC \<equiv> 0x40000 :: u64"
abbreviation (input) "portsc_PRC \<equiv> 0x200000 :: u64"
abbreviation (input) "PLS_U0 \<equiv> 0x0 :: u64"
abbreviation (input) "PLS_RXDETECT \<equiv> 0xa0 :: u64"
abbreviation (input) "PLS_POLLING \<equiv> 0xe0 :: u64"

definition BITMASK_RW1C :: u64 where "BITMASK_RW1C = 0x00260000"

record portsc_register =
  ps_value :: u64
  ps_usb_version :: usb_version
  ps_port_id :: u8

definition portsc_new :: "usb_version \<Rightarrow> u8 \<Rightarrow> portsc_register" where
  "portsc_new v port_id = \<lparr>ps_value = portsc_PP OR PLS_RXDETECT, ps_usb_version = v, ps_port_id = port_id\<rparr>"

definition portsc_set :: "portsc_register \<Rightarrow> u64 \<Rightarrow> portsc_register" where
  "portsc_set r v = r\<lparr>ps_value := v\<rparr>"

definition update_with_mask :: "u64 \<Rightarrow> u64 \<Rightarrow> u64 \<Rightarrow> u64" where
  "update_with_mask reg v m = (v AND m) OR (reg AND NOT m)"

primrec port_reset :: "usb_version \<Rightarrow> u64 \<Rightarrow> u64" where
  "port_reset USB2 reg =
     update_with_mask reg (PLS_U0 OR portsc_PED OR portsc_PRC) (portsc_PRC OR portsc_PED OR portsc_PLS)"
| "port_reset USB3 reg = update_with_mask reg portsc_PRC portsc_PRC"

text \<open>The event a write sends, if any.\<close>

definition portsc_write :: "portsc_register \<Rightarrow> u64 \<Rightarrow> portsc_register \<times> event_trb option" where
  "portsc_write r new_value =
     (let bits_to_clear = new_value AND BITMASK_RW1C;
          port_reset_bit = (new_value AND portsc_PR \<noteq> 0);
          new_reg = ps_value r AND NOT bits_to_clear;
          new_reg' = (if port_reset_bit then port_reset (ps_usb_version r) new_reg else new_reg) in
      (r\<lparr>ps_value := new_reg'\<rparr>,
       if port_reset_bit then Some (new_port_status_change_event_trb (ps_port_id r)) else None))"

section \<open>Slots and contexts\<close>

definition MAX_SLOTS :: nat where "MAX_SLOTS = 8"
definition MAX_PORTS :: nat where "MAX_PORTS = 8"
definition NUM_USB3_PORTS :: nat where "NUM_USB3_PORTS = 4"

definition config_write :: "u32 \<Rightarrow> u32 res" where
  "config_write v =
     rbind (require (unat (ucast (v AND 0xff) :: u8) \<le> MAX_SLOTS) AssertFailed) (\<lambda>_. Inr v)"

definition num_slots_enabled :: "u32 \<Rightarrow> u8" where
  "num_slots_enabled v = ucast (v AND 0xff)"

definition dcbaap_write :: "u64 \<Rightarrow> u64" where
  "dcbaap_write v = v AND NOT 0x1f"

definition erstba_masked :: "u64 \<Rightarrow> u64" where
  "erstba_masked v = v AND NOT 0x1f"

section \<open>USBCMD and USBSTS\<close>

abbreviation (input) "usbcmd_RS \<equiv> 0x1 :: u64"
abbreviation (input) "usbcmd_HCRST \<equiv> 0x2 :: u64"
abbreviation (input) "usbcmd_INTE \<equiv> 0x4 :: u64"
abbreviation (input) "usbsts_HCH \<equiv> 0x1 :: u64"
abbreviation (input) "usbsts_EINT \<equiv> 0x8 :: u64"
abbreviation (input) "usbsts_PCD \<equiv> 0x10 :: u64"

definition BITMASK_PRESERVED :: u64 where
  "BITMASK_PRESERVED = (usbcmd_RS OR usbcmd_INTE OR usbcmd_HCRST)"

text \<open>The new value, and whether the reset coordinator is notified. The conversion to \<open>u32\<close> is checked.\<close>

definition usbcmd_write :: "u32 \<Rightarrow> u64 \<Rightarrow> (u32 \<times> bool) res" where
  "usbcmd_write current v =
     (let hcrst = ucast current AND usbcmd_HCRST;
          new = (v AND BITMASK_PRESERVED) OR hcrst in
      rbind (require (new < 2 ^ 32) UnwrapFailed) (\<lambda>_.
      Inr (ucast new, v AND usbcmd_HCRST = usbcmd_HCRST)))"

definition clear_hcrst :: "u32 \<Rightarrow> u32" where
  "clear_hcrst v = v AND NOT 2"

definition running :: "u32 \<Rightarrow> bool" where
  "running usbcmd \<longleftrightarrow> ucast usbcmd AND usbcmd_RS = usbcmd_RS"

definition usbsts_read :: "u32 \<Rightarrow> u64" where
  "usbsts_read usbcmd = (if running usbcmd then 0 else usbsts_HCH) OR usbsts_EINT OR usbsts_PCD"

section \<open>What a write does, bit by bit\<close>

text \<open>The bits of a literal, by enumeration.\<close>

lemma bits_of_literal:
  assumes "\<forall>n \<in> set [0..<64]. bit w n \<longleftrightarrow> P n" "\<And>n. P n \<Longrightarrow> n < 64"
  shows "bit (w :: u64) n \<longleftrightarrow> P n"
proof (cases "n < 64")
  case True
  then have "n \<in> set [0..<64]" by simp
  then show ?thesis using assms(1) by blast
qed (use assms(2) in \<open>auto dest: bit_imp_le_length\<close>)

lemma bit_masks:
  "bit (0x260000 :: u64) n \<longleftrightarrow> n = 17 \<or> n = 18 \<or> n = 21"
  "bit (0x200000 :: u64) n \<longleftrightarrow> n = 21"
  "bit (0x200002 :: u64) n \<longleftrightarrow> n = 1 \<or> n = 21"
  "bit (0x2001e2 :: u64) n \<longleftrightarrow> n = 1 \<or> (5 \<le> n \<and> n \<le> 8) \<or> n = 21"
  by (rule bits_of_literal; (simp add: upt_rec)?; linarith?)+

lemma and_0x10: "(v AND 0x10 = (0 :: u64)) = (\<not> bit v 4)"
  using and_exp_eq_0_iff_not_bit [of v 4] by simp

lemma bit_update_with_mask:
  "n < 64 \<Longrightarrow> bit (update_with_mask reg v m) n = (if bit m n then bit v n else bit reg n)"
  by (simp add: update_with_mask_def bit_simps)

lemma bit_port_reset:
  assumes "n < 64"
  shows "bit (port_reset u reg) n =
    (n = 21 \<or> u = USB2 \<and> n = 1 \<or> bit reg n \<and> \<not> (u = USB2 \<and> 5 \<le> n \<and> n \<le> 8))"
proof -
  have e: "PLS_U0 OR portsc_PED OR portsc_PRC = 0x200002" "portsc_PRC OR portsc_PED OR portsc_PLS = 0x2001e2"
    by simp_all
  show ?thesis
    by (cases u) (simp_all only: port_reset.simps e bit_update_with_mask [OF assms] bit_masks split: if_split, auto)
qed

text \<open>
  A guest write to PORTSC. Bits 17, 18 and 21 (the connect, enable and reset change bits) are
  cleared where one is written; writing the reset bit also reports the reset as finished (change
  bit 21 set; on a USB 2 port the port becomes enabled and its link state U0) and sends one port
  status change event for this port; no other bit can be changed by the guest.
\<close>

theorem portsc_write_bits:
  "bit (ps_value (fst (portsc_write r v))) n =
      (if bit v 4 \<and> n = 21 then True
       else if bit v 4 \<and> ps_usb_version r = USB2 \<and> n = 1 then True
       else if bit v 4 \<and> ps_usb_version r = USB2 \<and> n \<in> {5, 6, 7, 8} then False
       else bit (ps_value r) n \<and> \<not> (n \<in> {17, 18, 21} \<and> bit v n)) \<and>
   snd (portsc_write r v) = (if bit v 4 then Some (PortStatusChange (ps_port_id r)) else None)"
proof -
  have r: "bit (ps_value r AND NOT (v AND BITMASK_RW1C)) n = (bit (ps_value r) n \<and> \<not> (n \<in> {17, 18, 21} \<and> bit v n))"
    if "n < 64"
    using that bit_masks(1) [folded BITMASK_RW1C_def, of n] by (auto simp: bit_simps)
  have "\<not> n < 64 \<Longrightarrow> \<not> bit (w :: u64) n" for w by (auto dest: bit_imp_le_length)
  then show ?thesis using r
    by (cases "n < 64")
      (auto simp: portsc_write_def Let_def and_0x10 bit_port_reset new_port_status_change_event_trb_def)
qed

text \<open>
  A guest write to USBCMD never panics: it keeps exactly the run, interrupt enable and reset bits
  of the written value, a pending reset cannot be withdrawn by writing 0, and the reset coordinator is
  notified exactly when the reset bit is written. Clearing the reset bit leaves the others.
\<close>

lemma usbcmd_write_bits:
  "\<exists>new. usbcmd_write current v = Inr (new, bit v 1) \<and>
     (bit new n = (if n = 1 then bit current 1 \<or> bit v 1 else n \<in> {0, 2} \<and> bit v n)) \<and>
     (bit (clear_hcrst new) n = (n \<in> {0, 2} \<and> bit v n))"
proof -
  define x :: u64 where "x = (v AND BITMASK_PRESERVED) OR (ucast current AND usbcmd_HCRST)"
  have m: "bit (0x7 :: u64) n \<longleftrightarrow> n = 0 \<or> n = 1 \<or> n = 2" "bit (0x2 :: u64) n \<longleftrightarrow> n = 1" for n
    by (rule bits_of_literal; (simp add: upt_rec)?; linarith?)+
  have p: "BITMASK_PRESERVED = 0x7" by (simp add: BITMASK_PRESERVED_def)
  have b: "bit x n = (if n = 1 then bit current 1 \<or> bit v 1 else n \<in> {0, 2} \<and> bit v n)" for n
    unfolding x_def p by (simp only: bit_or_iff bit_and_iff m bit_ucast_iff) (auto dest: bit_imp_le_length)
  have s: "x = take_bit 3 x"
    by (rule bit_word_eqI) (auto simp: b bit_take_bit_iff split: if_splits)
  have l: "x < 2 ^ 32"
    by (subst s) (simp add: word_less_nat_alt take_bit_eq_mod unat_mod)
  have h: "(v AND usbcmd_HCRST = usbcmd_HCRST) = bit v 1"
  proof
    assume "v AND usbcmd_HCRST = usbcmd_HCRST"
    then have "bit (v AND usbcmd_HCRST) 1" by (simp only: m)
    then show "bit v 1" by (simp only: bit_and_iff)
  qed (rule bit_word_eqI, simp only: bit_and_iff m, auto)
  have u: "bit (ucast x :: u32) n = bit x n" for n
    using b [of n] by (auto simp: bit_ucast_iff split: if_splits)
  have c: "bit (w AND NOT 2) n = (bit w n \<and> n \<noteq> 1)" for w :: u32
    by (simp only: bit_and_iff bit_not_iff bit_2_iff) (auto dest: bit_imp_le_length)
  have "usbcmd_write current v = rbind (require (x < 2 ^ 32) UnwrapFailed) (\<lambda>_. Inr (ucast x, bit v 1))"
    by (simp only: usbcmd_write_def Let_def x_def h)
  then have "usbcmd_write current v = Inr (ucast x, bit v 1)" using l by (simp add: require_def)
  then show ?thesis by (simp only: sum.inject prod.inject u c clear_hcrst_def) (auto simp: u b)
qed

end
