(* ===== verification/MemorySegment.thy ===== *)
theory MemorySegment
  imports BusContract
begin

text \<open>
  Memory segments (\<open>src/memory_segment.rs\<close>): a piece of mmap'ed guest memory behind the
  \<open>BusDevice\<close> trait, read-only or writable. The mapping's contents are the list of its bytes; what
  \<open>mmap\<close> itself does is the argument of \<open>new_from_fd\<close>. Segments and default devices are the
  devices of the DMA bus, so their sum is an instance of the device contract.
\<close>

datatype access_rights = ReadOnly | ReadWrite

text \<open>
  \<open>AccessRights::try_from(DmaMapFlags)\<close>. The flags are a bit set of the vfio-user crate; the
  arguments are what \<open>contains(READ)\<close> and \<open>contains(WRITE)\<close> return. \<open>None\<close> is \<open>InvalidFlags\<close>.
\<close>

definition access_rights_try_from :: "bool \<Rightarrow> bool \<Rightarrow> access_rights option" where
  "access_rights_try_from readable writable =
     (if readable \<and> \<not> writable then Some ReadOnly
      else if readable \<and> writable then Some ReadWrite
      else None)"

datatype mapping = MapReadOnly (map_bytes: "u8 list") | MapReadWrite (map_bytes: "u8 list")

definition is_writable :: "mapping \<Rightarrow> bool" where
  "is_writable m = (case m of MapReadWrite _ \<Rightarrow> True | MapReadOnly _ \<Rightarrow> False)"

record memory_segment =
  seg_size :: u64
  seg_mapping :: mapping

text \<open>\<open>mapped\<close> is the outcome of the \<open>mmap\<close> call: the bytes of the file range, or its error.\<close>

definition new_from_fd :: "'e + u8 list \<Rightarrow> u64 \<Rightarrow> access_rights \<Rightarrow> 'e + memory_segment" where
  "new_from_fd mapped sz rights =
     rbind mapped (\<lambda>bytes. Inr \<lparr>seg_size = sz, seg_mapping =
       (case rights of ReadOnly \<Rightarrow> MapReadOnly bytes | ReadWrite \<Rightarrow> MapReadWrite bytes)\<rparr>)"

definition seg_in_bounds :: "memory_segment \<Rightarrow> request \<Rightarrow> bool" where
  "seg_in_bounds s r =
     (case checked_add (req_addr r) (of_nat (size_bytes (req_size r))) of
        Some e \<Rightarrow> e \<le> seg_size s | None \<Rightarrow> False)"

definition seg_read :: "memory_segment \<Rightarrow> request \<Rightarrow> u64 res" where
  "seg_read s r =
     rbind (require (seg_in_bounds s r) AssertFailed) (\<lambda>_.
     Inr (of_le_bytes (slice (map_bytes (seg_mapping s)) (unat (req_addr r)) (size_bytes (req_size r)))))"

definition seg_store :: "mapping \<Rightarrow> nat \<Rightarrow> u8 list \<Rightarrow> mapping" where
  "seg_store m off bs =
     (case m of MapReadWrite bytes \<Rightarrow> MapReadWrite (overwrite bytes off bs) | MapReadOnly _ \<Rightarrow> m)"

definition seg_write :: "memory_segment \<Rightarrow> request \<Rightarrow> u64 \<Rightarrow> memory_segment res" where
  "seg_write s r v =
     rbind (require (seg_in_bounds s r) AssertFailed) (\<lambda>_.
     if \<not> is_writable (seg_mapping s) then Inr s
     else Inr (s\<lparr>seg_mapping := seg_store (seg_mapping s) (unat (req_addr r))
                 (le_bytes (size_bytes (req_size r)) v)\<rparr>))"

definition segment_ops :: "memory_segment bus_device" where
  "segment_ops =
     \<lparr>dev_size = seg_size, dev_read = seg_read, dev_write = seg_write,
      dev_read_bulk = default_read_bulk seg_read, dev_write_bulk = default_write_bulk seg_write\<rparr>"

section \<open>Segments meet the device contract\<close>

definition seg_ok :: "memory_segment \<Rightarrow> bool" where
  "seg_ok s \<longleftrightarrow> length (map_bytes (seg_mapping s)) = unat (seg_size s)"

definition seg_byte :: "memory_segment \<Rightarrow> nat \<Rightarrow> u8" where
  "seg_byte s a = (if a < length (map_bytes (seg_mapping s)) then map_bytes (seg_mapping s) ! a else 0)"

definition seg_writable :: "memory_segment \<Rightarrow> nat \<Rightarrow> bool" where
  "seg_writable s a \<longleftrightarrow> is_writable (seg_mapping s) \<and> a < length (map_bytes (seg_mapping s))"

lemma size_bytes_bounds: "0 < size_bytes s" "size_bytes s \<le> 8"
  by (cases s; simp)+

lemma unat_size_bytes [simp]: "unat (of_nat (size_bytes s) :: u64) = size_bytes s"
  by (cases s) auto

lemma seg_in_bounds_iff:
  "seg_in_bounds s r \<longleftrightarrow> unat (req_addr r) + size_bytes (req_size r) \<le> unat (seg_size s)"
  using unat_lt_max [of "seg_size s"] unat_add_lt [of "req_addr r" "of_nat (size_bytes (req_size r))"]
  by (auto simp: seg_in_bounds_def checked_add_def word_le_nat_alt)

lemma slice_seg_byte:
  "off + n \<le> length (map_bytes (seg_mapping s)) \<Longrightarrow>
     slice (map_bytes (seg_mapping s)) off n = map (seg_byte s) [off..<off + n]"
  by (rule nth_equalityI) (auto simp: seg_byte_def)

lemma seg_read_bytes:
  assumes "seg_ok s" "unat (req_addr r) + size_bytes (req_size r) \<le> unat (seg_size s)"
  shows "seg_read s r = Inr (of_le_bytes (map (seg_byte s)
    [unat (req_addr r)..<unat (req_addr r) + size_bytes (req_size r)]))"
  using assms by (simp add: seg_read_def seg_in_bounds_iff seg_ok_def slice_seg_byte)

lemma seg_write_bytes:
  assumes "seg_ok s" "unat (req_addr r) + size_bytes (req_size r) \<le> unat (seg_size s)"
  shows "\<exists>s'. seg_write s r v = Inr s' \<and> seg_ok s' \<and> seg_size s' = seg_size s \<and>
    seg_byte s' = patch (seg_byte s) (seg_writable s) (unat (req_addr r))
      (le_bytes (size_bytes (req_size r)) v) \<and> seg_writable s' = seg_writable s"
proof (cases "seg_mapping s")
  case (MapReadOnly bytes)
  then show ?thesis
    using assms by (simp add: seg_write_def seg_in_bounds_iff is_writable_def seg_writable_def
        patch_def fun_eq_iff)
next
  case (MapReadWrite bytes)
  let ?n = "size_bytes (req_size r)" and ?a = "unat (req_addr r)"
  define s' where "s' = s\<lparr>seg_mapping := MapReadWrite (overwrite bytes ?a (le_bytes ?n v))\<rparr>"
  have len: "?a + length (le_bytes ?n v) \<le> length bytes"
    using assms MapReadWrite by (simp add: seg_ok_def)
  have "seg_byte s' a = patch (seg_byte s) (seg_writable s) ?a (le_bytes ?n v) a" for a
    using len MapReadWrite
    by (auto simp: seg_byte_def patch_def s'_def nth_overwrite seg_writable_def is_writable_def)
  moreover have "seg_write s r v = Inr s'"
    using assms MapReadWrite
    by (simp add: seg_write_def seg_in_bounds_iff is_writable_def seg_store_def s'_def)
  moreover have "seg_ok s'" "seg_writable s' = seg_writable s"
    using assms len MapReadWrite
    by (auto simp: seg_ok_def s'_def seg_writable_def is_writable_def fun_eq_iff)
  ultimately show ?thesis by (auto simp: s'_def fun_eq_iff)
qed

lemma of_le_bytes_single [simp]: "of_le_bytes [b] = ucast b"
  by simp

lemma word_device_bytewise:
  assumes rd: "\<And>d r. ok d \<Longrightarrow> unat (req_addr r) + size_bytes (req_size r) \<le> unat (dev_size ops d) \<Longrightarrow>
      dev_read ops d r = Inr (of_le_bytes (map (byte_at d)
        [unat (req_addr r)..<unat (req_addr r) + size_bytes (req_size r)]))"
    and wr: "\<And>d r v. ok d \<Longrightarrow> unat (req_addr r) + size_bytes (req_size r) \<le> unat (dev_size ops d) \<Longrightarrow>
      \<exists>d'. dev_write ops d r v = Inr d' \<and> ok d' \<and> dev_size ops d' = dev_size ops d \<and>
        byte_at d' = patch (byte_at d) (writable d) (unat (req_addr r))
          (le_bytes (size_bytes (req_size r)) v) \<and> writable d' = writable d"
    and bulk: "dev_read_bulk ops = default_read_bulk (dev_read ops)"
      "dev_write_bulk ops = default_write_bulk (dev_write ops)"
  shows "word_device ops ok byte_at writable"
proof
  fix d and off :: u64 and n :: nat
  assume "ok d" "unat off + n \<le> unat (dev_size ops d)"
  then show "dev_read_bulk ops d off n = Inr (map (byte_at d) [unat off..<unat off + n])"
    unfolding bulk
    by (intro default_read_bulk_bytes [where lim = "unat (dev_size ops d)"])
      (auto simp: rd request_new_def intro: less_le_trans [OF unat_lt_max])
next
  fix d and off :: u64 and bs :: "u8 list"
  assume a: "ok d" "unat off + length bs \<le> unat (dev_size ops d)"
  have b1: "le_bytes (Suc 0) (ucast v :: u64) = [v]" for v :: u8
    by (simp add: le_bytes_def)
  have "\<exists>d'. default_write_bulk (dev_write ops) d off bs = Inr d' \<and>
      (ok d' \<and> dev_size ops d' = dev_size ops d \<and> writable d' = writable d) \<and>
      byte_at d' = patch (byte_at d) (writable d) (unat off) bs"
  proof (rule default_write_bulk_bytes [where lim = "unat (dev_size ops d)"])
    fix d1 and a :: u64 and v :: u8
    assume "ok d1 \<and> dev_size ops d1 = dev_size ops d \<and> writable d1 = writable d"
      "unat a < unat (dev_size ops d)"
    then show "\<exists>d'. dev_write ops d1 (request_new a Size1) (ucast v) = Inr d' \<and>
        (ok d' \<and> dev_size ops d' = dev_size ops d \<and> writable d' = writable d) \<and>
        byte_at d' = patch (byte_at d1) (writable d) (unat a) [v]"
      using wr [of d1 "request_new a Size1" "ucast v"] by (auto simp: request_new_def b1)
  qed (use a in \<open>auto intro: less_le_trans [OF unat_lt_max]\<close>)
  then show "\<exists>d'. dev_write_bulk ops d off bs = Inr d' \<and> ok d' \<and> dev_size ops d' = dev_size ops d \<and>
      byte_at d' = patch (byte_at d) (writable d) (unat off) bs \<and> writable d' = writable d"
    unfolding bulk by blast
qed (use rd wr in auto)

interpretation seg: word_device segment_ops seg_ok seg_byte seg_writable
  by (rule word_device_bytewise)
    (simp_all add: segment_ops_def seg_read_bytes seg_write_bytes)

section \<open>The devices of the DMA bus\<close>

definition dd_byte :: "default_device \<Rightarrow> nat \<Rightarrow> u8" where
  "dd_byte d a = 0xff"

lemma default_device_read_bytes:
  "default_device_read d r = Inr (of_le_bytes (map (dd_byte d) [a..<a + size_bytes (req_size r)]))"
proof -
  have ff: "(0xff :: u8) = - 1" by simp
  have "size_bytes (req_size r) \<le> 8" by (rule size_bytes_bounds)
  then show ?thesis
    unfolding default_device_read_def sum.inject
    by (intro bit_word_eqI) (auto simp: bit_of_le_bytes bit_simps dd_byte_def ff)
qed

interpretation dd: word_device default_device_ops "\<lambda>_. True" dd_byte "\<lambda>_ _. False"
  by (rule word_device_bytewise)
    (auto simp: default_device_ops_def default_device_read_bytes [symmetric]
      default_device_write_def patch_def fun_eq_iff)

end
