(* ===== verification/DynamicBus.thy ===== *)
theory DynamicBus
  imports MemorySegment
begin

text \<open>
  The dynamic bus of \<open>src/dynamic_bus.rs\<close>: the list of mapped segments and the immutable bus built
  from it, replaced as a whole on every change. The entries of both share their devices (they are
  \<open>Arc\<close>s), so an access that changes a device through the bus is seen through the segment list:
  \<open>dyn_store\<close> writes the devices of the bus back.
\<close>

section \<open>The devices of the DMA bus\<close>

datatype dma_device = Segment memory_segment | Filler default_device

definition dma_device_ops :: "dma_device bus_device" where
  "dma_device_ops =
     \<lparr>dev_size = (\<lambda>d. case d of Segment s \<Rightarrow> dev_size segment_ops s
                             | Filler f \<Rightarrow> dev_size default_device_ops f),
      dev_read = (\<lambda>d r. case d of Segment s \<Rightarrow> dev_read segment_ops s r
                             | Filler f \<Rightarrow> dev_read default_device_ops f r),
      dev_write = (\<lambda>d r v. case d of
          Segment s \<Rightarrow> rbind (dev_write segment_ops s r v) (\<lambda>s'. Inr (Segment s'))
        | Filler f \<Rightarrow> rbind (dev_write default_device_ops f r v) (\<lambda>f'. Inr (Filler f'))),
      dev_read_bulk = (\<lambda>d a n. case d of Segment s \<Rightarrow> dev_read_bulk segment_ops s a n
                             | Filler f \<Rightarrow> dev_read_bulk default_device_ops f a n),
      dev_write_bulk = (\<lambda>d a bs. case d of
          Segment s \<Rightarrow> rbind (dev_write_bulk segment_ops s a bs) (\<lambda>s'. Inr (Segment s'))
        | Filler f \<Rightarrow> rbind (dev_write_bulk default_device_ops f a bs) (\<lambda>f'. Inr (Filler f')))\<rparr>"

definition dma_ok :: "dma_device \<Rightarrow> bool" where
  "dma_ok d = (case d of Segment s \<Rightarrow> seg_ok s | Filler f \<Rightarrow> True)"

definition dma_byte :: "dma_device \<Rightarrow> nat \<Rightarrow> u8" where
  "dma_byte d a = (case d of Segment s \<Rightarrow> seg_byte s a | Filler f \<Rightarrow> dd_byte f a)"

definition dma_writable :: "dma_device \<Rightarrow> nat \<Rightarrow> bool" where
  "dma_writable d a = (case d of Segment s \<Rightarrow> seg_writable s a | Filler f \<Rightarrow> False)"

lemma dma_device_simps [simp]:
  "dma_ok (Segment s) = seg_ok s" "dma_ok (Filler f)"
  "dma_byte (Segment s) = seg_byte s" "dma_byte (Filler f) = dd_byte f"
  "dma_writable (Segment s) = seg_writable s" "dma_writable (Filler f) = (\<lambda>_. False)"
  by (auto simp: dma_ok_def dma_byte_def dma_writable_def fun_eq_iff)

interpretation dma: word_device dma_device_ops dma_ok dma_byte dma_writable
proof
  fix d and off :: u64 and n
  assume "dma_ok d" "unat off + n \<le> unat (dev_size dma_device_ops d)"
  then show "dev_read_bulk dma_device_ops d off n = Inr (map (dma_byte d) [unat off..<unat off + n])"
    using seg.read_bulk_law dd.read_bulk_law
    by (cases d) (simp_all add: dma_device_ops_def)
next
  fix d and off :: u64 and bs :: "u8 list"
  assume "dma_ok d" "unat off + length bs \<le> unat (dev_size dma_device_ops d)"
  then show "\<exists>d'. dev_write_bulk dma_device_ops d off bs = Inr d' \<and> dma_ok d' \<and>
      dev_size dma_device_ops d' = dev_size dma_device_ops d \<and>
      dma_byte d' = patch (dma_byte d) (dma_writable d) (unat off) bs \<and>
      dma_writable d' = dma_writable d"
    using seg.write_bulk_law [where off = off and bs = bs] dd.write_bulk_law [where off = off and bs = bs]
    by (cases d)
      (fastforce simp: dma_device_ops_def)+
next
  fix d and r :: request
  assume "dma_ok d" "unat (req_addr r) + size_bytes (req_size r) \<le> unat (dev_size dma_device_ops d)"
  then show "dev_read dma_device_ops d r = Inr (of_le_bytes (map (dma_byte d)
      [unat (req_addr r)..<unat (req_addr r) + size_bytes (req_size r)]))"
    using seg.read_law dd.read_law
    by (cases d) (simp_all add: dma_device_ops_def)
next
  fix d and r :: request and v :: u64
  assume "dma_ok d" "unat (req_addr r) + size_bytes (req_size r) \<le> unat (dev_size dma_device_ops d)"
  then show "\<exists>d'. dev_write dma_device_ops d r v = Inr d' \<and> dma_ok d' \<and>
      dev_size dma_device_ops d' = dev_size dma_device_ops d \<and>
      dma_byte d' = patch (dma_byte d) (dma_writable d) (unat (req_addr r))
        (le_bytes (size_bytes (req_size r)) v) \<and> dma_writable d' = dma_writable d"
    using seg.write_law [where r = r and v = v] dd.write_law [where r = r and v = v]
    by (cases d)
      (fastforce simp: dma_device_ops_def)+
qed

interpretation dma_bus: bulk_device "bus_ops dma_device_ops" "ok_bus dma_device_ops dma_ok"
  "bus_byte dma_byte" "bus_byte dma_writable"
  by (rule dma.bus_contract)


section \<open>The dynamic bus\<close>

record 'd dyn_entry =
  de_start :: u64
  de_device :: 'd

record 'd dynamic_bus =
  db_segments :: "'d dyn_entry list"
  db_bus :: "'d bus"

text \<open>\<open>DynamicBus::build\<close>; \<open>mk\<close> makes the bus's default device a device of the bus.\<close>

fun add_all ::
  "'d bus_device \<Rightarrow> 'd bus \<Rightarrow> 'd dyn_entry list \<Rightarrow> add_bus_device_error + 'd bus" where
  "add_all ops b [] = Inr b"
| "add_all ops b (e # es) = rbind (bus_add ops b (de_start e) (de_device e)) (\<lambda>b'. add_all ops b' es)"

definition dyn_build ::
  "'d bus_device \<Rightarrow> (default_device \<Rightarrow> 'd) \<Rightarrow> 'd dyn_entry list \<Rightarrow> add_bus_device_error + 'd bus" where
  "dyn_build ops mk segments = add_all ops (bus_new ops mk (- 1)) segments"

text \<open>\<open>DynamicBus::new\<close>: no segments and the default bus.\<close>

definition dyn_new :: "'d bus_device \<Rightarrow> (default_device \<Rightarrow> 'd) \<Rightarrow> 'd dynamic_bus" where
  "dyn_new ops mk = \<lparr>db_segments = [], db_bus = bus_new ops mk (- 1)\<rparr>"

definition dyn_add ::
  "'d bus_device \<Rightarrow> (default_device \<Rightarrow> 'd) \<Rightarrow> 'd dynamic_bus \<Rightarrow> u64 \<Rightarrow> 'd \<Rightarrow>
     add_bus_device_error + 'd dynamic_bus" where
  "dyn_add ops mk db start_addr device =
     (let candidate = filter (\<lambda>e. de_start e \<noteq> start_addr) (db_segments db) @
            [\<lparr>de_start = start_addr, de_device = device\<rparr>] in
      rbind (dyn_build ops mk candidate) (\<lambda>new_bus.
      Inr \<lparr>db_segments = candidate, db_bus = new_bus\<rparr>))"

definition dyn_remove_range ::
  "'d bus_device \<Rightarrow> (default_device \<Rightarrow> 'd) \<Rightarrow> 'd dynamic_bus \<Rightarrow> u64 \<Rightarrow> u64 \<Rightarrow>
     add_bus_device_error + 'd dynamic_bus" where
  "dyn_remove_range ops mk db address sz =
     (let e = saturating_add address sz;
          candidate = filter (\<lambda>s. de_start s < address \<or> e \<le> de_start s) (db_segments db) in
      rbind (dyn_build ops mk candidate) (\<lambda>new_bus.
      Inr \<lparr>db_segments = candidate, db_bus = new_bus\<rparr>))"

text \<open>The device operations delegate to the current bus.\<close>

definition dyn_store :: "'d dynamic_bus \<Rightarrow> 'd bus \<Rightarrow> 'd dynamic_bus" where
  "dyn_store db b =
     \<lparr>db_segments = map2 (\<lambda>s e. s\<lparr>de_device := ent_device e\<rparr>) (db_segments db) (bus_devices b),
      db_bus = b\<rparr>"

definition dyn_ops :: "'d bus_device \<Rightarrow> 'd dynamic_bus bus_device" where
  "dyn_ops ops =
     \<lparr>dev_size = (\<lambda>db. bus_size ops (db_bus db)),
      dev_read = (\<lambda>db r. bus_read ops (db_bus db) r),
      dev_write = (\<lambda>db r v. rbind (bus_write ops (db_bus db) r v) (\<lambda>b. Inr (dyn_store db b))),
      dev_read_bulk = (\<lambda>db a n. bus_read_bulk ops (db_bus db) a n),
      dev_write_bulk = (\<lambda>db a bs. rbind (bus_write_bulk ops (db_bus db) a bs)
        (\<lambda>b. Inr (dyn_store db b)))\<rparr>"

section \<open>The invariant of the dynamic bus\<close>

definition bus_entry :: "'d bus_device \<Rightarrow> 'd dyn_entry \<Rightarrow> 'd device_entry" where
  "bus_entry ops s = \<lparr>ent_range = mk_range (de_start s) (de_start s + dev_size ops (de_device s)),
     ent_device = de_device s\<rparr>"

definition seg_fits :: "'d bus_device \<Rightarrow> 'd dyn_entry \<Rightarrow> bool" where
  "seg_fits ops s \<longleftrightarrow> unat (de_start s) + unat (dev_size ops (de_device s)) < 2 ^ 64"

text \<open>The bus holds exactly the segments, in their order, and is well-formed.\<close>

definition dyn_wf :: "'d bus_device \<Rightarrow> 'd dynamic_bus \<Rightarrow> bool" where
  "dyn_wf ops db \<longleftrightarrow>
     bus_devices (db_bus db) = map (bus_entry ops) (db_segments db) \<and>
     wf_bus ops (db_bus db) \<and> bus_size ops (db_bus db) = - 1"

lemma add_all_Inr:
  assumes "add_all ops b es = Inr b'" "wf_bus ops b"
  shows "wf_bus ops b' \<and> bus_devices b' = bus_devices b @ map (bus_entry ops) es \<and>
    bus_default b' = bus_default b"
  using assms
proof (induction es arbitrary: b)
  case (Cons e es)
  then obtain b1 where b1: "bus_add ops b (de_start e) (de_device e) = Inr b1"
      "add_all ops b1 es = Inr b'" by auto
  then have "wf_bus ops b1" using bus_add_wf [OF Cons.prems(2)] by simp
  then show ?case using Cons.IH [OF b1(2)] b1(1) by (auto simp: bus_add_Inr bus_entry_def)
qed simp

lemma add_all_total:
  assumes "bus_size ops b = - 1" "\<forall>e \<in> set es. seg_fits ops e"
    "disjoint_entries (bus_devices b @ map (bus_entry ops) es)"
  shows "\<exists>b'. add_all ops b es = Inr b'"
  using assms
proof (induction es arbitrary: b)
  case (Cons e es)
  let ?b1 = "b\<lparr>bus_devices := bus_devices b @ [bus_entry ops e]\<rparr>"
  have "disjoint_entries (bus_devices b @ [bus_entry ops e])"
  proof -
    have "disjoint_entries (take n xs)" if "disjoint_entries xs" for n and xs :: "'a device_entry list"
      using that by (auto simp: disjoint_entries_def)
    from this [OF Cons.prems(3), of "Suc (length (bus_devices b))"] show ?thesis by simp
  qed
  then have "bus_add ops b (de_start e) (de_device e) = Inr ?b1"
    using Cons.prems by (auto simp: bus_add_Inr disjoint_entries_snoc bus_entry_def seg_fits_def
        word_order.extremum)
  moreover have "\<exists>b'. add_all ops ?b1 es = Inr b'"
    using Cons.prems by (intro Cons.IH) (auto simp: bus_size_def)
  ultimately show ?case by auto
qed simp


text \<open>The default device spans the whole bus.\<close>

definition full_default :: "'d bus_device \<Rightarrow> (default_device \<Rightarrow> 'd) \<Rightarrow> bool" where
  "full_default ops mk \<longleftrightarrow> dev_size ops (mk (default_device_new_with_size (- 1))) = - 1"

lemma dyn_build_Inr:
  assumes "dyn_build ops mk es = Inr b" "full_default ops mk"
  shows "dyn_wf ops \<lparr>db_segments = es, db_bus = b\<rparr>"
    and "bus_default b = mk (default_device_new_with_size (- 1))"
  using add_all_Inr [of ops "bus_new ops mk (- 1)" es b] assms
  by (auto simp: full_default_def dyn_build_def dyn_wf_def bus_new_def bus_size_def wf_bus_new_with_default)
    (simp_all add: bus_new_with_default_def)

lemma dyn_add_wf [inv_intros]:
  assumes "dyn_add ops mk db a d = Inr db'" "full_default ops mk"
  shows "dyn_wf ops db'"
  using assms dyn_build_Inr(1) [OF _ assms(2)] by (auto simp: dyn_add_def Let_def)

lemma dyn_remove_wf [inv_intros]:
  assumes "dyn_remove_range ops mk db a n = Inr db'"
    "full_default ops mk"
  shows "dyn_wf ops db'"
  using assms dyn_build_Inr(1) [OF _ assms(2)] by (auto simp: dyn_remove_range_def Let_def)

lemma disjoint_entries_filter: "disjoint_entries es \<Longrightarrow> disjoint_entries (filter P es)"
proof (induction es rule: rev_induct)
  case (snoc e es)
  then show ?case by (auto simp: disjoint_entries_snoc)
qed (simp add: disjoint_entries_def)

lemma dyn_wf_segments:
  assumes "dyn_wf ops db"
  shows "\<forall>s \<in> set (db_segments db). seg_fits ops s"
    and "disjoint_entries (map (bus_entry ops) (db_segments db))"
proof -
  have "seg_fits ops s" if "s \<in> set (db_segments db)" for s
  proof -
    have "entry_fits ops (- 1) (bus_entry ops s)"
      using assms that by (auto simp: dyn_wf_def wf_bus_def)
    then show ?thesis
      using unat_lt_max [of "de_start s + dev_size ops (de_device s)"]
      by (simp add: entry_fits_def bus_entry_def seg_fits_def)
  qed
  then show "\<forall>s \<in> set (db_segments db). seg_fits ops s" by blast
  show "disjoint_entries (map (bus_entry ops) (db_segments db))"
    using assms by (metis dyn_wf_def wf_bus_def)
qed

text \<open>Removing a range cannot fail: what is left of a well-formed bus can be rebuilt.\<close>

lemma dyn_remove_total:
  assumes "dyn_wf ops db" "full_default ops mk"
  shows "\<exists>db'. dyn_remove_range ops mk db a n = Inr db'"
proof -
  let ?P = "\<lambda>s. de_start s < a \<or> saturating_add a n \<le> de_start s"
  have "disjoint_entries (map (bus_entry ops) (filter ?P (db_segments db)))"
    using disjoint_entries_filter [OF dyn_wf_segments(2) [OF assms(1)], of "\<lambda>e.
        range_start (ent_range e) < a \<or> saturating_add a n \<le> range_start (ent_range e)"]
    by (simp add: filter_map o_def bus_entry_def)
  then have "\<exists>b. dyn_build ops mk (filter ?P (db_segments db)) = Inr b"
    using dyn_wf_segments(1) [OF assms(1)] assms(2) unfolding dyn_build_def
    by (intro add_all_total) (auto simp: full_default_def bus_new_def bus_size_def bus_new_with_default_def)
  then show ?thesis by (auto simp: dyn_remove_range_def Let_def)
qed

section \<open>The bytes of the dynamic bus\<close>

text \<open>The byte at an address, from the segment list alone.\<close>

definition seg_covers :: "'d bus_device \<Rightarrow> 'd dyn_entry \<Rightarrow> nat \<Rightarrow> bool" where
  "seg_covers ops s a \<longleftrightarrow>
     unat (de_start s) \<le> a \<and> a < unat (de_start s) + unat (dev_size ops (de_device s))"

lemma entry_has_bus_entry: "seg_fits ops s \<Longrightarrow> entry_has (bus_entry ops s) a = seg_covers ops s a"
  using unat_add_lt [of "de_start s" "dev_size ops (de_device s)"]
  by (simp add: entry_has_def bus_entry_def seg_covers_def seg_fits_def)

lemma dyn_byte_covered:
  assumes "dyn_wf ops db" "s \<in> set (db_segments db)" "seg_covers ops s a"
  shows "bus_byte f (db_bus db) a = f (de_device s) (a - unat (de_start s))"
proof -
  obtain i where i: "i < length (db_segments db)" "db_segments db ! i = s"
    using assms(2) by (auto simp: in_set_conv_nth)
  have "entry_has (bus_entry ops s) a"
    using entry_has_bus_entry dyn_wf_segments(1) assms by blast
  then have "find_entry (bus_devices (db_bus db)) a = Some i"
    using assms(1) i by (intro find_entry_eq) (auto simp: dyn_wf_def wf_bus_def)
  then show ?thesis using assms(1) i by (simp add: bus_byte_def dyn_wf_def bus_entry_def)
qed

lemma dyn_byte_uncovered:
  assumes "dyn_wf ops db" "\<forall>s \<in> set (db_segments db). \<not> seg_covers ops s a"
  shows "bus_byte f (db_bus db) a = f (bus_default (db_bus db)) a"
proof -
  have "find_entry (bus_devices (db_bus db)) a = None"
    using assms dyn_wf_segments(1) [OF assms(1)]
    by (auto simp: find_entry_None dyn_wf_def entry_has_bus_entry)
  then show ?thesis by (simp add: bus_byte_def)
qed


section \<open>The dynamic bus meets the device contract\<close>

lemma bus_write_loop_ranges:
  "bus_write_loop ops b s e data cur = Inr b' \<Longrightarrow>
     map ent_range (bus_devices b') = map ent_range (bus_devices b)"
proof (induction ops b s e data cur rule: bus_write_loop.induct)
  case (1 ops b s e data cur)
  have set_ranges: "map ent_range (bus_devices (set_device b i d)) = map ent_range (bus_devices b)" for i d
    by (cases "i < length (bus_devices b)")
      (auto simp: set_device_def map_update list_update_same_conv list_update_beyond not_less)
  show ?case
  proof (cases "bulk_next b s e cur")
    case (Inr item)
    then show ?thesis
    proof (cases item)
      case None
      then show ?thesis using 1(2) Inr by (subst (asm) bus_write_loop.simps) simp
    next
      case (Some p)
      obtain ch cur' where p: "p = (ch, cur')" by (cases p)
      obtain b1 where b1: "chunk_write_bulk ops b ch data = Inr b1"
          "bus_write_loop ops b1 s e data cur' = Inr b'"
        using 1(2) Inr Some p by (subst (asm) bus_write_loop.simps) auto
      have "map ent_range (bus_devices b1) = map ent_range (bus_devices b)"
        using b1(1) set_ranges by (auto simp: chunk_write_bulk_def Let_def split: option.splits)
      then show ?thesis using 1(1) [OF Inr Some p [symmetric] b1(1,2)] by simp
    qed
  next
    case (Inl _)
    then show ?thesis using 1(2) by (subst (asm) bus_write_loop.simps) simp
  qed
qed

lemma bus_write_bulk_ranges:
  "bus_write_bulk ops b off bs = Inr b' \<Longrightarrow>
     map ent_range (bus_devices b') = map ent_range (bus_devices b)"
  by (auto simp: bus_write_bulk_def intro: bus_write_loop_ranges)

lemma dyn_store_wf:
  assumes "dyn_wf ops db" "wf_bus ops b" "bus_size ops b = - 1"
    "map ent_range (bus_devices b) = map ent_range (bus_devices (db_bus db))"
  shows "dyn_wf ops (dyn_store db b)"
proof -
  let ?es = "bus_devices b" and ?ss = "db_segments db"
  have ranges: "map ent_range ?es = map (\<lambda>s. ent_range (bus_entry ops s)) ?ss"
    using assms(1,4) by (simp add: dyn_wf_def o_def)
  then have len: "length ?es = length ?ss" by (metis length_map)
  have "?es ! i = bus_entry ops ((?ss ! i)\<lparr>de_device := ent_device (?es ! i)\<rparr>)" if "i < length ?ss" for i
  proof -
    let ?e = "?es ! i"
    have "ent_range ?e = ent_range (bus_entry ops (?ss ! i))"
      using ranges that len by (metis nth_map)
    then have start: "range_start (ent_range ?e) = de_start (?ss ! i)" by (simp add: bus_entry_def)
    have "entry_fits ops (- 1) ?e" using assms(2,3) that len by (auto simp: wf_bus_def)
    then have "unat (range_end (ent_range ?e)) =
        unat (range_start (ent_range ?e)) + unat (dev_size ops (ent_device ?e))"
      by (simp add: entry_fits_def)
    then have "range_end (ent_range ?e) = range_start (ent_range ?e) + dev_size ops (ent_device ?e)"
      by (metis unat_add_lt unat_lt_max word_unat_eq_iff)
    with start show ?thesis by (auto simp: bus_entry_def intro!: range_eqI)
  qed
  then have "?es = map (bus_entry ops) (map2 (\<lambda>s e. s\<lparr>de_device := ent_device e\<rparr>) ?ss ?es)"
    using len by (intro nth_equalityI) auto
  then show ?thesis using assms by (simp add: dyn_wf_def dyn_store_def)
qed

definition dyn_ok :: "dma_device dynamic_bus \<Rightarrow> bool" where
  "dyn_ok db \<longleftrightarrow> dyn_wf dma_device_ops db \<and> ok_bus dma_device_ops dma_ok (db_bus db)"

definition dyn_byte :: "dma_device dynamic_bus \<Rightarrow> nat \<Rightarrow> u8" where
  "dyn_byte db = bus_byte dma_byte (db_bus db)"

definition dyn_writable :: "dma_device dynamic_bus \<Rightarrow> nat \<Rightarrow> bool" where
  "dyn_writable db = bus_byte dma_writable (db_bus db)"

definition dma_bus_ops :: "dma_device dynamic_bus bus_device" where
  "dma_bus_ops = dyn_ops dma_device_ops"

interpretation dyn: bulk_device dma_bus_ops dyn_ok dyn_byte dyn_writable
proof
  fix db and off :: u64 and n :: nat
  assume "dyn_ok db" "unat off + n \<le> unat (dev_size dma_bus_ops db)"
  then show "dev_read_bulk dma_bus_ops db off n = Inr (map (dyn_byte db) [unat off..<unat off + n])"
    using dma_bus.read_bulk_law [of "db_bus db" off n]
    by (simp add: dma_bus_ops_def dyn_ops_def dyn_ok_def dyn_byte_def bus_ops_def)
next
  fix db and off :: u64 and bs :: "u8 list"
  assume a: "dyn_ok db" "unat off + length bs \<le> unat (dev_size dma_bus_ops db)"
  then obtain b where b: "bus_write_bulk dma_device_ops (db_bus db) off bs = Inr b"
      "ok_bus dma_device_ops dma_ok b"
      "bus_size dma_device_ops b = bus_size dma_device_ops (db_bus db)"
      "bus_byte dma_byte b = patch (dyn_byte db) (dyn_writable db) (unat off) bs"
      "bus_byte dma_writable b = dyn_writable db"
    using dma_bus.write_bulk_law [where d = "db_bus db" and off = off and bs = bs]
    by (auto simp: dma_bus_ops_def dyn_ops_def dyn_ok_def bus_ops_def dyn_byte_def dyn_writable_def)
  have "dyn_wf dma_device_ops (dyn_store db b)"
    using a(1) b bus_write_bulk_ranges [OF b(1)]
    by (intro dyn_store_wf) (auto simp: dyn_ok_def ok_bus_def dyn_wf_def)
  then show "\<exists>db'. dev_write_bulk dma_bus_ops db off bs = Inr db' \<and> dyn_ok db' \<and>
      dev_size dma_bus_ops db' = dev_size dma_bus_ops db \<and>
      dyn_byte db' = patch (dyn_byte db) (dyn_writable db) (unat off) bs \<and>
      dyn_writable db' = dyn_writable db"
    using b by (auto simp: dma_bus_ops_def dyn_ops_def dyn_ok_def dyn_byte_def dyn_writable_def dyn_store_def)
qed


section \<open>What mapping and unmapping do to the bytes\<close>

lemma dma_dev_size [simp]:
  "dev_size dma_device_ops (Segment s) = seg_size s"
  "dev_size dma_device_ops (Filler f) = dd_size f"
  by (simp_all add: dma_device_ops_def segment_ops_def default_device_ops_def)

lemma full_default_Filler [simp]: "full_default dma_device_ops Filler"
  by (simp add: full_default_def default_device_new_with_size_def)

lemma ok_bus_dyn:
  assumes "dyn_wf dma_device_ops db" "dma_ok (bus_default (db_bus db))"
    "\<forall>s \<in> set (db_segments db). dma_ok (de_device s)"
  shows "dyn_ok db"
  using assms by (auto simp: dyn_ok_def ok_bus_def dyn_wf_def bus_entry_def)

lemma dyn_ok_segments: "dyn_ok db \<Longrightarrow> s \<in> set (db_segments db) \<Longrightarrow> dma_ok (de_device s)"
  by (auto simp: dyn_ok_def ok_bus_def dyn_wf_def bus_entry_def)

text \<open>A bus rebuilt from some of the segments of a well-formed one, and perhaps new ones, shows
  the bytes of the segment that covers the address, and all ones where none does.\<close>

lemma rebuilt_bytes:
  assumes "dyn_build dma_device_ops Filler es = Inr b"
  shows "s \<in> set es \<Longrightarrow> seg_covers dma_device_ops s a \<Longrightarrow>
      bus_byte dma_byte b a = dma_byte (de_device s) (a - unat (de_start s))"
    and "\<forall>s \<in> set es. \<not> seg_covers dma_device_ops s a \<Longrightarrow> bus_byte dma_byte b a = 0xff"
proof -
  note wf = dyn_build_Inr [OF assms full_default_Filler]
  show "s \<in> set es \<Longrightarrow> seg_covers dma_device_ops s a \<Longrightarrow>
      bus_byte dma_byte b a = dma_byte (de_device s) (a - unat (de_start s))"
    using dyn_byte_covered [OF wf(1)] by simp
  show "\<forall>s \<in> set es. \<not> seg_covers dma_device_ops s a \<Longrightarrow> bus_byte dma_byte b a = 0xff"
    using dyn_byte_uncovered [OF wf(1), where f = dma_byte] wf(2) by (simp add: dd_byte_def)
qed

definition dyn_example :: "dma_device dynamic_bus" where
  "dyn_example = (let seg = Segment \<lparr>seg_size = 4, seg_mapping = MapReadWrite [1, 2, 3, 4]\<rparr> in
     \<lparr>db_segments = [\<lparr>de_start = 0x1000, de_device = seg\<rparr>],
      db_bus = (bus_new dma_device_ops Filler (- 1))\<lparr>bus_devices :=
        [\<lparr>ent_range = mk_range 0x1000 0x1004, ent_device = seg\<rparr>]\<rparr>\<rparr>)"

lemma dyn_example_ok: "dyn_ok dyn_example"
proof -
  have "entry_fits dma_device_ops (- 1) \<lparr>ent_range = mk_range 0x1000 0x1004,
      ent_device = Segment \<lparr>seg_size = 4, seg_mapping = MapReadWrite [1, 2, 3, 4]\<rparr>\<rparr>"
    by (simp add: entry_fits_def)
  then show ?thesis
    by (simp add: dyn_ok_def dyn_wf_def ok_bus_def wf_bus_def dyn_example_def Let_def bus_entry_def
        disjoint_entries_def bus_new_def bus_new_with_default_def bus_size_def
        default_device_new_with_size_def seg_ok_def)
qed

text \<open>
  C35: Guest memory behaves as memory. A bulk write to the DMA bus that does not wrap succeeds and
  keeps the bus well-formed, and every later bulk read returns, byte by byte, the written data at
  the addresses that a writable segment covers and the old bytes everywhere else, however the
  accesses are split over the segments.
\<close>

theorem dma_write_then_read:
  assumes "dyn_ok db" "unat off + length bs < 2 ^ 64"
  shows "\<exists>db'. dev_write_bulk dma_bus_ops db off bs = Inr db' \<and> dyn_ok db' \<and>
    (\<forall>a n. unat a + n < 2 ^ 64 \<longrightarrow> dev_read_bulk dma_bus_ops db' a n =
      Inr (map (\<lambda>i. if unat off \<le> i \<and> i < unat off + length bs \<and> dyn_writable db i
                    then bs ! (i - unat off) else dyn_byte db i) [unat a..<unat a + n]))"
proof -
  have size: "unat (dev_size dma_bus_ops d) = 2 ^ 64 - 1" if "dyn_ok d" for d
    using that unat_m1_u64 by (simp add: dma_bus_ops_def dyn_ops_def dyn_ok_def dyn_wf_def)
  obtain db' where db': "dev_write_bulk dma_bus_ops db off bs = Inr db'" "dyn_ok db'"
      "dyn_byte db' = patch (dyn_byte db) (dyn_writable db) (unat off) bs"
    using dyn.write_bulk_law [of db off bs] assms by (auto simp: size)
  then show ?thesis
    using dyn.read_bulk_law [OF db'(2)] by (auto simp: size patch_def [abs_def])
qed

theorem dma_write_then_read_witness:
  "\<exists>db'. dev_write_bulk dma_bus_ops dyn_example 0x1002 [7, 8, 9] = Inr db' \<and>
     dev_read_bulk dma_bus_ops db' 0x1001 4 = Inr [2, 7, 8, 0xff]"
proof -
  have d: "dyn_byte dyn_example 0x1001 = 2" "dyn_byte dyn_example 0x1004 = 0xff"
      "dyn_writable dyn_example 0x1002" "dyn_writable dyn_example 0x1003"
      "\<not> dyn_writable dyn_example 0x1004"
    by (simp_all add: dyn_byte_def dyn_writable_def bus_byte_def dyn_example_def entry_has_def
        seg_byte_def seg_writable_def is_writable_def bus_new_def bus_new_with_default_def dd_byte_def
        Let_def)
  have u: "[0x1001..<0x1005] = [0x1001, 0x1002, 0x1003, 0x1004 :: nat]" by (simp add: upt_rec)
  obtain db' where "dev_write_bulk dma_bus_ops dyn_example 0x1002 [7, 8, 9] = Inr db'"
      and r: "\<forall>a n. unat a + n < 2 ^ 64 \<longrightarrow> dev_read_bulk dma_bus_ops db' a n =
        Inr (map (\<lambda>i. if unat (0x1002 :: u64) \<le> i \<and> i < unat (0x1002 :: u64) + length [7, 8, 9 :: u8] \<and>
          dyn_writable dyn_example i then [7, 8, 9] ! (i - unat (0x1002 :: u64)) else dyn_byte dyn_example i)
          [unat a..<unat a + n])"
    using dma_write_then_read [OF dyn_example_ok, of "0x1002" "[7, 8, 9]"] by auto
  moreover have "dev_read_bulk dma_bus_ops db' 0x1001 4 = Inr [2, 7, 8, 0xff]"
    using r [rule_format, of "0x1001" 4] d by (simp add: u)
  ultimately show ?thesis by blast
qed


lemma dyn_add_effect:
  assumes "dyn_ok db" "dma_ok d" "dyn_add dma_device_ops Filler db s d = Inr db'"
  shows "dyn_ok db' \<and> dyn_byte db' a =
    (if seg_covers dma_device_ops \<lparr>de_start = s, de_device = d\<rparr> a then dma_byte d (a - unat s)
     else if \<exists>e \<in> set (db_segments db). de_start e \<noteq> s \<and> seg_covers dma_device_ops e a
     then dyn_byte db a else 0xff)"
proof -
  let ?new = "\<lparr>de_start = s, de_device = d\<rparr>"
  let ?es = "filter (\<lambda>e. de_start e \<noteq> s) (db_segments db) @ [?new]"
  obtain b where b: "dyn_build dma_device_ops Filler ?es = Inr b"
      "db' = \<lparr>db_segments = ?es, db_bus = b\<rparr>"
    using assms(3) by (auto simp: dyn_add_def Let_def)
  have "dyn_ok db'"
    using dyn_build_Inr [OF b(1) full_default_Filler] b(2) assms(1,2)
    by (intro ok_bus_dyn) (auto dest: dyn_ok_segments)
  moreover have "bus_byte dma_byte b a = dyn_byte db a"
    if "e \<in> set (db_segments db)" "de_start e \<noteq> s" "seg_covers dma_device_ops e a" for e
    using rebuilt_bytes(1) [OF b(1), of e a] that assms(1) 
      dyn_byte_covered [of dma_device_ops db e a dma_byte]
    by (auto simp: dyn_ok_def dyn_byte_def)
  moreover have "bus_byte dma_byte b a = dma_byte d (a - unat s)" if "seg_covers dma_device_ops ?new a"
    using rebuilt_bytes(1) [OF b(1), of ?new a] that by simp
  ultimately show ?thesis
    using rebuilt_bytes(2) [OF b(1), of a] b(2) by (auto simp: dyn_byte_def)
qed

text \<open>
  Mapping guest memory. \<open>DynamicBus::add\<close> replaces a mapping that starts at the same address:
  the new device shows its bytes in its whole range, the other mappings keep theirs, and
  everything else (a longer mapping that was replaced, for instance) reads as unmapped.
\<close>

theorem dyn_add_bytes:
  assumes "dyn_ok db" "dma_ok d" "dyn_add dma_device_ops Filler db s d = Inr db'"
  shows "dyn_ok db' \<and> dyn_byte db' a =
    (if seg_covers dma_device_ops \<lparr>de_start = s, de_device = d\<rparr> a then dma_byte d (a - unat s)
     else if \<exists>e \<in> set (db_segments db). de_start e \<noteq> s \<and> seg_covers dma_device_ops e a
     then dyn_byte db a else 0xff)"
  using dyn_add_effect [OF assms] .

definition dyn_example_seg :: dma_device where
  "dyn_example_seg = Segment \<lparr>seg_size = 2, seg_mapping = MapReadOnly [5, 6]\<rparr>"

theorem dyn_add_bytes_witness:
  "\<exists>db'. dyn_add dma_device_ops Filler dyn_example 0x1000 dyn_example_seg = Inr db' \<and>
     dyn_byte db' 0x1001 = 6 \<and> dyn_byte db' 0x1002 = 0xff"
proof -
  have d: "dma_ok dyn_example_seg" by (simp add: dyn_example_seg_def seg_ok_def)
  obtain db' where db': "dyn_add dma_device_ops Filler dyn_example 0x1000 dyn_example_seg = Inr db'"
    by (simp add: dyn_add_def dyn_example_def dyn_build_def Let_def dyn_example_seg_def bus_add_def
        checked_add_def bus_size_def bus_new_def bus_new_with_default_def
        default_device_new_with_size_def)
  show ?thesis
    using dyn_add_bytes [OF dyn_example_ok d db', of "0x1001"]
      dyn_add_bytes [OF dyn_example_ok d db', of "0x1002"] db'
    by (simp add: seg_covers_def dyn_example_seg_def dyn_example_def Let_def seg_byte_def)
qed

text \<open>
  Unmapping guest memory. \<open>DynamicBus::remove_range\<close> never fails, drops exactly the mappings
  that start in the range, and leaves the bytes of all others alone; the dropped ones read as
  unmapped.
\<close>

theorem dyn_remove_bytes:
  assumes "dyn_ok db"
  shows "\<exists>db'. dyn_remove_range dma_device_ops Filler db s n = Inr db' \<and> dyn_ok db' \<and>
    dyn_byte db' a =
      (if \<exists>e \<in> set (db_segments db). seg_covers dma_device_ops e a \<and>
            \<not> (s \<le> de_start e \<and> de_start e < saturating_add s n)
       then dyn_byte db a else 0xff)"
proof -
  let ?es = "filter (\<lambda>e. de_start e < s \<or> saturating_add s n \<le> de_start e) (db_segments db)"
  have wf: "dyn_wf dma_device_ops db" using assms by (simp add: dyn_ok_def)
  obtain db' where db': "dyn_remove_range dma_device_ops Filler db s n = Inr db'"
    using dyn_remove_total [OF wf full_default_Filler] by blast
  then obtain b where b: "dyn_build dma_device_ops Filler ?es = Inr b"
      "db' = \<lparr>db_segments = ?es, db_bus = b\<rparr>"
    by (auto simp: dyn_remove_range_def Let_def)
  have "dyn_ok db'"
    using dyn_build_Inr [OF b(1) full_default_Filler] b(2) assms
    by (intro ok_bus_dyn) (auto dest: dyn_ok_segments)
  moreover have "bus_byte dma_byte b a = dyn_byte db a"
    if "e \<in> set ?es" "seg_covers dma_device_ops e a" for e
    using rebuilt_bytes(1) [OF b(1) that] dyn_byte_covered [OF wf _ that(2), where f = dma_byte] that(1)
    by (simp add: dyn_byte_def)
  moreover have "bus_byte dma_byte b a = 0xff"
    if "\<forall>e \<in> set ?es. \<not> seg_covers dma_device_ops e a"
    using rebuilt_bytes(2) [OF b(1) that] .
  ultimately show ?thesis
    using db' b(2) by (fastforce simp: dyn_byte_def not_less not_le)
qed

theorem dyn_remove_bytes_witness:
  "\<exists>db'. dyn_remove_range dma_device_ops Filler dyn_example 0x1000 1 = Inr db' \<and>
     dyn_byte db' 0x1002 = 0xff"
  using dyn_remove_bytes [OF dyn_example_ok, of "0x1000" 1 "0x1002"]
  by (auto simp: dyn_example_def Let_def saturating_add_def split: if_splits)

lemma route_straddling:
  assumes "\<exists>e \<in> set es. overlaps (ent_range e) rng"
    "\<forall>e \<in> set es. \<not> contains_interval (ent_range e) rng"
  shows "route es 0 rng r = Some (r, ToErrorDevice)"
proof (cases "route es 0 rng r")
  case None
  then show ?thesis using route_NoneD [OF None] assms(1) by blast
next
  case (Some p)
  obtain r' t where p: "p = (r', t)" by (cases p)
  show ?thesis
  proof (cases t)
    case (ToDevice i)
    then show ?thesis using route_sound [of es 0 rng r r' i] Some p assms(2) by auto
  next
    case ToErrorDevice
    then show ?thesis using route_error [of es 0 rng r r'] Some p by simp
  qed
qed

text \<open>
  Routing on a well-formed bus. A request that lies in one device's range is served by that
  device at the relative address; one that only partly overlaps a device reads as all ones; one
  that meets no device goes to the default device unchanged. The order in which devices were added
  does not matter.
\<close>

theorem bus_read_routing:
  assumes "wf_bus ops b" "request_range r = Some rng"
  shows "(i < length (bus_devices b) \<longrightarrow> contains_interval (ent_range (bus_devices b ! i)) rng \<longrightarrow>
      bus_read ops b r = dev_read ops (ent_device (bus_devices b ! i))
        (r\<lparr>req_addr := req_addr r - range_start (ent_range (bus_devices b ! i))\<rparr>)) \<and>
    ((\<exists>e \<in> set (bus_devices b). overlaps (ent_range e) rng) \<longrightarrow>
     (\<forall>e \<in> set (bus_devices b). \<not> contains_interval (ent_range e) rng) \<longrightarrow>
      bus_read ops b r = default_device_read (bus_error_device b) r) \<and>
    ((\<forall>e \<in> set (bus_devices b). \<not> overlaps (ent_range e) rng) \<longrightarrow>
      bus_read ops b r = dev_read ops (bus_default b) r)"
proof -
  have dis: "disjoint_entries (bus_devices b)" using assms(1) by (simp add: wf_bus_def)
  have ne: "\<not> range_is_empty rng"
    using assms(2) size_bytes_bounds(1) [of "req_size r"]
    by (auto simp: request_range_def checked_add_Some range_is_empty_def word_less_nat_alt
        unat_add_lt)
  show ?thesis
  proof (intro conjI impI)
    assume "i < length (bus_devices b)" "contains_interval (ent_range (bus_devices b ! i)) rng"
    then show "bus_read ops b r = dev_read ops (ent_device (bus_devices b ! i))
        (r\<lparr>req_addr := req_addr r - range_start (ent_range (bus_devices b ! i))\<rparr>)"
      using route_ToDevice [OF dis ne] assms(2) by (simp add: bus_read_def to_device_request_def)
  next
    assume o: "\<exists>e \<in> set (bus_devices b). overlaps (ent_range e) rng"
      and "\<forall>e \<in> set (bus_devices b). \<not> contains_interval (ent_range e) rng"
    then have "route (bus_devices b) 0 rng r = Some (r, ToErrorDevice)" by (rule route_straddling)
    then show "bus_read ops b r = default_device_read (bus_error_device b) r"
      using assms(2) by (simp add: bus_read_def to_device_request_def)
  next
    assume "\<forall>e \<in> set (bus_devices b). \<not> overlaps (ent_range e) rng"
    then show "bus_read ops b r = dev_read ops (bus_default b) r"
      using route_None [OF ne, of "bus_devices b" 0 r] assms(2)
      by (simp add: bus_read_def to_device_request_def)
  qed
qed

theorem bus_read_routing_witness:
  "bus_read dma_device_ops (db_bus dyn_example) (request_new 0x1002 Size2) = Inr 0x0403 \<and>
   bus_read dma_device_ops (db_bus dyn_example) (request_new 0x1002 Size4) = Inr 0xffffffff"
proof -
  have wf: "wf_bus dma_device_ops (db_bus dyn_example)"
    using dyn_example_ok by (simp add: dyn_ok_def dyn_wf_def)
  have r: "request_range (request_new 0x1002 Size2) = Some (mk_range 0x1002 0x1004)"
      "request_range (request_new 0x1002 Size4) = Some (mk_range 0x1002 0x1006)"
    by (simp_all add: request_range_def request_new_def checked_add_def)
  have ent: "bus_devices (db_bus dyn_example) = [\<lparr>ent_range = mk_range 0x1000 0x1004,
      ent_device = Segment \<lparr>seg_size = 4, seg_mapping = MapReadWrite [1, 2, 3, 4]\<rparr>\<rparr>]"
    by (simp add: dyn_example_def Let_def)
  have "bus_read dma_device_ops (db_bus dyn_example) (request_new 0x1002 Size2) =
      dev_read dma_device_ops (Segment \<lparr>seg_size = 4, seg_mapping = MapReadWrite [1, 2, 3, 4]\<rparr>)
        (request_new 2 Size2)"
    using bus_read_routing [OF wf r(1), of 0] by (simp add: ent contains_interval_iff request_new_def)
  moreover have "bus_read dma_device_ops (db_bus dyn_example) (request_new 0x1002 Size4) =
      default_device_read (bus_error_device (db_bus dyn_example)) (request_new 0x1002 Size4)"
    using bus_read_routing [OF wf r(2), of 0]
    by (simp add: ent contains_interval_iff overlaps_def range_is_empty_def intersection_def)
  ultimately show ?thesis
    by (simp add: request_new_def dma_device_ops_def segment_ops_def seg_read_def
        seg_in_bounds_def checked_add_def slice_def default_device_read_def mask_eq_exp_minus_1)
qed


section \<open>A memory with one segment\<close>

text \<open>The DMA bus with one writable segment at address 0, for concrete instances.\<close>

definition single_segment :: "u8 list \<Rightarrow> dma_device dynamic_bus" where
  "single_segment bytes =
     (let seg = Segment \<lparr>seg_size = of_nat (length bytes), seg_mapping = MapReadWrite bytes\<rparr> in
      \<lparr>db_segments = [\<lparr>de_start = 0, de_device = seg\<rparr>],
       db_bus = (bus_new dma_device_ops Filler (- 1))\<lparr>bus_devices :=
         [\<lparr>ent_range = mk_range 0 (of_nat (length bytes)), ent_device = seg\<rparr>]\<rparr>\<rparr>)"

lemma single_segment_ok:
  assumes "length bytes < 2 ^ 64"
  shows "dyn_ok (single_segment bytes)"
    and "dyn_byte (single_segment bytes) a = (if a < length bytes then bytes ! a else 0xff)"
    and "dyn_writable (single_segment bytes) a \<longleftrightarrow> a < length bytes"
proof -
  have len: "unat (of_nat (length bytes) :: u64) = length bytes"
    using assms by (simp add: unat_of_nat)
  then show "dyn_ok (single_segment bytes)"
    by (simp add: dyn_ok_def dyn_wf_def ok_bus_def wf_bus_def single_segment_def Let_def
        bus_entry_def disjoint_entries_def bus_new_def bus_new_with_default_def bus_size_def
        default_device_new_with_size_def seg_ok_def entry_fits_def word_order.extremum)
  show "dyn_byte (single_segment bytes) a = (if a < length bytes then bytes ! a else 0xff)"
    "dyn_writable (single_segment bytes) a \<longleftrightarrow> a < length bytes"
    using len by (auto simp: dyn_byte_def dyn_writable_def bus_byte_def single_segment_def Let_def
        entry_has_def seg_byte_def seg_writable_def is_writable_def bus_new_def
        bus_new_with_default_def dd_byte_def)
qed

lemma dma_bus_limit: "dyn_ok m \<Longrightarrow> unat (dev_size dma_bus_ops m) = 2 ^ 64 - 1"
  using unat_m1_u64 by (simp add: dma_bus_ops_def dyn_ops_def dyn_ok_def dyn_wf_def)

end
