(* ===== verification/GuestMemory.thy ===== *)
theory GuestMemory
  imports DynamicBus
begin

text \<open>
  Guest memory as the controller's rings and contexts use it: the bulk contract of the bus, plus
  word accesses that lie in one segment. The DMA bus is the instance.
\<close>

locale guest_memory = bulk_device +
  fixes word_ok :: "'a \<Rightarrow> nat \<Rightarrow> nat \<Rightarrow> bool"
  assumes word_read_law:
    "ok d \<Longrightarrow> word_ok d (unat a) (size_bytes sz) \<Longrightarrow>
      dev_read ops d (request_new a sz) =
        Inr (of_le_bytes (map (byte_at d) [unat a..<unat a + size_bytes sz]))"
    and word_write_law:
    "ok d \<Longrightarrow> word_ok d (unat a) (size_bytes sz) \<Longrightarrow>
      \<exists>d'. dev_write ops d (request_new a sz) v = Inr d' \<and> ok d' \<and>
        dev_size ops d' = dev_size ops d \<and>
        byte_at d' = patch (byte_at d) (writable d) (unat a) (le_bytes (size_bytes sz) v) \<and>
        writable d' = writable d \<and> word_ok d' = word_ok d"
    and word_ok_write_bulk:
    "ok d \<Longrightarrow> dev_write_bulk ops d off bs = Inr d' \<Longrightarrow> word_ok d' = word_ok d"
    and word_ok_bound: "word_ok d p n \<Longrightarrow> ok d \<Longrightarrow> p + n \<le> unat (dev_size ops d)"

section \<open>The DMA bus is guest memory\<close>

definition in_one_segment :: "dma_device dynamic_bus \<Rightarrow> nat \<Rightarrow> nat \<Rightarrow> bool" where
  "in_one_segment db a n \<longleftrightarrow>
     (\<exists>s \<in> set (db_segments db). unat (de_start s) \<le> a \<and>
        a + n \<le> unat (de_start s) + unat (dev_size dma_device_ops (de_device s)))"

lemma in_one_segment_entry:
  assumes "dyn_wf dma_device_ops db"
  shows "in_one_segment db a n \<longleftrightarrow>
    (\<exists>i < length (bus_devices (db_bus db)).
       unat (range_start (ent_range (bus_devices (db_bus db) ! i))) \<le> a \<and>
       a + n \<le> unat (range_end (ent_range (bus_devices (db_bus db) ! i))))"
proof -
  have fits: "seg_fits dma_device_ops s" if "s \<in> set (db_segments db)" for s
    using dyn_wf_segments(1) [OF assms] that by blast
  have e: "unat (range_end (ent_range (bus_entry dma_device_ops s))) =
      unat (de_start s) + unat (dev_size dma_device_ops (de_device s))"
    if "s \<in> set (db_segments db)" for s
    using fits [OF that] unat_add_lt [of "de_start s" "dev_size dma_device_ops (de_device s)"]
    by (simp add: bus_entry_def seg_fits_def)
  have es: "bus_devices (db_bus db) = map (bus_entry dma_device_ops) (db_segments db)"
    using assms by (simp add: dyn_wf_def)
  have at: "unat (range_start (ent_range (bus_devices (db_bus db) ! i))) = unat (de_start (db_segments db ! i)) \<and>
      unat (range_end (ent_range (bus_devices (db_bus db) ! i))) = unat (de_start (db_segments db ! i)) +
        unat (dev_size dma_device_ops (de_device (db_segments db ! i)))" if "i < length (db_segments db)" for i
    using that e [OF nth_mem [OF that]] by (simp add: es) (simp add: bus_entry_def)
  have "in_one_segment db a n \<longleftrightarrow> (\<exists>i < length (db_segments db). unat (de_start (db_segments db ! i)) \<le> a \<and>
      a + n \<le> unat (de_start (db_segments db ! i)) +
        unat (dev_size dma_device_ops (de_device (db_segments db ! i))))"
    unfolding in_one_segment_def by (metis in_set_conv_nth)
  also have "\<dots> \<longleftrightarrow> (\<exists>i < length (bus_devices (db_bus db)).
       unat (range_start (ent_range (bus_devices (db_bus db) ! i))) \<le> a \<and>
       a + n \<le> unat (range_end (ent_range (bus_devices (db_bus db) ! i))))"
    using at by (auto simp: es)
  finally show ?thesis .
qed

lemma dyn_wf_disjoint: "dyn_wf ops db \<Longrightarrow> disjoint_entries (bus_devices (db_bus db))"
  by (metis dyn_wf_def wf_bus_def)


text \<open>Word accesses inside one segment go to its device.\<close>

lemma route_in_segment:
  assumes "dyn_wf dma_device_ops db" "in_one_segment db (unat a) (size_bytes sz)"
  obtains i where "i < length (bus_devices (db_bus db))"
    "unat (range_start (ent_range (bus_devices (db_bus db) ! i))) \<le> unat a"
    "unat a + size_bytes sz \<le> unat (range_end (ent_range (bus_devices (db_bus db) ! i)))"
    "to_device_request (db_bus db) (request_new a sz) =
      Some (request_new (a - range_start (ent_range (bus_devices (db_bus db) ! i))) sz, ToDevice i)"
proof -
  obtain i where i: "i < length (bus_devices (db_bus db))"
    "unat (range_start (ent_range (bus_devices (db_bus db) ! i))) \<le> unat a"
    "unat a + size_bytes sz \<le> unat (range_end (ent_range (bus_devices (db_bus db) ! i)))"
    using assms by (auto simp: in_one_segment_entry)
  then have lt: "unat a + unat (of_nat (size_bytes sz) :: u64) < 2 ^ 64"
    using unat_lt_max [of "range_end (ent_range (bus_devices (db_bus db) ! i))"] by simp
  let ?rng = "mk_range a (a + of_nat (size_bytes sz))"
  have rng: "request_range (request_new a sz) = Some ?rng"
    using lt by (simp add: request_range_def request_new_def checked_add_def)
  have c: "contains_interval (ent_range (bus_devices (db_bus db) ! i)) ?rng"
    using i lt by (simp add: contains_interval_iff word_le_nat_alt unat_add_lt)
  have ne: "\<not> range_is_empty ?rng"
    using lt size_bytes_bounds(1) [of sz] by (simp add: range_is_empty_def word_less_nat_alt unat_add_lt)
  have dis: "disjoint_entries (bus_devices (db_bus db))" using assms(1) by (rule dyn_wf_disjoint)
  have "to_device_request (db_bus db) (request_new a sz) =
      Some (request_new (a - range_start (ent_range (bus_devices (db_bus db) ! i))) sz, ToDevice i)"
    using route_ToDevice [OF dis ne i(1) c, of 0 "request_new a sz"] rng
    by (simp add: to_device_request_def request_new_def)
  then show ?thesis using that i by blast
qed

lemma segment_room:
  assumes "dyn_ok db" "i < length (bus_devices (db_bus db))"
    "unat (range_start (ent_range (bus_devices (db_bus db) ! i))) \<le> unat a"
    "unat a + n \<le> unat (range_end (ent_range (bus_devices (db_bus db) ! i)))"
  defines "rel \<equiv> a - range_start (ent_range (bus_devices (db_bus db) ! i))"
  shows "unat rel = unat a - unat (range_start (ent_range (bus_devices (db_bus db) ! i)))"
    and "unat rel + n \<le> unat (dev_size dma_device_ops (ent_device (bus_devices (db_bus db) ! i)))"
    and "dma_ok (ent_device (bus_devices (db_bus db) ! i))"
proof -
  let ?e = "bus_devices (db_bus db) ! i"
  have "entry_fits dma_device_ops (- 1) ?e" using assms(1,2) by (auto simp: dyn_ok_def dyn_wf_def wf_bus_def)
  moreover show rel: "unat rel = unat a - unat (range_start (ent_range ?e))"
    using assms(3) unfolding rel_def by (intro unat_sub_le) (simp add: word_le_nat_alt)
  ultimately show "unat rel + n \<le> unat (dev_size dma_device_ops (ent_device ?e))"
    using assms(3,4) by (simp add: entry_fits_def)
  show "dma_ok (ent_device ?e)" using assms(1,2) by (simp add: dyn_ok_def ok_bus_def)
qed

lemma dyn_read_word:
  assumes "dyn_ok db" "in_one_segment db (unat a) (size_bytes sz)"
  shows "dev_read dma_bus_ops db (request_new a sz) =
    Inr (of_le_bytes (map (dyn_byte db) [unat a..<unat a + size_bytes sz]))"
proof -
  have wf: "dyn_wf dma_device_ops db" using assms(1) by (simp add: dyn_ok_def)
  then have dis: "disjoint_entries (bus_devices (db_bus db))" by (rule dyn_wf_disjoint)
  obtain i where i: "i < length (bus_devices (db_bus db))"
    "unat (range_start (ent_range (bus_devices (db_bus db) ! i))) \<le> unat a"
    "unat a + size_bytes sz \<le> unat (range_end (ent_range (bus_devices (db_bus db) ! i)))"
    "to_device_request (db_bus db) (request_new a sz) =
      Some (request_new (a - range_start (ent_range (bus_devices (db_bus db) ! i))) sz, ToDevice i)"
    using route_in_segment [OF wf assms(2)] by metis
  note room = segment_room [OF assms(1) i(1-3)]
  have "dyn_byte db j = dma_byte (ent_device (bus_devices (db_bus db) ! i))
      (j - unat (range_start (ent_range (bus_devices (db_bus db) ! i))))"
    if "unat a \<le> j" "j < unat a + size_bytes sz" for j
    unfolding dyn_byte_def using dis i that by (intro dma.bus_byte_entry) auto
  then have "map (dma_byte (ent_device (bus_devices (db_bus db) ! i)))
      [unat (a - range_start (ent_range (bus_devices (db_bus db) ! i)))..<
       unat (a - range_start (ent_range (bus_devices (db_bus db) ! i))) + size_bytes sz] =
      map (dyn_byte db) [unat a..<unat a + size_bytes sz]"
    using i(2) room(1) by (intro nth_equalityI) auto
  then show ?thesis
    using dma.read_law [OF room(3), of "request_new (a - range_start (ent_range (bus_devices (db_bus db) ! i))) sz"]
      room(2) i(4)
    by (simp add: dma_bus_ops_def dyn_ops_def bus_read_def request_new_def)
qed

lemma in_one_segment_store:
  assumes "dyn_wf dma_device_ops db" "dyn_wf dma_device_ops (dyn_store db b)"
    "map ent_range (bus_devices b) = map ent_range (bus_devices (db_bus db))"
  shows "in_one_segment (dyn_store db b) = in_one_segment db"
proof -
  have "length (bus_devices b) = length (bus_devices (db_bus db))"
    "\<And>i. i < length (bus_devices b) \<Longrightarrow> ent_range (bus_devices b ! i) = ent_range (bus_devices (db_bus db) ! i)"
    using assms(3) by (metis length_map, metis assms(3) length_map nth_map)
  then show ?thesis
    using assms(1,2) by (auto simp: fun_eq_iff in_one_segment_entry dyn_store_def)
qed


lemma dyn_write_word:
  assumes "dyn_ok db" "in_one_segment db (unat a) (size_bytes sz)"
  shows "\<exists>db'. dev_write dma_bus_ops db (request_new a sz) v = Inr db' \<and> dyn_ok db' \<and>
    dev_size dma_bus_ops db' = dev_size dma_bus_ops db \<and>
    dyn_byte db' = patch (dyn_byte db) (dyn_writable db) (unat a) (le_bytes (size_bytes sz) v) \<and>
    dyn_writable db' = dyn_writable db \<and> in_one_segment db' = in_one_segment db"
proof -
  have wf: "dyn_wf dma_device_ops db" using assms(1) by (simp add: dyn_ok_def)
  obtain i where i: "i < length (bus_devices (db_bus db))"
    "unat (range_start (ent_range (bus_devices (db_bus db) ! i))) \<le> unat a"
    "unat a + size_bytes sz \<le> unat (range_end (ent_range (bus_devices (db_bus db) ! i)))"
    "to_device_request (db_bus db) (request_new a sz) =
      Some (request_new (a - range_start (ent_range (bus_devices (db_bus db) ! i))) sz, ToDevice i)"
    using route_in_segment [OF wf assms(2)] by metis
  let ?dev = "ent_device (bus_devices (db_bus db) ! i)"
  let ?rel = "a - range_start (ent_range (bus_devices (db_bus db) ! i))"
  note room = segment_room [OF assms(1) i(1-3)]
  obtain d where d: "dev_write dma_device_ops ?dev (request_new ?rel sz) v = Inr d" "dma_ok d"
      "dev_size dma_device_ops d = dev_size dma_device_ops ?dev"
      "dma_byte d = patch (dma_byte ?dev) (dma_writable ?dev) (unat ?rel) (le_bytes (size_bytes sz) v)"
      "dma_writable d = dma_writable ?dev"
    using dma.write_law [OF room(3), of "request_new ?rel sz" v] room(2)
    by (auto simp: request_new_def)
  have w: "dma.written (db_bus db) (unat a) (le_bytes (size_bytes sz) v) (set_device (db_bus db) i d)"
    using assms(1) i d room(1) by (intro dma.written_entry) (auto simp: dyn_ok_def)
  have ranges: "map ent_range (bus_devices (set_device (db_bus db) i d)) =
      map ent_range (bus_devices (db_bus db))"
    using i(1) by (intro nth_equalityI) auto
  have wf': "dyn_wf dma_device_ops (dyn_store db (set_device (db_bus db) i d))"
    using w wf ranges by (intro dyn_store_wf) (auto simp: dma.written_def ok_bus_def dyn_wf_def)
  have "dev_write dma_bus_ops db (request_new a sz) v =
      Inr (dyn_store db (set_device (db_bus db) i d))"
    using i(4) d(1) by (simp add: dma_bus_ops_def dyn_ops_def bus_write_def)
  moreover have "in_one_segment (dyn_store db (set_device (db_bus db) i d)) = in_one_segment db"
    using in_one_segment_store [OF wf wf' ranges] .
  ultimately show ?thesis
    using w wf' by (auto simp: dma.written_def dyn_ok_def dyn_byte_def dyn_writable_def dyn_store_def
        dma_bus_ops_def dyn_ops_def)
qed

interpretation guest: guest_memory dma_bus_ops dyn_ok dyn_byte dyn_writable in_one_segment
proof
  fix db and a :: u64 and sz
  assume "dyn_ok db" "in_one_segment db (unat a) (size_bytes sz)"
  then show "dev_read dma_bus_ops db (request_new a sz) =
      Inr (of_le_bytes (map (dyn_byte db) [unat a..<unat a + size_bytes sz]))"
    by (rule dyn_read_word)
next
  fix db and a :: u64 and sz and v :: u64
  assume "dyn_ok db" "in_one_segment db (unat a) (size_bytes sz)"
  then show "\<exists>db'. dev_write dma_bus_ops db (request_new a sz) v = Inr db' \<and> dyn_ok db' \<and>
      dev_size dma_bus_ops db' = dev_size dma_bus_ops db \<and>
      dyn_byte db' = patch (dyn_byte db) (dyn_writable db) (unat a) (le_bytes (size_bytes sz) v) \<and>
      dyn_writable db' = dyn_writable db \<and> in_one_segment db' = in_one_segment db"
    by (rule dyn_write_word)
next
  fix db db' and off :: u64 and bs :: "u8 list"
  assume a: "dyn_ok db" "dev_write_bulk dma_bus_ops db off bs = Inr db'"
  then obtain b where b: "bus_write_bulk dma_device_ops (db_bus db) off bs = Inr b" "db' = dyn_store db b"
    by (auto simp: dma_bus_ops_def dyn_ops_def)
  have "unat off + length bs \<le> unat (dev_size dma_bus_ops db)"
    using b(1) dma_bus_limit [OF a(1)] by (auto simp: bus_write_bulk_def)
  then have "dyn_ok db'" using dyn.write_bulk_law [OF a(1)] a(2) by fastforce
  then show "in_one_segment db' = in_one_segment db"
    using in_one_segment_store [OF _ _ bus_write_bulk_ranges [OF b(1)]] a(1) b(2) by (simp add: dyn_ok_def)
next
  fix db and p n
  assume a: "in_one_segment db p n" "dyn_ok db"
  then have "dyn_wf dma_device_ops db" by (simp add: dyn_ok_def)
  then obtain i where "p + n \<le> unat (range_end (ent_range (bus_devices (db_bus db) ! i)))"
    using a(1) in_one_segment_entry by blast
  then show "p + n \<le> unat (dev_size dma_bus_ops db)"
    using unat_lt_max [of "range_end (ent_range (bus_devices (db_bus db) ! i))"] dma_bus_limit [OF a(2)]
    by simp
qed

text \<open>The DMA bus spans the address space but its last byte.\<close>

abbreviation dma_limit :: nat where "dma_limit \<equiv> 2 ^ 64 - 1"

lemma single_segment_word:
  "length bytes < 2 ^ 64 \<Longrightarrow> in_one_segment (single_segment bytes) a n \<longleftrightarrow> a + n \<le> length bytes"
  by (simp add: in_one_segment_def single_segment_def Let_def unat_of_nat)


lemma single_segment_map:
  "length bytes < 2 ^ 64 \<Longrightarrow> a + n \<le> length bytes \<Longrightarrow>
     map (dyn_byte (single_segment bytes)) [a..<a + n] = slice bytes a n"
  by (rule nth_equalityI) (auto simp: single_segment_ok)

end
