(* ===== verification/LinkedRing.thy ===== *)
theory LinkedRing
  imports GuestMemory Trb
begin

text \<open>
  Command and transfer rings (\<open>src/device/xhci/linked_ring.rs\<close>). The ring's contents live in guest
  memory, reached through a \<open>BusDeviceRef\<close>: the operations take the device's record of operations
  and its state. The client lemmas are proved in the contract of that device and used for the DMA
  bus.
\<close>

record linked_ring =
  lr_dequeue_pointer :: u64
  lr_cycle_state :: bool

definition linked_ring_new :: "u64 \<Rightarrow> bool \<Rightarrow> linked_ring" where
  "linked_ring_new dequeue_pointer cycle_state =
     \<lparr>lr_dequeue_pointer = dequeue_pointer, lr_cycle_state = cycle_state\<rparr>"

definition next_trb_raw ::
  "'m bus_device \<Rightarrow> 'm \<Rightarrow> linked_ring \<Rightarrow> raw_trb_buffer option res" where
  "next_trb_raw ops m ring =
     rbind (dev_read_bulk ops m (lr_dequeue_pointer ring) 16) (\<lambda>trb_buffer.
     let cycle_bit = (trb_buffer ! 12 AND 0x1 \<noteq> 0) in
     Inr (if cycle_bit \<noteq> lr_cycle_state ring then None else Some trb_buffer))"

text \<open>What following a Link TRB does to the ring.\<close>

definition take_link :: "linked_ring \<Rightarrow> link_trb \<Rightarrow> linked_ring" where
  "take_link ring l =
     ring\<lparr>lr_dequeue_pointer := ring_segment_pointer l,
          lr_cycle_state := (if toggle_cycle l then \<not> lr_cycle_state ring else lr_cycle_state ring)\<rparr>"

text \<open>The \<open>while let\<close> loop; \<open>budget\<close> is 256 minus the source's \<open>link_trb_counter\<close>.\<close>

fun follow_links ::
  "'m bus_device \<Rightarrow> 'm \<Rightarrow> nat \<Rightarrow> linked_ring \<Rightarrow> raw_trb_buffer \<Rightarrow>
     (linked_ring \<times> raw_trb option) res" where
  "follow_links ops m budget ring buffer =
     (case link_parse buffer of
        None \<Rightarrow> Inr (ring, Some \<lparr>raw_address = lr_dequeue_pointer ring, raw_buffer = buffer\<rparr>)
      | Some l \<Rightarrow>
          (case budget of
             0 \<Rightarrow> Inr (ring, None)
           | Suc budget' \<Rightarrow>
               let ring' = take_link ring l in
               rbind (next_trb_raw ops m ring') (\<lambda>next. case next of
                 None \<Rightarrow> Inr (ring', None)
               | Some buffer' \<Rightarrow> follow_links ops m budget' ring' buffer')))"

declare follow_links.simps [simp del]

definition next_trb :: "'m bus_device \<Rightarrow> 'm \<Rightarrow> linked_ring \<Rightarrow> (linked_ring \<times> raw_trb option) res" where
  "next_trb ops m ring =
     rbind (next_trb_raw ops m ring) (\<lambda>next. case next of
       None \<Rightarrow> Inr (ring, None)
     | Some buffer \<Rightarrow> follow_links ops m 256 ring buffer)"

definition advance :: "linked_ring \<Rightarrow> linked_ring" where
  "advance ring = ring\<lparr>lr_dequeue_pointer := lr_dequeue_pointer ring + 16\<rparr>"

definition set_dequeue_pointer :: "linked_ring \<Rightarrow> u64 \<Rightarrow> bool \<Rightarrow> linked_ring" where
  "set_dequeue_pointer ring dequeue_pointer cycle_state =
     ring\<lparr>lr_dequeue_pointer := dequeue_pointer, lr_cycle_state := cycle_state\<rparr>"

definition get_dequeue_pointer :: "linked_ring \<Rightarrow> u64 \<times> bool" where
  "get_dequeue_pointer ring = (lr_dequeue_pointer ring, lr_cycle_state ring)"

section \<open>The ring the guest laid out\<close>

text \<open>
  What a driver promises about a ring position: the 16 bytes lie in memory, and their cycle bit is
  the ring's cycle state (the TRB is fresh). \<open>link_path\<close> follows fresh Link TRBs.
\<close>

definition ring_bytes :: "(nat \<Rightarrow> u8) \<Rightarrow> linked_ring \<Rightarrow> raw_trb_buffer" where
  "ring_bytes mem r = map mem [unat (lr_dequeue_pointer r)..<unat (lr_dequeue_pointer r) + 16]"

definition ring_readable :: "nat \<Rightarrow> linked_ring \<Rightarrow> bool" where
  "ring_readable limit r \<longleftrightarrow> unat (lr_dequeue_pointer r) + 16 \<le> limit"

definition fresh :: "(nat \<Rightarrow> u8) \<Rightarrow> linked_ring \<Rightarrow> bool" where
  "fresh mem r \<longleftrightarrow> (ring_bytes mem r ! 12 AND 0x1 \<noteq> 0) = lr_cycle_state r"

definition linked_to :: "linked_ring \<Rightarrow> link_trb \<Rightarrow> linked_ring" where
  "linked_to r l = \<lparr>lr_dequeue_pointer = ring_segment_pointer l,
     lr_cycle_state = (lr_cycle_state r \<noteq> toggle_cycle l)\<rparr>"

lemma take_link_linked [simp]: "take_link r l = linked_to r l"
  by (cases r) (auto simp: take_link_def linked_to_def)

inductive link_path :: "nat \<Rightarrow> (nat \<Rightarrow> u8) \<Rightarrow> linked_ring \<Rightarrow> nat \<Rightarrow> linked_ring \<Rightarrow> bool"
  for limit :: nat and mem :: "nat \<Rightarrow> u8" where
  link_path_refl: "link_path limit mem r 0 r"
| link_path_step: "ring_readable limit r \<Longrightarrow> fresh mem r \<Longrightarrow> link_parse (ring_bytes mem r) = Some l \<Longrightarrow>
    link_path limit mem (linked_to r l) n r' \<Longrightarrow> link_path limit mem r (Suc n) r'"

inductive_simps link_path_0 [simp]: "link_path limit mem r 0 r'"
inductive_simps link_path_Suc: "link_path limit mem r (Suc n) r'"

lemma length_ring_bytes [simp]: "length (ring_bytes mem r) = 16"
  by (simp add: ring_bytes_def)

text \<open>The TRB that is due at a position: fresh, and not a link.\<close>

definition due :: "nat \<Rightarrow> (nat \<Rightarrow> u8) \<Rightarrow> linked_ring \<Rightarrow> bool" where
  "due limit mem r \<longleftrightarrow> ring_readable limit r \<and> fresh mem r \<and> link_parse (ring_bytes mem r) = None"

lemma link_path_due_unique:
  assumes "link_path limit mem r n r1" "due limit mem r1" "link_path limit mem r k r2" "due limit mem r2"
  shows "r1 = r2 \<and> n = k"
  using assms
proof (induction arbitrary: k rule: link_path.induct)
  case (link_path_refl r)
  from link_path_refl(2) show ?case by cases (use link_path_refl(1) in \<open>auto simp: due_def\<close>)
next
  case (link_path_step r l n r')
  from link_path_step.prems(2) show ?case
    by cases (use link_path_step in \<open>auto simp: due_def\<close>)
qed

section \<open>What \<open>next_trb\<close> returns\<close>

context bulk_device
begin

lemma next_trb_raw_bytes:
  assumes "ok m" "ring_readable (lim m) r"
  shows "next_trb_raw ops m r =
    Inr (if fresh (byte_at m) r then Some (ring_bytes (byte_at m) r) else None)"
  using read_bulk_law [OF assms(1), of "lr_dequeue_pointer r" 16] assms(2)
  by (auto simp: next_trb_raw_def ring_readable_def fresh_def ring_bytes_def Let_def)

lemma follow_links_complete:
  assumes "link_path (lim m) (byte_at m) r n r'" "due (lim m) (byte_at m) r'" "ok m" "n \<le> budget"
  shows "follow_links ops m budget r (ring_bytes (byte_at m) r) =
    Inr (r', Some \<lparr>raw_address = lr_dequeue_pointer r', raw_buffer = ring_bytes (byte_at m) r'\<rparr>)"
  using assms
proof (induction arbitrary: budget rule: link_path.induct)
  case (link_path_refl r)
  then show ?case by (subst follow_links.simps) (simp add: due_def)
next
  case (link_path_step r l n r')
  obtain b where b: "budget = Suc b" "n \<le> b" using link_path_step.prems(3) by (cases budget) auto
  have "ring_readable (lim m) (linked_to r l) \<and> fresh (byte_at m) (linked_to r l)"
    using link_path_step(4) link_path_step.prems(1) by (cases rule: link_path.cases) (auto simp: due_def)
  then show ?case
    using link_path_step b
    by (subst follow_links.simps) (simp add: next_trb_raw_bytes Let_def)
qed


lemma next_trb_complete:
  assumes "link_path (lim m) (byte_at m) r n r'" "due (lim m) (byte_at m) r'" "ok m" "n \<le> 256"
  shows "next_trb ops m r =
    Inr (r', Some \<lparr>raw_address = lr_dequeue_pointer r', raw_buffer = ring_bytes (byte_at m) r'\<rparr>)"
proof -
  have "ring_readable (lim m) r \<and> fresh (byte_at m) r"
    using assms(1,2) by (cases rule: link_path.cases) (auto simp: due_def)
  then show ?thesis
    using follow_links_complete [OF assms] assms(3) by (simp add: next_trb_def next_trb_raw_bytes)
qed

lemma next_trb_raw_Some:
  assumes "ok m" "ring_readable (lim m) r" "next_trb_raw ops m r = Inr (Some b)"
  shows "b = ring_bytes (byte_at m) r \<and> fresh (byte_at m) r"
  using assms by (auto simp: next_trb_raw_bytes split: if_splits)

text \<open>All positions a ring may reach are readable: the driver keeps its rings in mapped memory.\<close>

lemma follow_links_sound:
  assumes "ok m" "\<And>r' n. link_path (lim m) (byte_at m) r n r' \<Longrightarrow> ring_readable (lim m) r'"
    "fresh (byte_at m) r" "follow_links ops m budget r (ring_bytes (byte_at m) r) = Inr (r', Some t)"
  shows "\<exists>n \<le> budget. link_path (lim m) (byte_at m) r n r' \<and> due (lim m) (byte_at m) r' \<and>
    t = \<lparr>raw_address = lr_dequeue_pointer r', raw_buffer = ring_bytes (byte_at m) r'\<rparr>"
  using assms(2-4)
proof (induction budget arbitrary: r)
  case 0
  have rd: "ring_readable (lim m) r" using 0(1) [OF link_path_refl] .
  then show ?case
    using 0(2,3) by (subst (asm) follow_links.simps) (auto simp: due_def split: option.splits)
next
  case (Suc b)
  have rd: "ring_readable (lim m) r" using Suc.prems(1) [OF link_path_refl] .
  show ?case
  proof (cases "link_parse (ring_bytes (byte_at m) r)")
    case None
    then have "r' = r" "t = \<lparr>raw_address = lr_dequeue_pointer r, raw_buffer = ring_bytes (byte_at m) r\<rparr>"
      using Suc.prems(3) by (subst (asm) follow_links.simps; simp)+
    then show ?thesis using None rd Suc.prems(2) by (auto simp: due_def intro!: exI [of _ 0])
  next
    case (Some l)
    let ?r1 = "linked_to r l"
    have path: "link_path (lim m) (byte_at m) r (Suc n) r2"
      if "link_path (lim m) (byte_at m) ?r1 n r2" for n r2
      using link_path_step [OF rd Suc.prems(2) Some that] .
    have rd1: "ring_readable (lim m) ?r1" using Suc.prems(1) [OF path [OF link_path_refl]] .
    obtain b1 where b1: "next_trb_raw ops m ?r1 = Inr (Some b1)"
        "follow_links ops m b ?r1 b1 = Inr (r', Some t)"
      using Suc.prems(3) Some by (subst (asm) follow_links.simps) (auto simp: Let_def split: option.splits)
    then have "b1 = ring_bytes (byte_at m) ?r1" "fresh (byte_at m) ?r1"
      using next_trb_raw_Some [OF assms(1) rd1] by auto
    then obtain n where "n \<le> b" "link_path (lim m) (byte_at m) ?r1 n r'" "due (lim m) (byte_at m) r'"
        "t = \<lparr>raw_address = lr_dequeue_pointer r', raw_buffer = ring_bytes (byte_at m) r'\<rparr>"
      using Suc.IH [of ?r1] Suc.prems(1) path b1(2) by blast
    then show ?thesis using path by (intro exI [of _ "Suc n"]) auto
  qed
qed

lemma next_trb_sound:
  assumes "ok m" "\<And>r' n. link_path (lim m) (byte_at m) r n r' \<Longrightarrow> ring_readable (lim m) r'"
    "next_trb ops m r = Inr (r', Some t)"
  shows "\<exists>n \<le> 256. link_path (lim m) (byte_at m) r n r' \<and> due (lim m) (byte_at m) r' \<and>
    t = \<lparr>raw_address = lr_dequeue_pointer r', raw_buffer = ring_bytes (byte_at m) r'\<rparr>"
proof -
  have rd: "ring_readable (lim m) r" using assms(2) [OF link_path_refl] .
  obtain b where "next_trb_raw ops m r = Inr (Some b)" "follow_links ops m 256 r b = Inr (r', Some t)"
    using assms(3) by (auto simp: next_trb_def split: option.splits)
  then show ?thesis
    using next_trb_raw_Some [OF assms(1) rd] follow_links_sound [OF assms(1,2)] by auto
qed

lemma follow_links_total:
  assumes "ok m" "\<And>r' n. link_path (lim m) (byte_at m) r n r' \<Longrightarrow> ring_readable (lim m) r'"
    "fresh (byte_at m) r"
  shows "is_ok (follow_links ops m budget r (ring_bytes (byte_at m) r))"
  using assms(2,3)
proof (induction budget arbitrary: r)
  case 0
  then show ?case by (subst follow_links.simps) (simp split: option.splits)
next
  case (Suc b)
  have rd: "ring_readable (lim m) r" using Suc.prems(1) [OF link_path_refl] .
  have path: "link_path (lim m) (byte_at m) r (Suc n) r2"
    if "link_parse (ring_bytes (byte_at m) r) = Some l"
      "link_path (lim m) (byte_at m) (linked_to r l) n r2" for l n r2
    using link_path_step [OF rd Suc.prems(2) that] .
  show ?case
    using Suc.IH Suc.prems(1) [OF path] path Suc.prems(1) [OF path [OF _ link_path_refl]]
    by (subst follow_links.simps)
      (auto simp: Let_def next_trb_raw_bytes [OF assms(1)] split: option.splits)
qed

lemma next_trb_total:
  assumes "ok m" "\<And>r' n. link_path (lim m) (byte_at m) r n r' \<Longrightarrow> ring_readable (lim m) r'"
  shows "is_ok (next_trb ops m r)"
  using follow_links_total [OF assms] assms(2) [OF link_path_refl]
  by (simp add: next_trb_def next_trb_raw_bytes [OF assms(1)])

end


section \<open>Rings in guest memory\<close>

text \<open>
  C21: What the controller takes from a ring. On a ring whose positions all lie in the address space,
  \<open>next_trb\<close> never panics, and it returns a TRB exactly when at most 256 fresh Link TRBs lead from
  the dequeue pointer to a fresh TRB that is not a link: that TRB, with its address, and a ring that
  points at it with the cycle state the links produce.
\<close>

theorem next_trb_iff:
  assumes "dyn_ok m"
    "\<And>r' n. link_path dma_limit (dyn_byte m) r n r' \<Longrightarrow> ring_readable dma_limit r'"
  shows "is_ok (next_trb dma_bus_ops m r) \<and>
    (next_trb dma_bus_ops m r = Inr (r', Some t) \<longleftrightarrow>
      (\<exists>n \<le> 256. link_path dma_limit (dyn_byte m) r n r' \<and> due dma_limit (dyn_byte m) r' \<and>
        t = \<lparr>raw_address = lr_dequeue_pointer r', raw_buffer = ring_bytes (dyn_byte m) r'\<rparr>))"
  using dyn.next_trb_total [OF assms(1)] dyn.next_trb_sound [OF assms(1)]
    dyn.next_trb_complete [OF _ _ assms(1)] assms(2)
  unfolding dma_bus_limit [OF assms(1)] by blast

text \<open>A ring of one Status Stage TRB and a Link TRB back to the start that toggles the cycle.\<close>

definition status_trb_bytes :: raw_trb_buffer where
  "status_trb_bytes = [0, 0, 0, 0, 0, 0, 0, 0, 0, 0, 0, 0, 0x00, 0x10, 0, 0]"

definition link_trb_bytes :: raw_trb_buffer where
  "link_trb_bytes = [0, 0, 0, 0, 0, 0, 0, 0, 0, 0, 0, 0, 0x03, 0x18, 0, 0]"

definition ring_example :: "u8 list" where
  "ring_example = status_trb_bytes @ link_trb_bytes"

lemma ring_bytes_segment:
  assumes "unat (lr_dequeue_pointer r) + 16 \<le> length bytes" "length bytes < 2 ^ 64"
  shows "ring_bytes (dyn_byte (single_segment bytes)) r =
    slice bytes (unat (lr_dequeue_pointer r)) 16"
  by (rule nth_equalityI) (use assms in \<open>auto simp: ring_bytes_def single_segment_ok\<close>)

lemma ring_example_bytes:
  "ring_bytes (dyn_byte (single_segment ring_example)) (linked_ring_new 0x10 c) = link_trb_bytes"
  "ring_bytes (dyn_byte (single_segment ring_example)) (linked_ring_new 0 c) = status_trb_bytes"
  by (subst ring_bytes_segment;
      simp add: linked_ring_new_def ring_example_def slice_def status_trb_bytes_def link_trb_bytes_def)+

lemma ring_example_link:
  "linked_to (linked_ring_new 0x10 True) (LinkTrb 0 True False) = linked_ring_new 0 False"
  "link_parse (link_trb_bytes) = Some (LinkTrb 0 True False)"
  "link_parse (status_trb_bytes) = None"
  by (simp_all add: linked_to_def linked_ring_new_def link_parse_def trb_type_def slice_def Let_def
      status_trb_bytes_def link_trb_bytes_def)

lemma ring_example_path:
  "link_path dma_limit (dyn_byte (single_segment ring_example)) (linked_ring_new 0x10 True) n r' \<longleftrightarrow>
     n = 0 \<and> r' = linked_ring_new 0x10 True \<or> n = 1 \<and> r' = linked_ring_new 0 False"
proof -
  have "link_path dma_limit (dyn_byte (single_segment ring_example)) (linked_ring_new 0 False) k r2
      \<longleftrightarrow> k = 0 \<and> r2 = linked_ring_new 0 False" for k r2
    by (cases k) (auto simp: link_path_Suc ring_example_bytes ring_example_link)
  moreover have "fresh (dyn_byte (single_segment ring_example)) (linked_ring_new 0x10 True)"
    by (simp add: fresh_def ring_example_bytes link_trb_bytes_def) (simp add: linked_ring_new_def)
  moreover have "ring_readable dma_limit (linked_ring_new 0x10 True)"
    by (simp add: ring_readable_def linked_ring_new_def)
  ultimately show ?thesis
    by (cases n) (auto simp: link_path_Suc ring_example_bytes ring_example_link)
qed

theorem next_trb_iff_witness:
  "next_trb dma_bus_ops (single_segment ring_example) (linked_ring_new 0x10 True) =
     Inr (linked_ring_new 0 False,
       Some \<lparr>raw_address = 0, raw_buffer = status_trb_bytes\<rparr>)"
proof -
  have ok: "dyn_ok (single_segment ring_example)"
    by (simp add: single_segment_ok ring_example_def status_trb_bytes_def link_trb_bytes_def)
  have rd: "ring_readable dma_limit r'"
    if "link_path dma_limit (dyn_byte (single_segment ring_example)) (linked_ring_new 0x10 True) n r'" for r' n
    using that unfolding ring_example_path by (auto simp: ring_readable_def linked_ring_new_def)
  have "due dma_limit (dyn_byte (single_segment ring_example)) (linked_ring_new 0 False)"
    by (simp add: due_def ring_readable_def fresh_def ring_example_bytes ring_example_link)
      (simp add: linked_ring_new_def status_trb_bytes_def)
  then show ?thesis
    using next_trb_iff [where r = "linked_ring_new 0x10 True" and r' = "linked_ring_new 0 False" and
        t = "\<lparr>raw_address = 0, raw_buffer = status_trb_bytes\<rparr>", OF ok rd]
    unfolding ring_example_path ring_example_bytes by (auto simp: linked_ring_new_def)
qed

text \<open>
  A wrapping ring position panics. When the dequeue pointer lies in the last 16 bytes of the
  address space (a guest reaches this with a Link TRB or a Set TR Dequeue Pointer command), the
  bulk read of the bus overflows and \<open>next_trb\<close> panics on every memory.
\<close>

theorem next_trb_wrap_panics:
  "2 ^ 64 \<le> unat (lr_dequeue_pointer r) + 16 \<Longrightarrow> next_trb dma_bus_ops m r = Inl ArithOverflow"
  by (simp add: next_trb_def next_trb_raw_def dma_bus_ops_def dyn_ops_def bus_read_bulk_def)

theorem next_trb_wrap_panics_witness:
  "next_trb dma_bus_ops (single_segment []) (linked_ring_new 0xfffffffffffffff0 True) = Inl ArithOverflow"
  by (rule next_trb_wrap_panics) (simp add: linked_ring_new_def)

end
