(* ===== verification/RealEndpoint.thy ===== *)
theory RealEndpoint
  imports Prelude
begin

text \<open>
  The interface of a real USB endpoint (\<open>src/device/xhci/real_endpoint_handle.rs\<close>,
  \<open>usbrequest.rs\<close>): the requests an endpoint handle submits to it and the results it completes them
  with. The endpoint handles, the packet capture and the nusb back end all speak these types.
\<close>

section \<open>Results\<close>

datatype control_result = CtlDisconnect | CtlStall | CtlTransactionError | SuccessfulControlIn "u8 list" | SuccessfulControlOut

datatype out_result = OutDisconnect | OutStall | OutTransactionError | OutSuccess

datatype in_status = InDisconnect | InStall | InTransactionError | InSuccess

record in_result =
  ir_status :: in_status
  ir_data :: "u8 list"

section \<open>Control requests\<close>

record usb_request =
  ur_address :: u64
  ur_request_type :: u8
  ur_request :: u8
  ur_value :: u16
  ur_index :: u16
  ur_length :: u16
  ur_data_pointer :: "u64 option"
  ur_data :: "u8 list option"

definition usb_request_default :: usb_request where
  "usb_request_default = \<lparr>ur_address = 0, ur_request_type = 0, ur_request = 0, ur_value = 0, ur_index = 0,
     ur_length = 0, ur_data_pointer = None, ur_data = None\<rparr>"

definition clone_without_data :: "usb_request \<Rightarrow> usb_request" where
  "clone_without_data r = r\<lparr>ur_data := None\<rparr>"

end
