(* ===== verification/Pcap.thy ===== *)
theory Pcap
  imports RealEndpoint
begin

text \<open>
  The packet capture (\<open>src/device/pcap/packet.rs\<close>, \<open>meta.rs\<close>, \<open>mod.rs\<close>). A hook of an endpoint handle
  builds the header of a packet and its payload (\<open>log_packet\<close>); \<open>emit_packet\<close> encodes both as a record and
  appends it to the capture file, which is opened lazily. The wall clock is an argument (\<open>None\<close> for a
  time before the Unix epoch), and so is what the file system answers. The hooks run whether or not a
  file is configured: building the header comes before the manager is asked.
\<close>

type_synonym i32 = "32 word"

definition LINKTYPE_USB_LINUX :: u32 where "LINKTYPE_USB_LINUX = 189"
definition PCAP_MAGIC :: u32 where "PCAP_MAGIC = 0xa1b2c3d4"
definition PCAP_MAJOR :: u16 where "PCAP_MAJOR = 2"
definition PCAP_MINOR :: u16 where "PCAP_MINOR = 4"
definition SNAPLEN :: u32 where "SNAPLEN = 65535"

section \<open>Metadata\<close>

datatype usb_event_type = Submission | Completion | ErrorEvent

primrec event_code :: "usb_event_type \<Rightarrow> u8" where
  "event_code Submission = 0x53"
| "event_code Completion = 0x43"
| "event_code ErrorEvent = 0x45"

datatype usb_transfer_type = ControlTransfer | BulkTransfer | InterruptTransfer

primrec transfer_code :: "usb_transfer_type \<Rightarrow> u8" where
  "transfer_code ControlTransfer = 2"
| "transfer_code BulkTransfer = 3"
| "transfer_code InterruptTransfer = 1"

datatype usb_direction = HostToDevice | DeviceToHost

record endpoint_pcap_meta =
  pm_bus_number :: u16
  pm_device_address :: u8
  pm_endpoint_id :: u8
  pm_transfer_type :: usb_transfer_type

definition meta_control :: "u16 \<Rightarrow> u8 \<Rightarrow> u8 \<Rightarrow> endpoint_pcap_meta" where
  "meta_control bus dev ep = \<lparr>pm_bus_number = bus, pm_device_address = dev, pm_endpoint_id = ep,
     pm_transfer_type = ControlTransfer\<rparr>"

definition meta_bulk :: "u16 \<Rightarrow> u8 \<Rightarrow> u8 \<Rightarrow> endpoint_pcap_meta" where
  "meta_bulk bus dev ep = \<lparr>pm_bus_number = bus, pm_device_address = dev, pm_endpoint_id = ep,
     pm_transfer_type = BulkTransfer\<rparr>"

definition meta_interrupt :: "u16 \<Rightarrow> u8 \<Rightarrow> u8 \<Rightarrow> endpoint_pcap_meta" where
  "meta_interrupt bus dev ep = \<lparr>pm_bus_number = bus, pm_device_address = dev, pm_endpoint_id = ep,
     pm_transfer_type = InterruptTransfer\<rparr>"

definition errno_status :: "i32 \<Rightarrow> i32" where
  "errno_status errno = - errno"

definition control_error_status :: "control_result \<Rightarrow> i32" where
  "control_error_status r =
     (case r of CtlDisconnect \<Rightarrow> errno_status 19 | CtlStall \<Rightarrow> errno_status 32
      | CtlTransactionError \<Rightarrow> errno_status 71 | _ \<Rightarrow> 0)"

definition trb_error_status :: i32 where "trb_error_status = errno_status 22"

primrec in_error_status :: "in_status \<Rightarrow> i32" where
  "in_error_status InDisconnect = errno_status 19"
| "in_error_status InStall = errno_status 32"
| "in_error_status InTransactionError = errno_status 71"
| "in_error_status InSuccess = 0"

primrec out_error_status :: "out_result \<Rightarrow> i32" where
  "out_error_status OutDisconnect = errno_status 19"
| "out_error_status OutStall = errno_status 32"
| "out_error_status OutTransactionError = errno_status 71"
| "out_error_status OutSuccess = 0"

section \<open>Packet headers\<close>

text \<open>
  A control endpoint's direction must come from the request: without one, \<open>expect\<close> panics.
\<close>

definition endpoint_address :: "usb_transfer_type \<Rightarrow> usb_direction option \<Rightarrow> u8 \<Rightarrow> u8 res" where
  "endpoint_address ty dir endpoint_id =
     (if ty = ControlTransfer then
        rbind (of_opt UnwrapFailed dir) (\<lambda>d. Inr (case d of HostToDevice \<Rightarrow> 0 | DeviceToHost \<Rightarrow> 0x80))
      else Inr (word_rotr 1 endpoint_id))"

record usb_packet_header =
  uh_id :: u64
  uh_event_type :: u8
  uh_transfer_type :: u8
  uh_endpoint_address :: u8
  uh_device_address :: u8
  uh_bus_number :: u16
  uh_setup_flag :: u8
  uh_data_flag :: u8
  uh_status :: i32
  uh_data_length :: u32
  uh_delivered_data_length :: u32
  uh_setup :: "u8 list"

definition build_setup_bytes :: "usb_request \<Rightarrow> u8 list" where
  "build_setup_bytes r =
     [ur_request_type r, ur_request r,
      ucast (ur_value r AND 0x00ff), ucast (drop_bit 8 (ur_value r)),
      ucast (ur_index r AND 0x00ff), ucast (drop_bit 8 (ur_index r)),
      ucast (ur_length r AND 0x00ff), ucast (drop_bit 8 (ur_length r))]"

definition setup_flag_value :: "usb_transfer_type \<Rightarrow> bool \<Rightarrow> u8" where
  "setup_flag_value ty has_setup = (if ty = ControlTransfer \<and> has_setup then 0 else 0x2d)"

definition packet_payload :: "u8 \<Rightarrow> u8 list \<Rightarrow> u8 list" where
  "packet_payload data_flag payload = (if data_flag = 0 then payload else [])"

definition endpoint_direction :: "usb_direction option \<Rightarrow> u8 \<Rightarrow> usb_direction" where
  "endpoint_direction dir endpoint_id =
     (case dir of Some d \<Rightarrow> d
      | None \<Rightarrow> if endpoint_id AND 1 = 0 then HostToDevice else DeviceToHost)"

definition data_flag_value :: "usb_event_type \<Rightarrow> usb_direction \<Rightarrow> u8" where
  "data_flag_value event dir =
     (case event of
        Submission \<Rightarrow> if dir = DeviceToHost then 0x3c else 0
      | Completion \<Rightarrow> if dir = HostToDevice then 0x3e else 0
      | ErrorEvent \<Rightarrow> 0x45)"

text \<open>The first half of \<open>log_packet\<close>, up to the record: the header and the payload that goes with it.\<close>

definition log_packet ::
  "u64 \<Rightarrow> usb_event_type \<Rightarrow> endpoint_pcap_meta \<Rightarrow> usb_direction option \<Rightarrow> i32 \<Rightarrow> u32 \<Rightarrow> u8 list option \<Rightarrow> u8 list \<Rightarrow>
     (usb_packet_header \<times> u8 list) res" where
  "log_packet urb_id event meta dir status data_length setup payload =
     (let direction = endpoint_direction dir (pm_endpoint_id meta);
          data_flag = data_flag_value event direction;
          payload = packet_payload data_flag payload in
      rbind (endpoint_address (pm_transfer_type meta) dir (pm_endpoint_id meta)) (\<lambda>address.
      Inr (\<lparr>uh_id = urb_id, uh_event_type = event_code event,
            uh_transfer_type = transfer_code (pm_transfer_type meta), uh_endpoint_address = address,
            uh_device_address = pm_device_address meta, uh_bus_number = pm_bus_number meta,
            uh_setup_flag = setup_flag_value (pm_transfer_type meta) (setup \<noteq> None),
            uh_data_flag = data_flag, uh_status = status, uh_data_length = data_length,
            uh_delivered_data_length = of_nat (length payload),
            uh_setup = (if pm_transfer_type meta = ControlTransfer
                        then (case setup of Some bs \<Rightarrow> bs | None \<Rightarrow> replicate 8 0) else replicate 8 0)\<rparr>,
           payload)))"

definition log_submission ::
  "endpoint_pcap_meta \<Rightarrow> usb_direction option \<Rightarrow> u64 \<Rightarrow> u32 \<Rightarrow> u8 list option \<Rightarrow> u8 list \<Rightarrow>
     (usb_packet_header \<times> u8 list) res" where
  "log_submission meta dir urb_id expected_length setup payload =
     log_packet urb_id Submission meta dir 0 expected_length setup payload"

definition log_completion ::
  "endpoint_pcap_meta \<Rightarrow> usb_direction option \<Rightarrow> u64 \<Rightarrow> i32 \<Rightarrow> u32 \<Rightarrow> u8 list \<Rightarrow>
     (usb_packet_header \<times> u8 list) res" where
  "log_completion meta dir urb_id status actual_length payload =
     log_packet urb_id Completion meta dir status actual_length None payload"

definition log_error ::
  "endpoint_pcap_meta \<Rightarrow> usb_direction option \<Rightarrow> u64 \<Rightarrow> usb_event_type \<Rightarrow> i32 \<Rightarrow> u8 list option \<Rightarrow> u8 list \<Rightarrow>
     (usb_packet_header \<times> u8 list) res" where
  "log_error meta dir urb_id event status setup payload =
     log_packet urb_id event meta dir status (of_nat (length payload)) setup payload"

section \<open>The hooks\<close>

definition request_data :: "usb_request \<Rightarrow> u8 list" where
  "request_data r = (case ur_data r of Some d \<Rightarrow> d | None \<Rightarrow> [])"

definition log_control_submission ::
  "endpoint_pcap_meta \<Rightarrow> usb_direction \<Rightarrow> usb_request \<Rightarrow> u8 list \<Rightarrow> (usb_packet_header \<times> u8 list) res" where
  "log_control_submission meta dir r payload =
     log_submission meta (Some dir) (ur_address r) (ucast (ur_length r)) (Some (build_setup_bytes r)) payload"

definition log_control_completion ::
  "endpoint_pcap_meta \<Rightarrow> usb_direction \<Rightarrow> u64 \<Rightarrow> i32 \<Rightarrow> u32 \<Rightarrow> u8 list \<Rightarrow> (usb_packet_header \<times> u8 list) res" where
  "log_control_completion meta dir urb_id status actual_length payload =
     log_completion meta (Some dir) urb_id status actual_length payload"

definition control_submission_hook :: "endpoint_pcap_meta \<Rightarrow> usb_request \<Rightarrow> (usb_packet_header \<times> u8 list) res" where
  "control_submission_hook base r =
     log_control_submission base (if ur_request_type r AND 0x80 = 0 then HostToDevice else DeviceToHost) r (request_data r)"

definition control_completion_in :: "endpoint_pcap_meta \<Rightarrow> u64 \<Rightarrow> u8 list \<Rightarrow> (usb_packet_header \<times> u8 list) res" where
  "control_completion_in base urb_id data =
     log_control_completion base DeviceToHost urb_id 0 (of_nat (length data)) data"

definition control_completion_out :: "endpoint_pcap_meta \<Rightarrow> u64 \<Rightarrow> u32 \<Rightarrow> (usb_packet_header \<times> u8 list) res" where
  "control_completion_out base urb_id len = log_control_completion base HostToDevice urb_id 0 len []"

definition control_in_error :: "endpoint_pcap_meta \<Rightarrow> usb_request \<Rightarrow> control_result \<Rightarrow> (usb_packet_header \<times> u8 list) res" where
  "control_in_error base r err =
     log_error base (Some DeviceToHost) (ur_address r) ErrorEvent (control_error_status err)
       (Some (build_setup_bytes r)) (request_data r)"

definition control_out_error :: "endpoint_pcap_meta \<Rightarrow> usb_request \<Rightarrow> control_result \<Rightarrow> (usb_packet_header \<times> u8 list) res" where
  "control_out_error base r err =
     log_error base (Some HostToDevice) (ur_address r) ErrorEvent (control_error_status err)
       (Some (build_setup_bytes r)) (request_data r)"

definition in_submission :: "endpoint_pcap_meta \<Rightarrow> u64 \<Rightarrow> u32 \<Rightarrow> (usb_packet_header \<times> u8 list) res" where
  "in_submission base urb_id expected_len = log_submission base None urb_id expected_len None []"

definition in_completion :: "endpoint_pcap_meta \<Rightarrow> u64 \<Rightarrow> u8 list \<Rightarrow> (usb_packet_header \<times> u8 list) res" where
  "in_completion base urb_id data = log_completion base None urb_id 0 (of_nat (length data)) data"

definition in_error :: "endpoint_pcap_meta \<Rightarrow> u64 \<Rightarrow> in_status \<Rightarrow> (usb_packet_header \<times> u8 list) res" where
  "in_error meta urb_id err = log_error meta None urb_id ErrorEvent (in_error_status err) None []"

definition out_submission :: "endpoint_pcap_meta \<Rightarrow> u64 \<Rightarrow> u8 list \<Rightarrow> u32 \<Rightarrow> (usb_packet_header \<times> u8 list) res" where
  "out_submission meta urb_id payload expected_len = log_submission meta None urb_id expected_len None payload"

definition out_completion :: "endpoint_pcap_meta \<Rightarrow> u64 \<Rightarrow> u32 \<Rightarrow> (usb_packet_header \<times> u8 list) res" where
  "out_completion meta urb_id len = log_completion meta None urb_id 0 len []"

definition out_error :: "endpoint_pcap_meta \<Rightarrow> u64 \<Rightarrow> out_result \<Rightarrow> u8 list \<Rightarrow> (usb_packet_header \<times> u8 list) res" where
  "out_error meta urb_id err payload =
     log_error meta None urb_id ErrorEvent (out_error_status err) None payload"

definition trb_error_hook :: "endpoint_pcap_meta \<Rightarrow> u64 \<Rightarrow> (usb_packet_header \<times> u8 list) res" where
  "trb_error_hook meta urb_id = log_error meta None urb_id ErrorEvent trb_error_status None []"

section \<open>Encoding\<close>

definition header_bytes :: "usb_packet_header \<Rightarrow> u64 \<times> u32 \<Rightarrow> u8 list" where
  "header_bytes h now =
     (let b = replicate 48 0;
          b = overwrite b 0 (le_bytes 8 (uh_id h));
          b = b[8 := uh_event_type h];
          b = b[9 := uh_transfer_type h];
          b = b[10 := uh_endpoint_address h];
          b = b[11 := uh_device_address h];
          b = overwrite b 12 (le_bytes 2 (uh_bus_number h));
          b = b[14 := uh_setup_flag h];
          b = b[15 := uh_data_flag h];
          b = overwrite b 16 (le_bytes 8 (fst now));
          b = overwrite b 24 (le_bytes 4 (snd now));
          b = overwrite b 28 (le_bytes 4 (uh_status h));
          b = overwrite b 32 (le_bytes 4 (uh_data_length h));
          b = overwrite b 36 (le_bytes 4 (uh_delivered_data_length h))
      in overwrite b 40 (uh_setup h))"

definition pcap_global_header_bytes :: "u8 list" where
  "pcap_global_header_bytes =
     (let b = replicate 24 0;
          b = overwrite b 0 (le_bytes 4 PCAP_MAGIC);
          b = overwrite b 4 (le_bytes 2 PCAP_MAJOR);
          b = overwrite b 6 (le_bytes 2 PCAP_MINOR);
          b = overwrite b 8 (le_bytes 4 (0 :: u32));
          b = overwrite b 12 (le_bytes 4 (0 :: u32));
          b = overwrite b 16 (le_bytes 4 SNAPLEN)
      in overwrite b 20 (le_bytes 4 LINKTYPE_USB_LINUX))"

text \<open>Seconds and microseconds since the epoch; the record header truncates the seconds to 32 bits.\<close>

definition pcap_record_bytes :: "(u64 \<times> u32) option \<Rightarrow> usb_packet_header \<Rightarrow> u8 list \<Rightarrow> u8 list res" where
  "pcap_record_bytes clock meta payload =
     rbind (of_opt UnwrapFailed clock) (\<lambda>now.
     let link_header = header_bytes meta now;
         original_len = length link_header + length payload;
         captured_len = min original_len (unat SNAPLEN);
         record = le_bytes 4 (ucast (fst now) :: u32) @ le_bytes 4 (snd now) @
                  le_bytes 4 (of_nat captured_len :: u32) @ le_bytes 4 (of_nat original_len :: u32) in
     if captured_len \<le> length link_header then Inr (record @ take captured_len link_header)
     else Inr (record @ link_header @ take (captured_len - length link_header) payload))"

section \<open>The capture file\<close>

text \<open>
  \<open>pm_writer\<close> is the open file, as the bytes accepted by it. The outcomes of the file operations of one
  call are given in advance: creating the parent directory (\<open>None\<close>: the path has no parent), creating the
  file, writing the global header, writing and flushing the record.
\<close>

record 'p pcap_manager =
  pm_path :: "'p option"
  pm_writer :: "u8 list option"
  pm_warned :: bool

record pcap_io =
  io_dir :: "bool option"
  io_create :: bool
  io_header :: bool
  io_record :: bool

definition pcap_manager_new :: "'p option \<Rightarrow> 'p pcap_manager" where
  "pcap_manager_new path = \<lparr>pm_path = path, pm_writer = None, pm_warned = False\<rparr>"

text \<open>A failure is warned about once, and ends the capture.\<close>

definition pcap_disable :: "'p pcap_manager \<Rightarrow> 'p pcap_manager" where
  "pcap_disable m = m\<lparr>pm_warned := True, pm_path := None\<rparr>"

definition ensure_writer :: "pcap_io \<Rightarrow> 'p pcap_manager \<Rightarrow> 'p pcap_manager \<times> u8 list option" where
  "ensure_writer io m =
     (case pm_path m of
        None \<Rightarrow> (m, None)
      | Some path \<Rightarrow>
          (case pm_writer m of
             Some w \<Rightarrow> (m, Some w)
           | None \<Rightarrow>
               if io_dir io = Some False then (pcap_disable m, None)
               else if \<not> io_create io then (pcap_disable m, None)
               else if \<not> io_header io then (pcap_disable m, None)
               else (m\<lparr>pm_writer := Some pcap_global_header_bytes\<rparr>, Some pcap_global_header_bytes)))"

definition manager_write_record :: "pcap_io \<Rightarrow> 'p pcap_manager \<Rightarrow> u8 list \<Rightarrow> 'p pcap_manager" where
  "manager_write_record io m record =
     (case ensure_writer io m of
        (m, None) \<Rightarrow> m
      | (m, Some w) \<Rightarrow>
          if io_record io then m\<lparr>pm_writer := Some (w @ record)\<rparr>
          else (pcap_disable m)\<lparr>pm_writer := None\<rparr>)"

text \<open>The process-wide manager, set at most once.\<close>

definition usb_pcap_init :: "'p option \<Rightarrow> 'p pcap_manager option \<Rightarrow> 'p pcap_manager option" where
  "usb_pcap_init path g =
     (if path \<noteq> None then (case g of None \<Rightarrow> Some (pcap_manager_new path) | Some m \<Rightarrow> Some m) else g)"

definition usb_pcap_write_record :: "pcap_io \<Rightarrow> 'p pcap_manager option \<Rightarrow> u8 list \<Rightarrow> 'p pcap_manager option" where
  "usb_pcap_write_record io g record = map_option (\<lambda>m. manager_write_record io m record) g"

text \<open>The second half of \<open>log_packet\<close>.\<close>

definition emit_packet ::
  "(u64 \<times> u32) option \<Rightarrow> pcap_io \<Rightarrow> 'p pcap_manager option \<Rightarrow> usb_packet_header \<times> u8 list \<Rightarrow> 'p pcap_manager option res" where
  "emit_packet clock io g p =
     rbind (pcap_record_bytes clock (fst p) (snd p)) (\<lambda>record. Inr (usb_pcap_write_record io g record))"

section \<open>Which hooks panic\<close>

lemma log_packet_ok:
  "is_ok (log_packet urb_id event meta dir status n setup payload) \<longleftrightarrow>
     pm_transfer_type meta \<noteq> ControlTransfer \<or> dir \<noteq> None"
  by (cases dir) (simp_all add: log_packet_def endpoint_address_def Let_def)

text \<open>
  The hooks of a control endpoint know the direction of the request and cannot fail, whatever the metadata
  says; all hooks of a bulk or interrupt endpoint cannot fail either. The one exception is a TRB error on a
  control endpoint.
\<close>

lemma control_hooks_ok:
  "is_ok (control_submission_hook base r)"
  "is_ok (control_completion_in base urb_id data)"
  "is_ok (control_completion_out base urb_id len)"
  "is_ok (control_in_error base r err)"
  "is_ok (control_out_error base r err)"
  by (simp_all add: control_submission_hook_def control_completion_in_def control_completion_out_def
      control_in_error_def control_out_error_def log_control_submission_def log_control_completion_def
      log_submission_def log_completion_def log_error_def log_packet_ok)

lemma normal_hooks_ok:
  assumes "pm_transfer_type base \<noteq> ControlTransfer"
  shows "is_ok (in_submission base urb_id n)" "is_ok (in_completion base urb_id data)"
    "is_ok (in_error base urb_id ie)" "is_ok (out_submission base urb_id data n)"
    "is_ok (out_completion base urb_id n)" "is_ok (out_error base urb_id oe data)"
    "is_ok (trb_error_hook base urb_id)"
  using assms
  by (simp_all add: in_submission_def in_completion_def in_error_def out_submission_def out_completion_def
      out_error_def trb_error_hook_def log_submission_def log_completion_def log_error_def log_packet_ok)

lemma trb_error_hook_control:
  "pm_transfer_type base = ControlTransfer \<Longrightarrow> trb_error_hook base urb_id = Inl UnwrapFailed"
  by (simp add: trb_error_hook_def log_error_def log_packet_def endpoint_address_def)

lemma rbind_ok_const [simp]: "is_ok h \<Longrightarrow> rbind h (\<lambda>_. x) = x"
  by (cases h) auto

lemmas logged_control [simp] = control_hooks_ok [THEN rbind_ok_const]

end
