(* ===== verification/EndpointHandle.thy ===== *)
theory EndpointHandle
  imports LinkedRing Pcap
begin

text \<open>
  The endpoint handles (\<open>src/device/xhci/endpoint_handle.rs\<close>, \<open>usbrequest.rs\<close>,
  \<open>real_endpoint_handle.rs\<close>, \<open>hotplug_endpoint_handle.rs\<close>): how the TRBs of a transfer ring become
  requests to the real endpoint, and its answers become data in guest memory and transfer events.
  The real endpoint is outside the model: what is submitted to it is an output, and the result its
  \<open>next_completion\<close> resolves to is an argument. \<open>up\<close> says whether the interrupter receives events
  and \<open>accepts\<close> whether the real endpoint accepts a submission. A control handle calls the hooks of the
  packet capture for their panics; what they record is the matter of \<open>Pcap\<close>. The hooks of the OUT and IN
  handles never fail (\<open>normal_hooks_ok\<close>) and are left out here.
\<close>

section \<open>Results and outputs\<close>

datatype trb_result =
    TrbOk
  | TrbStall "(u64 \<times> bool) option"
  | TrbTrbError
  | TrbTransactionError "(u64 \<times> bool) option"
  | TrbDisconnect

text \<open>What a handle does to the outside: requests to the real endpoint, and events.\<close>

datatype handle_out =
    SubmitControl usb_request
  | SubmitOut "u8 list"
  | SubmitIn nat
  | CancelReal
  | ClearHaltReal
  | Event event_trb

text \<open>A transfer event of this endpoint, if the interrupter takes it.\<close>

definition send_transfer ::
  "u8 \<Rightarrow> u8 \<Rightarrow> bool \<Rightarrow> u64 \<Rightarrow> u32 \<Rightarrow> completion_code \<Rightarrow> handle_out list res" where
  "send_transfer slot_id endpoint_id up addr residual code =
     rbind (require up ChannelClosed) (\<lambda>_.
     Inr [Event (new_transfer_event_trb addr residual code False endpoint_id slot_id)])"

section \<open>Control endpoints\<close>

datatype parser_state = Initial | SetupStageConsumed | DataStageConsumed

record control_parser =
  cp_state :: parser_state
  cp_builder :: usb_request

definition control_parser_new :: control_parser where
  "control_parser_new = \<lparr>cp_state = Initial, cp_builder = usb_request_default\<rparr>"

datatype parser_flow =
    Continue
  | BreakErr
  | BreakOk usb_request

text \<open>Immediate data: at most eight bytes of the pointer field (more is not implemented).\<close>

definition immediate_bytes :: "u64 \<Rightarrow> nat \<Rightarrow> u8 list res" where
  "immediate_bytes data_pointer n =
     rbind (require (n \<le> 8) NotImplemented) (\<lambda>_. Inr (take n (le_bytes 8 data_pointer)))"

text \<open>The state after the data stage: only a status stage completes the request.\<close>

definition parser_status ::
  "control_parser \<Rightarrow> u64 \<Rightarrow> transfer_trb_variant \<Rightarrow> control_parser \<times> parser_flow" where
  "parser_status p addr t =
     (case t of
        StatusStage _ \<Rightarrow>
          (\<lparr>cp_state = Initial, cp_builder = usb_request_default\<rparr>, BreakOk ((cp_builder p)\<lparr>ur_address := addr\<rparr>))
      | _ \<Rightarrow> (p, BreakErr))"

definition parser_trb ::
  "'m bus_device \<Rightarrow> 'm \<Rightarrow> control_parser \<Rightarrow> raw_trb \<Rightarrow> (control_parser \<times> parser_flow) res" where
  "parser_trb ops m p trb =
     rbind (transfer_parse (raw_buffer trb)) (\<lambda>t.
     case cp_state p of
       Initial \<Rightarrow>
         (case t of
            SetupStage d \<Rightarrow>
              Inr (p\<lparr>cp_builder := \<lparr>ur_address = 0, ur_request_type = ss_request_type d, ur_request = ss_request d,
                       ur_value = ss_value d, ur_index = ss_index d, ur_length = ss_length d,
                       ur_data_pointer = None, ur_data = None\<rparr>,
                     cp_state := SetupStageConsumed\<rparr>, Continue)
          | _ \<Rightarrow> Inr (p, BreakErr))
     | SetupStageConsumed \<Rightarrow>
         (case t of
            DataStage d \<Rightarrow>
              rbind (if dd_immediate_data d
                     then immediate_bytes (dd_data_pointer d) (unat (ur_length (cp_builder p)))
                     else dev_read_bulk ops m (dd_data_pointer d) (unat (ur_length (cp_builder p)))) (\<lambda>data.
              Inr (p\<lparr>cp_builder := (cp_builder p)\<lparr>ur_data := Some data, ur_data_pointer := Some (dd_data_pointer d)\<rparr>,
                     cp_state := DataStageConsumed\<rparr>, Continue))
          | StatusStage _ \<Rightarrow> Inr (parser_status (p\<lparr>cp_state := DataStageConsumed\<rparr>) (raw_address trb) t)
          | _ \<Rightarrow> Inr (p, BreakErr))
     | DataStageConsumed \<Rightarrow> Inr (parser_status p (raw_address trb) t))"

datatype control_submission =
    CtlNoTrbSubmitted
  | ParserConsumedTrb
  | ParserError u64
  | AwaitingControlIn usb_request
  | AwaitingControlOut usb_request

record control_handle =
  ch_slot_id :: u8
  ch_endpoint_id :: u8
  ch_pcap_meta :: endpoint_pcap_meta
  ch_parser :: control_parser
  ch_submission :: control_submission

definition control_handle_new :: "u8 \<Rightarrow> u8 \<Rightarrow> endpoint_pcap_meta \<Rightarrow> control_handle" where
  "control_handle_new slot_id endpoint_id meta =
     \<lparr>ch_slot_id = slot_id, ch_endpoint_id = endpoint_id, ch_pcap_meta = meta, ch_parser = control_parser_new,
      ch_submission = CtlNoTrbSubmitted\<rparr>"

definition control_submit ::
  "'m bus_device \<Rightarrow> 'm \<Rightarrow> bool \<Rightarrow> control_handle \<Rightarrow> raw_trb \<Rightarrow> (control_handle \<times> handle_out list) res" where
  "control_submit ops m accepts h trb =
     rbind (parser_trb ops m (ch_parser h) trb) (\<lambda>(p, flow).
     let h = h\<lparr>ch_parser := p\<rparr> in
     case flow of
       Continue \<Rightarrow> Inr (h\<lparr>ch_submission := ParserConsumedTrb\<rparr>, [])
     | BreakErr \<Rightarrow> Inr (h\<lparr>ch_submission := ParserError (raw_address trb)\<rparr>, [])
     | BreakOk request \<Rightarrow>
         rbind (control_submission_hook (ch_pcap_meta h) request) (\<lambda>_.
         rbind (require accepts ChannelClosed) (\<lambda>_.
         let copy = clone_without_data request in
         Inr (h\<lparr>ch_submission := (if ur_request_type request AND 0x80 = 0 then AwaitingControlOut copy
                                   else AwaitingControlIn copy)\<rparr>,
              [SubmitControl request]))))"

definition control_error ::
  "control_handle \<Rightarrow> bool \<Rightarrow> control_result \<Rightarrow> u64 \<Rightarrow> (trb_result \<times> handle_out list) res" where
  "control_error h up err request_address =
     (let send = send_transfer (ch_slot_id h) (ch_endpoint_id h) up request_address 0 in
      case err of
        CtlDisconnect \<Rightarrow> rbind (send UsbTransactionError) (\<lambda>o1. Inr (TrbDisconnect, o1))
      | CtlStall \<Rightarrow> rbind (send StallError) (\<lambda>o1. Inr (TrbStall None, o1))
      | CtlTransactionError \<Rightarrow> rbind (send UsbTransactionError) (\<lambda>o1. Inr (TrbTransactionError None, o1))
      | _ \<Rightarrow> Inl UnreachableCode)"

definition control_complete ::
  "'m bus_device \<Rightarrow> 'm \<Rightarrow> bool \<Rightarrow> control_handle \<Rightarrow> control_result \<Rightarrow>
     ('m \<times> control_handle \<times> trb_result \<times> handle_out list) res" where
  "control_complete ops m up h answer =
     (let send = send_transfer (ch_slot_id h) (ch_endpoint_id h) up;
          finish = (\<lambda>(m, r, out). Inr (m, h\<lparr>ch_submission := CtlNoTrbSubmitted\<rparr>, r, out)) in
      rbind
        (case ch_submission h of
           ParserConsumedTrb \<Rightarrow> Inr (m, TrbOk, [])
         | ParserError addr \<Rightarrow>
             rbind (trb_error_hook (ch_pcap_meta h) addr) (\<lambda>_.
             rbind (send addr 0 TrbError) (\<lambda>out. Inr (m, TrbTrbError, out)))
         | AwaitingControlIn req \<Rightarrow>
             (case answer of
                SuccessfulControlIn data \<Rightarrow>
                  rbind (control_completion_in (ch_pcap_meta h) (ur_address req) data) (\<lambda>_.
                  rbind (case ur_data_pointer req of
                           Some ptr \<Rightarrow> dev_write_bulk ops m ptr data | None \<Rightarrow> Inr m) (\<lambda>m.
                  rbind (send (ur_address req) 0 Success) (\<lambda>out. Inr (m, TrbOk, out))))
              | SuccessfulControlOut \<Rightarrow> Inl UnreachableCode
              | err \<Rightarrow>
                  rbind (control_in_error (ch_pcap_meta h) req err) (\<lambda>_.
                  rbind (control_error h up err (ur_address req)) (\<lambda>(r, out). Inr (m, r, out))))
         | AwaitingControlOut req \<Rightarrow>
             (case answer of
                SuccessfulControlIn _ \<Rightarrow> Inl UnreachableCode
              | SuccessfulControlOut \<Rightarrow>
                  rbind (control_completion_out (ch_pcap_meta h) (ur_address req) (ucast (ur_length req))) (\<lambda>_.
                  rbind (send (ur_address req) 0 Success) (\<lambda>out. Inr (m, TrbOk, out)))
              | err \<Rightarrow>
                  rbind (control_out_error (ch_pcap_meta h) req err) (\<lambda>_.
                  rbind (control_error h up err (ur_address req)) (\<lambda>(r, out). Inr (m, r, out))))
         | CtlNoTrbSubmitted \<Rightarrow> Inl UnreachableCode) finish)"

section \<open>OUT endpoints\<close>

datatype normal_submission =
    OutNoTrbSubmitted
  | UnsupportedTrbType raw_trb
  | AwaitingRealTransfer transfer_trb

record out_handle =
  oh_slot_id :: u8
  oh_endpoint_id :: u8
  oh_submission :: normal_submission

definition out_handle_new :: "u8 \<Rightarrow> u8 \<Rightarrow> out_handle" where
  "out_handle_new slot_id endpoint_id =
     \<lparr>oh_slot_id = slot_id, oh_endpoint_id = endpoint_id, oh_submission = OutNoTrbSubmitted\<rparr>"

definition out_submit ::
  "'m bus_device \<Rightarrow> 'm \<Rightarrow> bool \<Rightarrow> out_handle \<Rightarrow> raw_trb \<Rightarrow> (out_handle \<times> handle_out list) res" where
  "out_submit ops m accepts h trb =
     rbind (require (oh_submission h = OutNoTrbSubmitted) AssertFailed) (\<lambda>_.
     rbind (transfer_parse (raw_buffer trb)) (\<lambda>t.
     case t of
       Normal d \<Rightarrow>
         rbind (if nd_immediate_data d
                then immediate_bytes (nd_data_pointer d) (unat (nd_transfer_length d))
                else dev_read_bulk ops m (nd_data_pointer d) (unat (nd_transfer_length d))) (\<lambda>data.
         rbind (require accepts ChannelClosed) (\<lambda>_.
         Inr (h\<lparr>oh_submission := AwaitingRealTransfer \<lparr>tt_address = raw_address trb, tt_variant = t\<rparr>\<rparr>,
              [SubmitOut data])))
     | _ \<Rightarrow> Inr (h\<lparr>oh_submission := UnsupportedTrbType trb\<rparr>, [])))"

definition out_complete ::
  "bool \<Rightarrow> out_handle \<Rightarrow> out_result \<Rightarrow> (out_handle \<times> trb_result \<times> handle_out list) res" where
  "out_complete up h answer =
     (let send = send_transfer (oh_slot_id h) (oh_endpoint_id h) up;
          finish = (\<lambda>(r, out). Inr (h\<lparr>oh_submission := OutNoTrbSubmitted\<rparr>, r, out)) in
      rbind
        (case oh_submission h of
           OutNoTrbSubmitted \<Rightarrow> Inl AssertFailed
         | UnsupportedTrbType trb \<Rightarrow>
             rbind (send (raw_address trb) 0 TrbError) (\<lambda>out. Inr (TrbTrbError, out))
         | AwaitingRealTransfer t \<Rightarrow>
             rbind
               (case answer of
                  OutDisconnect \<Rightarrow> Inr (Some UsbTransactionError, TrbDisconnect)
                | OutStall \<Rightarrow> Inr (Some StallError, TrbStall None)
                | OutTransactionError \<Rightarrow> Inr (Some UsbTransactionError, TrbTransactionError None)
                | OutSuccess \<Rightarrow>
                    (case tt_variant t of
                       Normal d \<Rightarrow> Inr (if nd_interrupt_on_completion d then Some Success else None, TrbOk)
                     | _ \<Rightarrow> Inl UnreachableCode)) (\<lambda>(code, r).
             case code of
               None \<Rightarrow> Inr (r, [])
             | Some c \<Rightarrow> rbind (send (tt_address t) 0 c) (\<lambda>out. Inr (r, out)))) finish)"

section \<open>IN endpoints, by transfer descriptor\<close>

datatype in_trb_variant =
    InNormal normal_trb_data
  | InEventData event_data_trb_data
  | InNoOp no_op_trb_data

record in_trb =
  it_variant :: in_trb_variant
  it_addr :: u64
  it_cycle_bit :: bool

definition in_trb_try_from :: "transfer_trb_variant \<Rightarrow> in_trb_variant option" where
  "in_trb_try_from t =
     (case t of Normal d \<Rightarrow> Some (InNormal d) | EventData d \<Rightarrow> Some (InEventData d)
      | NoOpTransfer d \<Rightarrow> Some (InNoOp d) | _ \<Rightarrow> None)"

definition in_chain :: "in_trb \<Rightarrow> bool" where
  "in_chain t = (case it_variant t of InNormal d \<Rightarrow> nd_chain d | InEventData d \<Rightarrow> ed_chain d | InNoOp d \<Rightarrow> no_chain d)"

definition in_transfer_length :: "in_trb \<Rightarrow> nat" where
  "in_transfer_length t = (case it_variant t of InNormal d \<Rightarrow> unat (nd_transfer_length d) | _ \<Rightarrow> 0)"

datatype td_submission =
    CollectingTd "in_trb list"
  | TdAwaitingRealTransfer "in_trb list"
  | TdUnsupportedTrb

record in_handle =
  ih_slot_id :: u8
  ih_endpoint_id :: u8
  ih_submission :: td_submission

definition in_handle_new :: "u8 \<Rightarrow> u8 \<Rightarrow> in_handle" where
  "in_handle_new slot_id endpoint_id =
     \<lparr>ih_slot_id = slot_id, ih_endpoint_id = endpoint_id, ih_submission = CollectingTd []\<rparr>"

definition in_submit :: "bool \<Rightarrow> in_handle \<Rightarrow> raw_trb \<Rightarrow> (in_handle \<times> handle_out list) res" where
  "in_submit accepts h trb =
     (case ih_submission h of
        CollectingTd trbs \<Rightarrow>
          rbind (transfer_parse (raw_buffer trb)) (\<lambda>t.
          case in_trb_try_from t of
            None \<Rightarrow> Inr (h\<lparr>ih_submission := TdUnsupportedTrb\<rparr>, [])
          | Some v \<Rightarrow>
              let s = \<lparr>it_variant = v, it_addr = raw_address trb, it_cycle_bit = (raw_buffer trb ! 12 AND 0x1 \<noteq> 0)\<rparr>;
                  trbs' = trbs @ [s] in
              if \<not> in_chain s then
                rbind (require accepts ChannelClosed) (\<lambda>_.
                Inr (h\<lparr>ih_submission := TdAwaitingRealTransfer trbs'\<rparr>,
                     [SubmitIn (sum_list (map in_transfer_length trbs'))]))
              else Inr (h\<lparr>ih_submission := CollectingTd trbs'\<rparr>, []))
      | _ \<Rightarrow> Inl ChannelClosed)"

text \<open>
  The state while the received data is spread over the TRBs of the descriptor: the data left, and
  after a short transfer the number of missing bytes.
\<close>

record td_info =
  td_left :: "u8 list"
  td_short :: "nat option"

definition process_normal_trb ::
  "'m bus_device \<Rightarrow> bool \<Rightarrow> u8 \<Rightarrow> u8 \<Rightarrow> in_status \<Rightarrow> 'm \<Rightarrow> td_info \<Rightarrow> u64 \<Rightarrow> bool \<Rightarrow> normal_trb_data \<Rightarrow>
     ('m \<times> td_info \<times> trb_result option \<times> handle_out list) res" where
  "process_normal_trb ops up slot_id endpoint_id status m td addr cs d =
     (let send = send_transfer slot_id endpoint_id up addr in
      case td_short td of
        None \<Rightarrow>
          (let bytes_requested = unat (nd_transfer_length d);
               bytes_available = length (td_left td);
               dma_byte_count = min bytes_requested bytes_available;
               bytes = take dma_byte_count (td_left td);
               td1 = td\<lparr>td_left := drop dma_byte_count (td_left td)\<rparr> in
           rbind (dev_write_bulk ops m (nd_data_pointer d) bytes) (\<lambda>m1.
           if bytes_available < bytes_requested then
             (let bytes_missing = bytes_requested - bytes_available;
                  fail = (\<lambda>code r. rbind (send (of_nat bytes_missing) code) (\<lambda>out. Inr (m1, td1, Some r, out))) in
              case status of
                InSuccess \<Rightarrow>
                  rbind (if nd_interrupt_on_completion d \<or> nd_interrupt_on_short d
                         then send (of_nat bytes_missing) ShortPacket else Inr []) (\<lambda>out.
                  Inr (m1, td1\<lparr>td_short := Some bytes_missing\<rparr>, None, out))
              | InDisconnect \<Rightarrow> fail UsbTransactionError TrbDisconnect
              | InStall \<Rightarrow> fail StallError (TrbStall (Some (addr, cs)))
              | InTransactionError \<Rightarrow> fail UsbTransactionError (TrbTransactionError (Some (addr, cs))))
           else
             rbind (if nd_interrupt_on_completion d then send 0 Success else Inr []) (\<lambda>out.
             Inr (m1, td1, None, out))))
      | Some bytes_missing \<Rightarrow>
          rbind (if nd_interrupt_on_completion d then send (of_nat bytes_missing) ShortPacket else Inr []) (\<lambda>out.
          Inr (m, td, None, out)))"

definition process_trb ::
  "'m bus_device \<Rightarrow> bool \<Rightarrow> u8 \<Rightarrow> u8 \<Rightarrow> in_status \<Rightarrow> 'm \<Rightarrow> td_info \<Rightarrow> in_trb \<Rightarrow>
     ('m \<times> td_info \<times> trb_result option \<times> handle_out list) res" where
  "process_trb ops up slot_id endpoint_id status m td t =
     (case it_variant t of
        InNormal d \<Rightarrow> process_normal_trb ops up slot_id endpoint_id status m td (it_addr t) (it_cycle_bit t) d
      | InEventData _ \<Rightarrow> Inl NotImplemented
      | InNoOp d \<Rightarrow>
          rbind (if no_interrupt_on_completion d
                 then send_transfer slot_id endpoint_id up (it_addr t) 0 Success else Inr []) (\<lambda>out.
          Inr (m, td, None, out)))"

fun process_trbs ::
  "'m bus_device \<Rightarrow> bool \<Rightarrow> u8 \<Rightarrow> u8 \<Rightarrow> in_status \<Rightarrow> 'm \<Rightarrow> td_info \<Rightarrow> in_trb list \<Rightarrow>
     ('m \<times> td_info \<times> trb_result \<times> handle_out list) res" where
  "process_trbs ops up slot_id endpoint_id status m td [] = Inr (m, td, TrbOk, [])"
| "process_trbs ops up slot_id endpoint_id status m td (t # ts) =
     rbind (process_trb ops up slot_id endpoint_id status m td t) (\<lambda>(m1, td1, early, out).
     case early of
       Some r \<Rightarrow> Inr (m1, td1, r, out)
     | None \<Rightarrow>
         rbind (process_trbs ops up slot_id endpoint_id status m1 td1 ts) (\<lambda>(m2, td2, r, out2).
         Inr (m2, td2, r, out @ out2)))"

definition in_complete ::
  "'m bus_device \<Rightarrow> 'm \<Rightarrow> bool \<Rightarrow> in_handle \<Rightarrow> in_result \<Rightarrow>
     ('m \<times> in_handle \<times> trb_result \<times> handle_out list) res" where
  "in_complete ops m up h answer =
     (case ih_submission h of
        CollectingTd _ \<Rightarrow> Inr (m, h, TrbOk, [])
      | TdUnsupportedTrb \<Rightarrow> Inr (m, h\<lparr>ih_submission := CollectingTd []\<rparr>, TrbTrbError, [])
      | TdAwaitingRealTransfer trbs \<Rightarrow>
          rbind (process_trbs ops up (ih_slot_id h) (ih_endpoint_id h) (ir_status answer) m
                   \<lparr>td_left = ir_data answer, td_short = None\<rparr> trbs) (\<lambda>(m1, td, r, out).
          Inr (m1, h\<lparr>ih_submission := CollectingTd []\<rparr>, r, out)))"

definition in_cancel :: "in_handle \<Rightarrow> in_handle" where
  "in_cancel h = h\<lparr>ih_submission := CollectingTd []\<rparr>"

section \<open>Any endpoint handle\<close>

datatype endpoint_handle = ControlEp control_handle | OutEp out_handle | InEp in_handle

text \<open>The answer of the real endpoint, of the type of the handle; another type cannot occur.\<close>

datatype real_answer = CtlAnswer control_result | OutAnswer out_result | InAnswer in_result

text \<open>Whether \<open>next_completion\<close> awaits the real endpoint at all.\<close>

definition awaits_real :: "endpoint_handle \<Rightarrow> bool" where
  "awaits_real eh =
     (case eh of
        ControlEp h \<Rightarrow> (case ch_submission h of AwaitingControlIn _ \<Rightarrow> True | AwaitingControlOut _ \<Rightarrow> True | _ \<Rightarrow> False)
      | OutEp h \<Rightarrow> (case oh_submission h of AwaitingRealTransfer _ \<Rightarrow> True | _ \<Rightarrow> False)
      | InEp h \<Rightarrow> (case ih_submission h of TdAwaitingRealTransfer _ \<Rightarrow> True | _ \<Rightarrow> False))"

definition handle_submit ::
  "'m bus_device \<Rightarrow> 'm \<Rightarrow> bool \<Rightarrow> endpoint_handle \<Rightarrow> raw_trb \<Rightarrow> (endpoint_handle \<times> handle_out list) res" where
  "handle_submit ops m accepts eh trb =
     (case eh of
        ControlEp h \<Rightarrow> rbind (control_submit ops m accepts h trb) (\<lambda>(h, out). Inr (ControlEp h, out))
      | OutEp h \<Rightarrow> rbind (out_submit ops m accepts h trb) (\<lambda>(h, out). Inr (OutEp h, out))
      | InEp h \<Rightarrow> rbind (in_submit accepts h trb) (\<lambda>(h, out). Inr (InEp h, out)))"

definition handle_complete ::
  "'m bus_device \<Rightarrow> 'm \<Rightarrow> bool \<Rightarrow> endpoint_handle \<Rightarrow> real_answer \<Rightarrow>
     ('m \<times> endpoint_handle \<times> trb_result \<times> handle_out list) res" where
  "handle_complete ops m up eh answer =
     (case (eh, answer) of
        (ControlEp h, CtlAnswer a) \<Rightarrow>
          rbind (control_complete ops m up h a) (\<lambda>(m, h, r, out). Inr (m, ControlEp h, r, out))
      | (OutEp h, OutAnswer a) \<Rightarrow> rbind (out_complete up h a) (\<lambda>(h, r, out). Inr (m, OutEp h, r, out))
      | (InEp h, InAnswer a) \<Rightarrow> rbind (in_complete ops m up h a) (\<lambda>(m, h, r, out). Inr (m, InEp h, r, out))
      | _ \<Rightarrow> Inl UnreachableCode)"

text \<open>Cancelling and clearing a halt reach the real endpoint; only an IN handle forgets its TRBs.\<close>

definition handle_cancel :: "endpoint_handle \<Rightarrow> endpoint_handle \<times> handle_out list" where
  "handle_cancel eh = (case eh of InEp h \<Rightarrow> (InEp (in_cancel h), [CancelReal]) | _ \<Rightarrow> (eh, [CancelReal]))"

section \<open>Hotplug\<close>

datatype hotplug_result =
    HpOk
  | HpStall "(u64 \<times> bool) option"
  | HpTrbError
  | HpTransactionError "(u64 \<times> bool) option"

primrec map_result :: "trb_result \<Rightarrow> hotplug_result" where
  "map_result TrbOk = HpOk"
| "map_result (TrbStall addr) = HpStall addr"
| "map_result TrbTrbError = HpTrbError"
| "map_result (TrbTransactionError addr) = HpTransactionError addr"
| "map_result TrbDisconnect = HpTransactionError None"

text \<open>
  The handle that survives the loss of its device: \<open>hh_handle\<close> becomes \<open>None\<close> when the detach handler
  has run, \<open>hh_detached\<close> says whether the detach token is cancelled.
\<close>

record hotplug_handle =
  hh_slot_id :: u8
  hh_endpoint_id :: u8
  hh_handle :: "endpoint_handle option"
  hh_detached :: bool
  hh_submitted :: "u64 option"

definition hotplug_new :: "u8 \<Rightarrow> u8 \<Rightarrow> endpoint_handle \<Rightarrow> bool \<Rightarrow> hotplug_handle" where
  "hotplug_new slot_id endpoint_id eh detached =
     \<lparr>hh_slot_id = slot_id, hh_endpoint_id = endpoint_id, hh_handle = Some eh, hh_detached = detached,
      hh_submitted = None\<rparr>"

definition hotplug_dummy :: "u8 \<Rightarrow> u8 \<Rightarrow> hotplug_handle" where
  "hotplug_dummy slot_id endpoint_id =
     \<lparr>hh_slot_id = slot_id, hh_endpoint_id = endpoint_id, hh_handle = None, hh_detached = False, hh_submitted = None\<rparr>"

text \<open>The cancellation of the detach token, and the detach handler that follows it.\<close>

definition hotplug_cancel_token :: "hotplug_handle \<Rightarrow> hotplug_handle" where
  "hotplug_cancel_token h = h\<lparr>hh_detached := True\<rparr>"

definition detach_handler :: "hotplug_handle \<Rightarrow> hotplug_handle" where
  "detach_handler h = (if hh_detached h then h\<lparr>hh_handle := None\<rparr> else h)"

text \<open>\<open>locked\<close>: the detach handler holds the lock at this moment.\<close>

definition hotplug_submit ::
  "'m bus_device \<Rightarrow> 'm \<Rightarrow> bool \<Rightarrow> bool \<Rightarrow> hotplug_handle \<Rightarrow> raw_trb \<Rightarrow> (hotplug_handle \<times> handle_out list) res" where
  "hotplug_submit ops m accepts locked h trb =
     rbind (require (hh_submitted h = None) AssertFailed) (\<lambda>_.
     let h1 = h\<lparr>hh_submitted := Some (raw_address trb)\<rparr> in
     case (locked, hh_handle h) of
       (False, Some eh) \<Rightarrow>
         rbind (handle_submit ops m accepts eh trb) (\<lambda>(eh, out). Inr (h1\<lparr>hh_handle := Some eh\<rparr>, out))
     | _ \<Rightarrow> Inr (h1, []))"

text \<open>
  The completion: the real endpoint's answer, or \<open>None\<close> when the cancelled detach token wins the
  \<open>select!\<close>. A disconnect cancels the token for all endpoints of the device.
\<close>

definition hotplug_complete ::
  "'m bus_device \<Rightarrow> 'm \<Rightarrow> bool \<Rightarrow> hotplug_handle \<Rightarrow> real_answer option \<Rightarrow>
     ('m \<times> hotplug_handle \<times> hotplug_result \<times> handle_out list) res" where
  "hotplug_complete ops m up h answer =
     (case hh_submitted h of
        None \<Rightarrow> Inl UnreachableCode
      | Some trb_addr \<Rightarrow>
          let gone = rbind (send_transfer (hh_slot_id h) (hh_endpoint_id h) up trb_addr 0 UsbTransactionError) (\<lambda>out.
                Inr (m, h\<lparr>hh_submitted := None\<rparr>, HpTransactionError None, out)) in
          case hh_handle h of
            None \<Rightarrow> gone
          | Some eh \<Rightarrow>
              (case answer of
                 None \<Rightarrow> gone
               | Some a \<Rightarrow>
                   rbind (handle_complete ops m up eh a) (\<lambda>(m, eh, r, out).
                   Inr (m, h\<lparr>hh_handle := Some eh, hh_submitted := None,
                              hh_detached := (hh_detached h \<or> r = TrbDisconnect)\<rparr>, map_result r, out))))"

definition hotplug_cancel :: "bool \<Rightarrow> hotplug_handle \<Rightarrow> hotplug_handle \<times> handle_out list" where
  "hotplug_cancel locked h =
     (let h1 = h\<lparr>hh_submitted := None\<rparr> in
      case (locked, hh_handle h) of
        (False, Some eh) \<Rightarrow> (let (eh, out) = handle_cancel eh in (h1\<lparr>hh_handle := Some eh\<rparr>, out))
      | _ \<Rightarrow> (h1, []))"

definition hotplug_clear_halt :: "bool \<Rightarrow> hotplug_handle \<Rightarrow> handle_out list" where
  "hotplug_clear_halt locked h =
     (case (locked, hh_handle h) of (False, Some eh) \<Rightarrow> [ClearHaltReal] | _ \<Rightarrow> [])"

end
