(* ===== verification/Port.thy ===== *)
theory Port
  imports Registers RegisterSet Response
begin

text \<open>
  The root hub ports (\<open>src/device/xhci/port.rs\<close>, \<open>real_device.rs\<close>): which device is attached where, the
  PORTSC registers the guest sees, and the hotplug messages. A real device is its answers: its
  identifier, its speed and its detach token, whose identity distinguishes two attachments of the same
  device. \<open>'i\<close> is the type of identifiers, \<open>'t\<close> that of cancellation tokens.
\<close>

section \<open>Devices\<close>

datatype speed = Full | Low | High | Super | SuperPlus

primrec speed_code :: "speed \<Rightarrow> u8" where
  "speed_code Full = 1"
| "speed_code Low = 2"
| "speed_code High = 3"
| "speed_code Super = 4"
| "speed_code SuperPlus = 5"

definition is_usb2_speed :: "speed \<Rightarrow> bool" where
  "is_usb2_speed s \<longleftrightarrow> speed_code s \<le> 3"

definition from_speed :: "speed \<Rightarrow> usb_version" where
  "from_speed s = (if is_usb2_speed s then USB2 else USB3)"

record ('i, 't) complete_device =
  cd_identifier :: 'i
  cd_speed :: "speed option"
  cd_token :: 't

record ('i, 't) attached_device =
  at_device :: "('i, 't) complete_device"
  at_instance :: 't

section \<open>The ports\<close>

definition port_version :: "u8 \<Rightarrow> usb_version res" where
  "port_version port_id =
     (if 1 \<le> unat port_id \<and> unat port_id \<le> NUM_USB3_PORTS then Inr USB3
      else if NUM_USB3_PORTS < unat port_id \<and> unat port_id \<le> MAX_PORTS then Inr USB2
      else Inl UnreachableCode)"

text \<open>
  The worker's state. \<open>pw_cancelled\<close> are the cancelled tokens and \<open>pw_listeners\<close> the detach listeners
  that have been spawned and have not reported yet.
\<close>

record ('i, 't) port_worker =
  pw_devices :: "('i, 't) attached_device option list"
  pw_portsc :: "portsc_register list"
  pw_cancelled :: "'t set"
  pw_listeners :: "('i \<times> 't) list"

fun new_ports :: "nat list \<Rightarrow> portsc_register list res" where
  "new_ports [] = Inr []"
| "new_ports (index # rest) =
     (let port_id = of_nat index + 1 in
      rbind (port_version port_id) (\<lambda>v.
      rbind (new_ports rest) (\<lambda>ps. Inr (portsc_new v port_id # ps))))"

definition port_worker_new :: "('i, 't) port_worker res" where
  "port_worker_new =
     rbind (new_ports [0..<MAX_PORTS]) (\<lambda>ps.
     Inr \<lparr>pw_devices = replicate MAX_PORTS None, pw_portsc = ps, pw_cancelled = {}, pw_listeners = []\<rparr>)"

text \<open>The outputs: an event for the interrupter, or the answer to a message.\<close>

datatype ('i, 't) port_out =
    PortEvent event_trb
  | Responded response
  | Listed "'i list"
  | Retrieved "('i, 't) complete_device option"

definition attached_devices :: "('i, 't) port_worker \<Rightarrow> 'i list" where
  "attached_devices s = map (\<lambda>a. cd_identifier (at_device a)) (List.map_filter id (pw_devices s))"

text \<open>The port of the device to detach: the first whose device has the identifier and, if asked for, the instance.\<close>

fun find_port :: "(nat \<times> ('i, 't) attached_device option) list \<Rightarrow> 'i \<Rightarrow> 't option \<Rightarrow> nat option" where
  "find_port [] ident inst = None"
| "find_port ((i, port) # rest) ident inst =
     (case port of
        None \<Rightarrow> find_port rest ident inst
      | Some a \<Rightarrow>
          (let matches = (case inst of None \<Rightarrow> True | Some t \<Rightarrow> t = at_instance a) in
           if cd_identifier (at_device a) = ident \<and> matches then Some i else find_port rest ident inst))"

text \<open>\<open>up\<close>: the interrupter still receives events.\<close>

definition port_detach ::
  "('i, 't) port_worker \<Rightarrow> 'i \<Rightarrow> 't option \<Rightarrow> bool \<Rightarrow>
     (response \<times> ('i, 't) port_worker \<times> ('i, 't) port_out list) res" where
  "port_detach s ident inst up =
     (case find_port (one_enumerate (pw_devices s)) ident inst of
        None \<Rightarrow> Inr (NoSuchDevice, s, [])
      | Some port_id \<Rightarrow>
          rbind (one_index (pw_devices s) port_id) (\<lambda>d.
          rbind (of_opt UnwrapFailed d) (\<lambda>a.
          rbind (one_put (pw_devices s) port_id None) (\<lambda>ds.
          rbind (one_index (pw_portsc s) port_id) (\<lambda>r.
          rbind (one_put (pw_portsc s) port_id (portsc_set r (portsc_PP OR portsc_CSC))) (\<lambda>ps.
          rbind (require up ChannelClosed) (\<lambda>_.
          Inr (SuccessfulOperation,
            s\<lparr>pw_devices := ds, pw_portsc := ps,
              pw_cancelled := insert (cd_token (at_device a)) (pw_cancelled s)\<rparr>,
            [PortEvent (new_port_status_change_event_trb (of_nat port_id))]))))))))"

text \<open>The lowest free port of the device's USB version.\<close>

fun available_port :: "('i, 't) port_worker \<Rightarrow> usb_version \<Rightarrow> nat list \<Rightarrow> nat option res" where
  "available_port s v [] = Inr None"
| "available_port s v (i # is) =
     rbind (one_index (pw_devices s) i) (\<lambda>d.
     rbind (if d = None then rbind (one_index (pw_portsc s) i) (\<lambda>r. Inr (ps_usb_version r = v)) else Inr False) (\<lambda>ok.
     if ok then Inr (Some i) else available_port s v is))"

definition attach_portsc :: "usb_version \<Rightarrow> speed \<Rightarrow> u64" where
  "attach_portsc v sp =
     (case v of
        USB3 \<Rightarrow> portsc_CCS OR portsc_PED OR portsc_PP OR portsc_CSC OR portsc_PEC OR portsc_PRC OR
                push_bit 10 (ucast (speed_code sp))
      | USB2 \<Rightarrow> portsc_CCS OR PLS_POLLING OR portsc_PP OR push_bit 10 (ucast (speed_code sp)) OR portsc_CSC)"

definition port_attach ::
  "('i, 't) port_worker \<Rightarrow> ('i, 't) complete_device \<Rightarrow> bool \<Rightarrow>
     (response \<times> ('i, 't) port_worker \<times> ('i, 't) port_out list) res" where
  "port_attach s device up =
     rbind (if cd_identifier device \<in> set (attached_devices s)
            then rbind (port_detach s (cd_identifier device) None up) (\<lambda>(_, s, out). Inr (s, out))
            else Inr (s, [])) (\<lambda>(s, out).
     case cd_speed device of
       None \<Rightarrow> Inr (CouldNotDetermineSpeed, s, out)
     | Some sp \<Rightarrow>
         rbind (available_port s (from_speed sp) [1..<MAX_PORTS + 1]) (\<lambda>p.
         case p of
           None \<Rightarrow> Inr (NoFreePort, s, out)
         | Some port_id \<Rightarrow>
             rbind (one_put (pw_devices s) port_id
               (Some \<lparr>at_device = device, at_instance = cd_token device\<rparr>)) (\<lambda>ds.
             rbind (one_index (pw_portsc s) port_id) (\<lambda>r.
             rbind (one_put (pw_portsc s) port_id (portsc_set r (attach_portsc (from_speed sp) sp))) (\<lambda>ps.
             rbind (require up ChannelClosed) (\<lambda>_.
             Inr (SuccessfulOperation,
               s\<lparr>pw_devices := ds, pw_portsc := ps,
                 pw_listeners := pw_listeners s @ [(cd_identifier device, cd_token device)]\<rparr>,
               out @ [PortEvent (new_port_status_change_event_trb (of_nat port_id))])))))))"

section \<open>Messages and steps\<close>

datatype ('i, 't) port_msg =
    Attach "('i, 't) complete_device"
  | Detach 'i "'t option"
  | ListAttached
  | GetDevice nat

text \<open>\<open>alive\<close>: the receiver of the answer is still there.\<close>

fun port_message ::
  "('i, 't) port_worker \<Rightarrow> ('i, 't) port_msg \<Rightarrow> bool \<Rightarrow> bool \<Rightarrow>
     (('i, 't) port_worker \<times> ('i, 't) port_out list) res" where
  "port_message s (Attach device) alive up =
     rbind (port_attach s device up) (\<lambda>(r, s', out).
     rbind (require alive ChannelClosed) (\<lambda>_. Inr (s', out @ [Responded r])))"
| "port_message s (Detach ident inst) alive up =
     rbind (port_detach s ident inst up) (\<lambda>(r, s', out).
     rbind (require alive ChannelClosed) (\<lambda>_. Inr (s', out @ [Responded r])))"
| "port_message s ListAttached alive up =
     rbind (require alive ChannelClosed) (\<lambda>_. Inr (s, [Listed (attached_devices s)]))"
| "port_message s (GetDevice port_id) alive up =
     rbind (require alive ChannelClosed) (\<lambda>_.
     Inr (s, [Retrieved (case one_get (pw_devices s) port_id of Some (Some a) \<Rightarrow> Some (at_device a) | _ \<Rightarrow> None)]))"

text \<open>
  Everything that happens to the ports: a message, a guest write to PORTSC, the cancellation of a
  token by an endpoint that lost its device, and a detach listener whose token is cancelled and whose
  request is then served. A listener awaits its answer, so its receiver is alive.
\<close>

datatype ('i, 't) port_action =
    PortMessage "('i, 't) port_msg" bool
  | WritePortsc nat u64
  | CancelToken 't
  | ListenerFires nat

fun port_step ::
  "('i, 't) port_worker \<Rightarrow> ('i, 't) port_action \<Rightarrow> bool \<Rightarrow> (('i, 't) port_worker \<times> ('i, 't) port_out list) res" where
  "port_step s (PortMessage m alive) up = port_message s m alive up"
| "port_step s (WritePortsc port_id v) up =
     rbind (one_index (pw_portsc s) port_id) (\<lambda>r.
     let (r', ev) = portsc_write r v in
     rbind (one_put (pw_portsc s) port_id r') (\<lambda>ps.
     rbind (require (ev = None \<or> up) ChannelClosed) (\<lambda>_.
     Inr (s\<lparr>pw_portsc := ps\<rparr>, (case ev of None \<Rightarrow> [] | Some e \<Rightarrow> [PortEvent e])))))"
| "port_step s (CancelToken t) up = Inr (s\<lparr>pw_cancelled := insert t (pw_cancelled s)\<rparr>, [])"
| "port_step s (ListenerFires k) up =
     (if k < length (pw_listeners s) \<and> snd (pw_listeners s ! k) \<in> pw_cancelled s then
        (let (ident, t) = pw_listeners s ! k;
             s' = s\<lparr>pw_listeners := take k (pw_listeners s) @ drop (Suc k) (pw_listeners s)\<rparr> in
         port_message s' (Detach ident (Some t)) True up)
      else Inr (s, []))"

fun port_run ::
  "('i, 't) port_worker \<Rightarrow> ('i, 't) port_action list \<Rightarrow> bool \<Rightarrow> (('i, 't) port_worker \<times> ('i, 't) port_out list) res" where
  "port_run s [] up = Inr (s, [])"
| "port_run s (a # as) up =
     rbind (port_step s a up) (\<lambda>(s', out).
     rbind (port_run s' as up) (\<lambda>(s'', outs). Inr (s'', out @ outs)))"

section \<open>Register addresses\<close>

definition PORT_STRIDE :: u64 where "PORT_STRIDE = 0x10"
definition offset_PORTSC :: u64 where "offset_PORTSC = 0x440"

definition get_port_id_from_addr :: "u64 \<Rightarrow> u64 \<Rightarrow> u64 \<Rightarrow> u64 \<Rightarrow> nat option" where
  "get_port_id_from_addr addr base_addr port_count register_offset =
     (if base_addr \<le> addr \<and> addr < base_addr + port_count * PORT_STRIDE
      then if (addr - base_addr) mod PORT_STRIDE = register_offset
           then Some (unat ((addr - base_addr) div PORT_STRIDE) + 1) else None
      else None)"

definition get_portsc_id :: "u64 \<Rightarrow> nat option" where
  "get_portsc_id addr = get_port_id_from_addr addr offset_PORTSC (of_nat MAX_PORTS) 0"

definition get_portpmsc_id :: "u64 \<Rightarrow> nat option" where
  "get_portpmsc_id addr = get_port_id_from_addr addr offset_PORTSC (of_nat MAX_PORTS) 0x4"

definition get_portli_id :: "u64 \<Rightarrow> nat option" where
  "get_portli_id addr = get_port_id_from_addr addr offset_PORTSC (of_nat MAX_PORTS) 0x8"

section \<open>Finding ports\<close>

definition hit :: "'i \<Rightarrow> 't option \<Rightarrow> ('i, 't) attached_device \<Rightarrow> bool" where
  "hit ident inst a \<longleftrightarrow> cd_identifier (at_device a) = ident \<and> (inst = None \<or> inst = Some (at_instance a))"

lemma find_port_Cons_hit:
  "find_port ((i, port) # rest) ident inst =
     (case port of Some a \<Rightarrow> if hit ident inst a then Some i else find_port rest ident inst
      | None \<Rightarrow> find_port rest ident inst)"
  by (auto simp: hit_def split: option.splits)

lemmas find_port_hit = find_port.simps(1) find_port_Cons_hit

lemma find_port_None:
  "find_port ps ident inst = None \<longleftrightarrow> (\<forall>a. Some a \<in> snd ` set ps \<longrightarrow> \<not> hit ident inst a)"
proof (induction ps)
  case (Cons x ps)
  then show ?case by (cases x) (auto simp: find_port_hit simp del: find_port.simps split: option.splits)
qed simp

lemma find_port_Some:
  "find_port ps ident inst = Some i \<Longrightarrow> \<exists>a. (i, Some a) \<in> set ps \<and> hit ident inst a"
proof (induction ps)
  case (Cons x ps)
  then show ?case
    by (cases x) (auto simp: find_port_hit simp del: find_port.simps split: option.splits if_splits)
qed simp

lemma set_one_enumerate: "(i, e) \<in> set (one_enumerate xs) \<longleftrightarrow> (\<exists>p < length xs. i = Suc p \<and> xs ! p = e)"
  by (auto simp: one_enumerate_def set_zip image_iff)

lemma snd_one_enumerate: "snd ` set (one_enumerate xs) = set xs"
proof -
  have "map snd (one_enumerate xs) = xs" by (simp add: one_enumerate_def case_prod_unfold comp_def)
  then show ?thesis by (metis list.set_map)
qed

section \<open>The invariant\<close>

definition version_of :: "nat \<Rightarrow> usb_version" where
  "version_of p = (if p < NUM_USB3_PORTS then USB3 else USB2)"

text \<open>
  \<open>slot_ok\<close>: the port register and the attached device of one port agree. The register shows a
  connection exactly when a device is attached; an attached device has a speed of the port's USB
  version and is registered under its own token.
\<close>

definition slot_ok :: "nat \<Rightarrow> portsc_register \<Rightarrow> ('i, 't) attached_device option \<Rightarrow> bool" where
  "slot_ok p r d \<longleftrightarrow>
     ps_port_id r = of_nat (Suc p) \<and> ps_usb_version r = version_of p \<and> (bit (ps_value r) 0 \<longleftrightarrow> d \<noteq> None) \<and>
     (case d of
        None \<Rightarrow> True
      | Some a \<Rightarrow> at_instance a = cd_token (at_device a) \<and>
          map_option from_speed (cd_speed (at_device a)) = Some (version_of p))"

definition unique_ids :: "('i, 't) attached_device option list \<Rightarrow> bool" where
  "unique_ids ds \<longleftrightarrow> (\<forall>p q a b. p < length ds \<longrightarrow> q < length ds \<longrightarrow> ds ! p = Some a \<longrightarrow> ds ! q = Some b \<longrightarrow>
     cd_identifier (at_device a) = cd_identifier (at_device b) \<longrightarrow> p = q)"

definition shape_ok :: "('i, 't) port_worker \<Rightarrow> bool" where
  "shape_ok s \<longleftrightarrow> length (pw_devices s) = MAX_PORTS \<and> length (pw_portsc s) = MAX_PORTS \<and>
     unique_ids (pw_devices s) \<and> (\<forall>p < MAX_PORTS. slot_ok p (pw_portsc s ! p) (pw_devices s ! p))"

text \<open>In addition, a detach listener for every attached instance is waiting.\<close>

definition port_ok :: "('i, 't) port_worker \<Rightarrow> bool" where
  "port_ok s \<longleftrightarrow> shape_ok s \<and>
     (\<forall>a. Some a \<in> set (pw_devices s) \<longrightarrow> (cd_identifier (at_device a), at_instance a) \<in> set (pw_listeners s))"

text \<open>What a detach leaves of the attached devices.\<close>

definition without :: "'i \<Rightarrow> 't option \<Rightarrow> ('i, 't) attached_device option list \<Rightarrow> ('i, 't) attached_device option list" where
  "without ident inst = map (\<lambda>d. case d of None \<Rightarrow> None | Some a \<Rightarrow> if hit ident inst a then None else Some a)"

lemma without_instance:
  "without ident (Some t) ds = map (\<lambda>d. case d of None \<Rightarrow> None | Some a \<Rightarrow>
     if cd_identifier (at_device a) = ident \<and> at_instance a = t then None else Some a) ds"
  by (auto simp: without_def hit_def split: option.splits)

lemma length_without [simp]: "length (without ident inst ds) = length ds"
  by (simp add: without_def)

lemma nth_without:
  "p < length ds \<Longrightarrow> without ident inst ds ! p =
     (case ds ! p of None \<Rightarrow> None | Some a \<Rightarrow> if hit ident inst a then None else Some a)"
  by (simp add: without_def)

lemma without_same: "(\<forall>a. Some a \<in> set ds \<longrightarrow> \<not> hit ident inst a) \<Longrightarrow> without ident inst ds = ds"
  by (auto simp: without_def intro!: map_idI split: option.splits)

lemma without_unique:
  assumes "unique_ids ds" "p < length ds" "ds ! p = Some a" "hit ident inst a"
  shows "without ident inst ds = ds[p := None]"
proof (rule nth_equalityI)
  fix q assume q: "q < length (without ident inst ds)"
  show "without ident inst ds ! q = ds[p := None] ! q"
  proof (cases "ds ! q")
    case (Some b)
    then have "hit ident inst b \<Longrightarrow> q = p" using assms q by (auto simp: unique_ids_def hit_def)
    then show ?thesis using assms q Some by (auto simp: nth_without nth_list_update)
  qed (use q in \<open>cases "q = p"; simp add: nth_without nth_list_update\<close>)
qed simp

lemma unique_without: "unique_ids ds \<Longrightarrow> unique_ids (without ident inst ds)"
  by (auto simp: unique_ids_def nth_without split: option.splits if_splits)

lemma unique_put:
  assumes "unique_ids ds" "\<forall>a. Some a \<in> set ds \<longrightarrow> cd_identifier (at_device a) \<noteq> cd_identifier (at_device x)"
  shows "unique_ids (ds[p := Some x])"
  unfolding unique_ids_def
proof (intro allI impI)
  fix q r a b
  assume h: "q < length (ds[p := Some x])" "r < length (ds[p := Some x])" "ds[p := Some x] ! q = Some a"
    "ds[p := Some x] ! r = Some b" "cd_identifier (at_device a) = cd_identifier (at_device b)"
  then have n: "q \<noteq> p \<Longrightarrow> Some a \<in> set ds \<and> ds ! q = Some a" "r \<noteq> p \<Longrightarrow> Some b \<in> set ds \<and> ds ! r = Some b"
    using nth_mem [of q ds] nth_mem [of r ds] by (auto simp: nth_list_update)
  show "q = r"
  proof (cases "q = p \<or> r = p")
    case True
    then show ?thesis using h n assms(2) by (cases "q = p"; cases "r = p"; simp) metis+
  next
    case False
    then show ?thesis using h n assms(1) by (auto simp: unique_ids_def)
  qed
qed

lemma without_cleared: "Some a \<in> set (without ident None ds) \<Longrightarrow> cd_identifier (at_device a) \<noteq> ident"
  by (auto simp: without_def hit_def split: option.splits if_splits)

text \<open>The ports a detach frees.\<close>

definition hits :: "'i \<Rightarrow> 't option \<Rightarrow> ('i, 't) attached_device option list \<Rightarrow> nat list" where
  "hits ident inst ds = filter (\<lambda>p. case ds ! p of None \<Rightarrow> False | Some a \<Rightarrow> hit ident inst a) [0..<length ds]"

lemma filter_single: "P p \<Longrightarrow> p < n \<Longrightarrow> (\<And>q. q < n \<Longrightarrow> P q \<Longrightarrow> q = p) \<Longrightarrow> filter P [0..<n] = [p]"
proof -
  assume *: "P p" "p < n" "\<And>q. q < n \<Longrightarrow> P q \<Longrightarrow> q = p"
  have "[0..<n] = [0..<p] @ p # [Suc p..<n]"
    using *(2) upt_add_eq_append [of 0 p "n - p"] by (simp add: upt_conv_Cons)
  moreover have "filter P [0..<p] = []"
    using *(3) *(2) by (auto simp: filter_empty_conv) (metis less_irrefl less_trans)
  moreover have "filter P [Suc p..<n] = []"
    using *(3) by (auto simp: filter_empty_conv)
  ultimately show ?thesis using *(1) by simp
qed

lemma hits_unique:
  assumes "unique_ids ds" "p < length ds" "ds ! p = Some a" "hit ident inst a"
  shows "hits ident inst ds = [p]"
  unfolding hits_def using assms
  by (intro filter_single) (auto simp: unique_ids_def hit_def split: option.splits)

lemma hits_none: "(\<forall>a. Some a \<in> set ds \<longrightarrow> \<not> hit ident inst a) \<Longrightarrow> hits ident inst ds = []"
  by (auto simp: hits_def filter_empty_conv split: option.splits) (metis nth_mem)

definition port_events :: "nat list \<Rightarrow> ('i, 't) port_out list" where
  "port_events ps = map (\<lambda>p. PortEvent (PortStatusChange (of_nat (Suc p)))) ps"

lemma shape_put:
  assumes "shape_ok s" "p < MAX_PORTS" "unique_ids ((pw_devices s)[p := d])"
    "slot_ok p (portsc_set (pw_portsc s ! p) v) d" "pw_devices s' = (pw_devices s)[p := d]"
    "pw_portsc s' = (pw_portsc s)[p := portsc_set (pw_portsc s ! p) v]"
  shows "shape_ok s'"
  using assms by (auto simp: shape_ok_def nth_list_update)

lemma detach_outcome:
  assumes "shape_ok s"
  shows "\<exists>s'. port_detach s ident inst True =
      Inr (if hits ident inst (pw_devices s) = [] then NoSuchDevice else SuccessfulOperation, s',
        port_events (hits ident inst (pw_devices s))) \<and>
    shape_ok s' \<and> pw_devices s' = without ident inst (pw_devices s) \<and> pw_listeners s' = pw_listeners s"
proof (cases "find_port (one_enumerate (pw_devices s)) ident inst")
  case None
  then have "\<forall>a. Some a \<in> set (pw_devices s) \<longrightarrow> \<not> hit ident inst a"
    by (simp add: find_port_None snd_one_enumerate)
  then show ?thesis using None assms
    by (simp add: port_detach_def hits_none without_same port_events_def)
next
  case (Some i)
  then obtain p a where p: "i = Suc p" "p < length (pw_devices s)" "pw_devices s ! p = Some a" "hit ident inst a"
    using find_port_Some by (fastforce simp: set_one_enumerate)
  note u = assms [unfolded shape_ok_def]
  let ?s = "s\<lparr>pw_devices := (pw_devices s)[p := None],
     pw_portsc := (pw_portsc s)[p := portsc_set (pw_portsc s ! p) (portsc_PP OR portsc_CSC)],
     pw_cancelled := insert (cd_token (at_device a)) (pw_cancelled s)\<rparr>"
  have w: "without ident inst (pw_devices s) = (pw_devices s)[p := None]"
    using without_unique [OF _ p(2-4)] u by simp
  have "slot_ok p (portsc_set (pw_portsc s ! p) (portsc_PP OR portsc_CSC)) None"
    using u p(2) by (auto simp: slot_ok_def portsc_set_def)
  then have "shape_ok ?s"
    using unique_without [of "pw_devices s" ident inst] u p w by (intro shape_put [OF assms, of p]) auto
  then show ?thesis
    using Some p u w hits_unique [of "pw_devices s" p a ident inst]
    by (simp add: port_detach_def port_events_def new_port_status_change_event_trb_def)
qed

section \<open>Attaching\<close>

definition free_ports :: "usb_version \<Rightarrow> ('i, 't) attached_device option list \<Rightarrow> nat list" where
  "free_ports v ds = filter (\<lambda>p. ds ! p = None \<and> version_of p = v) [0..<length ds]"

lemma available_port_filter:
  assumes "shape_ok s" "\<forall>p \<in> set ps. p < MAX_PORTS"
  shows "available_port s v (map Suc ps) =
    Inr (map_option Suc (case filter (\<lambda>p. pw_devices s ! p = None \<and> version_of p = v) ps of
       [] \<Rightarrow> None | p # _ \<Rightarrow> Some p))"
  using assms(2)
  by (induction ps) (use assms(1) in \<open>auto simp: shape_ok_def slot_ok_def\<close>)

lemma available_port_free:
  assumes "shape_ok s"
  shows "available_port s v [1..<MAX_PORTS + 1] =
    Inr (map_option Suc (case free_ports v (pw_devices s) of [] \<Rightarrow> None | p # _ \<Rightarrow> Some p))"
proof -
  have "[1..<MAX_PORTS + 1] = map Suc [0..<MAX_PORTS]" by (simp add: map_Suc_upt)
  then show ?thesis
    using available_port_filter [OF assms, of "[0..<MAX_PORTS]" v] assms by (simp add: free_ports_def shape_ok_def)
qed

lemma in_attached_devices:
  "ident \<in> set (attached_devices s) \<longleftrightarrow> (\<exists>a. Some a \<in> set (pw_devices s) \<and> hit ident None a)"
  by (auto simp: attached_devices_def hit_def List.map_filter_def image_iff)

lemma attach_portsc_connected: "bit (attach_portsc (from_speed sp) sp) 0"
  by (cases sp) (simp_all add: attach_portsc_def from_speed_def is_usb2_speed_def)

lemma hits_in: "p \<in> set (hits ident inst ds) \<Longrightarrow> p < length ds"
  by (simp add: hits_def)

lemma attach_outcome:
  fixes d :: "('i, 't) complete_device"
  assumes "shape_ok s"
  defines "base \<equiv> without (cd_identifier d) None (pw_devices s)"
  defines "evs \<equiv> port_events (hits (cd_identifier d) None (pw_devices s))"
  shows "\<exists>s' r out. port_attach s d True = Inr (r, s', out) \<and> shape_ok s' \<and>
    (case cd_speed d of
       None \<Rightarrow> r = CouldNotDetermineSpeed \<and> pw_devices s' = base \<and> pw_listeners s' = pw_listeners s \<and> out = evs
     | Some sp \<Rightarrow> (case free_ports (from_speed sp) base of
         [] \<Rightarrow> r = NoFreePort \<and> pw_devices s' = base \<and> pw_listeners s' = pw_listeners s \<and> out = evs
       | p # _ \<Rightarrow> r = SuccessfulOperation \<and>
           pw_devices s' = base[p := Some \<lparr>at_device = d, at_instance = cd_token d\<rparr>] \<and>
           pw_listeners s' = pw_listeners s @ [(cd_identifier d, cd_token d)] \<and>
           out = evs @ port_events [p]))"
proof -
  obtain s1 where s1: "(if cd_identifier d \<in> set (attached_devices s)
      then rbind (port_detach s (cd_identifier d) None True) (\<lambda>(_, s, out). Inr (s, out)) else Inr (s, [])) =
      Inr (s1, evs)" "shape_ok s1" "pw_devices s1 = base" "pw_listeners s1 = pw_listeners s"
  proof (cases "cd_identifier d \<in> set (attached_devices s)")
    case True
    then show ?thesis
      using detach_outcome [OF assms(1), of "cd_identifier d" None] that by (auto simp: base_def evs_def)
  next
    case False
    then have "\<forall>a. Some a \<in> set (pw_devices s) \<longrightarrow> \<not> hit (cd_identifier d) None a"
      by (simp add: in_attached_devices)
    then have "evs = []" "base = pw_devices s"
      by (simp_all add: evs_def base_def hits_none without_same port_events_def)
    then show ?thesis using False assms(1) that by simp
  qed
  note sh = s1(2) [unfolded shape_ok_def]
  show ?thesis
  proof (cases "cd_speed d")
    case None
    then show ?thesis using s1 by (simp add: port_attach_def)
  next
    case sp: (Some sp)
    show ?thesis
    proof (cases "free_ports (from_speed sp) base")
      case Nil
      then show ?thesis using s1 sp by (simp add: port_attach_def available_port_free del: upt_Suc One_nat_def)
    next
      case (Cons p rest)
      then have "p \<in> set (free_ports (from_speed sp) base)" by simp
      then have p: "p < MAX_PORTS" "base ! p = None" "version_of p = from_speed sp"
        using sh s1(3) by (auto simp: free_ports_def)
      let ?a = "\<lparr>at_device = d, at_instance = cd_token d\<rparr>"
      let ?r = "portsc_set (pw_portsc s1 ! p) (attach_portsc (from_speed sp) sp)"
      let ?s = "s1\<lparr>pw_devices := base[p := Some ?a], pw_portsc := (pw_portsc s1)[p := ?r],
        pw_listeners := pw_listeners s @ [(cd_identifier d, cd_token d)]\<rparr>"
      have "slot_ok p ?r (Some ?a)"
        using sh p sp attach_portsc_connected by (auto simp: slot_ok_def portsc_set_def)
      moreover have "unique_ids (base[p := Some ?a])"
        using sh s1(3) by (intro unique_put) (auto simp: base_def dest!: without_cleared)
      ultimately have "shape_ok ?s" using p s1(3) by (intro shape_put [OF s1(2), of p]) auto
      moreover have "port_attach s d True = Inr (SuccessfulOperation, ?s, evs @ port_events [p])"
        using s1 sp Cons p sh
        by (simp add: port_attach_def available_port_free port_events_def new_port_status_change_event_trb_def
            del: upt_Suc One_nat_def)
      ultimately show ?thesis using sp Cons by auto
    qed
  qed
qed

section \<open>The invariant is kept\<close>

lemma portsc_write_keeps:
  "bit (ps_value (fst (portsc_write r v))) 0 = bit (ps_value r) 0"
  "ps_usb_version (fst (portsc_write r v)) = ps_usb_version r"
  "ps_port_id (fst (portsc_write r v)) = ps_port_id r"
proof -
  have "\<not> bit (v AND BITMASK_RW1C) 0" by (simp add: BITMASK_RW1C_def bit_and_iff)
  then show "bit (ps_value (fst (portsc_write r v))) 0 = bit (ps_value r) 0"
    by (auto simp: portsc_write_def Let_def bit_port_reset bit_and_iff bit_or_iff bit_not_iff)
qed (simp_all add: portsc_write_def Let_def)

lemma listened_without:
  assumes "port_ok s" "pw_devices s' = without ident inst (pw_devices s)"
    "\<And>a. Some a \<in> set (pw_devices s') \<Longrightarrow> (cd_identifier (at_device a), at_instance a) \<in> set (pw_listeners s) \<Longrightarrow>
       (cd_identifier (at_device a), at_instance a) \<in> set (pw_listeners s')"
    "shape_ok s'"
  shows "port_ok s'"
proof -
  have "Some a \<in> set (pw_devices s)" if "Some a \<in> set (pw_devices s')" for a
    using that assms(2) by (auto simp: without_def split: option.splits if_splits)
  then show ?thesis using assms(1,3,4) by (auto simp: port_ok_def)
qed

text \<open>The listener's step, and the detach message, as maps on the attached devices.\<close>

lemma listener_outcome:
  assumes "port_ok s" "k < length (pw_listeners s)" "pw_listeners s ! k = (ident, t)" "t \<in> pw_cancelled s"
  shows "\<exists>s'. port_step s (ListenerFires k) True = Inr (s',
      port_events (hits ident (Some t) (pw_devices s)) @
      [Responded (if hits ident (Some t) (pw_devices s) = [] then NoSuchDevice else SuccessfulOperation)]) \<and>
    port_ok s' \<and> pw_devices s' = without ident (Some t) (pw_devices s)"
proof -
  let ?ls = "take k (pw_listeners s) @ drop (Suc k) (pw_listeners s)"
  have "shape_ok (s\<lparr>pw_listeners := ?ls\<rparr>)" using assms(1) by (simp add: port_ok_def shape_ok_def)
  from detach_outcome [OF this, of ident "Some t"]
  obtain s' where s': "port_detach (s\<lparr>pw_listeners := ?ls\<rparr>) ident (Some t) True =
      Inr (if hits ident (Some t) (pw_devices s) = [] then NoSuchDevice else SuccessfulOperation, s',
        port_events (hits ident (Some t) (pw_devices s)))"
    "shape_ok s'" "pw_devices s' = without ident (Some t) (pw_devices s)" "pw_listeners s' = ?ls" by auto
  have split: "pw_listeners s = take k (pw_listeners s) @ (ident, t) # drop (Suc k) (pw_listeners s)"
    using assms(2,3) id_take_nth_drop by metis
  have "port_ok s'"
  proof (rule listened_without [OF assms(1) s'(3) _ s'(2)])
    fix a assume a: "Some a \<in> set (pw_devices s')"
      "(cd_identifier (at_device a), at_instance a) \<in> set (pw_listeners s)"
    from a(1) s'(3) have "(cd_identifier (at_device a), at_instance a) \<noteq> (ident, t)"
      by (auto simp: without_def hit_def split: option.splits if_splits)
    moreover have "(cd_identifier (at_device a), at_instance a) \<in>
        set (take k (pw_listeners s) @ (ident, t) # drop (Suc k) (pw_listeners s))"
      using a(2) split by simp
    ultimately show "(cd_identifier (at_device a), at_instance a) \<in> set (pw_listeners s')"
      unfolding s'(4) by auto
  qed
  then show ?thesis using assms s' by simp
qed

lemma attach_ok:
  assumes "port_ok s" "port_attach s d True = Inr (r, s', out)"
  shows "port_ok s'"
proof -
  have sh: "shape_ok s" using assms(1) by (simp add: port_ok_def)
  define base where "base = without (cd_identifier d) None (pw_devices s)"
  have old: "(cd_identifier (at_device a), at_instance a) \<in> set (pw_listeners s)" if "Some a \<in> set base" for a
    using that assms(1) by (auto simp: base_def without_def port_ok_def split: option.splits if_splits)
  have "shape_ok s'" "pw_devices s' = base \<and> pw_listeners s' = pw_listeners s \<or>
      (\<exists>p. pw_devices s' = base[p := Some \<lparr>at_device = d, at_instance = cd_token d\<rparr>] \<and>
        pw_listeners s' = pw_listeners s @ [(cd_identifier d, cd_token d)])"
    using attach_outcome [OF sh, of d] assms(2)
    by (auto simp: base_def split: option.splits list.splits)
  then show ?thesis using old by (auto simp: port_ok_def dest!: set_update_memI subsetD [OF set_update_subset_insert])
qed

text \<open>A guest access names one of the ports, and answers find their receivers.\<close>

fun action_ok :: "('i, 't) port_action \<Rightarrow> bool" where
  "action_ok (PortMessage m alive) = alive"
| "action_ok (WritePortsc port_id v) = (1 \<le> port_id \<and> port_id \<le> MAX_PORTS)"
| "action_ok _ = True"

lemma port_step_ok:
  assumes "port_ok s" "action_ok a"
  shows "\<exists>s' out. port_step s a True = Inr (s', out) \<and> port_ok s'"
proof -
  have sh: "shape_ok s" using assms(1) by (simp add: port_ok_def)
  show ?thesis
  proof (cases a)
    case (PortMessage m alive)
    show ?thesis
    proof (cases m)
      case (Attach d)
      obtain s' r out where "port_attach s d True = Inr (r, s', out)" using attach_outcome [OF sh, of d] by blast
      then show ?thesis using attach_ok [OF assms(1)] assms(2) PortMessage Attach by simp
    next
      case (Detach ident inst)
      obtain s' where s': "port_detach s ident inst True = Inr (if hits ident inst (pw_devices s) = [] then NoSuchDevice
          else SuccessfulOperation, s', port_events (hits ident inst (pw_devices s)))" "shape_ok s'"
        "pw_devices s' = without ident inst (pw_devices s)" "pw_listeners s' = pw_listeners s"
        using detach_outcome [OF sh] by blast
      then have "port_ok s'" using listened_without [OF assms(1) s'(3)] by simp
      then show ?thesis using s'(1) assms(2) PortMessage Detach by simp
    qed (use assms PortMessage in auto)
  next
    case (WritePortsc port_id v)
    then obtain p where p: "port_id = Suc p" "p < MAX_PORTS" using assms(2) by (cases port_id) auto
    have "shape_ok (s\<lparr>pw_portsc := (pw_portsc s)[p := fst (portsc_write (pw_portsc s ! p) v)]\<rparr>)"
      using sh p(2) by (auto simp: shape_ok_def nth_list_update slot_ok_def portsc_write_keeps)
    then show ?thesis using assms(1) p sh WritePortsc
      by (simp add: shape_ok_def port_ok_def case_prod_unfold Let_def)
  next
    case (CancelToken t)
    then show ?thesis using assms(1) by (simp add: port_ok_def shape_ok_def)
  next
    case (ListenerFires k)
    then show ?thesis
      using listener_outcome [OF assms(1), of k "fst (pw_listeners s ! k)" "snd (pw_listeners s ! k)"] assms(1)
      by (cases "k < length (pw_listeners s) \<and> snd (pw_listeners s ! k) \<in> pw_cancelled s") auto
  qed
qed

lemma all_less_8: "(\<forall>p < 8. P p) \<longleftrightarrow> list_all P [0, 1, 2, 3, 4, 5, 6, 7 :: nat]"
  by (simp add: eval_nat_numeral All_less_Suc) blast

lemma port_worker_new_ok: "\<exists>s. port_worker_new = Inr s \<and> port_ok s \<and> pw_devices s = replicate MAX_PORTS None \<and>
    pw_listeners s = []"
  by (simp add: port_worker_new_def port_version_def NUM_USB3_PORTS_def MAX_PORTS_def upt_rec Let_def
      port_ok_def shape_ok_def unique_ids_def slot_ok_def version_of_def portsc_new_def all_less_8)

text \<open>
  C27: The ports never panic and stay consistent. Whatever devices are attached and detached, whatever
  the guest writes to the port registers and whenever devices disappear and their listeners report,
  every message is answered, no two ports hold devices with the same identifier, each device sits on a
  port of its USB version, the guest sees the connection bit exactly on the ports with a device, and
  every attached device has a listener that will report its disconnection.
\<close>

theorem ports_consistent:
  fixes as :: "('i, 't) port_action list"
  assumes "list_all action_ok as"
  shows "\<exists>s0 s out. port_worker_new = Inr s0 \<and> port_run s0 as True = Inr (s, out) \<and> port_ok s"
proof -
  obtain s0 :: "('i, 't) port_worker" where s0: "port_worker_new = Inr s0" "port_ok s0"
    using port_worker_new_ok by blast
  have "\<exists>s out. port_run s0 as True = Inr (s, out) \<and> port_ok s" using s0(2) assms
  proof (induction as arbitrary: s0)
    case (Cons a as)
    then obtain s1 out1 where 1: "port_step s0 a True = Inr (s1, out1)" "port_ok s1"
      using port_step_ok [of s0 a] by auto
    then show ?case using Cons.IH [OF 1(2)] Cons.prems by auto
  qed simp
  then show ?thesis using s0 by blast
qed

theorem ports_consistent_witness:
  "\<exists>s0 s out. port_worker_new = Inr s0 \<and>
     port_run s0 [PortMessage (Attach \<lparr>cd_identifier = 7 :: nat, cd_speed = Some High, cd_token = 1 :: nat\<rparr>) True,
       WritePortsc 5 0x10, CancelToken 1, ListenerFires 0] True = Inr (s, out) \<and> port_ok s"
  by (rule ports_consistent) (simp add: MAX_PORTS_def)

text \<open>
  Attaching. A device with the same identifier is detached first (its port reports the
  disconnection even if the attach then fails); a device of known speed is attached to the lowest
  free port of its USB version, with one port status change event, and otherwise refused with the
  matching response.
\<close>

theorem attach_lowest_free_port:
  fixes d :: "('i, 't) complete_device"
  assumes "port_ok s"
  defines "base \<equiv> without (cd_identifier d) None (pw_devices s)"
  defines "gone \<equiv> port_events (hits (cd_identifier d) None (pw_devices s))"
  shows "\<exists>s' r out. port_attach s d True = Inr (r, s', out) \<and> port_ok s' \<and>
    (case cd_speed d of
       None \<Rightarrow> r = CouldNotDetermineSpeed \<and> pw_devices s' = base \<and> out = gone
     | Some sp \<Rightarrow> (case free_ports (from_speed sp) base of
         [] \<Rightarrow> r = NoFreePort \<and> pw_devices s' = base \<and> out = gone
       | p # _ \<Rightarrow> r = SuccessfulOperation \<and>
           pw_devices s' = base[p := Some \<lparr>at_device = d, at_instance = cd_token d\<rparr>] \<and>
           out = gone @ port_events [p]))"
proof -
  have "shape_ok s" using assms(1) by (simp add: port_ok_def)
  from attach_outcome [OF this, of d] show ?thesis
    unfolding base_def gone_def using attach_ok [OF assms(1)]
    by (fastforce split: option.splits list.splits)
qed

theorem attach_lowest_free_port_witness:
  "\<exists>s0 s' out. port_worker_new = Inr s0 \<and>
     port_attach s0 \<lparr>cd_identifier = 7 :: nat, cd_speed = Some High, cd_token = 1 :: nat\<rparr> True =
       Inr (SuccessfulOperation, s', out) \<and> out = port_events [4]"
proof -
  obtain s0 :: "(nat, nat) port_worker" where s0: "port_worker_new = Inr s0" "port_ok s0"
    "pw_devices s0 = replicate MAX_PORTS None"
    using port_worker_new_ok by blast
  let ?d = "\<lparr>cd_identifier = 7 :: nat, cd_speed = Some High, cd_token = 1 :: nat\<rparr>"
  have "free_ports USB2 (replicate MAX_PORTS None :: (nat, nat) attached_device option list) = [4, 5, 6, 7]"
    "from_speed High = USB2" "hits 7 None (replicate MAX_PORTS None :: (nat, nat) attached_device option list) = []"
    by (simp_all add: free_ports_def hits_def version_of_def NUM_USB3_PORTS_def MAX_PORTS_def upt_rec
        from_speed_def is_usb2_speed_def)
  then show ?thesis using attach_lowest_free_port [OF s0(2), of ?d] s0(1,3)
    by (auto simp: without_def port_events_def)
qed

text \<open>
  A disconnected device leaves its port, and only that one. When the listener of an attached
  instance reports, exactly this instance is removed, with one event for its port; a late report for an
  instance that has been replaced by a new attachment of the same device changes nothing.
\<close>

theorem listener_removes_instance:
  assumes "port_ok s" "k < length (pw_listeners s)" "pw_listeners s ! k = (ident, t)" "t \<in> pw_cancelled s"
  shows "\<exists>s'. port_step s (ListenerFires k) True = Inr (s', port_events (hits ident (Some t) (pw_devices s)) @
      [Responded (if hits ident (Some t) (pw_devices s) = [] then NoSuchDevice else SuccessfulOperation)]) \<and>
    port_ok s' \<and>
    pw_devices s' = map (\<lambda>d. case d of None \<Rightarrow> None | Some a \<Rightarrow>
      if cd_identifier (at_device a) = ident \<and> at_instance a = t then None else Some a) (pw_devices s)"
  using listener_outcome [OF assms] unfolding without_instance .

theorem listener_removes_instance_witness:
  "\<exists>s0 s1 o1 s2. port_worker_new = Inr s0 \<and>
     port_run s0 [PortMessage (Attach \<lparr>cd_identifier = 7 :: nat, cd_speed = Some High, cd_token = 1 :: nat\<rparr>) True,
       CancelToken 1] True = Inr (s1, o1) \<and>
     port_step s1 (ListenerFires 0) True = Inr (s2, [PortEvent (PortStatusChange 5), Responded SuccessfulOperation])"
proof -
  obtain s0 :: "(nat, nat) port_worker" where s0: "port_worker_new = Inr s0" "port_ok s0"
    "pw_devices s0 = replicate MAX_PORTS None" "pw_listeners s0 = []"
    using port_worker_new_ok by blast
  let ?d = "\<lparr>cd_identifier = 7 :: nat, cd_speed = Some High, cd_token = 1 :: nat\<rparr>"
  have free: "free_ports USB2 (replicate MAX_PORTS None :: (nat, nat) attached_device option list) = [4, 5, 6, 7]"
    "from_speed High = USB2"
    by (simp_all add: free_ports_def version_of_def NUM_USB3_PORTS_def MAX_PORTS_def upt_rec
        from_speed_def is_usb2_speed_def)
  have "shape_ok s0" using s0(2) by (simp add: port_ok_def)
  from attach_outcome [OF this, of ?d] obtain s1 out where s1: "port_attach s0 ?d True = Inr (SuccessfulOperation, s1, out)"
    "pw_devices s1 = (replicate MAX_PORTS None)[4 := Some \<lparr>at_device = ?d, at_instance = 1\<rparr>]" "pw_listeners s1 = [(7, 1)]"
    using s0 free by (auto simp: without_def)
  let ?s = "s1\<lparr>pw_cancelled := insert 1 (pw_cancelled s1)\<rparr>"
  have "port_ok s1" using attach_ok [OF s0(2) s1(1)] .
  then have ok: "port_ok ?s" by (simp add: port_ok_def shape_ok_def)
  have "hits 7 (Some 1) (pw_devices ?s) = [4]"
    using ok s1(2) by (intro hits_unique) (auto simp: port_ok_def shape_ok_def MAX_PORTS_def hit_def)
  then have "\<exists>s2. port_step ?s (ListenerFires 0) True =
      Inr (s2, [PortEvent (PortStatusChange 5), Responded SuccessfulOperation])"
    using listener_removes_instance [OF ok, of 0 7 1] s1(3) by (auto simp: port_events_def)
  moreover have "port_run s0 [PortMessage (Attach ?d) True, CancelToken 1] True =
      Inr (?s, out @ [Responded SuccessfulOperation])" using s1(1) by simp
  ultimately show ?thesis using s0(1) by blast
qed

end
