(* ===== verification/Endpoint.thy ===== *)
theory Endpoint
  imports EndpointHandle Port
begin

text \<open>
  The endpoint worker (\<open>src/device/xhci/endpoint.rs\<close>), the endpoint context in guest memory
  (\<open>slot_manager.rs\<close>) and the launcher (\<open>endpoint_launcher.rs\<close>). One turn of the worker's loop is one
  step: receiving a message, the completion of a TRB, or a turn that awaits nothing. \<open>'c\<close> is the type
  of reply channels; a reply whose sender is dropped unused is an output of its own, because the
  receiver sees an error then.
\<close>

section \<open>The endpoint context\<close>

definition ENDPOINT_DISABLED :: u8 where "ENDPOINT_DISABLED = 0"
definition ENDPOINT_RUNNING :: u8 where "ENDPOINT_RUNNING = 1"
definition ENDPOINT_HALTED :: u8 where "ENDPOINT_HALTED = 2"
definition ENDPOINT_STOPPED :: u8 where "ENDPOINT_STOPPED = 3"
definition ENDPOINT_ERROR :: u8 where "ENDPOINT_ERROR = 4"

text \<open>A context is the address it lies at.\<close>

definition get_dequeue_pointer_and_cycle_state :: "'m bus_device \<Rightarrow> 'm \<Rightarrow> u64 \<Rightarrow> (u64 \<times> bool) res" where
  "get_dequeue_pointer_and_cycle_state ops m ctx =
     rbind (dev_read ops m (request_new (ctx + 8) Size8)) (\<lambda>bytes.
     Inr (bytes AND NOT 0xf, bytes AND 0x1 \<noteq> 0))"

definition set_dequeue_pointer_and_cycle_state :: "'m bus_device \<Rightarrow> 'm \<Rightarrow> u64 \<Rightarrow> u64 \<Rightarrow> bool \<Rightarrow> 'm res" where
  "set_dequeue_pointer_and_cycle_state ops m ctx dp cs =
     rbind (require (dp AND 0xf = 0) AssertFailed) (\<lambda>_.
     dev_write ops m (request_new (ctx + 8) Size8) (dp OR of_bool cs))"

definition set_state :: "'m bus_device \<Rightarrow> 'm \<Rightarrow> u64 \<Rightarrow> u8 \<Rightarrow> 'm res" where
  "set_state ops m ctx st = dev_write ops m (request_new ctx Size1) (ucast st)"

datatype endpoint_type = EpControl | BulkIn | BulkOut | InterruptIn | InterruptOut | Unsupported

definition get_endpoint_type :: "'m bus_device \<Rightarrow> 'm \<Rightarrow> u64 \<Rightarrow> endpoint_type res" where
  "get_endpoint_type ops m ctx =
     rbind (dev_read ops m (request_new (ctx + 4) Size1)) (\<lambda>b.
     let v = drop_bit 3 b AND 0x7 in
     Inr (if v = 2 then BulkOut else if v = 6 then BulkIn else if v = 4 then EpControl
          else if v = 7 then InterruptIn else if v = 3 then InterruptOut else Unsupported))"

section \<open>The worker\<close>

datatype 'c worker_state =
    WaitForDoorbell
  | LookForTrb
  | WaitForTrbCompletion
  | Halted
  | ErrorState
  | StoppedWithContinuableTrb
  | SettingTrDequeuePointer u64 bool 'c
  | StoppedState
  | Terminating 'c
  | Ended

datatype 'c endpoint_msg =
    Doorbell
  | StopMsg 'c
  | ResetMsg 'c
  | SetTrDequeuePointerMsg u64 bool 'c
  | Terminate 'c

record 'c endpoint_worker =
  ew_state :: "'c worker_state"
  ew_context :: u64
  ew_ring :: linked_ring
  ew_real :: hotplug_handle

datatype 'c worker_out =
    Reply 'c completion_code
  | Terminated 'c
  | DroppedReply 'c
  | Handle handle_out

definition reply :: "'c \<Rightarrow> completion_code \<Rightarrow> bool \<Rightarrow> 'c worker_out list res" where
  "reply c code alive = rbind (require alive ChannelClosed) (\<lambda>_. Inr [Reply c code])"

definition endpoint_launch ::
  "'m bus_device \<Rightarrow> 'm \<Rightarrow> hotplug_handle \<Rightarrow> u64 \<Rightarrow> ('m \<times> 'c endpoint_worker) res" where
  "endpoint_launch ops m h ctx =
     rbind (set_state ops m ctx ENDPOINT_RUNNING) (\<lambda>m.
     rbind (get_dequeue_pointer_and_cycle_state ops m ctx) (\<lambda>(dp, cs).
     Inr (m, \<lparr>ew_state = WaitForDoorbell, ew_context = ctx, ew_ring = linked_ring_new dp cs, ew_real = h\<rparr>)))"

text \<open>Writing the endpoint state and the ring position to the context.\<close>

definition save_context :: "'m bus_device \<Rightarrow> 'm \<Rightarrow> 'c endpoint_worker \<Rightarrow> u8 \<Rightarrow> 'm res" where
  "save_context ops m w st =
     rbind (set_state ops m (ew_context w) st) (\<lambda>m.
     let (dp, cs) = get_dequeue_pointer (ew_ring w) in
     set_dequeue_pointer_and_cycle_state ops m (ew_context w) dp cs)"

definition context_state_error :: "'c endpoint_msg \<Rightarrow> bool \<Rightarrow> 'c worker_out list res" where
  "context_state_error msg alive =
     (case msg of
        Doorbell \<Rightarrow> Inr []
      | Terminate c \<Rightarrow> Inr [DroppedReply c]
      | SetTrDequeuePointerMsg dp cs c \<Rightarrow> reply c ContextStateError alive
      | ResetMsg c \<Rightarrow> reply c ContextStateError alive
      | StopMsg c \<Rightarrow> reply c ContextStateError alive)"

text \<open>Whether the worker awaits a message in its state.\<close>

definition listening :: "'c endpoint_worker \<Rightarrow> bool" where
  "listening w =
     (case ew_state w of
        WaitForDoorbell \<Rightarrow> True | WaitForTrbCompletion \<Rightarrow> True | Halted \<Rightarrow> True | ErrorState \<Rightarrow> True
      | StoppedWithContinuableTrb \<Rightarrow> True | StoppedState \<Rightarrow> True | _ \<Rightarrow> False)"

text \<open>
  A message. \<open>locked\<close>: the detach handler holds the handle's lock; \<open>real_ok\<close>: the real endpoint's
  \<open>cancel\<close> or \<open>clear_halt\<close> succeeds.
\<close>

definition endpoint_receive ::
  "'m bus_device \<Rightarrow> bool \<Rightarrow> bool \<Rightarrow> 'm \<Rightarrow> 'c endpoint_worker \<Rightarrow> 'c endpoint_msg \<Rightarrow> bool \<Rightarrow>
     ('m \<times> 'c endpoint_worker \<times> 'c worker_out list) res" where
  "endpoint_receive ops locked real_ok m w msg alive =
     (let refuse = rbind (context_state_error msg alive) (\<lambda>out. Inr (m, w, out));
          go = (\<lambda>st. Inr (m, w\<lparr>ew_state := st\<rparr>, []));
          restart = rbind (set_state ops m (ew_context w) ENDPOINT_RUNNING) (\<lambda>m.
            Inr (m, w\<lparr>ew_state := LookForTrb\<rparr>, [])) in
      case ew_state w of
        WaitForDoorbell \<Rightarrow>
          (case msg of
             Doorbell \<Rightarrow> go LookForTrb
           | StopMsg c \<Rightarrow>
               rbind (save_context ops m w ENDPOINT_STOPPED) (\<lambda>m.
               rbind (reply c Success alive) (\<lambda>out. Inr (m, w\<lparr>ew_state := StoppedState\<rparr>, out)))
           | Terminate c \<Rightarrow> go (Terminating c)
           | _ \<Rightarrow> refuse)
      | WaitForTrbCompletion \<Rightarrow>
          (case msg of
             StopMsg c \<Rightarrow>
               rbind (save_context ops m w ENDPOINT_STOPPED) (\<lambda>m.
               let (h, hout) = hotplug_cancel locked (ew_real w) in
               rbind (require (real_ok \<or> hout = []) ChannelClosed) (\<lambda>_.
               rbind (reply c Success alive) (\<lambda>out.
               Inr (m, w\<lparr>ew_real := h, ew_state := StoppedWithContinuableTrb\<rparr>, map Handle hout @ out))))
           | Doorbell \<Rightarrow> Inr (m, w, [])
           | _ \<Rightarrow> refuse)
      | Halted \<Rightarrow>
          (case msg of
             ResetMsg c \<Rightarrow>
               let hout = hotplug_clear_halt locked (ew_real w) in
               rbind (require (real_ok \<or> hout = []) ChannelClosed) (\<lambda>_.
               rbind (save_context ops m w ENDPOINT_STOPPED) (\<lambda>m.
               rbind (reply c Success alive) (\<lambda>out.
               Inr (m, w\<lparr>ew_state := StoppedState\<rparr>, map Handle hout @ out))))
           | StopMsg c \<Rightarrow> rbind (reply c ContextStateError alive) (\<lambda>out. Inr (m, w, out))
           | Terminate c \<Rightarrow> go (Terminating c)
           | _ \<Rightarrow> refuse)
      | ErrorState \<Rightarrow>
          (case msg of
             SetTrDequeuePointerMsg dp cs c \<Rightarrow> go (SettingTrDequeuePointer dp cs c)
           | _ \<Rightarrow> refuse)
      | StoppedWithContinuableTrb \<Rightarrow>
          (case msg of
             Doorbell \<Rightarrow> restart
           | SetTrDequeuePointerMsg dp cs c \<Rightarrow> go (SettingTrDequeuePointer dp cs c)
           | Terminate c \<Rightarrow> go (Terminating c)
           | _ \<Rightarrow> refuse)
      | StoppedState \<Rightarrow>
          (case msg of
             Doorbell \<Rightarrow> restart
           | SetTrDequeuePointerMsg dp cs c \<Rightarrow> go (SettingTrDequeuePointer dp cs c)
           | Terminate c \<Rightarrow> go (Terminating c)
           | _ \<Rightarrow> refuse)
      | _ \<Rightarrow> Inl UnreachableCode)"

text \<open>The completion of the submitted TRB.\<close>

definition rewind :: "(u64 \<times> bool) option \<Rightarrow> linked_ring \<Rightarrow> linked_ring" where
  "rewind addr ring = (case addr of Some (a, cs) \<Rightarrow> set_dequeue_pointer ring a cs | None \<Rightarrow> ring)"

definition endpoint_complete ::
  "'m bus_device \<Rightarrow> bool \<Rightarrow> 'm \<Rightarrow> 'c endpoint_worker \<Rightarrow> real_answer option \<Rightarrow>
     ('m \<times> 'c endpoint_worker \<times> 'c worker_out list) res" where
  "endpoint_complete ops up m w answer =
     rbind (require (ew_state w = WaitForTrbCompletion) UnreachableCode) (\<lambda>_.
     rbind (hotplug_complete ops m up (ew_real w) answer) (\<lambda>(m, h, r, hout).
     let w = w\<lparr>ew_real := h\<rparr>;
         halt = (\<lambda>addr. let w = w\<lparr>ew_ring := rewind addr (ew_ring w)\<rparr> in
           rbind (save_context ops m w ENDPOINT_HALTED) (\<lambda>m. Inr (m, w\<lparr>ew_state := Halted\<rparr>, map Handle hout))) in
     case r of
       HpOk \<Rightarrow> Inr (m, w\<lparr>ew_ring := advance (ew_ring w), ew_state := LookForTrb\<rparr>, map Handle hout)
     | HpStall addr \<Rightarrow> halt addr
     | HpTransactionError addr \<Rightarrow> halt addr
     | HpTrbError \<Rightarrow>
         rbind (save_context ops m w ENDPOINT_ERROR) (\<lambda>m. Inr (m, w\<lparr>ew_state := ErrorState\<rparr>, map Handle hout))))"

text \<open>A turn of the loop that awaits nothing.\<close>

definition endpoint_turn ::
  "'m bus_device \<Rightarrow> bool \<Rightarrow> bool \<Rightarrow> 'm \<Rightarrow> 'c endpoint_worker \<Rightarrow> bool \<Rightarrow>
     ('m \<times> 'c endpoint_worker \<times> 'c worker_out list) res" where
  "endpoint_turn ops accepts locked m w alive =
     (case ew_state w of
        LookForTrb \<Rightarrow>
          rbind (next_trb ops m (ew_ring w)) (\<lambda>(ring, trb).
          let w = w\<lparr>ew_ring := ring\<rparr> in
          case trb of
            Some t \<Rightarrow>
              rbind (hotplug_submit ops m accepts locked (ew_real w) t) (\<lambda>(h, hout).
              Inr (m, w\<lparr>ew_real := h, ew_state := WaitForTrbCompletion\<rparr>, map Handle hout))
          | None \<Rightarrow> Inr (m, w\<lparr>ew_state := WaitForDoorbell\<rparr>, []))
      | SettingTrDequeuePointer dp cs c \<Rightarrow>
          rbind (set_state ops m (ew_context w) ENDPOINT_STOPPED) (\<lambda>m.
          let w = w\<lparr>ew_ring := set_dequeue_pointer (ew_ring w) dp cs\<rparr> in
          rbind (set_dequeue_pointer_and_cycle_state ops m (ew_context w) dp cs) (\<lambda>m.
          rbind (reply c Success alive) (\<lambda>out. Inr (m, w\<lparr>ew_state := StoppedState\<rparr>, out))))
      | Terminating c \<Rightarrow>
          rbind (set_state ops m (ew_context w) ENDPOINT_DISABLED) (\<lambda>m.
          rbind (require alive ChannelClosed) (\<lambda>_. Inr (m, w\<lparr>ew_state := Ended\<rparr>, [Terminated c])))
      | _ \<Rightarrow> Inr (m, w, []))"

section \<open>The launcher\<close>

text \<open>The bus number in the packet capture: 2 or 3, by the speed of the device, and 0 without one.\<close>

definition pcap_usb_bus_number :: "speed option \<Rightarrow> u16" where
  "pcap_usb_bus_number sp = (case sp of Some s \<Rightarrow> if is_usb2_speed s then 2 else 3 | None \<Rightarrow> 0)"

text \<open>
  \<open>device\<close> is what the ports returned for the root hub port; \<open>detached\<close> says whether its token is
  cancelled already.
\<close>

definition launch_endpoint ::
  "'m bus_device \<Rightarrow> 'm \<Rightarrow> ('i, 't) complete_device option \<Rightarrow> bool \<Rightarrow> u8 \<Rightarrow> u8 \<Rightarrow> u64 \<Rightarrow>
     ('m \<times> 'c endpoint_worker) res" where
  "launch_endpoint ops m device detached slot_id endpoint_id ctx =
     rbind (get_endpoint_type ops m ctx) (\<lambda>ty.
     case device of
       None \<Rightarrow> endpoint_launch ops m (hotplug_dummy slot_id endpoint_id) ctx
     | Some dev \<Rightarrow>
         rbind (case ty of
                  EpControl \<Rightarrow>
                    Inr (ControlEp (control_handle_new slot_id endpoint_id
                           (meta_control (pcap_usb_bus_number (cd_speed dev)) slot_id endpoint_id)))
                | BulkIn \<Rightarrow> Inr (InEp (in_handle_new slot_id endpoint_id))
                | BulkOut \<Rightarrow> Inr (OutEp (out_handle_new slot_id endpoint_id))
                | InterruptIn \<Rightarrow> Inr (InEp (in_handle_new slot_id endpoint_id))
                | InterruptOut \<Rightarrow> Inr (OutEp (out_handle_new slot_id endpoint_id))
                | Unsupported \<Rightarrow> Inl UnreachableCode) (\<lambda>eh.
         endpoint_launch ops m (hotplug_new slot_id endpoint_id eh detached) ctx))"

end
