(* ===== verification/Slots.thy ===== *)
theory Slots
  imports Registers Endpoint
begin

text \<open>
  The slot worker (\<open>src/device/xhci/slot_manager.rs\<close>): device slots with their state machine and
  their endpoints. \<open>'w\<close> is the world the worker acts on (guest memory and the endpoint workers),
  \<open>'e\<close> the type of endpoint senders and \<open>'c\<close> that of reply channels. An error return of a handler ends
  the worker, so it is the error of the step.
\<close>

section \<open>Slots\<close>

datatype slot_state = SlotEnabled | SlotDefault u64 | SlotAddressed u64 | SlotConfigured u64

record 'e slot =
  sl_id :: u8
  sl_state :: slot_state
  sl_dcbaae :: u64
  sl_endpoints :: "'e option list"

record 'e slot_worker =
  sw_slots :: "'e slot option list"
  sw_config :: u32
  sw_dcbaap :: u64

text \<open>
  What the worker awaits: guest memory, the launcher (no sender when it is gone), the termination of an
  endpoint (whether it was answered) and the delivery of a message (whether the endpoint still runs).
\<close>

record ('w, 'e, 'c) slot_env =
  env_dma :: "'w bus_device"
  env_launch :: "'w \<Rightarrow> u8 \<Rightarrow> u8 \<Rightarrow> u8 \<Rightarrow> u64 \<Rightarrow> 'w \<times> 'e option"
  env_terminate :: "'w \<Rightarrow> 'e \<Rightarrow> 'w \<times> bool"
  env_send :: "'w \<Rightarrow> 'e \<Rightarrow> 'c endpoint_msg \<Rightarrow> 'w \<times> bool"

datatype 'c slot_msg =
    SlotDoorbell u8 u8
  | EnableSlotMsg 'c
  | DisableSlotMsg u8 'c
  | AddressDeviceMsg address_device_data 'c
  | ConfigureEndpointMsg configure_endpoint_data 'c
  | EvaluateContextMsg evaluate_context_data 'c
  | ResetDeviceMsg u8 'c
  | ResetAllSlots 'c
  | StopEndpointMsg u8 u8 'c
  | ResetEndpointMsg u8 u8 'c
  | SetDequeueMsg set_tr_dequeue_pointer_data 'c

datatype 'c slot_out =
    SlotReply 'c completion_code
  | SlotIdReply 'c "completion_code + u8"
  | ResetDone 'c

definition slot_new :: "u8 \<Rightarrow> u64 \<Rightarrow> 'e slot" where
  "slot_new i dcbaae = \<lparr>sl_id = i, sl_state = SlotEnabled, sl_dcbaae = dcbaae, sl_endpoints = replicate 31 None\<rparr>"

definition slot_worker_new :: "'e slot_worker" where
  "slot_worker_new = \<lparr>sw_slots = replicate MAX_SLOTS None, sw_config = 0, sw_dcbaap = 0\<rparr>"

definition SLOT_DEFAULT :: u8 where "SLOT_DEFAULT = 1"
definition SLOT_ADDRESSED :: u8 where "SLOT_ADDRESSED = 2"
definition SLOT_CONFIGURED :: u8 where "SLOT_CONFIGURED = 3"

definition write_slot_state :: "('w, 'e, 'c) slot_env \<Rightarrow> 'w \<Rightarrow> 'e slot \<Rightarrow> 'w res" where
  "write_slot_state env w sl =
     rbind (case sl_state sl of
              SlotEnabled \<Rightarrow> Inl AssertFailed
            | SlotDefault b \<Rightarrow> Inr (b, SLOT_DEFAULT)
            | SlotAddressed b \<Rightarrow> Inr (b, SLOT_ADDRESSED)
            | SlotConfigured b \<Rightarrow> Inr (b, SLOT_CONFIGURED)) (\<lambda>(b, st).
     dev_write (env_dma env) w (request_new (b + 15) Size1) (ucast (push_bit 3 st)))"

definition endpoint_sender :: "'e slot \<Rightarrow> u8 \<Rightarrow> 'e option" where
  "endpoint_sender sl ep = (case one_get (sl_endpoints sl) (unat ep) of Some e \<Rightarrow> e | None \<Rightarrow> None)"

definition dma_copy_slot_context :: "('w, 'e, 'c) slot_env \<Rightarrow> 'w \<Rightarrow> u64 \<Rightarrow> u64 \<Rightarrow> 'w res" where
  "dma_copy_slot_context env w icp b =
     rbind (dev_read_bulk (env_dma env) w (icp + 32) 32) (\<lambda>buf.
     dev_write_bulk (env_dma env) w b buf)"

definition dma_copy_ep_context :: "('w, 'e, 'c) slot_env \<Rightarrow> 'w \<Rightarrow> u8 \<Rightarrow> u64 \<Rightarrow> u64 \<Rightarrow> 'w res" where
  "dma_copy_ep_context env w ep icp b =
     rbind (dev_read_bulk (env_dma env) w (icp + (ucast ep + 1) * 32) 32) (\<lambda>buf.
     dev_write_bulk (env_dma env) w (b + ucast ep * 32) buf)"

definition root_hub_port :: "('w, 'e, 'c) slot_env \<Rightarrow> 'w \<Rightarrow> u64 \<Rightarrow> u8 res" where
  "root_hub_port env w b = rbind (dev_read (env_dma env) w (request_new (b + 6) Size1)) (\<lambda>v. Inr (ucast v))"

definition deconfigure_endpoint :: "('w, 'e, 'c) slot_env \<Rightarrow> 'w \<Rightarrow> 'e slot \<Rightarrow> u8 \<Rightarrow> ('w \<times> 'e slot) res" where
  "deconfigure_endpoint env w sl ep =
     (case endpoint_sender sl ep of
        Some e \<Rightarrow>
          (case env_terminate env w e of (w, answered) \<Rightarrow>
           rbind (require answered ChannelClosed) (\<lambda>_.
           rbind (one_put (sl_endpoints sl) (unat ep) None) (\<lambda>eps.
           Inr (w, sl\<lparr>sl_endpoints := eps\<rparr>))))
      | None \<Rightarrow> Inr (w, sl))"

definition configure_endpoint :: "('w, 'e, 'c) slot_env \<Rightarrow> 'w \<Rightarrow> 'e slot \<Rightarrow> u8 \<Rightarrow> u64 \<Rightarrow> ('w \<times> 'e slot) res" where
  "configure_endpoint env w sl ep b =
     rbind (root_hub_port env w b) (\<lambda>port.
     case env_launch env w (sl_id sl) ep port (b + ucast ep * 32) of (w, sender) \<Rightarrow>
     rbind (of_opt ChannelClosed sender) (\<lambda>e.
     rbind (one_put (sl_endpoints sl) (unat ep) (Some e)) (\<lambda>eps.
     Inr (w, sl\<lparr>sl_endpoints := eps\<rparr>))))"

fun deconfigure_all :: "('w, 'e, 'c) slot_env \<Rightarrow> 'w \<Rightarrow> 'e slot \<Rightarrow> u8 list \<Rightarrow> ('w \<times> 'e slot) res" where
  "deconfigure_all env w sl [] = Inr (w, sl)"
| "deconfigure_all env w sl (ep # eps) =
     rbind (deconfigure_endpoint env w sl ep) (\<lambda>(w, sl). deconfigure_all env w sl eps)"

fun configure_all :: "('w, 'e, 'c) slot_env \<Rightarrow> u64 \<Rightarrow> u64 \<Rightarrow> 'w \<Rightarrow> 'e slot \<Rightarrow> u8 list \<Rightarrow> ('w \<times> 'e slot) res" where
  "configure_all env icp b w sl [] = Inr (w, sl)"
| "configure_all env icp b w sl (ep # eps) =
     rbind (dma_copy_ep_context env w ep icp b) (\<lambda>w.
     rbind (configure_endpoint env w sl ep b) (\<lambda>(w, sl). configure_all env icp b w sl eps))"

section \<open>The commands of a slot\<close>

definition check_slot_and_ep0_input_context :: "u64 \<Rightarrow> bool" where
  "check_slot_and_ep0_input_context icp = True"

definition handle_address_device ::
  "('w, 'e, 'c) slot_env \<Rightarrow> 'w \<Rightarrow> 'e slot \<Rightarrow> u64 \<Rightarrow> bool \<Rightarrow> ('w \<times> 'e slot \<times> completion_code) res" where
  "handle_address_device env w sl icp bsr =
     (if \<not> check_slot_and_ep0_input_context icp then Inr (w, sl, ParameterError)
      else
        let read_base = dev_read (env_dma env) w (request_new (sl_dcbaae sl) Size8);
            address = (\<lambda>w sl b.
              rbind (dma_copy_slot_context env w icp b) (\<lambda>w.
              rbind (write_slot_state env w sl) (\<lambda>w.
              rbind (dma_copy_ep_context env w 1 icp b) (\<lambda>w.
              rbind (configure_endpoint env w sl 1 b) (\<lambda>(w, sl). Inr (w, sl, Success))))))
        in case sl_state sl of
          SlotEnabled \<Rightarrow>
            rbind read_base (\<lambda>b.
            address w (sl\<lparr>sl_state := if bsr then SlotDefault b else SlotAddressed b\<rparr>) b)
        | SlotDefault b \<Rightarrow>
            (if bsr then Inr (w, sl, ContextStateError)
             else rbind (deconfigure_endpoint env w sl 1) (\<lambda>(w, sl). address w (sl\<lparr>sl_state := SlotAddressed b\<rparr>) b))
        | _ \<Rightarrow> Inr (w, sl, ContextStateError))"

definition endpoint_ids :: "u8 list" where
  "endpoint_ids = map of_nat [2..<32]"

definition handle_configure_endpoint ::
  "('w, 'e, 'c) slot_env \<Rightarrow> 'w \<Rightarrow> 'e slot \<Rightarrow> u64 \<Rightarrow> bool \<Rightarrow> ('w \<times> 'e slot \<times> completion_code) res" where
  "handle_configure_endpoint env w sl icp deconf =
     (let finish = (\<lambda>w sl. rbind (write_slot_state env w sl) (\<lambda>w. Inr (w, sl, Success)));
          change = (\<lambda>b.
            rbind (dev_read (env_dma env) w (request_new icp Size4)) (\<lambda>drop_flags.
            rbind (dev_read (env_dma env) w (request_new (icp + 4) Size4)) (\<lambda>add_flags.
            if deconf
            then rbind (deconfigure_all env w sl endpoint_ids) (\<lambda>(w, sl). finish w (sl\<lparr>sl_state := SlotAddressed b\<rparr>))
            else rbind (deconfigure_all env w sl [i\<leftarrow>endpoint_ids. bit drop_flags (unat i)]) (\<lambda>(w, sl).
              rbind (configure_all env icp b w sl [i\<leftarrow>endpoint_ids. bit add_flags (unat i)]) (\<lambda>(w, sl).
              finish w (sl\<lparr>sl_state := SlotConfigured b\<rparr>)))))) in
      case sl_state sl of
        SlotAddressed b \<Rightarrow> change b
      | SlotConfigured b \<Rightarrow> change b
      | _ \<Rightarrow> Inr (w, sl, ContextStateError))"

definition handle_evaluate_context :: "'w \<Rightarrow> 'e slot \<Rightarrow> u64 \<Rightarrow> ('w \<times> 'e slot \<times> completion_code) res" where
  "handle_evaluate_context w sl icp = Inr (w, sl, Success)"

definition handle_reset_device ::
  "('w, 'e, 'c) slot_env \<Rightarrow> 'w \<Rightarrow> 'e slot \<Rightarrow> ('w \<times> 'e slot \<times> completion_code) res" where
  "handle_reset_device env w sl =
     (let change = (\<lambda>b.
            rbind (deconfigure_all env w sl endpoint_ids) (\<lambda>(w, sl).
            let sl = sl\<lparr>sl_state := SlotDefault b\<rparr> in
            rbind (write_slot_state env w sl) (\<lambda>w. Inr (w, sl, Success)))) in
      case sl_state sl of
        SlotAddressed b \<Rightarrow> change b
      | SlotConfigured b \<Rightarrow> change b
      | _ \<Rightarrow> Inr (w, sl, ContextStateError))"

text \<open>Every endpoint is terminated, whether or not an earlier one answered.\<close>

fun terminate_all :: "('w, 'e, 'c) slot_env \<Rightarrow> 'w \<Rightarrow> 'e list \<Rightarrow> 'w \<times> bool" where
  "terminate_all env w [] = (w, True)"
| "terminate_all env w (e # es) =
     (case env_terminate env w e of (w, answered) \<Rightarrow>
      case terminate_all env w es of (w, rest) \<Rightarrow> (w, answered \<and> rest))"

definition pre_drop :: "('w, 'e, 'c) slot_env \<Rightarrow> 'w \<Rightarrow> 'e slot \<Rightarrow> 'w \<times> bool" where
  "pre_drop env w sl = terminate_all env w (List.map_filter (\<lambda>e. e) (sl_endpoints sl))"

section \<open>The worker\<close>

definition slot_ref :: "'e slot_worker \<Rightarrow> u8 \<Rightarrow> 'e slot option" where
  "slot_ref s sid = (case one_get (sw_slots s) (unat sid) of Some sl \<Rightarrow> sl | None \<Rightarrow> None)"

fun find_free :: "'e slot option list \<Rightarrow> nat list \<Rightarrow> nat option res" where
  "find_free slots [] = Inr None"
| "find_free slots (i # is) =
     rbind (one_index slots i) (\<lambda>sl. if sl = None then Inr (Some i) else find_free slots is)"

definition allocate_slot :: "'e slot_worker \<Rightarrow> ('e slot_worker \<times> (completion_code + u8)) res" where
  "allocate_slot s =
     rbind (find_free (sw_slots s) [1..<unat (num_slots_enabled (sw_config s)) + 1]) (\<lambda>found.
     case found of
       Some i \<Rightarrow>
         rbind (one_put (sw_slots s) i (Some (slot_new (of_nat i) (sw_dcbaap s + of_nat i * 8)))) (\<lambda>slots.
         Inr (s\<lparr>sw_slots := slots\<rparr>, Inr (of_nat i)))
     | None \<Rightarrow> Inr (s, Inl NoSlotsAvailableError))"

definition disable_slot ::
  "('w, 'e, 'c) slot_env \<Rightarrow> 'w \<Rightarrow> 'e slot_worker \<Rightarrow> u8 \<Rightarrow> ('w \<times> 'e slot_worker \<times> completion_code) res" where
  "disable_slot env w s sid =
     rbind (require (1 \<le> sid \<and> sid \<le> num_slots_enabled (sw_config s)) AssertFailed) (\<lambda>_.
     case slot_ref s sid of
       None \<Rightarrow> Inr (w, s, SlotNotEnabledError)
     | Some sl \<Rightarrow>
         (case pre_drop env w sl of (w, answered) \<Rightarrow>
          rbind (require answered ChannelClosed) (\<lambda>_.
          rbind (one_put (sw_slots s) (unat sid) None) (\<lambda>slots.
          Inr (w, s\<lparr>sw_slots := slots\<rparr>, Success)))))"

fun drop_all :: "('w, 'e, 'c) slot_env \<Rightarrow> 'w \<Rightarrow> 'e slot option list \<Rightarrow> 'w \<times> bool" where
  "drop_all env w [] = (w, True)"
| "drop_all env w (None # sls) = drop_all env w sls"
| "drop_all env w (Some sl # sls) =
     (case pre_drop env w sl of (w, answered) \<Rightarrow>
      case drop_all env w sls of (w, rest) \<Rightarrow> (w, answered \<and> rest))"

definition reset_slots :: "('w, 'e, 'c) slot_env \<Rightarrow> 'w \<Rightarrow> 'e slot_worker \<Rightarrow> ('w \<times> 'e slot_worker) res" where
  "reset_slots env w s =
     (case drop_all env w (sw_slots s) of (w, answered) \<Rightarrow>
      rbind (require answered ChannelClosed) (\<lambda>_.
      Inr (w, \<lparr>sw_slots = map (\<lambda>_. None) (sw_slots s), sw_config = 0, sw_dcbaap = 0\<rparr>)))"

text \<open>Answering a command; \<open>alive\<close> says whether its sender still waits.\<close>

definition answer :: "bool \<Rightarrow> 'c slot_out \<Rightarrow> 'w \<Rightarrow> 'e slot_worker \<Rightarrow> ('w \<times> 'e slot_worker \<times> 'c slot_out list) res" where
  "answer alive msg w s = rbind (require alive ChannelClosed) (\<lambda>_. Inr (w, s, [msg]))"

text \<open>A command for an enabled slot.\<close>

definition on_slot ::
  "bool \<Rightarrow> 'w \<Rightarrow> 'e slot_worker \<Rightarrow> u8 \<Rightarrow> 'c \<Rightarrow> ('e slot \<Rightarrow> ('w \<times> 'e slot \<times> completion_code) res) \<Rightarrow>
     ('w \<times> 'e slot_worker \<times> 'c slot_out list) res" where
  "on_slot alive w s sid c f =
     (case slot_ref s sid of
        None \<Rightarrow> answer alive (SlotReply c SlotNotEnabledError) w s
      | Some sl \<Rightarrow>
          rbind (f sl) (\<lambda>(w, sl, code).
          rbind (one_put (sw_slots s) (unat sid) (Some sl)) (\<lambda>slots.
          answer alive (SlotReply c code) w (s\<lparr>sw_slots := slots\<rparr>))))"

text \<open>A message for an endpoint, which answers the command itself.\<close>

definition on_endpoint ::
  "('w, 'e, 'c) slot_env \<Rightarrow> bool \<Rightarrow> 'w \<Rightarrow> 'e slot_worker \<Rightarrow> u8 \<Rightarrow> u8 \<Rightarrow> 'c \<Rightarrow> 'c endpoint_msg \<Rightarrow>
     ('w \<times> 'e slot_worker \<times> 'c slot_out list) res" where
  "on_endpoint env alive w s sid ep c msg =
     (case slot_ref s sid of
        None \<Rightarrow> answer alive (SlotReply c SlotNotEnabledError) w s
      | Some sl \<Rightarrow>
          (case endpoint_sender sl ep of
             None \<Rightarrow> answer alive (SlotReply c EndpointNotEnabledError) w s
           | Some e \<Rightarrow>
               (case env_send env w e msg of (w, sent) \<Rightarrow> rbind (require sent ChannelClosed) (\<lambda>_. Inr (w, s, [])))))"

definition slot_doorbell ::
  "('w, 'e, 'c) slot_env \<Rightarrow> 'w \<Rightarrow> 'e slot_worker \<Rightarrow> u8 \<Rightarrow> u8 \<Rightarrow> ('w \<times> 'e slot_worker \<times> 'c slot_out list) res" where
  "slot_doorbell env w s sid ep =
     (case slot_ref s sid of
        None \<Rightarrow> Inr (w, s, [])
      | Some sl \<Rightarrow>
          (case endpoint_sender sl ep of
             None \<Rightarrow> Inr (w, s, [])
           | Some e \<Rightarrow>
               (case env_send env w e Doorbell of (w, sent) \<Rightarrow> rbind (require sent ChannelClosed) (\<lambda>_. Inr (w, s, [])))))"

fun slot_step ::
  "('w, 'e, 'c) slot_env \<Rightarrow> bool \<Rightarrow> 'w \<Rightarrow> 'e slot_worker \<Rightarrow> 'c slot_msg \<Rightarrow> ('w \<times> 'e slot_worker \<times> 'c slot_out list) res" where
  "slot_step env alive w s (SlotDoorbell sid ep) = slot_doorbell env w s sid ep"
| "slot_step env alive w s (EnableSlotMsg c) =
     rbind (allocate_slot s) (\<lambda>(s, r). answer alive (SlotIdReply c r) w s)"
| "slot_step env alive w s (DisableSlotMsg sid c) =
     rbind (disable_slot env w s sid) (\<lambda>(w, s, code). answer alive (SlotReply c code) w s)"
| "slot_step env alive w s (AddressDeviceMsg d c) =
     on_slot alive w s (ad_slot_id d) c (\<lambda>sl. handle_address_device env w sl (ad_input_context_pointer d) (ad_block_set_address_request d))"
| "slot_step env alive w s (ConfigureEndpointMsg d c) =
     on_slot alive w s (cfg_slot_id d) c (\<lambda>sl. handle_configure_endpoint env w sl (cfg_input_context_pointer d) (cfg_deconfigure d))"
| "slot_step env alive w s (EvaluateContextMsg d c) =
     on_slot alive w s (ec_slot_id d) c (\<lambda>sl. handle_evaluate_context w sl (ec_input_context_pointer d))"
| "slot_step env alive w s (ResetDeviceMsg sid c) = on_slot alive w s sid c (handle_reset_device env w)"
| "slot_step env alive w s (ResetAllSlots c) =
     rbind (reset_slots env w s) (\<lambda>(w, s). answer alive (ResetDone c) w s)"
| "slot_step env alive w s (StopEndpointMsg sid ep c) = on_endpoint env alive w s sid ep c (StopMsg c)"
| "slot_step env alive w s (ResetEndpointMsg sid ep c) = on_endpoint env alive w s sid ep c (ResetMsg c)"
| "slot_step env alive w s (SetDequeueMsg d c) =
     on_endpoint env alive w s (sd_slot_id d) (sd_endpoint_id d) c
       (SetTrDequeuePointerMsg (sd_dequeue_pointer d) (sd_dequeue_cycle_state d) c)"

text \<open>The worker shares its two registers with the client threads, which write them for the guest at any time.\<close>

datatype 'c slot_action = SlotMsg "'c slot_msg" bool | ConfigWrite u32 | DcbaapWrite u64

fun slot_act ::
  "('w, 'e, 'c) slot_env \<Rightarrow> 'w \<Rightarrow> 'e slot_worker \<Rightarrow> 'c slot_action \<Rightarrow> ('w \<times> 'e slot_worker \<times> 'c slot_out list) res" where
  "slot_act env w s (SlotMsg msg alive) = slot_step env alive w s msg"
| "slot_act env w s (ConfigWrite v) = rbind (config_write v) (\<lambda>v. Inr (w, s\<lparr>sw_config := v\<rparr>, []))"
| "slot_act env w s (DcbaapWrite v) = Inr (w, s\<lparr>sw_dcbaap := dcbaap_write v\<rparr>, [])"

fun slot_run ::
  "('w, 'e, 'c) slot_env \<Rightarrow> 'w \<Rightarrow> 'e slot_worker \<Rightarrow> 'c slot_action list \<Rightarrow> ('w \<times> 'e slot_worker \<times> 'c slot_out list) res" where
  "slot_run env w s [] = Inr (w, s, [])"
| "slot_run env w s (a # as) =
     rbind (slot_act env w s a) (\<lambda>(w, s, out).
     rbind (slot_run env w s as) (\<lambda>(w, s, out2). Inr (w, s, out @ out2)))"

end
