(* ===== verification/CommandRing.thy ===== *)
theory CommandRing
  imports Slots
begin

text \<open>
  The command ring (\<open>src/device/xhci/command_ring.rs\<close>): the CRCR register and the doorbell, which send
  messages, and the worker that takes commands from the guest's ring, has the slot worker carry them out
  and reports each with a completion event. \<open>'s\<close> is the state the worker acts on (guest memory and the
  slots), \<open>'c\<close> the type of reset notifiers. One turn of the worker's loop is one step.
\<close>

section \<open>State and messages\<close>

datatype command_state =
    RingStopped
  | RingIdle
  | LookingForNewCommand
  | ProcessingCommand u64 command_trb_variant
  | RingStopping

datatype 'c command_msg =
    SetDequeuePointerAndCS u64 bool
  | RingDoorbell
  | StopRing
  | ResetRing 'c

text \<open>The worker with the channel to it and the flag it shares with the register.\<close>

record 'c command_worker =
  cw_state :: command_state
  cw_queue :: "'c command_msg list"
  cw_running :: bool
  cw_ring :: linked_ring

datatype 'c command_out = CommandEvent event_trb | RingReset 'c

text \<open>The slot worker's answer; no answer when it has ended.\<close>

datatype slot_answer = CodeAnswer completion_code | SlotIdAnswer "completion_code + u8"

type_synonym 's slot_handle = "'s \<Rightarrow> unit slot_msg \<Rightarrow> 's \<times> slot_answer option"

definition command_ring_new :: "'c command_worker" where
  "command_ring_new = \<lparr>cw_state = RingStopped, cw_queue = [], cw_running = False, cw_ring = linked_ring_new 0 False\<rparr>"

section \<open>The register interface\<close>

abbreviation (input) "crcr_RCS \<equiv> 0x1 :: u64"
abbreviation (input) "crcr_CS \<equiv> 0x2 :: u64"
abbreviation (input) "crcr_CA \<equiv> 0x4 :: u64"

definition crcr_CRR :: u64 where "crcr_CRR = 0x8"

definition send_to_worker :: "'c command_worker \<Rightarrow> 'c command_msg \<Rightarrow> 'c command_worker" where
  "send_to_worker w msg = w\<lparr>cw_queue := cw_queue w @ [msg]\<rparr>"

definition command_doorbell :: "'c command_worker \<Rightarrow> 'c command_worker" where
  "command_doorbell w = send_to_worker w RingDoorbell"

definition command_control :: "'c command_worker \<Rightarrow> u64 \<Rightarrow> 'c command_worker" where
  "command_control w v =
     (if cw_running w
      then if v AND crcr_CA \<noteq> 0 then send_to_worker w StopRing
           else if v AND crcr_CS \<noteq> 0 then send_to_worker w StopRing
           else w
      else send_to_worker w (SetDequeuePointerAndCS (v AND NOT 0x3f) (v AND crcr_RCS \<noteq> 0)))"

definition command_status :: "'c command_worker \<Rightarrow> u64" where
  "command_status w = (if cw_running w then crcr_CRR else 0)"

definition command_send_reset :: "'c command_worker \<Rightarrow> 'c \<Rightarrow> 'c command_worker" where
  "command_send_reset w c = send_to_worker w (ResetRing c)"

section \<open>Executing a command\<close>

definition ask_code ::
  "'s slot_handle \<Rightarrow> 's \<Rightarrow> unit slot_msg \<Rightarrow> u64 \<Rightarrow> u8 \<Rightarrow> ('s \<times> event_trb) res" where
  "ask_code ask s msg addr sid =
     (case ask s msg of
        (s, Some (CodeAnswer code)) \<Rightarrow> rbind (new_command_completion_event_trb addr 0 code sid) (\<lambda>ev. Inr (s, ev))
      | (s, _) \<Rightarrow> Inl ChannelClosed)"

definition ask_slot :: "'s slot_handle \<Rightarrow> 's \<Rightarrow> u64 \<Rightarrow> ('s \<times> event_trb) res" where
  "ask_slot ask s addr =
     (case ask s (EnableSlotMsg ()) of
        (s, Some (SlotIdAnswer r)) \<Rightarrow>
          (case (case r of Inr sid \<Rightarrow> (sid, Success) | Inl code \<Rightarrow> (0, code)) of (sid, code) \<Rightarrow>
           rbind (new_command_completion_event_trb addr 0 code sid) (\<lambda>ev. Inr (s, ev)))
      | (s, _) \<Rightarrow> Inl ChannelClosed)"

fun process_command ::
  "'s slot_handle \<Rightarrow> 's \<Rightarrow> u64 \<Rightarrow> command_trb_variant \<Rightarrow> ('s \<times> event_trb) res" where
  "process_command ask s addr EnableSlot = ask_slot ask s addr"
| "process_command ask s addr (DisableSlot d) = ask_code ask s (DisableSlotMsg (ds_slot_id d) ()) addr (ds_slot_id d)"
| "process_command ask s addr (AddressDevice d) = ask_code ask s (AddressDeviceMsg d ()) addr (ad_slot_id d)"
| "process_command ask s addr (ConfigureEndpoint d) = ask_code ask s (ConfigureEndpointMsg d ()) addr (cfg_slot_id d)"
| "process_command ask s addr (EvaluateContext d) = ask_code ask s (EvaluateContextMsg d ()) addr (ec_slot_id d)"
| "process_command ask s addr (ResetEndpoint d) =
     ask_code ask s (ResetEndpointMsg (re_slot_id d) (re_endpoint_id d) ()) addr (re_slot_id d)"
| "process_command ask s addr (StopEndpoint d) =
     ask_code ask s (StopEndpointMsg (se_slot_id d) (se_endpoint_id d) ()) addr (se_slot_id d)"
| "process_command ask s addr (SetTrDequeuePointer d) = ask_code ask s (SetDequeueMsg d ()) addr (sd_slot_id d)"
| "process_command ask s addr (ResetDevice d) = ask_code ask s (ResetDeviceMsg (rd_slot_id d) ()) addr (rd_slot_id d)"
| "process_command ask s addr ForceHeader = Inl NotImplemented"
| "process_command ask s addr NoOpCommand =
     rbind (new_command_completion_event_trb addr 0 Success 0) (\<lambda>ev. Inr (s, ev))"
| "process_command ask s addr (UnrecognizedCommand b e) =
     rbind (new_command_completion_event_trb addr 0 TrbError 0) (\<lambda>ev. Inr (s, ev))"

section \<open>The worker\<close>

text \<open>
  The messages waiting when the worker looks for a command. The result says whether the outer loop
  continues at once; a reset only leaves the inner loop.
\<close>

fun drain_messages :: "'c command_worker \<Rightarrow> 'c command_msg list \<Rightarrow> 'c command_worker \<times> 'c command_out list \<times> bool" where
  "drain_messages w [] = (w\<lparr>cw_queue := []\<rparr>, [], False)"
| "drain_messages w (ResetRing c # q) =
     (w\<lparr>cw_running := False, cw_state := RingStopped, cw_queue := q\<rparr>, [RingReset c], False)"
| "drain_messages w (RingDoorbell # q) = drain_messages w q"
| "drain_messages w (StopRing # q) = (w\<lparr>cw_state := RingStopping, cw_queue := q\<rparr>, [], True)"
| "drain_messages w (SetDequeuePointerAndCS dp cs # q) = drain_messages w q"

text \<open>A message in one of the two waiting states.\<close>

fun stopped_message :: "u32 \<Rightarrow> 'c command_worker \<Rightarrow> 'c command_msg \<Rightarrow> 'c command_worker \<times> 'c command_out list" where
  "stopped_message usbcmd w (ResetRing c) = (w\<lparr>cw_running := False\<rparr>, [RingReset c])"
| "stopped_message usbcmd w (SetDequeuePointerAndCS dp cs) = (w\<lparr>cw_ring := set_dequeue_pointer (cw_ring w) dp cs\<rparr>, [])"
| "stopped_message usbcmd w RingDoorbell =
     (if running usbcmd then (w\<lparr>cw_running := True, cw_state := LookingForNewCommand\<rparr>, []) else (w, []))"
| "stopped_message usbcmd w StopRing = (w, [])"

fun idle_message :: "'c command_worker \<Rightarrow> 'c command_msg \<Rightarrow> 'c command_worker \<times> 'c command_out list" where
  "idle_message w (ResetRing c) = (w\<lparr>cw_running := False, cw_state := RingStopped\<rparr>, [RingReset c])"
| "idle_message w RingDoorbell = (w\<lparr>cw_state := LookingForNewCommand\<rparr>, [])"
| "idle_message w StopRing = (w\<lparr>cw_state := RingStopping\<rparr>, [])"
| "idle_message w (SetDequeuePointerAndCS dp cs) = (w, [])"

text \<open>\<open>alive\<close>: the interrupter still takes events.\<close>

definition command_turn ::
  "'s bus_device \<Rightarrow> 's slot_handle \<Rightarrow> bool \<Rightarrow> u32 \<Rightarrow> 's \<times> 'c command_worker \<Rightarrow>
     (('s \<times> 'c command_worker) \<times> 'c command_out list) res" where
  "command_turn ops ask alive usbcmd = (\<lambda>(s, w).
     case cw_state w of
       RingStopped \<Rightarrow>
         (case cw_queue w of
            [] \<Rightarrow> Inr ((s, w), [])
          | msg # q \<Rightarrow> (case stopped_message usbcmd (w\<lparr>cw_queue := q\<rparr>) msg of (w, out) \<Rightarrow> Inr ((s, w), out)))
     | RingIdle \<Rightarrow>
         (case cw_queue w of
            [] \<Rightarrow> Inr ((s, w), [])
          | msg # q \<Rightarrow> (case idle_message (w\<lparr>cw_queue := q\<rparr>) msg of (w, out) \<Rightarrow> Inr ((s, w), out)))
     | LookingForNewCommand \<Rightarrow>
         (case drain_messages w (cw_queue w) of (w, out, continue) \<Rightarrow>
          if continue then Inr ((s, w), out)
          else if \<not> running usbcmd then Inr ((s, w\<lparr>cw_state := RingStopped\<rparr>), out)
          else rbind (next_trb ops s (cw_ring w)) (\<lambda>(ring, trb).
            rbind (case trb of
                None \<Rightarrow> Inr RingIdle
              | Some t \<Rightarrow> rbind (command_parse (raw_buffer t)) (\<lambda>v. Inr (ProcessingCommand (raw_address t) v))) (\<lambda>st.
            Inr ((s, w\<lparr>cw_ring := ring, cw_state := st\<rparr>), out))))
     | ProcessingCommand addr v \<Rightarrow>
         rbind (process_command ask s addr v) (\<lambda>(s, ev).
         rbind (require alive ChannelClosed) (\<lambda>_.
         Inr ((s, w\<lparr>cw_ring := advance (cw_ring w), cw_state := LookingForNewCommand\<rparr>), [CommandEvent ev])))
     | RingStopping \<Rightarrow>
         (case get_dequeue_pointer (cw_ring w) of (dp, cs) \<Rightarrow>
          rbind (new_command_completion_event_trb dp 0 CommandRingStopped 0) (\<lambda>ev.
          rbind (require alive ChannelClosed) (\<lambda>_.
          Inr ((s, w\<lparr>cw_running := False, cw_state := RingStopped\<rparr>), [CommandEvent ev])))))"

fun command_turns ::
  "'s bus_device \<Rightarrow> 's slot_handle \<Rightarrow> u32 \<Rightarrow> nat \<Rightarrow> 's \<times> 'c command_worker \<Rightarrow>
     (('s \<times> 'c command_worker) \<times> 'c command_out list) res" where
  "command_turns ops ask usbcmd 0 st = Inr (st, [])"
| "command_turns ops ask usbcmd (Suc n) st =
     rbind (command_turn ops ask True usbcmd st) (\<lambda>(st, out).
     rbind (command_turns ops ask usbcmd n st) (\<lambda>(st, out2). Inr (st, out @ out2)))"

section \<open>A batch of commands\<close>

text \<open>Executing the commands one after the other.\<close>

fun command_results ::
  "'s slot_handle \<Rightarrow> 's \<Rightarrow> u64 \<Rightarrow> raw_trb_buffer list \<Rightarrow> ('s \<times> event_trb list) res" where
  "command_results ask s addr [] = Inr (s, [])"
| "command_results ask s addr (b # bs) =
     rbind (command_parse b) (\<lambda>v.
     rbind (process_command ask s addr v) (\<lambda>(s, ev).
     rbind (command_results ask s (addr + 16) bs) (\<lambda>(s, evs). Inr (s, ev # evs))))"

text \<open>
  The driver's side: the commands lie in consecutive slots of the ring, fresh for the consumer, none of
  them a link, and a stale slot is behind them. Executing a command may write guest memory, so each slot
  is looked at when the commands before it are done.
\<close>

definition cycle_bit :: "raw_trb_buffer \<Rightarrow> bool" where
  "cycle_bit b = (b ! 12 AND 0x1 \<noteq> 0)"

definition fresh_slot :: "'s bus_device \<Rightarrow> 's \<Rightarrow> linked_ring \<Rightarrow> raw_trb_buffer \<Rightarrow> bool" where
  "fresh_slot ops s r b \<longleftrightarrow>
     dev_read_bulk ops s (lr_dequeue_pointer r) 16 = Inr b \<and> cycle_bit b = lr_cycle_state r \<and> link_parse b = None"

definition stale_slot :: "'s bus_device \<Rightarrow> 's \<Rightarrow> linked_ring \<Rightarrow> bool" where
  "stale_slot ops s r =
     (case dev_read_bulk ops s (lr_dequeue_pointer r) 16 of Inr b \<Rightarrow> cycle_bit b \<noteq> lr_cycle_state r | Inl _ \<Rightarrow> False)"

fun batch_on_ring :: "'s bus_device \<Rightarrow> 's slot_handle \<Rightarrow> 's \<Rightarrow> linked_ring \<Rightarrow> raw_trb_buffer list \<Rightarrow> bool" where
  "batch_on_ring ops ask s r [] = stale_slot ops s r"
| "batch_on_ring ops ask s r (b # bs) =
     (fresh_slot ops s r b \<and>
      (case rbind (command_parse b) (process_command ask s (lr_dequeue_pointer r)) of
         Inr (s', ev) \<Rightarrow> batch_on_ring ops ask s' (advance r) bs
       | Inl _ \<Rightarrow> True))"

lemma next_trb_direct:
  "stale_slot ops s r \<Longrightarrow> next_trb ops s r = Inr (r, None)"
  "fresh_slot ops s r b \<Longrightarrow> next_trb ops s r = Inr (r, Some \<lparr>raw_address = lr_dequeue_pointer r, raw_buffer = b\<rparr>)"
  using follow_links.simps [of ops s 256 r b]
  by (auto simp: stale_slot_def fresh_slot_def next_trb_def next_trb_raw_def cycle_bit_def Let_def split: sum.splits)

fun ring_slots :: "u64 \<Rightarrow> nat \<Rightarrow> u64 list" where
  "ring_slots a 0 = []"
| "ring_slots a (Suc n) = a # ring_slots (a + 16) n"

text \<open>The completion event of a command carries the address of its TRB.\<close>

lemma completion_pointer:
  "new_command_completion_event_trb addr p code sid = Inr ev \<Longrightarrow> ce_command_trb_pointer ev = addr"
  by (auto simp: new_command_completion_event_trb_def)

lemma process_command_pointer:
  "process_command ask s addr v = Inr (s', ev) \<Longrightarrow> ce_command_trb_pointer ev = addr"
  by (cases v) (auto simp: ask_code_def ask_slot_def dest!: completion_pointer
      split: prod.splits option.splits slot_answer.splits)

lemma command_results_pointers:
  "command_results ask s addr bs = Inr (s', evs) \<Longrightarrow> map ce_command_trb_pointer evs = ring_slots addr (length bs)"
  by (induction bs arbitrary: s addr evs) (auto dest: process_command_pointer)

lemma command_batch_looking:
  assumes "batch_on_ring ops ask s (cw_ring w) bs" "cw_state w = LookingForNewCommand" "cw_queue w = []" "running usbcmd"
  shows "command_turns ops ask usbcmd (2 * length bs + 1) (s, w) =
    rbind (command_results ask s (lr_dequeue_pointer (cw_ring w)) bs) (\<lambda>(s', evs).
      Inr ((s', w\<lparr>cw_state := RingIdle, cw_ring := (advance ^^ length bs) (cw_ring w)\<rparr>), map CommandEvent evs))"
  using assms
proof (induction bs arbitrary: s w)
  case Nil
  then have "next_trb ops s (cw_ring w) = Inr (cw_ring w, None)" by (intro next_trb_direct(1)) simp
  then show ?case using Nil by (simp add: command_turn_def)
next
  case (Cons b bs)
  let ?dp = "lr_dequeue_pointer (cw_ring w)"
  have n: "next_trb ops s (cw_ring w) = Inr (cw_ring w, Some \<lparr>raw_address = ?dp, raw_buffer = b\<rparr>)"
    using Cons.prems(1) by (intro next_trb_direct(2)) simp
  show ?case
  proof (cases "command_parse b")
    case (Inl f)
    then show ?thesis using Cons.prems(2-4) n by (simp add: command_turn_def)
  next
    case v: (Inr v)
    have one: "command_turn ops ask True usbcmd (s, w) = Inr ((s, w\<lparr>cw_state := ProcessingCommand ?dp v\<rparr>), [])"
      using Cons.prems(2-4) n v by (simp add: command_turn_def)
    show ?thesis
    proof (cases "process_command ask s ?dp v")
      case (Inl f)
      then show ?thesis using v one by (simp add: command_turn_def)
    next
      case (Inr x)
      obtain s1 ev where x: "x = (s1, ev)" by (cases x)
      let ?w = "w\<lparr>cw_ring := advance (cw_ring w)\<rparr>"
      have two: "command_turn ops ask True usbcmd (s, w\<lparr>cw_state := ProcessingCommand ?dp v\<rparr>) = Inr ((s1, ?w), [CommandEvent ev])"
        using Cons.prems(2) Inr x by (simp add: command_turn_def)
      have dp: "lr_dequeue_pointer (advance (cw_ring w)) = ?dp + 16" by (simp add: advance_def)
      have "batch_on_ring ops ask s1 (advance (cw_ring w)) bs" using Cons.prems(1) v Inr x by simp
      then have "command_turns ops ask usbcmd (2 * length bs + 1) (s1, ?w) =
          rbind (command_results ask s1 (?dp + 16) bs) (\<lambda>(s', evs).
            Inr ((s', ?w\<lparr>cw_state := RingIdle, cw_ring := (advance ^^ length bs) (cw_ring ?w)\<rparr>), map CommandEvent evs))"
        using Cons.IH [of s1 ?w] Cons.prems(2-4) by (simp add: dp)
      then show ?thesis using v Inr x one two
        by (cases "command_results ask s1 (?dp + 16) bs") (auto simp: funpow_swap1)
    qed
  qed
qed

text \<open>
  One doorbell for a batch: from the stopped or the idle state the worker does exactly what executing the
  commands one after the other does, in two turns for each, and then waits again behind the last one. If a
  command cannot be carried out, the worker ends with that error.
\<close>

lemma command_batch_turns:
  assumes "batch_on_ring ops ask s (cw_ring w) bs" "cw_state w \<in> {RingStopped, RingIdle}" "cw_queue w = []" "running usbcmd"
  shows "command_turns ops ask usbcmd (2 * length bs + 2) (s, command_doorbell w) =
    rbind (command_results ask s (lr_dequeue_pointer (cw_ring w)) bs) (\<lambda>(s', evs).
      Inr ((s', w\<lparr>cw_running := cw_state w = RingStopped \<or> cw_running w, cw_state := RingIdle,
                  cw_ring := (advance ^^ length bs) (cw_ring w)\<rparr>), map CommandEvent evs))"
proof -
  let ?w = "w\<lparr>cw_running := cw_state w = RingStopped \<or> cw_running w, cw_state := LookingForNewCommand\<rparr>"
  have first: "command_turn ops ask True usbcmd (s, command_doorbell w) = Inr ((s, ?w), [])"
    using assms(2,3,4) by (auto simp: command_turn_def command_doorbell_def send_to_worker_def)
  have "command_turns ops ask usbcmd (2 * length bs + 1) (s, ?w) =
    rbind (command_results ask s (lr_dequeue_pointer (cw_ring w)) bs) (\<lambda>(s', evs).
      Inr ((s', ?w\<lparr>cw_state := RingIdle, cw_ring := (advance ^^ length bs) (cw_ring w)\<rparr>), map CommandEvent evs))"
    using command_batch_looking [of ops ask s ?w bs usbcmd] assms by simp
  then show ?thesis using first
    by (cases "command_results ask s (lr_dequeue_pointer (cw_ring w)) bs") auto
qed

section \<open>Stopping and resetting\<close>

text \<open>
  Stopping and restarting. While the ring is idle, a CRCR write with the stop or the abort bit is
  answered by exactly one Command Ring Stopped event that carries the dequeue pointer, and CRCR reads as
  not running from then on; a CRCR write then moves the ring to the given 64-byte aligned pointer and
  cycle state, and a doorbell makes the worker look there, provided the controller runs.
\<close>

theorem stop_and_restart:
  assumes "cw_state w = RingIdle" "cw_running w" "cw_queue w = []" "lr_dequeue_pointer (cw_ring w) AND 0x0f = 0"
    "v AND 0x4 \<noteq> 0 \<or> v AND 0x2 \<noteq> 0" "running usbcmd"
  shows "\<exists>w1. command_turns ops ask usbcmd 2 (s, command_control w v) =
      Inr ((s, w1), [CommandEvent (CommandCompletion (lr_dequeue_pointer (cw_ring w)) 0 CommandRingStopped 0)]) \<and>
    command_status w1 = 0 \<and>
    (\<forall>p. \<exists>w2. command_turns ops ask usbcmd 2 (s, command_doorbell (command_control w1 p)) = Inr ((s, w2), []) \<and>
      cw_state w2 = LookingForNewCommand \<and> command_status w2 = crcr_CRR \<and>
      lr_dequeue_pointer (cw_ring w2) = p AND NOT 0x3f \<and> lr_cycle_state (cw_ring w2) = (p AND 0x1 \<noteq> 0))"
proof -
  let ?w1 = "w\<lparr>cw_state := RingStopped, cw_running := False\<rparr>"
  have c: "command_control w v = w\<lparr>cw_queue := [StopRing]\<rparr>" using assms(2,3,5) by (auto simp: command_control_def send_to_worker_def)
  have "command_turns ops ask usbcmd 2 (s, command_control w v) =
      Inr ((s, ?w1), [CommandEvent (CommandCompletion (lr_dequeue_pointer (cw_ring w)) 0 CommandRingStopped 0)])"
    unfolding c using assms(1,3,4)
    by (simp add: numeral_2_eq_2 command_turn_def get_dequeue_pointer_def new_command_completion_event_trb_def)
  moreover have "\<exists>w2. command_turns ops ask usbcmd 2 (s, command_doorbell (command_control ?w1 p)) = Inr ((s, w2), []) \<and>
      cw_state w2 = LookingForNewCommand \<and> command_status w2 = crcr_CRR \<and>
      lr_dequeue_pointer (cw_ring w2) = p AND NOT 0x3f \<and> lr_cycle_state (cw_ring w2) = (p AND 0x1 \<noteq> 0)" for p
    using assms(3,6)
    by (simp add: numeral_2_eq_2 command_turn_def command_doorbell_def command_control_def send_to_worker_def
        set_dequeue_pointer_def command_status_def)
  ultimately show ?thesis by (auto simp: command_status_def)
qed

text \<open>
  C33: A reset can be lost. A reset that the worker finds in its channel while it looks for a command is
  acknowledged, but when the controller is still running the worker goes on: it fetches the command at the
  dequeue pointer and, if the slot worker answers, executes it after the acknowledged reset, reports it, and
  looks for the next command, although the ring is marked as stopped.
\<close>

theorem acknowledged_reset_lost:
  assumes "cw_state w = LookingForNewCommand" "running usbcmd" "fresh_slot ops s (cw_ring w) b"
    "command_parse b = Inr v" "process_command ask s (lr_dequeue_pointer (cw_ring w)) v = Inr (s', ev)"
  shows "\<exists>w'. command_turns ops ask usbcmd 2 (s, command_send_reset (w\<lparr>cw_queue := []\<rparr>) c) =
      Inr ((s', w'), [RingReset c, CommandEvent ev]) \<and> ce_command_trb_pointer ev = lr_dequeue_pointer (cw_ring w) \<and>
    cw_state w' = LookingForNewCommand \<and> \<not> cw_running w' \<and> cw_ring w' = advance (cw_ring w)"
  using assms(1,2,4,5) next_trb_direct(2) [OF assms(3)] process_command_pointer [OF assms(5)]
  by (simp add: numeral_2_eq_2 command_turn_def command_send_reset_def send_to_worker_def)

end
