(* ===== verification/GuestAccess.thy ===== *)
theory GuestAccess
  imports GuestMemory
begin

text \<open>
  Which accesses to guest memory succeed. On a well-formed DMA bus every access that ends below the
  end of the address space does, whether it lies in a segment, straddles several or meets none, and no
  access that succeeds makes the bus ill-formed. This is what the device model relies on when it follows
  an address the guest wrote; the locale \<open>accessible_memory\<close> states it, and the DMA bus is its instance.
\<close>

locale accessible_memory =
  fixes ops :: "'m bus_device"
    and ok :: "'m \<Rightarrow> bool"
    and limit :: nat
  assumes read_total:
    "ok m \<Longrightarrow> unat a + size_bytes sz \<le> limit \<Longrightarrow> \<exists>v. dev_read ops m (request_new a sz) = Inr v"
    and write_total:
    "ok m \<Longrightarrow> unat a + size_bytes sz \<le> limit \<Longrightarrow> \<exists>m'. dev_write ops m (request_new a sz) v = Inr m'"
    and write_ok: "ok m \<Longrightarrow> dev_write ops m r v = Inr m' \<Longrightarrow> ok m'"
    and read_bulk_total:
    "ok m \<Longrightarrow> unat a + n \<le> limit \<Longrightarrow> \<exists>bs. dev_read_bulk ops m a n = Inr bs \<and> length bs = n"
    and write_bulk_total:
    "ok m \<Longrightarrow> unat a + length bs \<le> limit \<Longrightarrow> \<exists>m'. dev_write_bulk ops m a bs = Inr m'"
    and write_bulk_ok: "ok m \<Longrightarrow> dev_write_bulk ops m a bs = Inr m' \<Longrightarrow> ok m'"
    and limit_word: "limit < 2 ^ 64"
begin

lemma offset_fits: "unat a + n \<le> limit \<Longrightarrow> unat d \<le> n \<Longrightarrow> unat (a + d) = unat a + unat (d :: u64)"
  using limit_word by (intro unat_add_lt) simp

lemma read_at:
  "ok m \<Longrightarrow> unat a + n \<le> limit \<Longrightarrow> unat d + size_bytes sz \<le> n \<Longrightarrow>
    \<exists>v. dev_read ops m (request_new (a + d) sz) = Inr v"
  using read_total [of m "a + d" sz] offset_fits [of a n d] by simp

lemma write_at:
  "ok m \<Longrightarrow> unat a + n \<le> limit \<Longrightarrow> unat d + size_bytes sz \<le> n \<Longrightarrow>
    \<exists>m'. dev_write ops m (request_new (a + d) sz) v = Inr m' \<and> ok m'"
  using write_total [of m "a + d" sz v] offset_fits [of a n d] write_ok [of m] by fastforce

lemma copy_at:
  assumes "ok m" "unat a + n \<le> limit" "unat d + 32 \<le> n" "unat b + k \<le> limit" "unat e + 32 \<le> k"
  shows "\<exists>m'. rbind (dev_read_bulk ops m (a + d) 32) (\<lambda>buf. dev_write_bulk ops m (b + e) buf) = Inr m' \<and> ok m'"
proof -
  have u: "unat (a + d) + 32 \<le> limit" "unat (b + e) + 32 \<le> limit"
    using assms offset_fits [of a n d] offset_fits [of b k e] by simp_all
  obtain bs where bs: "dev_read_bulk ops m (a + d) 32 = Inr bs" "length bs = 32"
    using read_bulk_total [OF assms(1) u(1)] by blast
  then obtain m' where "dev_write_bulk ops m (b + e) bs = Inr m'" using write_bulk_total [OF assms(1), of "b + e" bs] u(2) by auto
  then show ?thesis using bs write_bulk_ok [OF assms(1)] by auto
qed

end

section \<open>Routing of word accesses\<close>

text \<open>A word access on a well-formed bus goes to an entry that contains it, to the error device or to the
  default device.\<close>

lemma to_device_in_entry:
  assumes "wf_bus ops b" "to_device_request b (request_new a sz) = Some (rel, ToDevice i)"
  shows "i < length (bus_devices b) \<and> req_size rel = sz \<and>
    unat (req_addr rel) + size_bytes sz \<le> unat (dev_size ops (ent_device (bus_devices b ! i)))"
proof -
  let ?e = "bus_devices b ! i"
  have lt: "unat a + size_bytes sz < 2 ^ 64" and
    rt: "route (bus_devices b) 0 (mk_range a (a + of_nat (size_bytes sz))) (request_new a sz) = Some (rel, ToDevice i)"
    using assms(2) by (auto simp: to_device_request_def request_range_def request_new_def checked_add_def split: if_splits)
  have i: "i < length (bus_devices b)" "contains_interval (ent_range ?e) (mk_range a (a + of_nat (size_bytes sz)))"
    "rel = request_new (a - range_start (ent_range ?e)) sz"
    using route_sound [OF rt] by (auto simp: request_new_def)
  have "entry_fits ops (bus_size ops b) ?e" using assms(1) i(1) by (simp add: wf_bus_def)
  moreover have le: "range_start (ent_range ?e) \<le> a" "unat a + size_bytes sz \<le> unat (range_end (ent_range ?e))"
    using i(2) lt by (simp_all add: contains_interval_iff word_le_nat_alt unat_add_lt)
  ultimately show ?thesis using i(1,3) unat_sub_le [OF le(1)]
    by (simp add: entry_fits_def request_new_def word_le_nat_alt)
qed

lemma bus_read_total:
  assumes "ok_bus dma_device_ops dma_ok b" "bus_size dma_device_ops b = - 1" "unat a + size_bytes sz \<le> dma_limit"
  shows "\<exists>v. bus_read dma_device_ops b (request_new a sz) = Inr v"
proof (cases "to_device_request b (request_new a sz)")
  case None
  have "unat (dev_size dma_device_ops (bus_default b)) = dma_limit"
    using assms(2) unat_m1_u64 by (simp add: bus_size_def)
  then show ?thesis using None dma.read_law [of "bus_default b" "request_new a sz"] assms(1,3)
    by (simp add: bus_read_def ok_bus_def request_new_def)
next
  case (Some p)
  obtain rel t where p: "p = (rel, t)" by (cases p)
  show ?thesis
  proof (cases t)
    case (ToDevice i)
    note r = to_device_in_entry [of dma_device_ops b a sz rel i]
    have "dma_ok (ent_device (bus_devices b ! i))" using assms(1) r Some p ToDevice by (simp add: ok_bus_def)
    then show ?thesis using dma.read_law [of "ent_device (bus_devices b ! i)" rel] r assms(1) Some p ToDevice
      by (simp add: bus_read_def ok_bus_def)
  qed (use Some p in \<open>simp add: bus_read_def default_device_read_def\<close>)
qed

lemma bus_write_total:
  assumes "ok_bus dma_device_ops dma_ok b" "bus_size dma_device_ops b = - 1"
  shows "unat a + size_bytes sz \<le> dma_limit \<Longrightarrow> \<exists>b'. bus_write dma_device_ops b (request_new a sz) v = Inr b'"
    and "bus_write dma_device_ops b (request_new a sz) v = Inr b' \<Longrightarrow>
      ok_bus dma_device_ops dma_ok b' \<and> bus_size dma_device_ops b' = - 1 \<and>
      map ent_range (bus_devices b') = map ent_range (bus_devices b)"
proof -
  let ?w = "bus_write dma_device_ops b (request_new a sz) v"
  have "(unat a + size_bytes sz \<le> dma_limit \<longrightarrow> (\<exists>b'. ?w = Inr b')) \<and> (\<forall>b'. ?w = Inr b' \<longrightarrow>
      ok_bus dma_device_ops dma_ok b' \<and> bus_size dma_device_ops b' = - 1 \<and>
      map ent_range (bus_devices b') = map ent_range (bus_devices b))"
  proof (cases "to_device_request b (request_new a sz)")
    case None
    have sz: "unat (dev_size dma_device_ops (bus_default b)) = dma_limit" and ok: "dma_ok (bus_default b)"
      using assms unat_m1_u64 by (simp_all add: bus_size_def ok_bus_def)
    show ?thesis
    proof (cases "unat a + size_bytes sz \<le> dma_limit")
      case True
      then obtain d where "dev_write dma_device_ops (bus_default b) (request_new a sz) v = Inr d" "dma_ok d"
        "dev_size dma_device_ops d = dev_size dma_device_ops (bus_default b)"
        using dma.write_law [OF ok, of "request_new a sz" v] sz by (auto simp: request_new_def)
      then show ?thesis using None assms by (simp add: bus_write_def ok_bus_def wf_bus_def bus_size_def)
    next
      case False
      have "d = bus_default b" if "dev_write dma_device_ops (bus_default b) (request_new a sz) v = Inr d" for d
        using that False sz
        by (cases "bus_default b")
          (auto simp: dma_device_ops_def segment_ops_def seg_write_def seg_in_bounds_iff request_new_def
            default_device_ops_def default_device_write_def)
      then show ?thesis using None False assms by (auto simp: bus_write_def)
    qed
  next
    case (Some p)
    obtain rel t where p: "p = (rel, t)" by (cases p)
    show ?thesis
    proof (cases t)
      case (ToDevice i)
      let ?d = "ent_device (bus_devices b ! i)"
      have wf: "wf_bus dma_device_ops b" using assms(1) by (simp add: ok_bus_def)
      have r: "i < length (bus_devices b)" "unat (req_addr rel) + size_bytes (req_size rel) \<le> unat (dev_size dma_device_ops ?d)"
        using to_device_in_entry [OF wf, of a sz rel i] Some p ToDevice by simp_all
      have ok: "dma_ok ?d" using assms(1) r(1) by (simp add: ok_bus_def)
      obtain d where d: "dev_write dma_device_ops ?d rel v = Inr d" "dma_ok d" "dev_size dma_device_ops d = dev_size dma_device_ops ?d"
        using dma.write_law [OF ok r(2), of v] by auto
      have "map ent_range (bus_devices (set_device b i d)) = map ent_range (bus_devices b)"
        using r(1) by (intro nth_equalityI) auto
      moreover have "ok_bus dma_device_ops dma_ok (set_device b i d)"
        using assms(1) r(1) d(2) set_device_wf [OF wf r(1) d(3)] by (auto simp: ok_bus_def all_set_conv_all_nth)
      ultimately show ?thesis using Some p ToDevice d(1) assms(2) by (simp add: bus_write_def bus_size_def)
    qed (use Some p assms in \<open>simp add: bus_write_def default_device_write_def ok_bus_def wf_bus_def bus_size_def\<close>)
  qed
  then show "unat a + size_bytes sz \<le> dma_limit \<Longrightarrow> \<exists>b'. ?w = Inr b'"
    "?w = Inr b' \<Longrightarrow> ok_bus dma_device_ops dma_ok b' \<and> bus_size dma_device_ops b' = - 1 \<and>
      map ent_range (bus_devices b') = map ent_range (bus_devices b)"
    by blast+
qed

section \<open>The DMA bus is accessible\<close>

lemma dyn_ok_bus: "dyn_ok m \<Longrightarrow> ok_bus dma_device_ops dma_ok (db_bus m) \<and> bus_size dma_device_ops (db_bus m) = - 1"
  by (simp add: dyn_ok_def dyn_wf_def)

lemma dyn_store_ok:
  assumes "dyn_ok m" "ok_bus dma_device_ops dma_ok b" "bus_size dma_device_ops b = - 1"
    "map ent_range (bus_devices b) = map ent_range (bus_devices (db_bus m))"
  shows "dyn_ok (dyn_store m b)"
  using assms dyn_store_wf [of dma_device_ops m b] by (simp add: dyn_ok_def ok_bus_def dyn_store_def)

lemma dyn_write_ok:
  assumes "dyn_ok m" "dev_write dma_bus_ops m r v = Inr m'"
  shows "dyn_ok m'"
proof -
  have r: "r = request_new (req_addr r) (req_size r)" by (simp add: request_new_def)
  obtain b where b: "bus_write dma_device_ops (db_bus m) r v = Inr b" "m' = dyn_store m b"
    using assms(2) by (auto simp: dma_bus_ops_def dyn_ops_def)
  have "ok_bus dma_device_ops dma_ok b \<and> bus_size dma_device_ops b = - 1 \<and>
      map ent_range (bus_devices b) = map ent_range (bus_devices (db_bus m))"
    using bus_write_total(2) [of "db_bus m" "req_addr r" "req_size r" v b] dyn_ok_bus [OF assms(1)] b(1) r by metis
  then show ?thesis using dyn_store_ok [OF assms(1)] b(2) by simp
qed

interpretation accessible: accessible_memory dma_bus_ops dyn_ok dma_limit
proof
  fix m and a :: u64 and sz
  assume "dyn_ok m" "unat a + size_bytes sz \<le> dma_limit"
  then show "\<exists>v. dev_read dma_bus_ops m (request_new a sz) = Inr v"
    using bus_read_total dyn_ok_bus by (simp add: dma_bus_ops_def dyn_ops_def)
next
  fix m and a :: u64 and sz v
  assume "dyn_ok m" "unat a + size_bytes sz \<le> dma_limit"
  then obtain b where "bus_write dma_device_ops (db_bus m) (request_new a sz) v = Inr b"
    using bus_write_total(1) dyn_ok_bus by blast
  then show "\<exists>m'. dev_write dma_bus_ops m (request_new a sz) v = Inr m'"
    by (simp add: dma_bus_ops_def dyn_ops_def)
next
  fix m m' and r :: request and v
  assume "dyn_ok m" "dev_write dma_bus_ops m r v = Inr m'"
  then show "dyn_ok m'" by (rule dyn_write_ok)
next
  fix m and a :: u64 and n :: nat
  assume "dyn_ok m" "unat a + n \<le> dma_limit"
  then show "\<exists>bs. dev_read_bulk dma_bus_ops m a n = Inr bs \<and> length bs = n"
    using dyn.read_bulk_law [of m a n] dma_bus_limit by simp
next
  fix m and a :: u64 and bs :: "u8 list"
  assume "dyn_ok m" "unat a + length bs \<le> dma_limit"
  then show "\<exists>m'. dev_write_bulk dma_bus_ops m a bs = Inr m'"
    using dyn.write_bulk_law [of m a bs] dma_bus_limit by auto
next
  fix m m' and a :: u64 and bs :: "u8 list"
  assume a: "dyn_ok m" "dev_write_bulk dma_bus_ops m a bs = Inr m'"
  then have "unat a + length bs \<le> unat (dev_size dma_bus_ops m)"
    using dma_bus_limit [OF a(1)] by (auto simp: dma_bus_ops_def dyn_ops_def bus_write_bulk_def)
  then show "dyn_ok m'" using dyn.write_bulk_law [OF a(1)] a(2) by fastforce
next
  show "dma_limit < 2 ^ 64" by simp
qed

text \<open>A blank memory of 64 KiB, for concrete instances.\<close>

definition blank_memory :: "dma_device dynamic_bus" where
  "blank_memory = single_segment (replicate 65536 0)"

lemma blank_memory_ok:
  "dyn_ok blank_memory" "in_one_segment blank_memory a n \<longleftrightarrow> a + n \<le> 65536"
  "dyn_writable blank_memory a \<longleftrightarrow> a < 65536"
  using single_segment_ok(1) [of "replicate 65536 0"] single_segment_ok(3) [of "replicate 65536 0" a]
    single_segment_word [of "replicate 65536 0" a n]
  by (simp_all add: blank_memory_def)

lemma blank_memory_byte: "a < 65536 \<Longrightarrow> dyn_byte blank_memory a = 0"
  using single_segment_ok(2) [of "replicate 65536 0" a] by (simp add: blank_memory_def)

end
