(* ===== verification/SlotSpec.thy ===== *)
theory SlotSpec
  imports Slots GuestAccess
begin

text \<open>
  The slot worker against its endpoints: the contract the endpoint workers and guest memory keep towards
  it is the locale \<open>endpoint_service\<close>; inside it the invariant of the slots and the slot state diagram of
  the xHCI specification (figure 4-2) are proved.
\<close>

section \<open>The invariant\<close>

fun state_ok :: "slot_state \<Rightarrow> 'e option list \<Rightarrow> bool" where
  "state_ok SlotEnabled eps = (\<forall>p < 31. eps ! p = None)"
| "state_ok (SlotDefault b) eps = (eps ! 0 \<noteq> None \<and> (\<forall>p. 1 \<le> p \<and> p < 31 \<longrightarrow> eps ! p = None))"
| "state_ok (SlotAddressed b) eps = (eps ! 0 \<noteq> None \<and> (\<forall>p. 1 \<le> p \<and> p < 31 \<longrightarrow> eps ! p = None))"
| "state_ok (SlotConfigured b) eps = (eps ! 0 \<noteq> None)"

definition slot_senders :: "'e slot \<Rightarrow> 'e set" where
  "slot_senders sl = {e. Some e \<in> set (sl_endpoints sl)}"

definition uniq :: "'e slot \<Rightarrow> bool" where
  "uniq sl \<longleftrightarrow> (\<forall>p q e. p < 31 \<and> q < 31 \<and> sl_endpoints sl ! p = Some e \<and> sl_endpoints sl ! q = Some e \<longrightarrow> p = q)"

definition slot_ok :: "nat \<Rightarrow> 'e slot \<Rightarrow> bool" where
  "slot_ok i sl \<longleftrightarrow> sl_id sl = of_nat i \<and> length (sl_endpoints sl) = 31 \<and> state_ok (sl_state sl) (sl_endpoints sl) \<and> uniq sl"

definition slots_ok :: "'e set \<Rightarrow> 'e slot_worker \<Rightarrow> bool" where
  "slots_ok known s \<longleftrightarrow>
     length (sw_slots s) = MAX_SLOTS \<and> unat (num_slots_enabled (sw_config s)) \<le> MAX_SLOTS \<and>
     (\<forall>i < MAX_SLOTS. \<forall>sl. sw_slots s ! i = Some sl \<longrightarrow> slot_ok (i + 1) sl \<and> slot_senders sl \<subseteq> known) \<and>
     (\<forall>i < MAX_SLOTS. \<forall>j < MAX_SLOTS. \<forall>sl sl'. sw_slots s ! i = Some sl \<and> sw_slots s ! j = Some sl' \<and> i \<noteq> j \<longrightarrow>
        slot_senders sl \<inter> slot_senders sl' = {})"

lemma one_get_eq:
  "length xs < 2 ^ 64 \<Longrightarrow> one_get xs i = (if 1 \<le> i \<and> i \<le> length xs then Some (xs ! (i - 1)) else None)"
  using one_get_iff [of xs i] by (cases "one_get xs i") auto

lemma one_put_eq:
  "length xs < 2 ^ 64 \<Longrightarrow> one_put xs i x = Inr ys \<longleftrightarrow> 1 \<le> i \<and> i \<le> length xs \<and> ys = xs[i - 1 := x]"
  by (cases i) (auto simp: one_put_def below_def)

lemma endpoint_sender_Some:
  assumes "length (sl_endpoints sl) = 31"
  shows "endpoint_sender sl ep = Some e \<longleftrightarrow> 1 \<le> unat ep \<and> unat ep \<le> 31 \<and> sl_endpoints sl ! (unat ep - 1) = Some e"
  using assms by (auto simp: endpoint_sender_def one_get_eq)

lemma slot_senders_nth:
  "length (sl_endpoints sl) = 31 \<Longrightarrow> e \<in> slot_senders sl \<longleftrightarrow> (\<exists>p < 31. sl_endpoints sl ! p = Some e)"
  by (auto simp: slot_senders_def in_set_conv_nth)

lemma slot_ref_Some:
  assumes "length (sw_slots s) = MAX_SLOTS"
  shows "slot_ref s sid = Some sl \<longleftrightarrow> 1 \<le> unat sid \<and> unat sid \<le> MAX_SLOTS \<and> sw_slots s ! (unat sid - 1) = Some sl"
  using assms by (auto simp: slot_ref_def MAX_SLOTS_def one_get_eq)

section \<open>The slot state diagram\<close>

datatype slot_abs = Disabled | Enabled | Default | Addressed | Configured

datatype slot_command = AddressCommand bool | ConfigureCommand bool | EvaluateCommand | ResetSlotCommand | DisableCommand

fun slot_diagram :: "slot_abs \<Rightarrow> slot_command \<Rightarrow> slot_abs \<times> completion_code" where
  "slot_diagram Disabled command = (Disabled, SlotNotEnabledError)"
| "slot_diagram st DisableCommand = (Disabled, Success)"
| "slot_diagram st EvaluateCommand = (st, Success)"
| "slot_diagram Enabled (AddressCommand bsr) = (if bsr then Default else Addressed, Success)"
| "slot_diagram Default (AddressCommand False) = (Addressed, Success)"
| "slot_diagram Addressed (ConfigureCommand dc) = (if dc then Addressed else Configured, Success)"
| "slot_diagram Configured (ConfigureCommand dc) = (if dc then Addressed else Configured, Success)"
| "slot_diagram Addressed ResetSlotCommand = (Default, Success)"
| "slot_diagram Configured ResetSlotCommand = (Default, Success)"
| "slot_diagram st command = (st, ContextStateError)"

primrec abs_slot_state :: "slot_state \<Rightarrow> slot_abs" where
  "abs_slot_state SlotEnabled = Enabled"
| "abs_slot_state (SlotDefault b) = Default"
| "abs_slot_state (SlotAddressed b) = Addressed"
| "abs_slot_state (SlotConfigured b) = Configured"

definition abs_slot :: "'e slot_worker \<Rightarrow> u8 \<Rightarrow> slot_abs" where
  "abs_slot s sid = (case slot_ref s sid of None \<Rightarrow> Disabled | Some sl \<Rightarrow> abs_slot_state (sl_state sl))"

lemma unat_endpoint_id: "i < 32 \<Longrightarrow> unat (of_nat i :: u8) = i"
  by (simp add: unat_of_nat)

lemma set_endpoint_ids: "set endpoint_ids = of_nat ` {2..<32}"
  by (simp only: endpoint_ids_def set_map set_upt)

lemma endpoint_ids_range: "i \<in> set endpoint_ids \<Longrightarrow> 2 \<le> unat i \<and> unat i \<le> 31"
  by (auto simp: set_endpoint_ids unat_endpoint_id)

lemma in_endpoint_ids: "(\<exists>i \<in> set endpoint_ids. unat i = p + 1) \<longleftrightarrow> 1 \<le> p \<and> p < 31"
proof
  assume p: "1 \<le> p \<and> p < 31"
  then have "of_nat (p + 1) \<in> set endpoint_ids" unfolding set_endpoint_ids by (intro imageI) simp
  then show "\<exists>i \<in> set endpoint_ids. unat i = p + 1" using unat_endpoint_id [of "p + 1"] p by (intro bexI [of _ "of_nat (p + 1)"]) auto
qed (auto dest: endpoint_ids_range)

lemma set_present: "set (List.map_filter (\<lambda>e. e) xs) = {e. Some e \<in> set xs}"
  by (force simp: List.map_filter_def image_iff)

lemma distinct_present:
  assumes "\<forall>p q e. p < length xs \<and> q < length xs \<and> xs ! p = Some e \<and> xs ! q = Some e \<longrightarrow> p = q"
  shows "distinct (List.map_filter (\<lambda>e. e) xs)"
  using assms
proof (induction xs)
  case (Cons x xs)
  have step: "p = q" if "p < length xs" "q < length xs" "xs ! p = Some e" "xs ! q = Some e" for p q e
    using Cons.prems [rule_format, of "Suc p" "Suc q" e] that by simp
  have "Some e \<notin> set xs" if "x = Some e" for e
    using Cons.prems [rule_format, of 0 "Suc q" e for q] that by (auto simp: in_set_conv_nth)
  then show ?case using Cons.IH step by (cases x) (auto simp: List.map_filter_simps set_present)
qed (simp add: List.map_filter_simps)

lemma slots_update:
  assumes "slots_ok K s" "i < MAX_SLOTS" "K \<subseteq> K'" "sw_config s' = sw_config s"
    "sw_slots s' = (sw_slots s)[i := new]"
    "\<And>sl'. new = Some sl' \<Longrightarrow> slot_ok (i + 1) sl' \<and> slot_senders sl' \<subseteq> K' \<and>
       slot_senders sl' \<inter> K \<subseteq> (case sw_slots s ! i of Some sl \<Rightarrow> slot_senders sl | None \<Rightarrow> {})"
  shows "slots_ok K' s'"
proof -
  have len: "length (sw_slots s) = MAX_SLOTS" using assms(1) by (simp add: slots_ok_def)
  have nth: "sw_slots s' ! j = (if j = i then new else sw_slots s ! j)" if "j < MAX_SLOTS" for j
    using assms(2,5) len that by simp
  have old: "slot_ok (j + 1) sl \<and> slot_senders sl \<subseteq> K" if "j < MAX_SLOTS" "sw_slots s ! j = Some sl" for j sl
    using assms(1) that by (simp add: slots_ok_def)
  have disj: "slot_senders sl \<inter> slot_senders sl' = {}"
    if "sw_slots s ! j = Some sl" "sw_slots s ! k = Some sl'" "j < MAX_SLOTS" "k < MAX_SLOTS" "j \<noteq> k" for j k sl sl'
    using assms(1) that unfolding slots_ok_def by blast
  have apart: "slot_senders sl \<inter> slot_senders sl' = {}" if "new = Some sl'" "sw_slots s ! j = Some sl" "j < MAX_SLOTS" "j \<noteq> i" for j sl sl'
  proof (cases "sw_slots s ! i")
    case None then show ?thesis using assms(6) [OF that(1)] old [OF that(3,2)] by auto
  next
    case (Some x)
    then show ?thesis using assms(6) [OF that(1)] old [OF that(3,2)] disj [OF that(2) Some that(3) assms(2) that(4)] by auto
  qed
  have "slot_ok (j + 1) sl \<and> slot_senders sl \<subseteq> K'" if "j < MAX_SLOTS" "sw_slots s' ! j = Some sl" for j sl
    using that nth [of j] old [of j sl] assms(3,6) by (cases "j = i") auto
  moreover have "slot_senders sl \<inter> slot_senders sl' = {}"
    if "j < MAX_SLOTS" "k < MAX_SLOTS" "sw_slots s' ! j = Some sl" "sw_slots s' ! k = Some sl'" "j \<noteq> k" for j k sl sl'
    using that nth disj apart by (cases "j = i"; cases "k = i") (auto simp: Int_commute)
  ultimately show ?thesis using assms(1,4,5) by (simp add: slots_ok_def)
qed

lemma slots_ok_ref:
  assumes "slots_ok K s" "slot_ref s sid = Some sl"
  shows "unat sid - 1 < MAX_SLOTS" "sw_slots s ! (unat sid - 1) = Some sl" "1 \<le> unat sid"
    "slot_ok (unat sid) sl" "slot_senders sl \<subseteq> K"
proof -
  have r: "1 \<le> unat sid" "unat sid \<le> MAX_SLOTS" "sw_slots s ! (unat sid - 1) = Some sl"
    using assms slot_ref_Some [of s sid sl] by (auto simp: slots_ok_def)
  then show "unat sid - 1 < MAX_SLOTS" "sw_slots s ! (unat sid - 1) = Some sl" "1 \<le> unat sid" by auto
  then show "slot_ok (unat sid) sl" "slot_senders sl \<subseteq> K" using assms(1) r unfolding slots_ok_def
    by (metis Suc_eq_plus1 Suc_diff_1 less_le_trans zero_less_one)+
qed

lemma find_free_Some: "find_free slots is = Inr (Some i) \<Longrightarrow> i \<in> set is \<and> one_index slots i = Inr None"
  by (induction "is") (auto split: if_splits)

lemma slot_new_ok: "slot_ok i (slot_new (of_nat i) d)" "slot_senders (slot_new j d) = {}"
  by (auto simp: slot_ok_def slot_new_def uniq_def slot_senders_def)

lemma allocate_slot_ok:
  assumes "slots_ok K s" "allocate_slot s = Inr (s', r)"
  shows "slots_ok K s'"
proof (cases r)
  case (Inl e) then show ?thesis using assms by (auto simp: allocate_slot_def split: option.splits)
next
  case (Inr sid)
  have len: "length (sw_slots s) = MAX_SLOTS" using assms(1) by (simp add: slots_ok_def)
  obtain i where i: "find_free (sw_slots s) [1..<unat (num_slots_enabled (sw_config s)) + 1] = Inr (Some i)"
    and s': "one_put (sw_slots s) i (Some (slot_new (of_nat i) (sw_dcbaap s + of_nat i * 8))) = Inr (sw_slots s')"
      "sw_config s' = sw_config s"
    using assms(2) Inr by (auto simp: allocate_slot_def split: option.splits)
  have p: "1 \<le> i" "i - 1 < MAX_SLOTS" and sl: "sw_slots s' = (sw_slots s)[i - 1 := Some (slot_new (of_nat i) (sw_dcbaap s + of_nat i * 8))]"
    using s'(1) len by (auto simp: one_put_eq MAX_SLOTS_def)
  then show ?thesis by (intro slots_update [OF assms(1) p(2) subset_refl s'(2) sl]) (auto simp: slot_new_ok)
qed

primrec slot_command_msg :: "slot_command \<Rightarrow> u8 \<Rightarrow> u64 \<Rightarrow> 'c \<Rightarrow> 'c slot_msg" where
  "slot_command_msg (AddressCommand bsr) sid icp c = AddressDeviceMsg (AddressDeviceData icp bsr sid) c"
| "slot_command_msg (ConfigureCommand dc) sid icp c = ConfigureEndpointMsg (ConfigureEndpointData icp dc sid) c"
| "slot_command_msg EvaluateCommand sid icp c = EvaluateContextMsg (EvaluateContextData icp sid) c"
| "slot_command_msg ResetSlotCommand sid icp c = ResetDeviceMsg sid c"
| "slot_command_msg DisableCommand sid icp c = DisableSlotMsg sid c"

definition launches :: "slot_command \<Rightarrow> bool" where
  "launches k = (case k of AddressCommand bsr \<Rightarrow> True | ConfigureCommand dc \<Rightarrow> \<not> dc | _ \<Rightarrow> False)"

lemma slot_ref_update:
  assumes "length (sw_slots s) = MAX_SLOTS" "1 \<le> unat sid" "unat sid \<le> MAX_SLOTS" "sw_slots s' = (sw_slots s)[unat sid - 1 := x]"
  shows "slot_ref s' i = (if i = sid then x else slot_ref s i)"
proof -
  have "unat i - 1 \<noteq> unat sid - 1" if "1 \<le> unat i" "i \<noteq> sid" using that assms(2) by (metis le_add_diff_inverse unsigned_word_eqI)
  then show ?thesis using assms by (auto simp: slot_ref_def one_get_eq MAX_SLOTS_def nth_list_update)
qed

section \<open>The contract\<close>

text \<open>
  \<open>known w\<close> are the senders handed out so far, \<open>quiet w e\<close> says that the endpoint of \<open>e\<close> waits for
  work, \<open>up w\<close> that the launcher will answer any request. Nothing the slot worker does to guest memory or
  to one endpoint changes another endpoint, and a launched endpoint is new.
\<close>

locale endpoint_service =
  fixes env :: "('w, 'e, 'c) slot_env"
    and known :: "'w \<Rightarrow> 'e set"
    and quiet :: "'w \<Rightarrow> 'e \<Rightarrow> bool"
    and up :: "'w \<Rightarrow> bool"
  assumes write_keeps: "dev_write (env_dma env) w r v = Inr w' \<Longrightarrow> known w' = known w \<and> quiet w' = quiet w \<and> up w' = up w"
    and write_bulk_keeps: "dev_write_bulk (env_dma env) w a bs = Inr w' \<Longrightarrow> known w' = known w \<and> quiet w' = quiet w \<and> up w' = up w"
    and terminate_law: "env_terminate env w e = (w', answered) \<Longrightarrow>
      known w' = known w \<and> up w' = up w \<and> (\<forall>e'. e' \<noteq> e \<longrightarrow> quiet w' e' = quiet w e')"
    and send_law: "env_send env w e msg = (w', sent) \<Longrightarrow> known w' = known w"
    and launch_law: "env_launch env w i ep port ctx = (w', Some e) \<Longrightarrow>
      e \<notin> known w \<and> known w' = insert e (known w) \<and> (up w \<longrightarrow> up w') \<and>
      (\<forall>e'. e' \<noteq> e \<longrightarrow> quiet w' e' = quiet w e')"
begin

text \<open>How one slot and the world change while the slot works on itself.\<close>

definition evolves :: "'w \<Rightarrow> 'e slot \<Rightarrow> 'w \<Rightarrow> 'e slot \<Rightarrow> bool" where
  "evolves w sl w' sl' \<longleftrightarrow>
     sl_id sl' = sl_id sl \<and> sl_dcbaae sl' = sl_dcbaae sl \<and> length (sl_endpoints sl') = 31 \<and>
     known w \<subseteq> known w' \<and> (up w \<longrightarrow> up w') \<and>
     slot_senders sl' \<subseteq> slot_senders sl \<union> (known w' - known w) \<and> uniq sl' \<and>
     (\<forall>e \<in> known w - slot_senders sl. quiet w' e = quiet w e) \<and>
     (\<forall>e \<in> slot_senders sl \<inter> slot_senders sl'. quiet w e \<longrightarrow> quiet w' e)"

definition tame :: "'w \<Rightarrow> 'e slot \<Rightarrow> bool" where
  "tame w sl \<longleftrightarrow> length (sl_endpoints sl) = 31 \<and> uniq sl \<and> slot_senders sl \<subseteq> known w"

lemma evolves_refl: "tame w sl \<Longrightarrow> known w' = known w \<Longrightarrow> quiet w' = quiet w \<Longrightarrow> up w' = up w \<Longrightarrow> evolves w sl w' sl"
  by (auto simp: evolves_def tame_def)

lemma evolves_tame: "evolves w sl w' sl' \<Longrightarrow> tame w sl \<Longrightarrow> tame w' sl'"
  by (auto simp: evolves_def tame_def)

lemma evolves_trans:
  assumes "tame w sl" "evolves w sl w1 sl1" "evolves w1 sl1 w2 sl2"
  shows "evolves w sl w2 sl2"
proof -
  have "slot_senders sl2 \<subseteq> slot_senders sl \<union> (known w2 - known w)" "known w \<subseteq> known w2"
    using assms by (auto simp: evolves_def tame_def)
  moreover have "quiet w2 e = quiet w e" if "e \<in> known w - slot_senders sl" for e
  proof -
    have "e \<in> known w1 - slot_senders sl1" using that assms(1,2) by (auto simp: evolves_def tame_def)
    then show ?thesis using that assms(2,3) by (simp add: evolves_def)
  qed
  moreover have "quiet w2 e" if "e \<in> slot_senders sl \<inter> slot_senders sl2" "quiet w e" for e
  proof -
    have "e \<in> slot_senders sl1" using that assms by (auto simp: evolves_def tame_def)
    then show ?thesis using that assms(2,3) by (simp add: evolves_def)
  qed
  ultimately show ?thesis using assms(2,3) by (simp add: evolves_def)
qed

lemma evolves_state: "evolves w sl w' (sl'\<lparr>sl_state := st\<rparr>) = evolves w sl w' sl'"
  by (simp add: evolves_def slot_senders_def uniq_def)

lemma evolves_from_state: "evolves w (sl\<lparr>sl_state := st\<rparr>) w' sl' = evolves w sl w' sl'"
  by (simp add: evolves_def slot_senders_def uniq_def)

lemma tame_state: "tame w (sl\<lparr>sl_state := st\<rparr>) = tame w sl"
  by (simp add: tame_def slot_senders_def uniq_def)

lemma deconfigure_endpoint_spec:
  assumes "tame w sl" "deconfigure_endpoint env w sl ep = Inr (w', sl')" "1 \<le> unat ep" "unat ep \<le> 31"
  shows "evolves w sl w' sl' \<and> sl_endpoints sl' = (sl_endpoints sl)[unat ep - 1 := None] \<and> sl_state sl' = sl_state sl \<and>
    known w' = known w"
proof (cases "endpoint_sender sl ep")
  case None
  then have "sl_endpoints sl ! (unat ep - 1) = None"
    using endpoint_sender_Some [of sl ep] assms(1,3,4) by (auto simp: tame_def)
  then show ?thesis using assms None
    by (auto simp: deconfigure_endpoint_def intro: evolves_refl list_update_same_conv [THEN iffD2, symmetric] simp: tame_def)
next
  case (Some e)
  have len: "length (sl_endpoints sl) = 31" using assms(1) by (simp add: tame_def)
  let ?p = "unat ep - 1"
  have p: "?p < 31" "sl_endpoints sl ! ?p = Some e" using Some assms(3,4) endpoint_sender_Some [OF len] by auto
  obtain w1 ok where t: "env_terminate env w e = (w1, ok)" by force
  have r: "w' = w1" "sl' = sl\<lparr>sl_endpoints := (sl_endpoints sl)[?p := None]\<rparr>"
    using assms(2) Some t by (auto simp: deconfigure_endpoint_def one_put_eq len)
  note law = terminate_law [OF t]
  have gone: "x \<in> slot_senders sl' \<longleftrightarrow> x \<in> slot_senders sl \<and> x \<noteq> e" for x
  proof -
    have "q = ?p" if "q < 31" "sl_endpoints sl ! q = Some e" for q
      using that p assms(1) unfolding tame_def uniq_def by blast
    then have "q \<noteq> ?p \<longleftrightarrow> x \<noteq> e" if "q < 31" "sl_endpoints sl ! q = Some x" for q
      using that p(2) by (metis option.inject)
    moreover have "x \<in> slot_senders sl' \<longleftrightarrow> (\<exists>q < 31. q \<noteq> ?p \<and> sl_endpoints sl ! q = Some x)"
    proof -
      have "sl_endpoints sl' ! q = Some x \<longleftrightarrow> q \<noteq> ?p \<and> sl_endpoints sl ! q = Some x" for q
        using p(1) len unfolding r(2) by (cases "q = ?p") simp_all
      then show ?thesis using len unfolding r(2) by (simp add: slot_senders_nth conj_commute)
    qed
    ultimately show ?thesis using len by (auto simp: slot_senders_nth)
  qed
  have "uniq sl'" using assms(1) len p unfolding r(2) tame_def uniq_def by (auto simp: nth_list_update split: if_splits)
  moreover have e: "e \<in> slot_senders sl" using p len by (auto simp: slot_senders_nth)
  moreover have "quiet w1 x = quiet w x" if "x \<notin> slot_senders sl \<or> x \<in> slot_senders sl'" for x
  proof -
    have "x \<noteq> e" using that e by (auto simp: gone)
    then show ?thesis using law by blast
  qed
  ultimately show ?thesis using gone law r len by (simp add: evolves_def subset_iff)
qed

lemma deconfigure_all_spec:
  assumes "tame w sl" "deconfigure_all env w sl ids = Inr (w', sl')" "\<forall>i \<in> set ids. 1 \<le> unat i \<and> unat i \<le> 31"
  shows "evolves w sl w' sl' \<and> sl_state sl' = sl_state sl \<and>
    (\<forall>p < 31. sl_endpoints sl' ! p = (if \<exists>i \<in> set ids. unat i = p + 1 then None else sl_endpoints sl ! p))"
  using assms
proof (induction ids arbitrary: w sl)
  case Nil
  then show ?case by (auto intro: evolves_refl)
next
  case (Cons i ids)
  obtain w1 sl1 where s: "deconfigure_endpoint env w sl i = Inr (w1, sl1)" "deconfigure_all env w1 sl1 ids = Inr (w', sl')"
    using Cons.prems(2) by auto
  have one: "evolves w sl w1 sl1" "sl_endpoints sl1 = (sl_endpoints sl)[unat i - 1 := None]" "sl_state sl1 = sl_state sl"
    using deconfigure_endpoint_spec [OF Cons.prems(1) s(1)] Cons.prems(3) by auto
  have t: "tame w1 sl1" using evolves_tame [OF one(1) Cons.prems(1)] .
  have "evolves w sl w' sl'" using Cons.IH [OF t s(2)] Cons.prems evolves_trans [OF Cons.prems(1) one(1)] by simp
  moreover have "sl_endpoints sl' ! p = (if \<exists>j \<in> set (i # ids). unat j = p + 1 then None else sl_endpoints sl ! p)"
    if "p < 31" for p
    using Cons.IH [OF t s(2)] Cons.prems(1,3) that one(2) by (auto simp: nth_list_update tame_def)
  ultimately show ?case using Cons.IH [OF t s(2)] Cons.prems(3) one(3) by simp
qed

lemma configure_endpoint_spec:
  assumes "tame w sl" "configure_endpoint env w sl ep b = Inr (w', sl')"
  shows "1 \<le> unat ep \<and> unat ep \<le> 31 \<and> evolves w sl w' sl' \<and> sl_state sl' = sl_state sl \<and>
    (\<exists>e. sl_endpoints sl' = (sl_endpoints sl)[unat ep - 1 := Some e])"
proof -
  have len: "length (sl_endpoints sl) = 31" using assms(1) by (simp add: tame_def)
  obtain port where "root_hub_port env w b = Inr port" using assms(2) by (auto simp: configure_endpoint_def)
  moreover obtain w1 sender where l1: "env_launch env w (sl_id sl) ep port (b + ucast ep * 32) = (w1, sender)" by force
  ultimately obtain e where l: "env_launch env w (sl_id sl) ep port (b + ucast ep * 32) = (w', Some e)"
    and p: "1 \<le> unat ep" "unat ep \<le> 31" and sl': "sl' = sl\<lparr>sl_endpoints := (sl_endpoints sl)[unat ep - 1 := Some e]\<rparr>"
    using assms(2) by (auto simp: configure_endpoint_def one_put_eq len)
  note law = launch_law [OF l]
  have fresh: "e \<notin> slot_senders sl" using law assms(1) by (auto simp: tame_def)
  have sub: "slot_senders sl' \<subseteq> insert e (slot_senders sl)"
    using set_update_subset_insert unfolding sl' slot_senders_def by fastforce
  have "uniq sl'" using assms(1) fresh len p unfolding sl' tame_def uniq_def
    by (auto simp: nth_list_update slot_senders_nth split: if_splits)
  then have "evolves w sl w' sl'" using law sub fresh len assms(1) by (auto simp: evolves_def sl' tame_def)
  then show ?thesis using p sl' by auto
qed

lemma dma_copy_keeps:
  "dma_copy_slot_context env w icp b = Inr w' \<Longrightarrow> known w' = known w \<and> quiet w' = quiet w \<and> up w' = up w"
  "dma_copy_ep_context env w ep icp b = Inr w' \<Longrightarrow> known w' = known w \<and> quiet w' = quiet w \<and> up w' = up w"
  "write_slot_state env w sl = Inr w' \<Longrightarrow> known w' = known w \<and> quiet w' = quiet w \<and> up w' = up w"
  by (auto simp: dma_copy_slot_context_def dma_copy_ep_context_def write_slot_state_def
      dest: write_keeps write_bulk_keeps split: prod.splits)

lemma configure_all_spec:
  assumes "tame w sl" "configure_all env icp b w sl ids = Inr (w', sl')"
  shows "evolves w sl w' sl' \<and> sl_state sl' = sl_state sl \<and>
    (\<forall>p < 31. (\<forall>i \<in> set ids. unat i \<noteq> p + 1) \<longrightarrow> sl_endpoints sl' ! p = sl_endpoints sl ! p)"
  using assms
proof (induction ids arbitrary: w sl)
  case Nil
  then show ?case by (auto intro: evolves_refl)
next
  case (Cons i ids)
  obtain w0 w1 sl1 where s: "dma_copy_ep_context env w i icp b = Inr w0" "configure_endpoint env w0 sl i b = Inr (w1, sl1)"
    "configure_all env icp b w1 sl1 ids = Inr (w', sl')"
    using Cons.prems(2) by auto
  have k: "known w0 = known w" "quiet w0 = quiet w" "up w0 = up w" using dma_copy_keeps(2) [OF s(1)] by auto
  have t0: "tame w0 sl" using Cons.prems(1) k by (simp add: tame_def)
  obtain e where one: "1 \<le> unat i" "unat i \<le> 31" "evolves w0 sl w1 sl1" "sl_state sl1 = sl_state sl"
    "sl_endpoints sl1 = (sl_endpoints sl)[unat i - 1 := Some e]"
    using configure_endpoint_spec [OF t0 s(2)] by auto
  have ev: "evolves w sl w1 sl1" using one(3) k by (simp add: evolves_def)
  have t: "tame w1 sl1" using evolves_tame [OF ev Cons.prems(1)] .
  have "sl_endpoints sl' ! p = sl_endpoints sl ! p" if "p < 31" "\<forall>j \<in> set (i # ids). unat j \<noteq> p + 1" for p
    using Cons.IH [OF t s(3)] that one by (auto simp: nth_list_update)
  then show ?case using Cons.IH [OF t s(3)] evolves_trans [OF Cons.prems(1) ev] one(4) by simp
qed

text \<open>What a handler does to its slot.\<close>

definition handled :: "slot_command \<Rightarrow> 'w \<Rightarrow> 'e slot \<Rightarrow> ('w \<times> 'e slot \<times> completion_code) res \<Rightarrow> bool" where
  "handled k w sl r \<longleftrightarrow> (\<forall>w' sl' code. r = Inr (w', sl', code) \<longrightarrow>
     evolves w sl w' sl' \<and> state_ok (sl_state sl') (sl_endpoints sl') \<and>
     slot_diagram (abs_slot_state (sl_state sl)) k = (abs_slot_state (sl_state sl'), code))"

lemma slot_ok_tame: "slot_ok i sl \<Longrightarrow> slot_senders sl \<subseteq> known w \<Longrightarrow> tame w sl"
  by (simp add: slot_ok_def tame_def)

lemma address_spec:
  assumes "tame w sl" "\<forall>p. 1 \<le> p \<and> p < 31 \<longrightarrow> sl_endpoints sl ! p = None"
    "rbind (dma_copy_slot_context env w icp b) (\<lambda>w.
     rbind (write_slot_state env w sl) (\<lambda>w.
     rbind (dma_copy_ep_context env w 1 icp b) (\<lambda>w.
     rbind (configure_endpoint env w sl 1 b) (\<lambda>(w, sl). Inr (w, sl, Success))))) = Inr (w', sl', code)"
  shows "evolves w sl w' sl' \<and> sl_state sl' = sl_state sl \<and> code = Success \<and> sl_endpoints sl' ! 0 \<noteq> None \<and>
    (\<forall>p. 1 \<le> p \<and> p < 31 \<longrightarrow> sl_endpoints sl' ! p = None)"
proof -
  obtain w1 w2 w3 where w: "dma_copy_slot_context env w icp b = Inr w1" "write_slot_state env w1 sl = Inr w2"
    "dma_copy_ep_context env w2 1 icp b = Inr w3" and c: "configure_endpoint env w3 sl 1 b = Inr (w', sl')" "code = Success"
    using assms(3) by auto
  have k: "known w3 = known w" "quiet w3 = quiet w" "up w3 = up w"
    using dma_copy_keeps(1) [OF w(1)] dma_copy_keeps(3) [OF w(2)] dma_copy_keeps(2) [OF w(3)] by simp_all
  then have "tame w3 sl" using assms(1) by (simp add: tame_def)
  from configure_endpoint_spec [OF this c(1)]
  have "evolves w3 sl w' sl'" "sl_state sl' = sl_state sl" "\<exists>e. sl_endpoints sl' = (sl_endpoints sl)[0 := Some e]" by auto
  then show ?thesis using k assms(1,2) c(2) by (auto simp: evolves_def tame_def)
qed

lemma handle_address_device_spec:
  assumes "slot_ok i sl" "slot_senders sl \<subseteq> known w"
  shows "handled (AddressCommand bsr) w sl (handle_address_device env w sl icp bsr)"
  unfolding handled_def
proof (intro allI impI)
  fix w' sl' code assume h: "handle_address_device env w sl icp bsr = Inr (w', sl', code)"
  have t: "tame w sl" using slot_ok_tame [OF assms] .
  have st: "state_ok (sl_state sl) (sl_endpoints sl)" using assms(1) by (simp add: slot_ok_def)
  show "evolves w sl w' sl' \<and> state_ok (sl_state sl') (sl_endpoints sl') \<and>
     slot_diagram (abs_slot_state (sl_state sl)) (AddressCommand bsr) = (abs_slot_state (sl_state sl'), code)"
  proof (cases "sl_state sl")
    case SlotEnabled
    then obtain b where "rbind (dma_copy_slot_context env w icp b) (\<lambda>w'.
       rbind (write_slot_state env w' (sl\<lparr>sl_state := if bsr then SlotDefault b else SlotAddressed b\<rparr>)) (\<lambda>w.
       rbind (dma_copy_ep_context env w 1 icp b) (\<lambda>w.
       rbind (configure_endpoint env w (sl\<lparr>sl_state := if bsr then SlotDefault b else SlotAddressed b\<rparr>) 1 b)
         (\<lambda>(w, sl). Inr (w, sl, Success))))) = Inr (w', sl', code)"
      using h by (auto simp: handle_address_device_def check_slot_and_ep0_input_context_def Let_def simp del: rbind_Inr_iff
          elim: rbind_Inr_iff [THEN iffD1, THEN exE])
    from address_spec [OF _ _ this] show ?thesis using t st SlotEnabled
      by (cases bsr) (auto simp: tame_state evolves_from_state)
  next
    case (SlotDefault b)
    show ?thesis
    proof (cases bsr)
      case True
      then show ?thesis using h SlotDefault t st
        by (auto simp: handle_address_device_def check_slot_and_ep0_input_context_def Let_def intro: evolves_refl)
    next
      case False
      then obtain w1 sl1 where d: "deconfigure_endpoint env w sl 1 = Inr (w1, sl1)"
        and a: "rbind (dma_copy_slot_context env w1 icp b) (\<lambda>w.
       rbind (write_slot_state env w (sl1\<lparr>sl_state := SlotAddressed b\<rparr>)) (\<lambda>w.
       rbind (dma_copy_ep_context env w 1 icp b) (\<lambda>w.
       rbind (configure_endpoint env w (sl1\<lparr>sl_state := SlotAddressed b\<rparr>) 1 b)
         (\<lambda>(w, sl). Inr (w, sl, Success))))) = Inr (w', sl', code)"
        using h SlotDefault
        by (auto simp: handle_address_device_def check_slot_and_ep0_input_context_def Let_def)
      have one: "evolves w sl w1 sl1" "sl_endpoints sl1 = (sl_endpoints sl)[0 := None]" "sl_state sl1 = sl_state sl"
        using deconfigure_endpoint_spec [OF t d] by auto
      have t1: "tame w1 (sl1\<lparr>sl_state := SlotAddressed b\<rparr>)" using evolves_tame [OF one(1) t] by (simp add: tame_state)
      have "\<forall>p. 1 \<le> p \<and> p < 31 \<longrightarrow> sl_endpoints (sl1\<lparr>sl_state := SlotAddressed b\<rparr>) ! p = None"
        using st SlotDefault one(2) by simp
      from address_spec [OF t1 this a] show ?thesis
        using SlotDefault False evolves_trans [OF t one(1)] by (auto simp: evolves_from_state)
    qed
  qed (use h t st in \<open>auto simp: handle_address_device_def check_slot_and_ep0_input_context_def Let_def intro: evolves_refl\<close>)
qed

lemma finish_keeps: "evolves w sl w' sl' \<Longrightarrow> write_slot_state env w' x = Inr w'' \<Longrightarrow> evolves w sl w'' sl'"
  using dma_copy_keeps(3) by (auto simp: evolves_def)

lemma deconfigure_rest:
  assumes "tame w sl" "deconfigure_all env w sl endpoint_ids = Inr (w', sl')" "sl_endpoints sl ! 0 \<noteq> None"
  shows "evolves w sl w' sl' \<and> sl_state sl' = sl_state sl \<and> sl_endpoints sl' ! 0 \<noteq> None \<and>
    (\<forall>p. 1 \<le> p \<and> p < 31 \<longrightarrow> sl_endpoints sl' ! p = None)"
proof -
  have "\<forall>i \<in> set endpoint_ids. 1 \<le> unat i \<and> unat i \<le> 31" using endpoint_ids_range by fastforce
  from deconfigure_all_spec [OF assms(1,2) this] show ?thesis using assms(3) unfolding in_endpoint_ids by simp
qed

lemma handle_reset_device_spec:
  assumes "slot_ok i sl" "slot_senders sl \<subseteq> known w"
  shows "handled ResetSlotCommand w sl (handle_reset_device env w sl)"
proof -
  have t: "tame w sl" using slot_ok_tame [OF assms] .
  have st: "state_ok (sl_state sl) (sl_endpoints sl)" using assms(1) by (simp add: slot_ok_def)
  have change: "evolves w sl w' (sl1\<lparr>sl_state := SlotDefault b\<rparr>) \<and> sl_endpoints sl1 ! 0 \<noteq> None \<and>
      (\<forall>p. 1 \<le> p \<and> p < 31 \<longrightarrow> sl_endpoints sl1 ! p = None)"
    if "deconfigure_all env w sl endpoint_ids = Inr (w1, sl1)" "write_slot_state env w1 x = Inr w'" "sl_endpoints sl ! 0 \<noteq> None"
    for w1 sl1 x w' b
    using deconfigure_rest [OF t that(1,3)] finish_keeps that(2) by (auto simp: evolves_state)
  show ?thesis using st t change unfolding handled_def handle_reset_device_def Let_def
    by (cases "sl_state sl") (force intro: evolves_refl)+
qed

lemma handle_configure_endpoint_spec:
  assumes "slot_ok i sl" "slot_senders sl \<subseteq> known w"
  shows "handled (ConfigureCommand dc) w sl (handle_configure_endpoint env w sl icp dc)"
proof -
  have t: "tame w sl" using slot_ok_tame [OF assms] .
  have st: "state_ok (sl_state sl) (sl_endpoints sl)" using assms(1) by (simp add: slot_ok_def)
  have some: "evolves w sl w' (sl2\<lparr>sl_state := SlotConfigured b\<rparr>) \<and> sl_endpoints sl2 ! 0 \<noteq> None"
    if d: "deconfigure_all env w sl [i\<leftarrow>endpoint_ids. P i] = Inr (w1, sl1)"
      and c: "configure_all env icp b w1 sl1 [i\<leftarrow>endpoint_ids. Q i] = Inr (w2, sl2)"
      and s: "write_slot_state env w2 x = Inr w'" and z: "sl_endpoints sl ! 0 \<noteq> None" for P Q w1 sl1 w2 sl2 x w' b
  proof -
    have r: "\<forall>i \<in> set [i\<leftarrow>endpoint_ids. P i]. 1 \<le> unat i \<and> unat i \<le> 31" "\<forall>i \<in> set [i\<leftarrow>endpoint_ids. P i]. unat i \<noteq> 0 + 1"
      "\<forall>i \<in> set [i\<leftarrow>endpoint_ids. Q i]. unat i \<noteq> 0 + 1" using endpoint_ids_range by fastforce+
    have one: "evolves w sl w1 sl1" "sl_endpoints sl1 ! 0 \<noteq> None"
      using deconfigure_all_spec [OF t d r(1)] r(2) z by auto
    have "evolves w1 sl1 w2 sl2" "sl_endpoints sl2 ! 0 \<noteq> None"
      using configure_all_spec [OF evolves_tame [OF one(1) t] c] r(3) one(2) by auto
    then show ?thesis using finish_keeps [OF evolves_trans [OF t one(1)] s] by (simp add: evolves_state)
  qed
  have all: "evolves w sl w' (sl1\<lparr>sl_state := SlotAddressed b\<rparr>) \<and> sl_endpoints sl1 ! 0 \<noteq> None \<and>
      (\<forall>p. 1 \<le> p \<and> p < 31 \<longrightarrow> sl_endpoints sl1 ! p = None)"
    if "deconfigure_all env w sl endpoint_ids = Inr (w1, sl1)" "write_slot_state env w1 x = Inr w'" "sl_endpoints sl ! 0 \<noteq> None"
    for w1 sl1 x w' b
    using deconfigure_rest [OF t that(1,3)] finish_keeps that(2) by (auto simp: evolves_state)
  have change: "evolves w sl w' sl' \<and> state_ok (sl_state sl') (sl_endpoints sl') \<and> code = Success \<and>
      abs_slot_state (sl_state sl') = (if dc then Addressed else Configured)"
    if "handle_configure_endpoint env w sl icp dc = Inr (w', sl', code)" "sl_endpoints sl ! 0 \<noteq> None"
      "sl_state sl = SlotAddressed b \<or> sl_state sl = SlotConfigured b" for w' sl' code b
  proof (cases dc)
    case True
    then show ?thesis using that all by (fastforce simp: handle_configure_endpoint_def Let_def)
  next
    case False
    then show ?thesis using that by (auto simp: handle_configure_endpoint_def Let_def dest!: some)
  qed
  show ?thesis unfolding handled_def
  proof (intro allI impI)
    fix w' sl' code assume h: "handle_configure_endpoint env w sl icp dc = Inr (w', sl', code)"
    show "evolves w sl w' sl' \<and> state_ok (sl_state sl') (sl_endpoints sl') \<and>
      slot_diagram (abs_slot_state (sl_state sl)) (ConfigureCommand dc) = (abs_slot_state (sl_state sl'), code)"
    proof (cases "sl_state sl")
      case (SlotAddressed b) then show ?thesis using change [OF h, of b] st by auto
    next
      case (SlotConfigured b) then show ?thesis using change [OF h, of b] st by auto
    qed (use h t st in \<open>auto simp: handle_configure_endpoint_def Let_def intro: evolves_refl\<close>)
  qed
qed

lemma handle_evaluate_context_spec:
  assumes "slot_ok i sl" "slot_senders sl \<subseteq> known w"
  shows "handled EvaluateCommand w sl (handle_evaluate_context w sl icp)"
  using slot_ok_tame [OF assms] assms(1)
  by (cases "sl_state sl") (auto simp: handled_def handle_evaluate_context_def slot_ok_def intro: evolves_refl)

lemma terminate_all_spec:
  "terminate_all env w es = (w', answered) \<Longrightarrow>
    known w' = known w \<and> (\<forall>e. e \<notin> set es \<longrightarrow> quiet w' e = quiet w e)"
proof (induction es arbitrary: w answered)
  case (Cons e es)
  obtain w1 a b where s: "env_terminate env w e = (w1, a)" "terminate_all env w1 es = (w', b)"
    using Cons.prems by (auto split: prod.splits)
  show ?case using Cons.IH [OF s(2)] terminate_law [OF s(1)] by simp
qed simp

lemma pre_drop_spec:
  "pre_drop env w sl = (w', answered) \<Longrightarrow>
    known w' = known w \<and> (\<forall>e. e \<notin> slot_senders sl \<longrightarrow> quiet w' e = quiet w e)"
  using terminate_all_spec [of w "List.map_filter (\<lambda>e. e) (sl_endpoints sl)" w' answered]
  by (simp add: pre_drop_def set_present slot_senders_def)

lemma drop_all_known: "drop_all env w sls = (w', ok) \<Longrightarrow> known w' = known w"
proof (induction sls arbitrary: w ok)
  case (Cons x sls)
  then show ?case using pre_drop_spec by (cases x) (fastforce split: prod.splits)+
qed simp

lemma on_slot_ok:
  assumes "slots_ok (known w) s" "on_slot alive w s sid c f = Inr (w', s', out)"
    "\<And>sl. slot_ok (unat sid) sl \<Longrightarrow> slot_senders sl \<subseteq> known w \<Longrightarrow> \<exists>k. handled k w sl (f sl)"
  shows "slots_ok (known w') s'"
proof (cases "slot_ref s sid")
  case None then show ?thesis using assms(1,2) by (auto simp: on_slot_def answer_def)
next
  case (Some sl)
  note r = slots_ok_ref [OF assms(1) Some]
  have len: "length (sw_slots s) = MAX_SLOTS" using assms(1) by (simp add: slots_ok_def)
  obtain k where k: "handled k w sl (f sl)" using assms(3) [OF r(4,5)] by blast
  obtain sl' code where f: "f sl = Inr (w', sl', code)" and s': "sw_slots s' = (sw_slots s)[unat sid - 1 := Some sl']"
    "sw_config s' = sw_config s"
    using assms(2) Some len by (auto simp: on_slot_def answer_def one_put_eq MAX_SLOTS_def)
  have e: "evolves w sl w' sl'" "state_ok (sl_state sl') (sl_endpoints sl')" using k f by (auto simp: handled_def)
  have "slot_ok (unat sid) sl'" using e r(4) by (simp add: slot_ok_def evolves_def)
  moreover have "slot_senders sl' \<subseteq> known w'" "slot_senders sl' \<inter> known w \<subseteq> slot_senders sl" "known w \<subseteq> known w'"
    using e(1) r(5) by (auto simp: evolves_def)
  ultimately show ?thesis using r(1,2,3) by (intro slots_update [OF assms(1) r(1) _ s'(2,1)]) auto
qed

lemma disable_slot_ok:
  assumes "slots_ok (known w) s" "disable_slot env w s sid = Inr (w', s', code)"
  shows "slots_ok (known w') s'"
proof (cases "slot_ref s sid")
  case None then show ?thesis using assms by (auto simp: disable_slot_def)
next
  case (Some sl)
  obtain w1 ok where d: "pre_drop env w sl = (w1, ok)" by force
  have len: "length (sw_slots s) = MAX_SLOTS" using assms(1) by (simp add: slots_ok_def)
  have s': "w' = w1" "sw_slots s' = (sw_slots s)[unat sid - 1 := None]" "sw_config s' = sw_config s"
    using assms(2) Some d len by (auto simp: disable_slot_def one_put_eq MAX_SLOTS_def)
  show ?thesis using slots_ok_ref [OF assms(1) Some] pre_drop_spec [OF d] s'
    by (intro slots_update [OF assms(1) _ _ s'(3,2)]) auto
qed

lemma on_endpoint_ok:
  "slots_ok (known w) s \<Longrightarrow> on_endpoint env alive w s sid ep c msg = Inr (w', s', out) \<Longrightarrow> slots_ok (known w') s'"
  "slots_ok (known w) s \<Longrightarrow> slot_doorbell env w s sid ep = Inr (w', s', out2) \<Longrightarrow> slots_ok (known w') s'"
  by (auto simp: on_endpoint_def slot_doorbell_def answer_def dest: send_law split: option.splits prod.splits)

lemma reset_slots_ok:
  assumes "slots_ok (known w) s" "reset_slots env w s = Inr (w', s')"
  shows "slots_ok (known w') s'"
  using assms by (auto simp: reset_slots_def slots_ok_def num_slots_enabled_def dest: drop_all_known split: prod.splits)

lemma config_write_le: "config_write v = Inr v' \<Longrightarrow> unat (num_slots_enabled v') \<le> MAX_SLOTS"
  by (auto simp: config_write_def num_slots_enabled_def)

text \<open>Every message and every register write keeps the invariant.\<close>

lemma slot_step_ok:
  assumes "slots_ok (known w) s" "slot_step env alive w s msg = Inr (w', s', out)"
  shows "slots_ok (known w') s'"
proof (cases msg)
  case (EnableSlotMsg c)
  obtain s1 r where "allocate_slot s = Inr (s1, r)" "w' = w" "s' = s1"
    using assms(2) unfolding EnableSlotMsg by (auto simp: answer_def)
  then show ?thesis using assms(1) allocate_slot_ok by simp
next
  case (DisableSlotMsg sid c)
  obtain code where "disable_slot env w s sid = Inr (w', s', code)"
    using assms(2) unfolding DisableSlotMsg by (auto simp: answer_def)
  then show ?thesis using assms(1) disable_slot_ok by blast
next
  case (AddressDeviceMsg d c)
  show ?thesis using handle_address_device_spec
    by (intro on_slot_ok [OF assms(1) assms(2) [unfolded AddressDeviceMsg slot_step.simps]]) blast
next
  case (ConfigureEndpointMsg d c)
  show ?thesis using handle_configure_endpoint_spec
    by (intro on_slot_ok [OF assms(1) assms(2) [unfolded ConfigureEndpointMsg slot_step.simps]]) blast
next
  case (EvaluateContextMsg d c)
  show ?thesis using handle_evaluate_context_spec
    by (intro on_slot_ok [OF assms(1) assms(2) [unfolded EvaluateContextMsg slot_step.simps]]) blast
next
  case (ResetDeviceMsg sid c)
  show ?thesis using handle_reset_device_spec
    by (intro on_slot_ok [OF assms(1) assms(2) [unfolded ResetDeviceMsg slot_step.simps]]) blast
next
  case (ResetAllSlots c)
  obtain s1 w1 where "reset_slots env w s = Inr (w1, s1)" "w' = w1" "s' = s1"
    using assms(2) unfolding ResetAllSlots by (auto simp: answer_def)
  then show ?thesis using assms(1) reset_slots_ok by blast
next
  case (SlotDoorbell sid ep)
  show ?thesis using on_endpoint_ok(2) [OF assms(1) assms(2) [unfolded SlotDoorbell slot_step.simps]] .
next
  case (StopEndpointMsg sid ep c)
  show ?thesis using on_endpoint_ok(1) [OF assms(1) assms(2) [unfolded StopEndpointMsg slot_step.simps]] .
next
  case (ResetEndpointMsg sid ep c)
  show ?thesis using on_endpoint_ok(1) [OF assms(1) assms(2) [unfolded ResetEndpointMsg slot_step.simps]] .
next
  case (SetDequeueMsg d c)
  show ?thesis using on_endpoint_ok(1) [OF assms(1) assms(2) [unfolded SetDequeueMsg slot_step.simps]] .
qed

lemma slot_run_ok:
  "slots_ok (known w) s \<Longrightarrow> slot_run env w s as = Inr (w', s', out) \<Longrightarrow> slots_ok (known w') s'"
proof (induction as arbitrary: w s out)
  case (Cons a as)
  obtain w1 s1 o1 o2 where a: "slot_act env w s a = Inr (w1, s1, o1)" and r: "slot_run env w1 s1 as = Inr (w', s', o2)"
    using Cons.prems(2) by auto
  have "slots_ok (known w1) s1"
  proof (cases a)
    case (SlotMsg msg alive)
    show ?thesis using slot_step_ok [OF Cons.prems(1) a [unfolded SlotMsg slot_act.simps]] .
  next
    case (ConfigWrite v)
    obtain v' where "config_write v = Inr v'" "w1 = w" "s1 = s\<lparr>sw_config := v'\<rparr>" using a ConfigWrite by auto
    then show ?thesis using Cons.prems(1) config_write_le [of v v'] by (simp add: slots_ok_def)
  next
    case (DcbaapWrite v)
    then have "w1 = w" "s1 = s\<lparr>sw_dcbaap := dcbaap_write v\<rparr>" using a by auto
    then show ?thesis using Cons.prems(1) by (simp add: slots_ok_def)
  qed
  then show ?case using Cons.IH r by blast
qed simp

text \<open>A slot whose endpoints are all quiet.\<close>

definition all_quiet :: "'w \<Rightarrow> 'e slot \<Rightarrow> bool" where
  "all_quiet w sl \<longleftrightarrow> (\<forall>e \<in> slot_senders sl. quiet w e)"

lemma evolves_quiet: "evolves w sl w' sl' \<Longrightarrow> known w' = known w \<Longrightarrow> all_quiet w sl \<Longrightarrow> all_quiet w' sl'"
  by (auto simp: evolves_def all_quiet_def)

end

end
