(* ===== verification/SlotService.thy ===== *)
theory SlotService
  imports SlotSpec
begin

text \<open>
  When the slot worker can serve a command. The contract \<open>endpoint_service\<close> says what stays as it is; the
  contract \<open>served_slots\<close> extends it by what succeeds: guest memory can be accessed below its limit while
  it is in order, an endpoint that waits for work answers its termination, and a launcher that is up
  starts an endpoint whose context can be accessed. All its laws are about the state at hand.
\<close>

section \<open>Where a command looks\<close>

text \<open>The base of the device context: in the state of the slot, or in its DCBAA entry while it is only enabled.\<close>

definition slot_base :: "('w, 'e, 'c) slot_env \<Rightarrow> 'w \<Rightarrow> 'e slot \<Rightarrow> u64 res" where
  "slot_base env w sl =
     (case sl_state sl of
        SlotEnabled \<Rightarrow> dev_read (env_dma env) w (request_new (sl_dcbaae sl) Size8)
      | SlotDefault b \<Rightarrow> Inr b
      | SlotAddressed b \<Rightarrow> Inr b
      | SlotConfigured b \<Rightarrow> Inr b)"

text \<open>
  The input context (33 entries of 32 bytes) and the device context (32 entries) end below the limit of
  guest memory. Two commands look at neither.
\<close>

definition contexts_fit :: "nat \<Rightarrow> ('w, 'e, 'c) slot_env \<Rightarrow> 'w \<Rightarrow> 'e slot \<Rightarrow> u64 \<Rightarrow> bool" where
  "contexts_fit lim env w sl icp \<longleftrightarrow>
     unat icp + 1056 \<le> lim \<and> (case slot_base env w sl of Inr b \<Rightarrow> unat b + 1024 \<le> lim | Inl _ \<Rightarrow> False)"

definition uses_contexts :: "slot_command \<Rightarrow> bool" where
  "uses_contexts k \<longleftrightarrow> k \<noteq> DisableCommand \<and> k \<noteq> EvaluateCommand"

lemma unat_ep_offset:
  assumes "unat (ep :: u8) \<le> 31"
  shows "unat (ucast ep * 32 :: u64) = unat ep * 32" "unat ((ucast ep + 1) * 32 :: u64) = (unat ep + 1) * 32"
proof -
  have e: "unat (ucast ep :: u64) = unat ep" using assms by (simp add: unsigned_ucast_eq take_bit_nat_eq_self)
  then show "unat (ucast ep * 32 :: u64) = unat ep * 32" using assms by (simp add: unat_mult_lem [THEN iffD1])
  have "unat (ucast ep + 1 :: u64) = unat ep + 1" using e assms by (subst unat_add_lt) simp_all
  then show "unat ((ucast ep + 1) * 32 :: u64) = (unat ep + 1) * 32"
    using assms unat_mult_lem [of "ucast ep + 1 :: u64" 32] by simp
qed

section \<open>The contract\<close>

locale served_slots =
  endpoint_service env known quiet up + accessible_memory "env_dma env" safe limit
  for env :: "('w, 'e, 'c) slot_env" and known :: "'w \<Rightarrow> 'e set" and quiet :: "'w \<Rightarrow> 'e \<Rightarrow> bool"
    and up :: "'w \<Rightarrow> bool" and safe :: "'w \<Rightarrow> bool" and limit :: nat +
  assumes terminate_ok:
    "safe w \<Longrightarrow> e \<in> known w \<Longrightarrow> quiet w e \<Longrightarrow> env_terminate env w e = (w', answered) \<Longrightarrow> answered \<and> safe w'"
    and launch_safe: "safe w \<Longrightarrow> env_launch env w i ep port ctx = (w', Some e) \<Longrightarrow> safe w'"
    and launch_up: "safe w \<Longrightarrow> up w \<Longrightarrow> unat ctx + 16 \<le> limit \<Longrightarrow> \<exists>w' e. env_launch env w i ep port ctx = (w', Some e)"
begin

text \<open>Accesses to the contexts.\<close>

lemma copy_slot_total:
  "safe w \<Longrightarrow> unat icp + 1056 \<le> limit \<Longrightarrow> unat b + 1024 \<le> limit \<Longrightarrow>
    \<exists>w'. dma_copy_slot_context env w icp b = Inr w' \<and> safe w'"
  using copy_at [of w icp 1056 32 b 1024 0] by (simp add: dma_copy_slot_context_def)

lemma copy_ep_total:
  assumes "safe w" "unat icp + 1056 \<le> limit" "unat b + 1024 \<le> limit" "unat ep \<le> 31"
  shows "\<exists>w'. dma_copy_ep_context env w ep icp b = Inr w' \<and> safe w'"
proof -
  have "unat ((ucast ep + 1) * 32 :: u64) + 32 \<le> 1056" "unat (ucast ep * 32 :: u64) + 32 \<le> 1024"
    unfolding unat_ep_offset [OF assms(4)] using assms(4) by simp_all
  then show ?thesis unfolding dma_copy_ep_context_def using assms(1-3) by (intro copy_at)
qed

lemma write_state_total:
  "safe w \<Longrightarrow> unat b + 1024 \<le> limit \<Longrightarrow> sl_state sl \<in> {SlotDefault b, SlotAddressed b, SlotConfigured b} \<Longrightarrow>
    \<exists>w'. write_slot_state env w sl = Inr w' \<and> safe w'"
  using write_at [of w b 1024 15 Size1] by (auto simp: write_slot_state_def)

lemma root_hub_port_total: "safe w \<Longrightarrow> unat b + 1024 \<le> limit \<Longrightarrow> \<exists>p. root_hub_port env w b = Inr p"
  using read_at [of w b 1024 6 Size1] by (auto simp: root_hub_port_def)

text \<open>Endpoints that wait for work can be released.\<close>

lemma deconfigure_endpoint_total:
  assumes "safe w" "tame w sl" "all_quiet w sl" "1 \<le> unat ep" "unat ep \<le> 31"
  shows "\<exists>w' sl'. deconfigure_endpoint env w sl ep = Inr (w', sl') \<and> safe w'"
proof (cases "endpoint_sender sl ep")
  case None then show ?thesis using assms(1) by (simp add: deconfigure_endpoint_def)
next
  case (Some e)
  obtain w1 answered where t: "env_terminate env w e = (w1, answered)" by force
  have len: "length (sl_endpoints sl) = 31" using assms(2) by (simp add: tame_def)
  have "unat ep - 1 < 31" "sl_endpoints sl ! (unat ep - 1) = Some e" using endpoint_sender_Some [OF len, of ep e] Some by auto
  then have "e \<in> slot_senders sl" using slot_senders_nth [OF len] by blast
  then have "answered \<and> safe w1" using terminate_ok [OF assms(1) _ _ t] assms(2,3) by (auto simp: tame_def all_quiet_def)
  then show ?thesis using Some t assms(4,5) len by (simp add: deconfigure_endpoint_def one_put_eq)
qed

lemma deconfigure_all_total:
  "safe w \<Longrightarrow> tame w sl \<Longrightarrow> all_quiet w sl \<Longrightarrow> \<forall>i \<in> set ids. 1 \<le> unat i \<and> unat i \<le> 31 \<Longrightarrow>
    \<exists>w' sl'. deconfigure_all env w sl ids = Inr (w', sl') \<and> safe w'"
proof (induction ids arbitrary: w sl)
  case (Cons i ids)
  have i: "1 \<le> unat i" "unat i \<le> 31" using Cons.prems(4) by simp_all
  obtain w1 sl1 where d: "deconfigure_endpoint env w sl i = Inr (w1, sl1)" "safe w1"
    using deconfigure_endpoint_total [OF Cons.prems(1-3) i] by blast
  have "evolves w sl w1 sl1" "known w1 = known w" using deconfigure_endpoint_spec [OF Cons.prems(2) d(1)] i by simp_all
  then have "\<exists>w' sl'. deconfigure_all env w1 sl1 ids = Inr (w', sl') \<and> safe w'"
    using Cons.IH [of w1 sl1] evolves_tame [of w sl w1 sl1] evolves_quiet [of w sl w1 sl1] Cons.prems d(2) by simp
  then show ?case using d(1) by simp
qed simp

text \<open>A command fails only when the launcher does not answer, and keeps guest memory in order.\<close>

definition fine :: "'w \<Rightarrow> ('w \<times> 'x) res \<Rightarrow> bool" where
  "fine w r \<longleftrightarrow> (\<exists>w' x. r = Inr (w', x) \<and> safe w') \<or> r = Inl ChannelClosed \<and> \<not> up w"

lemma configure_endpoint_total:
  assumes "safe w" "unat b + 1024 \<le> limit" "length (sl_endpoints sl) = 31" "1 \<le> unat ep" "unat ep \<le> 31"
  shows "fine w (configure_endpoint env w sl ep b)"
proof -
  obtain p where p: "root_hub_port env w b = Inr p" using root_hub_port_total [OF assms(1,2)] by blast
  obtain w' sender where l: "env_launch env w (sl_id sl) ep p (b + ucast ep * 32) = (w', sender)" by force
  have "unat (b + ucast ep * 32) + 16 \<le> limit"
    using offset_fits [of b 1024 "ucast ep * 32"] unat_ep_offset(1) [OF assms(5)] assms(2,5) by simp
  then have "sender \<noteq> None \<or> \<not> up w" using launch_up [OF assms(1), of "b + ucast ep * 32" "sl_id sl" ep p] l by auto
  moreover have "safe w'" if "sender = Some e" for e using launch_safe [OF assms(1)] l that by blast
  ultimately show ?thesis using p l assms(3-5)
    by (cases sender) (simp_all add: configure_endpoint_def one_put_eq fine_def)
qed

lemma configure_all_total:
  assumes "unat icp + 1056 \<le> limit" "unat b + 1024 \<le> limit" "safe w" "tame w sl" "\<forall>i \<in> set ids. 1 \<le> unat i \<and> unat i \<le> 31"
  shows "fine w (configure_all env icp b w sl ids)"
  using assms(3-)
proof (induction ids arbitrary: w sl)
  case (Cons i ids)
  have i: "1 \<le> unat i" "unat i \<le> 31" "length (sl_endpoints sl) = 31" using Cons.prems by (simp_all add: tame_def)
  obtain w0 where w0: "dma_copy_ep_context env w i icp b = Inr w0" "safe w0"
    using copy_ep_total [OF Cons.prems(1) assms(1,2) i(2)] by blast
  have t0: "tame w0 sl" "up w0 = up w" using dma_copy_keeps(2) [OF w0(1)] Cons.prems(2) by (simp_all add: tame_def)
  show ?case
  proof (cases "configure_endpoint env w0 sl i b")
    case (Inl f)
    then show ?thesis using configure_endpoint_total [OF w0(2) assms(2) i(3,1,2)] w0(1) t0(2) by (simp add: fine_def)
  next
    case (Inr x)
    obtain w1 sl1 where x: "x = (w1, sl1)" by (cases x)
    have c: "configure_endpoint env w0 sl i b = Inr (w1, sl1)" "safe w1"
      using configure_endpoint_total [OF w0(2) assms(2) i(3,1,2)] Inr x by (simp_all add: fine_def)
    have e: "evolves w0 sl w1 sl1" using configure_endpoint_spec [OF t0(1) c(1)] by blast
    have "tame w1 sl1" "\<not> up w1 \<longrightarrow> \<not> up w" using e evolves_tame [OF e t0(1)] t0(2) by (auto simp: evolves_def)
    then show ?thesis using Cons.IH [OF c(2)] Cons.prems(3) w0(1) c(1) by (auto simp: fine_def)
  qed
qed (simp add: fine_def)

text \<open>The handlers.\<close>

lemma address_total:
  assumes "safe w" "unat icp + 1056 \<le> limit" "unat b + 1024 \<le> limit" "length (sl_endpoints sl) = 31"
    "sl_state sl \<in> {SlotDefault b, SlotAddressed b, SlotConfigured b}"
  shows "fine w (rbind (dma_copy_slot_context env w icp b) (\<lambda>w.
     rbind (write_slot_state env w sl) (\<lambda>w.
     rbind (dma_copy_ep_context env w 1 icp b) (\<lambda>w.
     rbind (configure_endpoint env w sl 1 b) (\<lambda>(w, sl). Inr (w, sl, Success))))))"
proof -
  obtain w1 where w1: "dma_copy_slot_context env w icp b = Inr w1" "safe w1" using copy_slot_total [OF assms(1-3)] by blast
  obtain w2 where w2: "write_slot_state env w1 sl = Inr w2" "safe w2" using write_state_total [OF w1(2) assms(3,5)] by blast
  obtain w3 where w3: "dma_copy_ep_context env w2 1 icp b = Inr w3" "safe w3"
    using copy_ep_total [OF w2(2) assms(2,3), of 1] by auto
  have "up w3 = up w" using dma_copy_keeps(1) [OF w1(1)] dma_copy_keeps(3) [OF w2(1)] dma_copy_keeps(2) [OF w3(1)] by simp
  then show ?thesis using configure_endpoint_total [OF w3(2) assms(3,4), of 1] w1(1) w2(1) w3(1) by (auto simp: fine_def)
qed

lemma contexts_fit_base:
  assumes "contexts_fit limit env w sl icp"
  obtains b where "slot_base env w sl = Inr b" "unat b + 1024 \<le> limit" "unat icp + 1056 \<le> limit"
  using assms by (auto simp: contexts_fit_def split: sum.splits)

lemma handle_address_device_total:
  assumes "safe w" "contexts_fit limit env w sl icp" "tame w sl" "all_quiet w sl"
  shows "fine w (handle_address_device env w sl icp bsr)"
proof (cases "sl_state sl")
  case SlotEnabled
  obtain b where b: "dev_read (env_dma env) w (request_new (sl_dcbaae sl) Size8) = Inr b"
    "unat icp + 1056 \<le> limit" "unat b + 1024 \<le> limit"
    using contexts_fit_base [OF assms(2)] SlotEnabled unfolding slot_base_def by auto
  show ?thesis
    using SlotEnabled b(1) assms(3) address_total [OF assms(1) b(2,3), of "sl\<lparr>sl_state := if bsr then SlotDefault b else SlotAddressed b\<rparr>"]
    by (simp add: handle_address_device_def check_slot_and_ep0_input_context_def tame_def del: rbind_Inr_iff)
next
  case (SlotDefault b)
  have b: "unat icp + 1056 \<le> limit" "unat b + 1024 \<le> limit"
    using contexts_fit_base [OF assms(2)] SlotDefault unfolding slot_base_def by auto
  obtain w1 sl1 where d: "deconfigure_endpoint env w sl 1 = Inr (w1, sl1)" "safe w1"
    using deconfigure_endpoint_total [OF assms(1,3,4), of 1] by auto
  have "length (sl_endpoints sl1) = 31" "\<not> up w1 \<longrightarrow> \<not> up w"
    using deconfigure_endpoint_spec [OF assms(3) d(1)] by (auto simp: evolves_def)
  then have "fine w1 (handle_address_device env w sl icp False)"
    using SlotDefault d(1) address_total [OF d(2) b, of "sl1\<lparr>sl_state := SlotAddressed b\<rparr>"]
    by (simp add: handle_address_device_def check_slot_and_ep0_input_context_def Let_def del: rbind_Inr_iff)
  then show ?thesis using SlotDefault assms(1) \<open>\<not> up w1 \<longrightarrow> \<not> up w\<close>
    by (cases bsr) (auto simp: fine_def handle_address_device_def check_slot_and_ep0_input_context_def)
qed (use assms(1) in \<open>simp_all add: fine_def handle_address_device_def check_slot_and_ep0_input_context_def\<close>)

lemma finish_total:
  assumes "safe w" "unat b + 1024 \<le> limit" "sl_state sl \<in> {SlotDefault b, SlotAddressed b, SlotConfigured b}"
  shows "\<exists>w'. rbind (write_slot_state env w sl) (\<lambda>w. Inr (w, sl, Success)) = Inr (w', sl, Success) \<and> safe w'"
  using write_state_total [OF assms] by auto

text \<open>Configure Endpoint without the deconfigure flag, from the flags on.\<close>

lemma reconfigure_total:
  assumes "safe w" "unat icp + 1056 \<le> limit" "unat b + 1024 \<le> limit" "tame w sl" "all_quiet w sl"
    "\<forall>i \<in> set ids. 1 \<le> unat i \<and> unat i \<le> 31" "\<forall>i \<in> set ids'. 1 \<le> unat i \<and> unat i \<le> 31"
  shows "fine w (rbind (deconfigure_all env w sl ids) (\<lambda>(w, sl).
    rbind (configure_all env icp b w sl ids') (\<lambda>(w, sl).
    rbind (write_slot_state env w (sl\<lparr>sl_state := SlotConfigured b\<rparr>)) (\<lambda>w. Inr (w, sl\<lparr>sl_state := SlotConfigured b\<rparr>, Success)))))"
proof -
  obtain w1 sl1 where d: "deconfigure_all env w sl ids = Inr (w1, sl1)" "safe w1"
    using deconfigure_all_total [OF assms(1,4,5,6)] by blast
  have t1: "tame w1 sl1" "\<not> up w1 \<longrightarrow> \<not> up w"
    using deconfigure_all_spec [OF assms(4) d(1) assms(6)] evolves_tame [of w sl w1 sl1] assms(4) by (auto simp: evolves_def)
  show ?thesis
  proof (cases "configure_all env icp b w1 sl1 ids'")
    case (Inl f)
    then show ?thesis using configure_all_total [OF assms(2,3) d(2) t1(1) assms(7)] d(1) t1(2) by (simp add: fine_def)
  next
    case (Inr x)
    obtain w2 sl2 where x: "x = (w2, sl2)" by (cases x)
    have "safe w2" using configure_all_total [OF assms(2,3) d(2) t1(1) assms(7)] Inr x by (simp add: fine_def)
    then show ?thesis using finish_total [of w2 b "sl2\<lparr>sl_state := SlotConfigured b\<rparr>"] assms(3) d(1) Inr x
      by (auto simp: fine_def simp del: rbind_Inr_iff)
  qed
qed

lemma deconfigured_total:
  assumes "safe w" "unat b + 1024 \<le> limit" "tame w sl" "all_quiet w sl" "\<And>sl. sl_state (f sl) \<in> {SlotDefault b, SlotAddressed b}"
  shows "\<exists>w' x. rbind (deconfigure_all env w sl endpoint_ids) (\<lambda>(w, sl).
    rbind (write_slot_state env w (f sl)) (\<lambda>w. Inr (w, f sl, Success))) = Inr (w', x) \<and> safe w'"
proof -
  have ids: "\<forall>i \<in> set endpoint_ids. 1 \<le> unat i \<and> unat i \<le> 31" using endpoint_ids_range by fastforce
  obtain w0 sl0 where a: "deconfigure_all env w sl endpoint_ids = Inr (w0, sl0)" "safe w0"
    using deconfigure_all_total [OF assms(1,3,4) ids] by blast
  show ?thesis using finish_total [OF a(2) assms(2), of "f sl0"] assms(5) [of sl0] a(1)
    by (auto simp del: rbind_Inr_iff)
qed

lemma handle_configure_endpoint_total:
  assumes "safe w" "contexts_fit limit env w sl icp" "tame w sl" "all_quiet w sl"
  shows "fine w (handle_configure_endpoint env w sl icp dc)"
    and "dc \<Longrightarrow> \<exists>w' x. handle_configure_endpoint env w sl icp dc = Inr (w', x) \<and> safe w'"
proof -
  obtain b where b: "slot_base env w sl = Inr b" "unat b + 1024 \<le> limit" "unat icp + 1056 \<le> limit"
    using contexts_fit_base [OF assms(2)] .
  obtain dr where dr: "dev_read (env_dma env) w (request_new icp Size4) = Inr dr"
    using read_total [OF assms(1), of icp Size4] b(3) by auto
  obtain ad where ad: "dev_read (env_dma env) w (request_new (icp + 4) Size4) = Inr ad"
    using read_at [OF assms(1) b(3), of 4 Size4] by auto
  have ids: "\<forall>i \<in> set [i\<leftarrow>endpoint_ids. P i]. 1 \<le> unat i \<and> unat i \<le> 31" for P using endpoint_ids_range by fastforce
  note all = deconfigured_total [OF assms(1) b(2) assms(3,4), of "\<lambda>sl. sl\<lparr>sl_state := SlotAddressed b\<rparr>"]
  note some = reconfigure_total [OF assms(1) b(3,2) assms(3,4) ids ids, of "\<lambda>i. bit dr (unat i)" "\<lambda>i. bit ad (unat i)"]
  show dc: "\<exists>w' x. handle_configure_endpoint env w sl icp dc = Inr (w', x) \<and> safe w'" if dc
    using that dr ad all assms(1) b(1)
    by (cases "sl_state sl") (simp_all add: handle_configure_endpoint_def slot_base_def del: rbind_Inr_iff)
  show "fine w (handle_configure_endpoint env w sl icp dc)"
  proof (cases dc)
    case True
    then show ?thesis using dc by (auto simp: fine_def)
  next
    case False
    then show ?thesis using dr ad some assms(1) b(1)
      by (cases "sl_state sl") (simp_all add: handle_configure_endpoint_def slot_base_def del: rbind_Inr_iff, simp_all add: fine_def)
  qed
qed

lemma handle_reset_device_total:
  assumes "safe w" "contexts_fit limit env w sl icp" "tame w sl" "all_quiet w sl"
  shows "\<exists>w' x. handle_reset_device env w sl = Inr (w', x) \<and> safe w'"
proof -
  obtain b where b: "slot_base env w sl = Inr b" "unat b + 1024 \<le> limit" using contexts_fit_base [OF assms(2)] .
  note all = deconfigured_total [OF assms(1) b(2) assms(3,4), of "\<lambda>sl. sl\<lparr>sl_state := SlotDefault b\<rparr>"]
  show ?thesis using all assms(1) b(1)
    by (cases "sl_state sl") (simp_all add: handle_reset_device_def slot_base_def Let_def del: rbind_Inr_iff)
qed

text \<open>Endpoints that wait for work are all released.\<close>

lemma terminate_all_total:
  "safe w \<Longrightarrow> distinct es \<Longrightarrow> set es \<subseteq> known w \<Longrightarrow> \<forall>e \<in> set es. quiet w e \<Longrightarrow>
    \<exists>w'. terminate_all env w es = (w', True) \<and> safe w'"
proof (induction es arbitrary: w)
  case (Cons e es)
  obtain w1 answered where t: "env_terminate env w e = (w1, answered)" by force
  have a: "answered" "safe w1" using terminate_ok [OF Cons.prems(1) _ _ t] Cons.prems(3,4) by simp_all
  have "quiet w1 x = quiet w x" if "x \<in> set es" for x
    using terminate_law [OF t] that Cons.prems(2) by (metis distinct.simps(2))
  then have "\<exists>w'. terminate_all env w1 es = (w', True) \<and> safe w'"
    using Cons.IH [OF a(2)] Cons.prems(2-4) terminate_law [OF t] by simp
  then show ?case using t a(1) by auto
qed simp

lemma pre_drop_total:
  assumes "safe w" "tame w sl" "all_quiet w sl"
  shows "\<exists>w'. pre_drop env w sl = (w', True) \<and> safe w'"
  unfolding pre_drop_def
  by (rule terminate_all_total [OF assms(1)])
    (use assms(2,3) distinct_present [of "sl_endpoints sl"] in
      \<open>auto simp: tame_def all_quiet_def set_present slot_senders_def uniq_def\<close>)

lemma drop_all_total:
  assumes "safe w" "\<And>sl. Some sl \<in> set sls \<Longrightarrow> tame w sl \<and> all_quiet w sl"
    "\<And>i j sl sl'. i < length sls \<Longrightarrow> j < length sls \<Longrightarrow> i \<noteq> j \<Longrightarrow> sls ! i = Some sl \<Longrightarrow> sls ! j = Some sl' \<Longrightarrow>
      slot_senders sl \<inter> slot_senders sl' = {}"
  shows "\<exists>w'. drop_all env w sls = (w', True) \<and> safe w'"
  using assms
proof (induction sls arbitrary: w)
  case (Cons x sls)
  have apart: "slot_senders sl \<inter> slot_senders sl' = {}"
    if "i < length sls" "j < length sls" "i \<noteq> j" "sls ! i = Some sl" "sls ! j = Some sl'" for i j sl sl'
    using Cons.prems(3) [of "Suc i" "Suc j" sl sl'] that by simp
  show ?case
  proof (cases x)
    case None
    then show ?thesis using Cons.IH [of w] Cons.prems(1,2) apart by auto
  next
    case (Some y)
    have y: "tame w y" "all_quiet w y" using Cons.prems(2) [of y] Some by simp_all
    obtain w1 where w1: "pre_drop env w y = (w1, True)" "safe w1" using pre_drop_total [OF Cons.prems(1) y] by blast
    note pd = pre_drop_spec [OF w1(1)]
    have "tame w1 sl \<and> all_quiet w1 sl" if m: "Some sl \<in> set sls" for sl
    proof -
      obtain j where j: "j < length sls" "sls ! j = Some sl" using m in_set_conv_nth [of "Some sl" sls] by blast
      have "slot_senders y \<inter> slot_senders sl = {}" using Cons.prems(3) [of 0 "Suc j" y sl] Some j by simp
      then have "\<forall>e \<in> slot_senders sl. quiet w1 e = quiet w e" using pd by blast
      then show ?thesis using Cons.prems(2) [of sl] m pd by (simp add: tame_def all_quiet_def)
    qed
    then have "\<exists>w'. drop_all env w1 sls = (w', True) \<and> safe w'" using Cons.IH [OF w1(2)] apart by blast
    then show ?thesis using Some w1(1) by auto
  qed
qed simp

section \<open>Commands and resets\<close>

lemma on_slot_diagram:
  assumes "slots_ok (known w) s" "slot_ref s sid = Some sl" "handled k w sl (f sl)" "\<exists>w' x. f sl = Inr (w', x) \<and> safe w'"
  shows "\<exists>w' s'. on_slot True w s sid c f = Inr (w', s', [SlotReply c (snd (slot_diagram (abs_slot s sid) k))]) \<and> safe w' \<and>
    abs_slot s' sid = fst (slot_diagram (abs_slot s sid) k) \<and> (\<forall>i. i \<noteq> sid \<longrightarrow> slot_ref s' i = slot_ref s i)"
proof -
  note r = slots_ok_ref [OF assms(1,2)]
  have len: "length (sw_slots s) = MAX_SLOTS" using assms(1) by (simp add: slots_ok_def)
  obtain w' sl' code where f: "f sl = Inr (w', sl', code)" "safe w'" using assms(4) by (metis prod.exhaust)
  let ?s = "s\<lparr>sw_slots := (sw_slots s)[unat sid - 1 := Some sl']\<rparr>"
  have d: "slot_diagram (abs_slot s sid) k = (abs_slot_state (sl_state sl'), code)"
    using assms(2,3) f by (simp add: handled_def abs_slot_def)
  have "slot_ref ?s i = (if i = sid then Some sl' else slot_ref s i)" for i
    using slot_ref_update [OF len r(3)] r(1) by (simp add: MAX_SLOTS_def)
  moreover have "on_slot True w s sid c f = Inr (w', ?s, [SlotReply c code])"
    using assms(2) f r(1,3) len by (simp add: on_slot_def one_put_eq answer_def MAX_SLOTS_def)
  ultimately show ?thesis using d f(2) by (auto simp: abs_slot_def)
qed

lemma disable_slot_diagram:
  assumes "safe w" "slots_ok (known w) s" "slot_ref s sid = Some sl" "all_quiet w sl" "1 \<le> sid" "sid \<le> num_slots_enabled (sw_config s)"
  shows "\<exists>w' s'. disable_slot env w s sid = Inr (w', s', Success) \<and> safe w' \<and>
    abs_slot s' sid = Disabled \<and> (\<forall>i. i \<noteq> sid \<longrightarrow> slot_ref s' i = slot_ref s i)"
proof -
  note r = slots_ok_ref [OF assms(2,3)]
  have len: "length (sw_slots s) = MAX_SLOTS" using assms(2) by (simp add: slots_ok_def)
  obtain w' where p: "pre_drop env w sl = (w', True)" "safe w'"
    using pre_drop_total [OF assms(1) slot_ok_tame [OF r(4,5)] assms(4)] by blast
  let ?s = "s\<lparr>sw_slots := (sw_slots s)[unat sid - 1 := None]\<rparr>"
  have "slot_ref ?s i = (if i = sid then None else slot_ref s i)" for i
    using slot_ref_update [OF len r(3)] r(1) by (simp add: MAX_SLOTS_def)
  moreover have "disable_slot env w s sid = Inr (w', ?s, Success)"
    using assms(3,5,6) p(1) r(1,3) len by (simp add: disable_slot_def one_put_eq MAX_SLOTS_def)
  ultimately show ?thesis using p(2) by (auto simp: abs_slot_def)
qed

lemma on_slot_refused:
  "slot_ref s sid = Some sl \<Longrightarrow> f sl = Inl e \<Longrightarrow> on_slot True w s sid c f = Inl e"
  by (simp add: on_slot_def)

text \<open>
  Every command follows the slot state diagram, touches no other slot and keeps guest memory in order;
  only a command that starts endpoints can fail, when the launcher does not answer.
\<close>

lemma slot_step_diagram:
  assumes "safe w" "slots_ok (known w) s"
    "\<And>sl. slot_ref s sid = Some sl \<Longrightarrow> uses_contexts k \<Longrightarrow> contexts_fit limit env w sl icp"
    "\<And>sl e. slot_ref s sid = Some sl \<Longrightarrow> e \<in> slot_senders sl \<Longrightarrow> quiet w e"
    "k = DisableCommand \<Longrightarrow> 1 \<le> sid \<and> sid \<le> num_slots_enabled (sw_config s)"
  shows "(\<exists>w' s'. slot_step env True w s (slot_command_msg k sid icp c) =
      Inr (w', s', [SlotReply c (snd (slot_diagram (abs_slot s sid) k))]) \<and> safe w' \<and>
    abs_slot s' sid = fst (slot_diagram (abs_slot s sid) k) \<and> (\<forall>i. i \<noteq> sid \<longrightarrow> slot_ref s' i = slot_ref s i)) \<or>
    launches k \<and> \<not> up w \<and> slot_step env True w s (slot_command_msg k sid icp c) = Inl ChannelClosed"
proof (cases "slot_ref s sid")
  case None
  then show ?thesis using assms(1,5)
    by (cases k) (simp_all add: abs_slot_def on_slot_def answer_def disable_slot_def)
next
  case (Some sl)
  note r = slots_ok_ref [OF assms(2) Some]
  have t: "tame w sl" using slot_ok_tame [OF r(4,5)] .
  have q: "all_quiet w sl" using assms(4) Some by (simp add: all_quiet_def)
  note fit = assms(3) [OF Some]
  show ?thesis
  proof (cases k)
    case (AddressCommand bsr)
    let ?f = "\<lambda>sl. handle_address_device env w sl icp bsr"
    have "contexts_fit limit env w sl icp" using fit by (simp add: uses_contexts_def AddressCommand)
    from handle_address_device_total [OF assms(1) this t q, of bsr] show ?thesis unfolding fine_def
    proof
      assume "\<exists>w' x. ?f sl = Inr (w', x) \<and> safe w'"
      from on_slot_diagram [where c = c, of w s sid sl k ?f, OF assms(2) Some _ this] handle_address_device_spec [OF r(4,5)]
      show ?thesis by (simp add: AddressCommand)
    qed (use on_slot_refused [of s sid sl ?f _ w c, OF Some] in \<open>simp add: AddressCommand launches_def\<close>)
  next
    case (ConfigureCommand dc)
    let ?f = "\<lambda>sl. handle_configure_endpoint env w sl icp dc"
    have f: "contexts_fit limit env w sl icp" using fit by (simp add: uses_contexts_def ConfigureCommand)
    have fails: "\<not> dc" if "?f sl = Inl e" for e using handle_configure_endpoint_total(2) [OF assms(1) f t q, of dc] that by auto
    show ?thesis using handle_configure_endpoint_total(1) [OF assms(1) f t q, of dc] unfolding fine_def
    proof
      assume "\<exists>w' x. ?f sl = Inr (w', x) \<and> safe w'"
      from on_slot_diagram [where c = c, of w s sid sl k ?f, OF assms(2) Some _ this] handle_configure_endpoint_spec [OF r(4,5)]
      show ?thesis by (simp add: ConfigureCommand)
    qed (use fails on_slot_refused [of s sid sl ?f _ w c, OF Some] in \<open>simp add: ConfigureCommand launches_def\<close>)
  next
    case EvaluateCommand
    have "\<exists>w' x. handle_evaluate_context w sl icp = Inr (w', x) \<and> safe w'" using assms(1) by (simp add: handle_evaluate_context_def)
    then show ?thesis unfolding EvaluateCommand
      using on_slot_diagram [where c = c, of w s sid sl EvaluateCommand "\<lambda>sl. handle_evaluate_context w sl icp",
          OF assms(2) Some handle_evaluate_context_spec [OF r(4,5)]] by simp
  next
    case ResetSlotCommand
    have "contexts_fit limit env w sl icp" using fit by (simp add: uses_contexts_def ResetSlotCommand)
    then show ?thesis unfolding ResetSlotCommand
      using on_slot_diagram [where c = c, of w s sid sl ResetSlotCommand "handle_reset_device env w",
          OF assms(2) Some handle_reset_device_spec [OF r(4,5)] handle_reset_device_total [OF assms(1) _ t q]] by simp
  next
    case DisableCommand
    have "abs_slot s sid \<noteq> Disabled" using Some by (cases "sl_state sl") (simp_all add: abs_slot_def)
    then have "slot_diagram (abs_slot s sid) DisableCommand = (Disabled, Success)" by (cases "abs_slot s sid") simp_all
    then show ?thesis using disable_slot_diagram [OF assms(1,2) Some q] assms(5) DisableCommand by (fastforce simp: answer_def)
  qed
qed

text \<open>A reset succeeds when the endpoints of all slots are quiet.\<close>

lemma reset_slots_total:
  assumes "safe w" "slots_ok (known w) s" "\<And>sl e. Some sl \<in> set (sw_slots s) \<Longrightarrow> e \<in> slot_senders sl \<Longrightarrow> quiet w e"
  shows "\<exists>w'. reset_slots env w s = Inr (w', \<lparr>sw_slots = map (\<lambda>_. None) (sw_slots s), sw_config = 0, sw_dcbaap = 0\<rparr>) \<and> safe w'"
proof -
  have "tame w sl \<and> all_quiet w sl" if m: "Some sl \<in> set (sw_slots s)" for sl
  proof -
    have "length (sw_slots s) = MAX_SLOTS" using assms(2) by (simp add: slots_ok_def)
    then obtain i where i: "i < MAX_SLOTS" "sw_slots s ! i = Some sl"
      using m in_set_conv_nth [of "Some sl" "sw_slots s"] by auto
    then have "slot_ok (i + 1) sl" "slot_senders sl \<subseteq> known w" using assms(2) by (simp_all add: slots_ok_def)
    then show ?thesis using slot_ok_tame assms(3) m by (auto simp: all_quiet_def)
  qed
  moreover have "slot_senders sl \<inter> slot_senders sl' = {}"
    if "i < length (sw_slots s)" "j < length (sw_slots s)" "i \<noteq> j" "sw_slots s ! i = Some sl" "sw_slots s ! j = Some sl'" for i j sl sl'
    using assms(2) that unfolding slots_ok_def by metis
  ultimately obtain w' where "drop_all env w (sw_slots s) = (w', True)" "safe w'"
    using drop_all_total [OF assms(1)] by blast
  then show ?thesis by (simp add: reset_slots_def)
qed

end

end
