(* ===== verification/TransferLemmas.thy ===== *)
theory TransferLemmas
  imports EndpointHandle
begin

text \<open>
  What the endpoint handles achieve: the data of an IN transfer arrives in the buffers of its
  descriptor, in order, and a control request is what its TRBs say.
\<close>

section \<open>IN transfers\<close>

fun write_all :: "'m bus_device \<Rightarrow> 'm \<Rightarrow> (u64 \<times> u8 list) list \<Rightarrow> 'm res" where
  "write_all ops m [] = Inr m"
| "write_all ops m ((a, bs) # ws) = rbind (dev_write_bulk ops m a bs) (\<lambda>m. write_all ops m ws)"

text \<open>The buffers of a descriptor, and the received data spread over them, up to the first that is not filled.\<close>

definition in_buffers :: "in_trb list \<Rightarrow> (u64 \<times> nat) list" where
  "in_buffers ts = concat (map (\<lambda>t. case it_variant t of
     InNormal d \<Rightarrow> [(nd_data_pointer d, unat (nd_transfer_length d))] | _ \<Rightarrow> []) ts)"

fun scatter :: "(u64 \<times> nat) list \<Rightarrow> u8 list \<Rightarrow> (u64 \<times> u8 list) list" where
  "scatter [] data = []"
| "scatter ((p, n) # bs) data =
     (if n \<le> length data then (p, take n data) # scatter bs (drop n data) else [(p, data)])"

text \<open>The first TRB whose buffer is not filled by \<open>n\<close> bytes.\<close>

fun short_trb :: "in_trb list \<Rightarrow> nat \<Rightarrow> (u64 \<times> bool) option" where
  "short_trb [] n = None"
| "short_trb (t # ts) n =
     (if in_transfer_length t \<le> n then short_trb ts (n - in_transfer_length t) else Some (it_addr t, it_cycle_bit t))"

fun td_result :: "in_status \<Rightarrow> (u64 \<times> bool) option \<Rightarrow> trb_result" where
  "td_result st None = TrbOk"
| "td_result InSuccess (Some p) = TrbOk"
| "td_result InStall (Some p) = TrbStall (Some p)"
| "td_result InTransactionError (Some p) = TrbTransactionError (Some p)"
| "td_result InDisconnect (Some p) = TrbDisconnect"

definition outcome_of :: "('m \<times> td_info \<times> trb_result \<times> handle_out list) res \<Rightarrow> ('m \<times> trb_result) res" where
  "outcome_of x = rbind x (\<lambda>(m, td, r, out). Inr (m, r))"

definition is_event_data :: "in_trb \<Rightarrow> bool" where
  "is_event_data t = (case it_variant t of InEventData _ \<Rightarrow> True | _ \<Rightarrow> False)"

lemma outcome_rbind: "outcome_of (rbind x f) = rbind x (\<lambda>y. outcome_of (f y))"
  by (cases x) (simp_all add: outcome_of_def)

lemma outcome_Inr [simp]: "outcome_of (Inr (m, td, r, out)) = Inr (m, r)" "outcome_of (Inl e) = Inl e"
  by (simp_all add: outcome_of_def)

lemma outcome_then [simp]: "rbind (outcome_of x) (\<lambda>(m, r). Inr (m, r)) = outcome_of x"
  by (cases x) (auto simp: outcome_of_def)

lemma outcome_append: "outcome_of (rbind x (\<lambda>(m, td, r, out). Inr (m, td, r, f out))) = outcome_of x"
  by (cases x) (auto simp: outcome_of_def)

lemma outcome_Cons:
  "outcome_of (process_trbs ops up s e st m td (t # ts)) =
     rbind (process_trb ops up s e st m td t) (\<lambda>(m1, td1, early, out).
     case early of Some r \<Rightarrow> Inr (m1, r) | None \<Rightarrow> outcome_of (process_trbs ops up s e st m1 td1 ts))"
  by (cases "process_trb ops up s e st m td t") (auto simp: outcome_append split: option.splits)

text \<open>After a short transfer nothing more is written.\<close>

lemma process_skips:
  assumes "up" "\<forall>t \<in> set ts. \<not> is_event_data t" "td_short td = Some k"
  shows "outcome_of (process_trbs ops up s e st m td ts) = Inr (m, TrbOk)"
  using assms(2)
proof (induction ts)
  case (Cons t ts)
  have "\<exists>out. process_trb ops up s e st m td t = Inr (m, td, None, out)"
    using Cons.prems assms(1,3)
    by (cases "it_variant t") (auto simp: process_trb_def process_normal_trb_def Let_def send_transfer_def is_event_data_def)
  then show ?case using Cons by (auto simp: outcome_Cons simp del: process_trbs.simps(2))
qed simp

lemma td_delivery:
  assumes "up" "\<forall>t \<in> set ts. \<not> is_event_data t" "td_short td = None"
  shows "outcome_of (process_trbs ops up s e st m td ts) =
    rbind (write_all ops m (scatter (in_buffers ts) (td_left td))) (\<lambda>m'.
    Inr (m', td_result st (short_trb ts (length (td_left td)))))"
  using assms(2,3)
proof (induction ts arbitrary: m td)
  case (Cons t ts)
  show ?case
  proof (cases "it_variant t")
    case (InNormal d)
    let ?n = "unat (nd_transfer_length d)"
    have b: "in_buffers (t # ts) = (nd_data_pointer d, ?n) # in_buffers ts" "in_transfer_length t = ?n"
      using InNormal by (simp_all add: in_buffers_def in_transfer_length_def)
    show ?thesis
    proof (cases "?n \<le> length (td_left td)")
      case True
      have "\<exists>out. process_trb ops up s e st m td t =
          rbind (dev_write_bulk ops m (nd_data_pointer d) (take ?n (td_left td)))
            (\<lambda>m1. Inr (m1, td\<lparr>td_left := drop ?n (td_left td)\<rparr>, None, out))"
        using True InNormal Cons.prems(2) assms(1)
        by (auto simp: process_trb_def process_normal_trb_def Let_def send_transfer_def)
      then show ?thesis
        using True Cons.IH Cons.prems b by (auto simp: outcome_Cons rbind_assoc simp del: process_trbs.simps(2))
    next
      case False
      show ?thesis
      proof (cases st)
        case InSuccess
        have "\<exists>out. process_trb ops up s e st m td t =
            rbind (dev_write_bulk ops m (nd_data_pointer d) (td_left td))
              (\<lambda>m1. Inr (m1, \<lparr>td_left = [], td_short = Some (?n - length (td_left td))\<rparr>, None, out))"
          using False InNormal InSuccess Cons.prems(2) assms(1)
          by (cases td) (auto simp: process_trb_def process_normal_trb_def Let_def send_transfer_def)
        then show ?thesis
          using False Cons.prems b InSuccess assms(1)
          by (auto simp: outcome_Cons rbind_assoc process_skips simp del: process_trbs.simps(2))
      qed (use False InNormal Cons.prems(2) assms(1) b in
            \<open>simp_all add: process_trb_def process_normal_trb_def Let_def send_transfer_def outcome_Cons rbind_assoc
              del: process_trbs.simps(2)\<close>)
    qed
  next
    case (InNoOp d)
    then have "\<exists>out. process_trb ops up s e st m td t = Inr (m, td, None, out)"
      using assms(1) by (auto simp: process_trb_def send_transfer_def)
    moreover have "in_buffers (t # ts) = in_buffers ts" "in_transfer_length t = 0"
      using InNoOp by (simp_all add: in_buffers_def in_transfer_length_def)
    ultimately show ?thesis using Cons by (auto simp: outcome_Cons simp del: process_trbs.simps(2))
  qed (use Cons.prems in \<open>simp add: is_event_data_def\<close>)
qed (simp add: in_buffers_def)

lemma scatter_data: "concat (map snd (scatter bs data)) = take (sum_list (map snd bs)) data"
proof (induction bs data rule: scatter.induct)
  case (2 p n bs data)
  then show ?case by (simp add: take_add)
qed simp

lemma short_trb_None: "short_trb ts n = None \<longleftrightarrow> sum_list (map in_transfer_length ts) \<le> n"
  by (induction ts n rule: short_trb.induct) auto

text \<open>
  C22: The data of an IN transfer reaches the guest. The bytes a real endpoint delivers for a transfer
  descriptor are written to the descriptor's buffers in order and completely, as far as they and the
  buffers go; the result is a stall, an error or a disconnection of the first buffer that is not
  filled, and success when all buffers are full, whatever the real endpoint reported.
\<close>

theorem in_transfer_delivery:
  assumes "ih_submission h = TdAwaitingRealTransfer ts" "\<forall>t \<in> set ts. \<not> is_event_data t"
  shows "rbind (in_complete ops m True h answer) (\<lambda>(m', h', r, out). Inr (m', ih_submission h', r)) =
      rbind (write_all ops m (scatter (in_buffers ts) (ir_data answer))) (\<lambda>m'.
      Inr (m', CollectingTd [], td_result (ir_status answer) (short_trb ts (length (ir_data answer))))) \<and>
    concat (map snd (scatter (in_buffers ts) (ir_data answer))) =
      take (sum_list (map snd (in_buffers ts))) (ir_data answer) \<and>
    (short_trb ts (length (ir_data answer)) = None \<longleftrightarrow>
      sum_list (map in_transfer_length ts) \<le> length (ir_data answer))"
proof -
  let ?td = "\<lparr>td_left = ir_data answer, td_short = None\<rparr>"
  note d = td_delivery [of True ts ?td ops "ih_slot_id h" "ih_endpoint_id h" "ir_status answer" m]
  have "rbind (in_complete ops m True h answer) (\<lambda>(m', h', r, out). Inr (m', ih_submission h', r)) =
      rbind (outcome_of (process_trbs ops True (ih_slot_id h) (ih_endpoint_id h) (ir_status answer) m ?td ts))
        (\<lambda>(m', r). Inr (m', CollectingTd [], r))"
    using assms(1) by (auto simp: in_complete_def outcome_of_def rbind_assoc case_prod_unfold)
  then show ?thesis using assms(2) d by (simp add: rbind_assoc scatter_data short_trb_None)
qed

text \<open>A device that records the bulk writes it receives.\<close>

definition recorder_ops :: "(u64 \<times> u8 list) list bus_device" where
  "recorder_ops = \<lparr>dev_size = (\<lambda>d. - 1), dev_read = (\<lambda>d r. Inr 0), dev_write = (\<lambda>d r v. Inr d),
     dev_read_bulk = (\<lambda>d a n. Inr (replicate n 0)), dev_write_bulk = (\<lambda>d a bs. Inr (d @ [(a, bs)]))\<rparr>"

theorem in_transfer_delivery_witness:
  "\<exists>h. ih_submission h = TdAwaitingRealTransfer
       [\<lparr>it_variant = InNormal (NormalTrbData 0x1000 2 True False False False), it_addr = 0x100, it_cycle_bit = True\<rparr>,
        \<lparr>it_variant = InNormal (NormalTrbData 0x2000 4 False True False False), it_addr = 0x110, it_cycle_bit = True\<rparr>] \<and>
     rbind (in_complete recorder_ops [] True h \<lparr>ir_status = InStall, ir_data = [1, 2, 3]\<rparr>)
       (\<lambda>(m', h', r, out). Inr (m', ih_submission h', r)) =
       Inr ([(0x1000, [1, 2]), (0x2000, [3])], CollectingTd [], TrbStall (Some (0x110, True)))"
proof -
  let ?ts = "[\<lparr>it_variant = InNormal (NormalTrbData 0x1000 2 True False False False), it_addr = 0x100, it_cycle_bit = True\<rparr>,
        \<lparr>it_variant = InNormal (NormalTrbData 0x2000 4 False True False False), it_addr = 0x110, it_cycle_bit = True\<rparr>]"
  let ?h = "\<lparr>ih_slot_id = 1, ih_endpoint_id = 3, ih_submission = TdAwaitingRealTransfer ?ts\<rparr>"
  have "\<forall>t \<in> set ?ts. \<not> is_event_data t" by (simp add: is_event_data_def)
  from in_transfer_delivery [of ?h ?ts, OF _ this, of recorder_ops "[]" "\<lparr>ir_status = InStall, ir_data = [1, 2, 3]\<rparr>"]
  show ?thesis
    by (intro exI [of _ ?h]) (simp add: in_buffers_def recorder_ops_def in_transfer_length_def)
qed

section \<open>Control requests\<close>

lemma parser_setup:
  assumes "transfer_parse (raw_buffer t) = Inr (SetupStage d)"
  shows "cp_state p = Initial \<Longrightarrow> \<exists>p'. parser_trb ops m p t = Inr (p', Continue) \<and> cp_state p' = SetupStageConsumed \<and>
      cp_builder p' = \<lparr>ur_address = 0, ur_request_type = ss_request_type d, ur_request = ss_request d,
        ur_value = ss_value d, ur_index = ss_index d, ur_length = ss_length d, ur_data_pointer = None, ur_data = None\<rparr>"
    "cp_state p \<noteq> Initial \<Longrightarrow> parser_trb ops m p t = Inr (p, BreakErr)"
  using assms by (auto simp: parser_trb_def parser_status_def split: parser_state.splits)

text \<open>A sequence of TRBs through a control endpoint: each is submitted and completed, with the given answers.\<close>

fun control_transfer ::
  "'m bus_device \<Rightarrow> 'm \<Rightarrow> control_handle \<Rightarrow> (raw_trb \<times> control_result) list \<Rightarrow>
     ('m \<times> control_handle \<times> trb_result list \<times> handle_out list) res" where
  "control_transfer ops m h [] = Inr (m, h, [], [])"
| "control_transfer ops m h ((trb, answer) # rest) =
     rbind (control_submit ops m True h trb) (\<lambda>(h1, out1).
     rbind (control_complete ops m True h1 answer) (\<lambda>(m2, h2, r, out2).
     rbind (control_transfer ops m2 h2 rest) (\<lambda>(m3, h3, rs, out3).
     Inr (m3, h3, r # rs, out1 @ out2 @ out3))))"

lemma control_transfer_Cons:
  "control_submit ops m True h trb = Inr (h1, out1) \<Longrightarrow>
   control_transfer ops m h ((trb, answer) # rest) =
     rbind (control_complete ops m True h1 answer) (\<lambda>(m2, h2, r, out2).
     rbind (control_transfer ops m2 h2 rest) (\<lambda>(m3, h3, rs, out3).
     Inr (m3, h3, r # rs, out1 @ out2 @ out3)))"
  by simp

text \<open>
  C23: A control request is what its TRBs say. For a setup, a data and a status stage the real endpoint
  gets exactly one request, with the setup fields and the contents of the data buffer; its answer to
  an IN request is written to that buffer, the driver gets one success event for the status stage, and
  the endpoint is ready for the next request.
\<close>

theorem control_request_transfer:
  assumes "cp_state (ch_parser h) = Initial"
    "transfer_parse (raw_buffer t1) = Inr (SetupStage s)"
    "transfer_parse (raw_buffer t2) = Inr (DataStage d)" "\<not> dd_immediate_data d"
    "transfer_parse (raw_buffer t3) = Inr (StatusStage st)"
    "dev_read_bulk ops m (dd_data_pointer d) (unat (ss_length s)) = Inr buffer"
    "ss_request_type s AND 0x80 \<noteq> 0 \<Longrightarrow> answer = SuccessfulControlIn bytes"
    "ss_request_type s AND 0x80 = 0 \<Longrightarrow> answer = SuccessfulControlOut"
    "dev_write_bulk ops m (dd_data_pointer d) bytes = Inr m_in"
  shows "\<exists>h'. control_transfer ops m h [(t1, a1), (t2, a2), (t3, answer)] =
      Inr (if ss_request_type s AND 0x80 = 0 then m else m_in, h', [TrbOk, TrbOk, TrbOk],
        [SubmitControl \<lparr>ur_address = raw_address t3, ur_request_type = ss_request_type s, ur_request = ss_request s,
           ur_value = ss_value s, ur_index = ss_index s, ur_length = ss_length s,
           ur_data_pointer = Some (dd_data_pointer d), ur_data = Some buffer\<rparr>,
         Event (Transfer (raw_address t3) 0 Success False (ch_endpoint_id h) (ch_slot_id h))]) \<and>
    ch_parser h' = control_parser_new \<and> ch_submission h' = CtlNoTrbSubmitted"
proof -
  have 1: "\<exists>h1. control_submit ops m True h t1 = Inr (h1, []) \<and>
      h1 = h\<lparr>ch_parser := \<lparr>cp_state = SetupStageConsumed, cp_builder = \<lparr>ur_address = 0, ur_request_type = ss_request_type s,
        ur_request = ss_request s, ur_value = ss_value s, ur_index = ss_index s, ur_length = ss_length s,
        ur_data_pointer = None, ur_data = None\<rparr>\<rparr>, ch_submission := ParserConsumedTrb\<rparr>"
    using assms(1,2) by (cases h) (auto simp: control_submit_def parser_trb_def)
  show ?thesis
  proof (cases "ss_request_type s AND 0x80 = 0")
    case True
    then show ?thesis using 1 assms(3-8)
      by (auto simp: control_submit_def parser_trb_def parser_status_def control_complete_def Let_def
          clone_without_data_def send_transfer_def new_transfer_event_trb_def control_parser_new_def)
  next
    case False
    then show ?thesis using 1 assms(3-9)
      by (auto simp: control_submit_def parser_trb_def parser_status_def control_complete_def Let_def
          clone_without_data_def send_transfer_def new_transfer_event_trb_def control_parser_new_def)
  qed
qed

lemma replicate_2: "replicate 2 x = [x, x]"
  by (simp add: numeral_2_eq_2)

theorem control_request_transfer_witness:
  "\<exists>h'. control_transfer recorder_ops [] (control_handle_new 1 1 (meta_control 2 1 1))
      [(\<lparr>raw_address = 0x100, raw_buffer = [0x80, 6, 0, 1, 0, 0, 2, 0, 8, 0, 0, 0, 1, 8, 3, 0]\<rparr>, CtlStall),
       (\<lparr>raw_address = 0x110, raw_buffer = [0, 0x20, 0, 0, 0, 0, 0, 0, 2, 0, 0, 0, 1, 12, 1, 0]\<rparr>, CtlStall),
       (\<lparr>raw_address = 0x120, raw_buffer = [0, 0, 0, 0, 0, 0, 0, 0, 0, 0, 0, 0, 0x21, 16, 0, 0]\<rparr>, SuccessfulControlIn [18, 1])] =
     Inr ([(0x2000, [18, 1])], h', [TrbOk, TrbOk, TrbOk],
       [SubmitControl \<lparr>ur_address = 0x120, ur_request_type = 0x80, ur_request = 6, ur_value = 0x100, ur_index = 0, ur_length = 2,
          ur_data_pointer = Some 0x2000, ur_data = Some [0, 0]\<rparr>,
        Event (Transfer 0x120 0 Success False 1 1)])"
proof -
  have 1: "transfer_parse [0x80, 6, 0, 1, 0, 0, 2, 0, 8, 0, 0, 0, 1, 8, 3, 0] =
      Inr (SetupStage (SetupStageTrbData 0x80 6 0x100 0 2 False))" by code_simp
  have 2: "transfer_parse [0, 0x20, 0, 0, 0, 0, 0, 0, 2, 0, 0, 0, 1, 12, 1, 0] =
      Inr (DataStage (DataStageTrbData 0x2000 2 False False False True))" by code_simp
  have 3: "transfer_parse [0, 0, 0, 0, 0, 0, 0, 0, 0, 0, 0, 0, 0x21, 16, 0, 0] =
      Inr (StatusStage (StatusStageTrbData False True False))" by code_simp
  have r: "dev_read_bulk recorder_ops [] 0x2000 (unat (2 :: u16)) = Inr [0, 0]"
    by (simp add: recorder_ops_def replicate_2)
  have w: "dev_write_bulk recorder_ops [] 0x2000 [18, 1] = Inr [(0x2000, [18, 1])]" by (simp add: recorder_ops_def)
  have i: "cp_state (ch_parser (control_handle_new 1 1 (meta_control 2 1 1))) = Initial"
    by (simp add: control_handle_new_def control_parser_new_def)
  show ?thesis
    using control_request_transfer [OF i, of
        "\<lparr>raw_address = 0x100, raw_buffer = [0x80, 6, 0, 1, 0, 0, 2, 0, 8, 0, 0, 0, 1, 8, 3, 0]\<rparr>"
        "SetupStageTrbData 0x80 6 0x100 0 2 False"
        "\<lparr>raw_address = 0x110, raw_buffer = [0, 0x20, 0, 0, 0, 0, 0, 0, 2, 0, 0, 0, 1, 12, 1, 0]\<rparr>"
        "DataStageTrbData 0x2000 2 False False False True"
        "\<lparr>raw_address = 0x120, raw_buffer = [0, 0, 0, 0, 0, 0, 0, 0, 0, 0, 0, 0, 0x21, 16, 0, 0]\<rparr>"
        "StatusStageTrbData False True False" recorder_ops "[]" "[0, 0]" "SuccessfulControlIn [18, 1]" "[18, 1]"
        "[(0x2000, [18, 1])]" CtlStall CtlStall] 1 2 3 r w
    by (auto simp: control_handle_new_def simp del: control_transfer.simps)
qed

end
