(* ===== verification/EndpointSpec.thy ===== *)
theory EndpointSpec
  imports Endpoint TransferLemmas GuestAccess
begin

text \<open>
  The endpoint worker against the endpoint state diagram of the xHCI specification (section 4.8.3):
  which commands are accepted in which state, what the driver is told, and what becomes of an endpoint
  whose device is gone or whose slot is being disabled.
\<close>

section \<open>The state diagram\<close>

datatype ep_abs = AbsRunning | AbsHalted | AbsError | AbsStopped | AbsDisabled

datatype ep_command = StopCommand | ResetCommand | SetDequeueCommand u64 bool

fun diagram :: "ep_abs \<Rightarrow> ep_command \<Rightarrow> ep_abs \<times> completion_code" where
  "diagram AbsRunning StopCommand = (AbsStopped, Success)"
| "diagram AbsHalted ResetCommand = (AbsStopped, Success)"
| "diagram AbsError (SetDequeueCommand dp cs) = (AbsStopped, Success)"
| "diagram AbsStopped (SetDequeueCommand dp cs) = (AbsStopped, Success)"
| "diagram st command = (st, ContextStateError)"

definition doorbell_diagram :: "ep_abs \<Rightarrow> ep_abs" where
  "doorbell_diagram st = (if st = AbsStopped then AbsRunning else st)"

definition abs_state :: "'c endpoint_worker \<Rightarrow> ep_abs" where
  "abs_state w =
     (case ew_state w of
        WaitForDoorbell \<Rightarrow> AbsRunning | LookForTrb \<Rightarrow> AbsRunning | WaitForTrbCompletion \<Rightarrow> AbsRunning
      | Halted \<Rightarrow> AbsHalted | ErrorState \<Rightarrow> AbsError | StoppedWithContinuableTrb \<Rightarrow> AbsStopped
      | SettingTrDequeuePointer dp cs c \<Rightarrow> AbsStopped | StoppedState \<Rightarrow> AbsStopped
      | Terminating c \<Rightarrow> AbsDisabled | Ended \<Rightarrow> AbsDisabled)"

primrec command_msg :: "ep_command \<Rightarrow> 'c \<Rightarrow> 'c endpoint_msg" where
  "command_msg StopCommand c = StopMsg c"
| "command_msg ResetCommand c = ResetMsg c"
| "command_msg (SetDequeueCommand dp cs) c = SetTrDequeuePointerMsg dp cs c"

definition aligned_command :: "ep_command \<Rightarrow> bool" where
  "aligned_command k = (case k of SetDequeueCommand dp cs \<Rightarrow> dp AND 0xf = 0 | _ \<Rightarrow> True)"

text \<open>A message with the turn that completes it.\<close>

definition serve ::
  "'m bus_device \<Rightarrow> bool \<Rightarrow> 'm \<Rightarrow> 'c endpoint_worker \<Rightarrow> 'c endpoint_msg \<Rightarrow>
     ('m \<times> 'c endpoint_worker \<times> 'c worker_out list) res" where
  "serve ops locked m w msg =
     rbind (endpoint_receive ops locked True m w msg True) (\<lambda>(m, w, out).
     if listening w \<or> ew_state w = LookForTrb then Inr (m, w, out)
     else rbind (endpoint_turn ops True locked m w True) (\<lambda>(m, w, out2). Inr (m, w, out @ out2)))"

definition replies :: "'c worker_out list \<Rightarrow> ('c \<times> completion_code) list" where
  "replies out = List.map_filter (\<lambda>x. case x of Reply c code \<Rightarrow> Some (c, code) | _ \<Rightarrow> None) out"

lemma replies_simps [simp]:
  "replies [] = []" "replies (Reply c code # out) = (c, code) # replies out"
  "replies (Handle h # out) = replies out" "replies (Terminated c # out) = replies out"
  "replies (DroppedReply c # out) = replies out"
  by (simp_all add: replies_def List.map_filter_def)

lemma replies_handles [simp]: "replies (map Handle hout @ out) = replies out"
  by (induction hout) simp_all

lemma is_ok_Inr: "is_ok x \<longleftrightarrow> (\<exists>y. x = Inr y)"
  by (cases x) auto

lemmas receive_defs = endpoint_receive_def context_state_error_def reply_def Let_def

lemma serve_direct:
  assumes "endpoint_receive ops locked True m w msg True = Inr (m', w', out)" "listening w' \<or> ew_state w' = LookForTrb"
  shows "serve ops locked m w msg = Inr (m', w', out)"
  using assms by (simp add: serve_def)

lemma serve_turn:
  assumes "endpoint_receive ops locked True m w msg True = Inr (m1, w1, out)" "\<not> listening w1" "ew_state w1 \<noteq> LookForTrb"
    "endpoint_turn ops True locked m1 w1 True = Inr (m2, w2, out2)"
  shows "serve ops locked m w msg = Inr (m2, w2, out @ out2)"
  using assms by (simp add: serve_def)

lemma serve_set_dequeue:
  assumes "ew_state w \<in> {ErrorState, StoppedWithContinuableTrb, StoppedState}"
    "set_state ops m (ew_context w) ENDPOINT_STOPPED = Inr m1"
    "set_dequeue_pointer_and_cycle_state ops m1 (ew_context w) dp cs = Inr m2"
  shows "serve ops locked m w (SetTrDequeuePointerMsg dp cs c) =
    Inr (m2, w\<lparr>ew_ring := set_dequeue_pointer (ew_ring w) dp cs, ew_state := StoppedState\<rparr>, [Reply c Success])"
proof -
  let ?w1 = "w\<lparr>ew_state := SettingTrDequeuePointer dp cs c\<rparr>"
  have r: "endpoint_receive ops locked True m w (SetTrDequeuePointerMsg dp cs c) True = Inr (m, ?w1, [])"
    using assms(1) by (auto simp: receive_defs)
  have "endpoint_turn ops True locked m ?w1 True =
      Inr (m2, w\<lparr>ew_ring := set_dequeue_pointer (ew_ring w) dp cs, ew_state := StoppedState\<rparr>, [Reply c Success])"
    using assms(2,3) by (simp add: endpoint_turn_def reply_def Let_def)
  then show ?thesis using serve_turn [OF r] by (simp add: listening_def)
qed

text \<open>The commands that are answered at once.\<close>

lemma receive_command:
  assumes "listening w" "save_context ops m w ENDPOINT_STOPPED = Inr m1"
    "case k of SetDequeueCommand dp cs \<Rightarrow> abs_state w \<notin> {AbsError, AbsStopped} | _ \<Rightarrow> True"
  shows "\<exists>w' out. endpoint_receive ops locked True m w (command_msg k c) True =
      Inr (if snd (diagram (abs_state w) k) = Success then m1 else m, w', out) \<and> listening w' \<and> ew_ring w' = ew_ring w \<and>
    (abs_state w', replies out) = (case diagram (abs_state w) k of (st, code) \<Rightarrow> (st, [(c, code)]))"
proof -
  obtain h hout where "hotplug_cancel locked (ew_real w) = (h, hout)" by force
  then show ?thesis using assms
    by (cases k; cases "ew_state w") (simp_all add: receive_defs listening_def abs_state_def)
qed

lemma serve_doorbell:
  assumes "listening w"
  shows "abs_state w = AbsStopped \<Longrightarrow> set_state ops m (ew_context w) ENDPOINT_RUNNING = Inr m1 \<Longrightarrow>
      serve ops locked m w Doorbell = Inr (m1, w\<lparr>ew_state := LookForTrb\<rparr>, [])"
    and "abs_state w \<noteq> AbsStopped \<Longrightarrow> \<exists>w'. serve ops locked m w Doorbell = Inr (m, w', []) \<and>
      abs_state w' = abs_state w \<and> ew_ring w' = ew_ring w"
  using assms by (cases "ew_state w"; simp add: serve_def receive_defs listening_def abs_state_def)+

section \<open>The endpoint context in guest memory\<close>

text \<open>
  The context lies in one writable mapping of guest memory. \<open>context_saved\<close>: a later memory differs from an
  earlier one in nothing but the state byte of the context and, if one was written, its ring position.
\<close>

definition context_in_memory :: "dma_device dynamic_bus \<Rightarrow> u64 \<Rightarrow> bool" where
  "context_in_memory m ctx \<longleftrightarrow>
     dyn_ok m \<and> in_one_segment m (unat ctx) 16 \<and> (\<forall>i < 16. dyn_writable m (unat ctx + i))"

definition context_saved ::
  "dma_device dynamic_bus \<Rightarrow> u64 \<Rightarrow> u8 \<Rightarrow> (u64 \<times> bool) option \<Rightarrow> dma_device dynamic_bus \<Rightarrow> bool" where
  "context_saved m ctx st pos m' \<longleftrightarrow> context_in_memory m' ctx \<and>
     (\<forall>a. dyn_byte m' a =
       (if a = unat ctx then st
        else case pos of
          Some (dp, cs) \<Rightarrow>
            if unat ctx + 8 \<le> a \<and> a < unat ctx + 16 then le_bytes 8 (dp OR of_bool cs) ! (a - (unat ctx + 8))
            else dyn_byte m a
        | None \<Rightarrow> dyn_byte m a))"

lemma in_one_segment_sub: "in_one_segment m a n \<Longrightarrow> a \<le> b \<Longrightarrow> b + k \<le> a + n \<Longrightarrow> in_one_segment m b k"
  unfolding in_one_segment_def by (meson le_trans)

lemma context_bound:
  assumes "context_in_memory m ctx"
  shows "unat ctx + 16 \<le> dma_limit" "unat (ctx + 8) = unat ctx + 8"
proof -
  have "dyn_ok m" "in_one_segment m (unat ctx) 16" using assms by (simp_all add: context_in_memory_def)
  then show b: "unat ctx + 16 \<le> dma_limit" using guest.word_ok_bound [of m "unat ctx" 16] dma_bus_limit [of m] by simp
  show "unat (ctx + 8) = unat ctx + 8" using b by (subst unat_add_lt) simp_all
qed

lemma set_state_saved:
  assumes "context_in_memory m ctx"
  shows "\<exists>m'. set_state dma_bus_ops m ctx st = Inr m' \<and> context_saved m ctx st None m'"
proof -
  have c: "dyn_ok m" "in_one_segment m (unat ctx) (size_bytes Size1)" "dyn_writable m (unat ctx)"
    using assms in_one_segment_sub [of m "unat ctx" 16 "unat ctx" 1] by (auto simp: context_in_memory_def dest: spec [of _ 0])
  have "le_bytes (size_bytes Size1) (ucast st :: u64) = [st]" by (simp add: le_bytes_def)
  then show ?thesis using guest.word_write_law [OF c(1,2), of "ucast st"] c(3) assms
    by (auto simp: set_state_def context_saved_def context_in_memory_def patch_def)
qed

lemma set_position_saved:
  assumes "context_in_memory m ctx" "dp AND 0xf = 0"
  shows "\<exists>m'. set_dequeue_pointer_and_cycle_state dma_bus_ops m ctx dp cs = Inr m' \<and> context_in_memory m' ctx \<and>
    (\<forall>a. dyn_byte m' a = (if unat ctx + 8 \<le> a \<and> a < unat ctx + 16
      then le_bytes 8 (dp OR of_bool cs) ! (a - (unat ctx + 8)) else dyn_byte m a))"
proof -
  note u = context_bound [OF assms(1)]
  have c: "dyn_ok m" "in_one_segment m (unat (ctx + 8)) (size_bytes Size8)"
    using assms(1) in_one_segment_sub [of m "unat ctx" 16 "unat ctx + 8" 8] by (auto simp: context_in_memory_def u)
  have w: "dyn_writable m a" if "unat ctx + 8 \<le> a" "a < unat ctx + 16" for a
    using assms(1) that by (auto simp: context_in_memory_def dest: spec [of _ "a - unat ctx"])
  show ?thesis using guest.word_write_law [OF c, of "dp OR of_bool cs"] w assms
    by (auto simp: set_dequeue_pointer_and_cycle_state_def context_in_memory_def patch_def u)
qed

lemma context_saved_position:
  assumes "context_saved m ctx st None m1" "context_in_memory m2 ctx"
    "\<forall>a. dyn_byte m2 a = (if unat ctx + 8 \<le> a \<and> a < unat ctx + 16
      then le_bytes 8 (dp OR of_bool cs) ! (a - (unat ctx + 8)) else dyn_byte m1 a)"
  shows "context_saved m ctx st (Some (dp, cs)) m2"
  using assms by (auto simp: context_saved_def)

lemma set_both_saved:
  assumes "context_in_memory m ctx" "dp AND 0xf = 0"
  obtains m1 m2 where "set_state dma_bus_ops m ctx st = Inr m1"
    "set_dequeue_pointer_and_cycle_state dma_bus_ops m1 ctx dp cs = Inr m2" "context_saved m ctx st (Some (dp, cs)) m2"
proof -
  obtain m1 where m1: "set_state dma_bus_ops m ctx st = Inr m1" "context_saved m ctx st None m1"
    using set_state_saved [OF assms(1)] by blast
  then obtain m2 where m2: "set_dequeue_pointer_and_cycle_state dma_bus_ops m1 ctx dp cs = Inr m2" "context_in_memory m2 ctx"
    "\<forall>a. dyn_byte m2 a = (if unat ctx + 8 \<le> a \<and> a < unat ctx + 16
      then le_bytes 8 (dp OR of_bool cs) ! (a - (unat ctx + 8)) else dyn_byte m1 a)"
    using set_position_saved [OF _ assms(2), of m1 ctx cs] by (auto simp: context_saved_def)
  show ?thesis by (rule that [OF m1(1) m2(1) context_saved_position [OF m1(2) m2(2,3)]])
qed

lemma save_context_saved:
  assumes "context_in_memory m (ew_context w)" "lr_dequeue_pointer (ew_ring w) AND 0xf = 0"
  shows "\<exists>m'. save_context dma_bus_ops m w st = Inr m' \<and>
    context_saved m (ew_context w) st (Some (get_dequeue_pointer (ew_ring w))) m'"
proof -
  obtain m1 m2 where "set_state dma_bus_ops m (ew_context w) st = Inr m1"
    "set_dequeue_pointer_and_cycle_state dma_bus_ops m1 (ew_context w)
      (lr_dequeue_pointer (ew_ring w)) (lr_cycle_state (ew_ring w)) = Inr m2"
    "context_saved m (ew_context w) st (Some (lr_dequeue_pointer (ew_ring w), lr_cycle_state (ew_ring w))) m2"
    by (rule set_both_saved [OF assms])
  then show ?thesis by (simp add: save_context_def get_dequeue_pointer_def)
qed

section \<open>The worker implements the diagram\<close>

text \<open>The ring position after a command: a new one, or the one at which the endpoint was stopped.\<close>

definition position_after :: "ep_command \<Rightarrow> linked_ring \<Rightarrow> u64 \<times> bool" where
  "position_after k r = (case k of SetDequeueCommand dp cs \<Rightarrow> (dp, cs) | _ \<Rightarrow> get_dequeue_pointer r)"

lemma serve_command:
  assumes "listening w" "context_in_memory m (ew_context w)" "lr_dequeue_pointer (ew_ring w) AND 0xf = 0"
    "aligned_command k"
  shows "\<exists>m' w' out. serve dma_bus_ops locked m w (command_msg k c) = Inr (m', w', out) \<and> listening w' \<and>
    (abs_state w', replies out) = (case diagram (abs_state w) k of (st, code) \<Rightarrow> (st, [(c, code)])) \<and>
    (if snd (diagram (abs_state w) k) = Success
     then context_saved m (ew_context w) ENDPOINT_STOPPED (Some (position_after k (ew_ring w))) m' \<and>
       get_dequeue_pointer (ew_ring w') = position_after k (ew_ring w)
     else m' = m \<and> ew_ring w' = ew_ring w)"
proof (cases "\<exists>dp cs. k = SetDequeueCommand dp cs \<and> abs_state w \<in> {AbsError, AbsStopped}")
  case True
  then obtain dp cs where k: "k = SetDequeueCommand dp cs" "dp AND 0xf = 0"
    "ew_state w \<in> {ErrorState, StoppedWithContinuableTrb, StoppedState}" "abs_state w \<in> {AbsError, AbsStopped}"
    using assms(1,4) by (cases "ew_state w") (auto simp: aligned_command_def abs_state_def listening_def)
  obtain m1 m2 where m: "set_state dma_bus_ops m (ew_context w) ENDPOINT_STOPPED = Inr m1"
    "set_dequeue_pointer_and_cycle_state dma_bus_ops m1 (ew_context w) dp cs = Inr m2"
    "context_saved m (ew_context w) ENDPOINT_STOPPED (Some (dp, cs)) m2"
    using set_both_saved [OF assms(2) k(2)] by metis
  show ?thesis using serve_set_dequeue [OF k(3) m(1,2), of locked c] m(3) k(1,4)
    by (auto simp: abs_state_def listening_def position_after_def get_dequeue_pointer_def set_dequeue_pointer_def)
next
  case False
  then have k: "case k of SetDequeueCommand dp cs \<Rightarrow> abs_state w \<notin> {AbsError, AbsStopped} | _ \<Rightarrow> True"
    "snd (diagram (abs_state w) k) = Success \<longrightarrow> position_after k (ew_ring w) = get_dequeue_pointer (ew_ring w)"
    by (cases k; cases "abs_state w"; simp add: position_after_def)+
  obtain m1 where m1: "save_context dma_bus_ops m w ENDPOINT_STOPPED = Inr m1"
    "context_saved m (ew_context w) ENDPOINT_STOPPED (Some (get_dequeue_pointer (ew_ring w))) m1"
    using save_context_saved [OF assms(2,3)] by blast
  obtain w' out where r: "endpoint_receive dma_bus_ops locked True m w (command_msg k c) True =
      Inr (if snd (diagram (abs_state w) k) = Success then m1 else m, w', out)" "listening w'" "ew_ring w' = ew_ring w"
    "(abs_state w', replies out) = (case diagram (abs_state w) k of (st, code) \<Rightarrow> (st, [(c, code)]))"
    using receive_command [OF assms(1) m1(1) k(1), of locked c] by blast
  then show ?thesis using serve_direct [OF r(1)] k(2) m1(2) by (auto split: if_splits)
qed

text \<open>
  C17: The worker implements the endpoint state diagram. In every state in which it takes messages, each
  Stop, Reset and Set TR Dequeue Pointer command gets exactly one answer, with the completion code of
  the specification's diagram, and leaves the worker in the diagram's state. A command that succeeds
  leaves the state Stopped and the position of the ring in the endpoint context and changes no other byte
  of guest memory; a command that is refused changes none. A doorbell restarts a stopped endpoint, whose
  context then says Running, and otherwise changes nothing.
\<close>

theorem endpoint_implements_diagram:
  assumes "listening w" "context_in_memory m (ew_context w)" "lr_dequeue_pointer (ew_ring w) AND 0xf = 0"
    "aligned_command k"
  shows "(\<exists>m' w' out. serve dma_bus_ops locked m w (command_msg k c) = Inr (m', w', out) \<and>
      (abs_state w', replies out) = (case diagram (abs_state w) k of (st, code) \<Rightarrow> (st, [(c, code)])) \<and>
      (if snd (diagram (abs_state w) k) = Success
       then context_saved m (ew_context w) ENDPOINT_STOPPED (Some (position_after k (ew_ring w))) m' \<and>
         get_dequeue_pointer (ew_ring w') = position_after k (ew_ring w)
       else m' = m \<and> ew_ring w' = ew_ring w)) \<and>
    (\<exists>m' w'. serve dma_bus_ops locked m w Doorbell = Inr (m', w', []) \<and>
      abs_state w' = doorbell_diagram (abs_state w) \<and> ew_ring w' = ew_ring w \<and>
      (if abs_state w = AbsStopped then context_saved m (ew_context w) ENDPOINT_RUNNING None m' else m' = m))"
proof
  show "\<exists>m' w'. serve dma_bus_ops locked m w Doorbell = Inr (m', w', []) \<and>
      abs_state w' = doorbell_diagram (abs_state w) \<and> ew_ring w' = ew_ring w \<and>
      (if abs_state w = AbsStopped then context_saved m (ew_context w) ENDPOINT_RUNNING None m' else m' = m)"
  proof (cases "abs_state w = AbsStopped")
    case True
    obtain m1 where m1: "set_state dma_bus_ops m (ew_context w) ENDPOINT_RUNNING = Inr m1"
      "context_saved m (ew_context w) ENDPOINT_RUNNING None m1"
      using set_state_saved [OF assms(2)] by blast
    then show ?thesis using serve_doorbell(1) [OF assms(1) True m1(1), of locked] True
      by (simp add: doorbell_diagram_def) (simp add: abs_state_def)
  next
    case False
    then show ?thesis using serve_doorbell(2) [OF assms(1) False, of dma_bus_ops locked m] by (auto simp: doorbell_diagram_def)
  qed
qed (use serve_command [OF assms] in blast)

text \<open>An endpoint of a blank memory, and its context after a Stop command.\<close>

definition sample_endpoint :: "'c worker_state \<Rightarrow> 'c endpoint_worker" where
  "sample_endpoint st =
     \<lparr>ew_state = st, ew_context = 0x8020, ew_ring = linked_ring_new 0x4000 True, ew_real = hotplug_dummy 1 1\<rparr>"

lemma sample_endpoint_simps [simp]:
  "ew_state (sample_endpoint st) = st" "ew_context (sample_endpoint st) = 0x8020"
  "lr_dequeue_pointer (ew_ring (sample_endpoint st)) = 0x4000" "lr_cycle_state (ew_ring (sample_endpoint st))"
  by (simp_all add: sample_endpoint_def linked_ring_new_def)

lemma sample_context: "context_in_memory blank_memory 0x8020"
  by (simp add: context_in_memory_def blank_memory_ok)

theorem endpoint_implements_diagram_witness:
  "\<exists>m' w' out. serve dma_bus_ops False blank_memory (sample_endpoint WaitForDoorbell) (command_msg StopCommand (7 :: nat)) =
      Inr (m', w', out) \<and> abs_state w' = AbsStopped \<and> replies out = [(7, Success)] \<and>
    map (dyn_byte m') [0x8020, 0x8028, 0x8029] = [3, 1, 0x40]"
proof -
  let ?w = "sample_endpoint WaitForDoorbell :: nat endpoint_worker"
  have w: "listening ?w" "abs_state ?w = AbsRunning" "lr_dequeue_pointer (ew_ring ?w) AND 0xf = 0"
    by (simp_all add: listening_def abs_state_def)
  have b: "le_bytes 8 (0x4001 :: u64) = [1, 0x40, 0, 0, 0, 0, 0, 0]" by code_simp
  obtain m' w' out where t: "serve dma_bus_ops False blank_memory ?w (command_msg StopCommand 7) = Inr (m', w', out)"
    "abs_state w' = AbsStopped" "replies out = [(7, Success)]"
    "context_saved blank_memory 0x8020 ENDPOINT_STOPPED (Some (position_after StopCommand (ew_ring ?w))) m'"
    using endpoint_implements_diagram [of ?w blank_memory StopCommand False 7] w sample_context
    by (auto simp: aligned_command_def)
  have "map (dyn_byte m') [0x8020, 0x8028, 0x8029] = [3, 1, 0x40]"
    using t(4) b by (simp add: context_saved_def position_after_def get_dequeue_pointer_def ENDPOINT_STOPPED_def)
  with t(1-3) show ?thesis by (intro exI conjI)
qed

section \<open>Termination\<close>

lemma serve_terminate:
  assumes "listening w" "ew_state w \<notin> {WaitForTrbCompletion, ErrorState}"
    "set_state ops m (ew_context w) ENDPOINT_DISABLED = Inr m1"
  shows "serve ops locked m w (Terminate c) = Inr (m1, w\<lparr>ew_state := Ended\<rparr>, [Terminated c])"
proof -
  have r: "endpoint_receive ops locked True m w (Terminate c) True = Inr (m, w\<lparr>ew_state := Terminating c\<rparr>, [])"
    using assms(1,2) by (cases "ew_state w") (simp_all add: receive_defs listening_def)
  have "endpoint_turn ops True locked m (w\<lparr>ew_state := Terminating c\<rparr>) True = Inr (m1, w\<lparr>ew_state := Ended\<rparr>, [Terminated c])"
    using assms(3) by (simp add: endpoint_turn_def)
  then show ?thesis using serve_turn [OF r] by (simp add: listening_def)
qed

lemma serve_terminate_dropped:
  assumes "ew_state w \<in> {WaitForTrbCompletion, ErrorState}"
  shows "serve ops locked m w (Terminate c) = Inr (m, w, [DroppedReply c])"
  using assms by (auto simp: receive_defs listening_def intro: serve_direct)

text \<open>
  C18: Terminating an endpoint. A slot that disables an endpoint is answered and the worker ends exactly
  when no TRB is in flight and the endpoint is not in the Error state: the state Disabled is then in the
  endpoint context and no other byte of guest memory has changed. In those two states the request is
  dropped without an answer, whatever the memory holds, and the worker carries on.
\<close>

theorem endpoint_terminates:
  assumes "listening w"
  shows "(ew_state w \<in> {WaitForTrbCompletion, ErrorState} \<longrightarrow>
      serve dma_bus_ops locked m w (Terminate c) = Inr (m, w, [DroppedReply c])) \<and>
    (ew_state w \<notin> {WaitForTrbCompletion, ErrorState} \<and> context_in_memory m (ew_context w) \<longrightarrow>
      (\<exists>m'. serve dma_bus_ops locked m w (Terminate c) = Inr (m', w\<lparr>ew_state := Ended\<rparr>, [Terminated c]) \<and>
        context_saved m (ew_context w) ENDPOINT_DISABLED None m'))"
proof (intro conjI impI)
  assume a: "ew_state w \<notin> {WaitForTrbCompletion, ErrorState} \<and> context_in_memory m (ew_context w)"
  obtain m1 where m1: "set_state dma_bus_ops m (ew_context w) ENDPOINT_DISABLED = Inr m1"
    "context_saved m (ew_context w) ENDPOINT_DISABLED None m1" using set_state_saved a by metis
  have "serve dma_bus_ops locked m w (Terminate c) = Inr (m1, w\<lparr>ew_state := Ended\<rparr>, [Terminated c])"
    using serve_terminate [OF assms _ m1(1)] a by simp
  with m1(2) show "\<exists>m'. serve dma_bus_ops locked m w (Terminate c) = Inr (m', w\<lparr>ew_state := Ended\<rparr>, [Terminated c]) \<and>
      context_saved m (ew_context w) ENDPOINT_DISABLED None m'"
    by blast
qed (rule serve_terminate_dropped)

theorem endpoint_terminates_witness:
  "serve dma_bus_ops False blank_memory (sample_endpoint ErrorState) (Terminate (7 :: nat)) =
      Inr (blank_memory, sample_endpoint ErrorState, [DroppedReply 7]) \<and>
   (\<exists>m' w'. serve dma_bus_ops False blank_memory (sample_endpoint StoppedState) (Terminate (7 :: nat)) =
      Inr (m', w', [Terminated 7]) \<and> ew_state w' = Ended \<and> dyn_byte m' 0x8020 = 0)"
proof
  show "serve dma_bus_ops False blank_memory (sample_endpoint ErrorState) (Terminate (7 :: nat)) =
      Inr (blank_memory, sample_endpoint ErrorState, [DroppedReply 7])"
    using endpoint_terminates [of "sample_endpoint ErrorState" False blank_memory "7 :: nat"] by (simp add: listening_def)
  have "\<exists>m'. serve dma_bus_ops False blank_memory (sample_endpoint StoppedState) (Terminate (7 :: nat)) =
      Inr (m', (sample_endpoint StoppedState)\<lparr>ew_state := Ended\<rparr>, [Terminated 7]) \<and>
      context_saved blank_memory 0x8020 ENDPOINT_DISABLED None m'"
    using endpoint_terminates [of "sample_endpoint StoppedState" False blank_memory "7 :: nat"] sample_context
    by (simp add: listening_def)
  then show "\<exists>m' w'. serve dma_bus_ops False blank_memory (sample_endpoint StoppedState) (Terminate (7 :: nat)) =
      Inr (m', w', [Terminated 7]) \<and> ew_state w' = Ended \<and> dyn_byte m' 0x8020 = 0"
    by (auto simp: context_saved_def ENDPOINT_DISABLED_def)
qed

section \<open>Lost devices\<close>

text \<open>
  A TRB in flight when the device is lost is completed: the driver gets one transaction error event for
  it, and the endpoint halts with the ring at that TRB, whatever the handle was waiting for.
\<close>

lemma lost_device_halts:
  assumes "ew_state w = WaitForTrbCompletion" "hh_submitted (ew_real w) = Some addr"
    "save_context ops m (w\<lparr>ew_real := (ew_real w)\<lparr>hh_submitted := None\<rparr>\<rparr>) ENDPOINT_HALTED = Inr m'"
  shows "\<exists>w'. endpoint_complete ops True m w None =
      Inr (m', w', [Handle (Event (Transfer addr 0 UsbTransactionError False
        (hh_endpoint_id (ew_real w)) (hh_slot_id (ew_real w))))]) \<and>
    ew_state w' = Halted \<and> ew_ring w' = ew_ring w"
proof -
  let ?w = "w\<lparr>ew_real := (ew_real w)\<lparr>hh_submitted := None\<rparr>\<rparr>"
  have "?w\<lparr>ew_ring := ew_ring w\<rparr> = ?w" by simp
  then show ?thesis using assms
    by (auto simp: endpoint_complete_def hotplug_complete_def send_transfer_def new_transfer_event_trb_def rewind_def
        Let_def split: option.split)
qed

section \<open>Malformed control transfers\<close>

lemma launch_control:
  assumes "launch_endpoint ops m (Some dev) detached slot_id endpoint_id ctx = Inr (m1, w)"
    "get_endpoint_type ops m ctx = Inr EpControl"
  shows "ew_state w = WaitForDoorbell" "ew_context w = ctx"
    "ew_real w = hotplug_new slot_id endpoint_id
       (ControlEp (control_handle_new slot_id endpoint_id
          (meta_control (pcap_usb_bus_number (cd_speed dev)) slot_id endpoint_id))) detached"
  using assms by (auto simp: launch_endpoint_def endpoint_launch_def)

lemma control_rejects:
  assumes "cp_state (ch_parser h) = Initial" "transfer_parse (raw_buffer t) = Inr v" "\<forall>d. v \<noteq> SetupStage d"
  shows "control_submit ops m accepts h t = Inr (h\<lparr>ch_submission := ParserError (raw_address t)\<rparr>, [])"
  using assms by (cases v; cases h) (simp_all add: control_submit_def parser_trb_def)

lemma control_error_panics:
  assumes "ch_submission h = ParserError addr" "pm_transfer_type (ch_pcap_meta h) = ControlTransfer"
  shows "control_complete ops m up h answer = Inl UnwrapFailed"
  using assms by (simp add: control_complete_def trb_error_hook_control Let_def)

text \<open>
  C15: A guest can panic the worker of a control endpoint. When the first TRB on the ring of a freshly
  launched control endpoint is not a setup stage, the doorbell leads the worker to that TRB, and reporting
  the TRB error to the packet capture panics, whether or not a capture is configured: the driver never
  gets the TRB error event, and no command to the endpoint is answered any more.
\<close>

theorem malformed_control_trb_panics:
  assumes "launch_endpoint ops m (Some dev) detached slot_id endpoint_id ctx = Inr (m1, w)"
    "get_endpoint_type ops m ctx = Inr EpControl"
    "next_trb ops m2 (ew_ring w) = Inr (ring, Some t)"
    "transfer_parse (raw_buffer t) = Inr v" "\<forall>d. v \<noteq> SetupStage d"
  shows "\<exists>w1 w2. endpoint_receive ops locked real_ok m2 w Doorbell alive = Inr (m2, w1, []) \<and>
    endpoint_turn ops accepts False m2 w1 alive = Inr (m2, w2, []) \<and> ew_state w2 = WaitForTrbCompletion \<and>
    (\<forall>m3 answer. endpoint_complete ops up m3 w2 (Some (CtlAnswer answer)) = Inl UnwrapFailed)"
proof -
  note w = launch_control [OF assms(1,2)]
  let ?h = "control_handle_new slot_id endpoint_id (meta_control (pcap_usb_bus_number (cd_speed dev)) slot_id endpoint_id)"
  let ?e = "?h\<lparr>ch_submission := ParserError (raw_address t)\<rparr>"
  let ?w1 = "w\<lparr>ew_state := LookForTrb\<rparr>"
  let ?w2 = "?w1\<lparr>ew_ring := ring, ew_real := (ew_real w)\<lparr>hh_submitted := Some (raw_address t), hh_handle := Some (ControlEp ?e)\<rparr>,
    ew_state := WaitForTrbCompletion\<rparr>"
  have "control_submit ops m2 accepts ?h t = Inr (?e, [])"
    by (rule control_rejects [OF _ assms(4,5)]) (simp add: control_handle_new_def control_parser_new_def)
  then have "hotplug_submit ops m2 accepts False (ew_real w) t =
      Inr ((ew_real w)\<lparr>hh_submitted := Some (raw_address t), hh_handle := Some (ControlEp ?e)\<rparr>, [])"
    by (simp add: hotplug_submit_def handle_submit_def w hotplug_new_def)
  then have "endpoint_turn ops accepts False m2 ?w1 alive = Inr (m2, ?w2, [])"
    using assms(3) by (simp add: endpoint_turn_def)
  moreover have "endpoint_receive ops locked real_ok m2 w Doorbell alive = Inr (m2, ?w1, [])"
    by (simp add: endpoint_receive_def w Let_def)
  moreover have "endpoint_complete ops up m3 ?w2 (Some (CtlAnswer answer)) = Inl UnwrapFailed" for m3 answer
  proof -
    have "control_complete ops m3 up ?e answer = Inl UnwrapFailed"
      by (rule control_error_panics [of ?e "raw_address t"]) (simp_all add: control_handle_new_def meta_control_def)
    then have "hotplug_complete ops m3 up (ew_real ?w2) (Some (CtlAnswer answer)) = Inl UnwrapFailed"
      by (simp add: hotplug_complete_def handle_complete_def)
    then show ?thesis by (simp add: endpoint_complete_def)
  qed
  ultimately show ?thesis by (intro exI [of _ ?w1] exI [of _ ?w2]) simp
qed

text \<open>A guest memory whose control endpoint context at \<open>0x1000\<close> leads to a ring with a normal TRB.\<close>

definition malformed_ops :: "unit bus_device" where
  "malformed_ops = \<lparr>dev_size = (\<lambda>d. - 1),
     dev_read = (\<lambda>d r. Inr (if req_addr r = 0x1004 then 0x20 else 0x4001)), dev_write = (\<lambda>d r v. Inr d),
     dev_read_bulk = (\<lambda>d a n. Inr [0, 0x50, 0, 0, 0, 0, 0, 0, 8, 0, 0, 0, 1, 4, 0, 0]), dev_write_bulk = (\<lambda>d a bs. Inr d)\<rparr>"

theorem malformed_control_trb_panics_witness:
  "\<exists>m1 (w :: nat endpoint_worker) w1 w2.
     launch_endpoint malformed_ops () (Some \<lparr>cd_identifier = 7 :: nat, cd_speed = Some High, cd_token = 0 :: nat\<rparr>) False 1 1 0x1000 =
       Inr (m1, w) \<and>
     endpoint_receive malformed_ops False True () w Doorbell True = Inr ((), w1, []) \<and>
     endpoint_turn malformed_ops True False () w1 True = Inr ((), w2, []) \<and>
     endpoint_complete malformed_ops True () w2 (Some (CtlAnswer CtlStall)) = Inl UnwrapFailed"
proof -
  let ?dev = "\<lparr>cd_identifier = 7 :: nat, cd_speed = Some High, cd_token = 0 :: nat\<rparr>"
  let ?b = "[0, 0x50, 0, 0, 0, 0, 0, 0, 8, 0, 0, 0, 1, 4, 0, 0] :: u8 list"
  let ?w = "\<lparr>ew_state = WaitForDoorbell, ew_context = 0x1000, ew_ring = linked_ring_new 0x4000 True,
     ew_real = hotplug_new 1 1 (ControlEp (control_handle_new 1 1 (meta_control 2 1 1))) False\<rparr> :: nat endpoint_worker"
  have ty: "get_endpoint_type malformed_ops () 0x1000 = Inr EpControl"
    by (simp add: get_endpoint_type_def malformed_ops_def request_new_def)
  have l: "launch_endpoint malformed_ops () (Some ?dev) False 1 1 0x1000 = Inr ((), ?w)"
    unfolding launch_endpoint_def ty
    by (simp add: endpoint_launch_def set_state_def get_dequeue_pointer_and_cycle_state_def
        malformed_ops_def request_new_def pcap_usb_bus_number_def is_usb2_speed_def)
  have r: "dev_read_bulk malformed_ops () (lr_dequeue_pointer (ew_ring ?w)) 16 = Inr ?b" by (simp add: malformed_ops_def)
  have k: "link_parse ?b = None" by code_simp
  have n: "next_trb malformed_ops () (ew_ring ?w) = Inr (ew_ring ?w, Some \<lparr>raw_address = 0x4000, raw_buffer = ?b\<rparr>)"
    using r follow_links.simps [of malformed_ops "()" 256 "ew_ring ?w" ?b] k
    by (simp add: next_trb_def next_trb_raw_def linked_ring_new_def)
  have p: "transfer_parse ?b = Inr (Normal (NormalTrbData 0x5000 8 False False False False))" by code_simp
  show ?thesis
    using malformed_control_trb_panics [OF l ty n, of "Normal (NormalTrbData 0x5000 8 False False False False)" False True True True True]
      p l by auto
qed

end
