(* ===== verification/SlotWorld.thy ===== *)
theory SlotWorld
  imports SlotService EndpointSpec
begin

text \<open>
  The slot worker with the endpoint workers it launched: the composition of \<open>slot_manager.rs\<close>,
  \<open>endpoint_launcher.rs\<close> and \<open>endpoint.rs\<close>. A sender is the index of the worker it feeds. A message is
  delivered together with the turn the worker takes on it, so between two steps every worker waits for a
  message or for its device. Reply channels are \<open>Some c\<close> for the command ring's and \<open>None\<close> for the slot
  worker's own.
\<close>

section \<open>The world of a slot worker\<close>

record ('m, 'c) endpoint_world =
  wd_mem :: 'm
  wd_workers :: "'c option endpoint_worker list"
  wd_launcher :: bool
  wd_out :: "'c option worker_out list"

definition world_dma :: "'m bus_device \<Rightarrow> ('m, 'c) endpoint_world bus_device" where
  "world_dma ops =
     \<lparr>dev_size = (\<lambda>w. dev_size ops (wd_mem w)),
      dev_read = (\<lambda>w. dev_read ops (wd_mem w)),
      dev_write = (\<lambda>w r v. rbind (dev_write ops (wd_mem w) r v) (\<lambda>m. Inr (w\<lparr>wd_mem := m\<rparr>))),
      dev_read_bulk = (\<lambda>w. dev_read_bulk ops (wd_mem w)),
      dev_write_bulk = (\<lambda>w a bs. rbind (dev_write_bulk ops (wd_mem w) a bs) (\<lambda>m. Inr (w\<lparr>wd_mem := m\<rparr>)))\<rparr>"

text \<open>A worker that was told to look for TRBs does so before it waits again.\<close>

definition settle ::
  "'m bus_device \<Rightarrow> bool \<Rightarrow> ('m \<times> 'c endpoint_worker \<times> 'c worker_out list) res \<Rightarrow>
     ('m \<times> 'c endpoint_worker \<times> 'c worker_out list) res" where
  "settle ops locked r =
     rbind r (\<lambda>(m, wk, out).
     if ew_state wk = LookForTrb
     then rbind (endpoint_turn ops True locked m wk True) (\<lambda>(m, wk, out2). Inr (m, wk, out @ out2))
     else Inr (m, wk, out))"

text \<open>A worker that panics or returns an error ends.\<close>

definition worker_result ::
  "('m, 'c) endpoint_world \<Rightarrow> nat \<Rightarrow> ('m \<times> 'c option endpoint_worker \<times> 'c option worker_out list) res \<Rightarrow>
     ('m, 'c) endpoint_world \<times> 'c option worker_out list" where
  "worker_result w e r =
     (case r of
        Inl f \<Rightarrow> (w\<lparr>wd_workers := (wd_workers w)[e := (wd_workers w ! e)\<lparr>ew_state := Ended\<rparr>]\<rparr>, [])
      | Inr (m, wk, out) \<Rightarrow> (w\<lparr>wd_mem := m, wd_workers := (wd_workers w)[e := wk], wd_out := wd_out w @ out\<rparr>, out))"

text \<open>Delivering a message; a channel whose worker ended refuses it.\<close>

definition deliver ::
  "'m bus_device \<Rightarrow> bool \<Rightarrow> ('m, 'c) endpoint_world \<Rightarrow> nat \<Rightarrow> 'c option endpoint_msg \<Rightarrow>
     ('m, 'c) endpoint_world \<times> 'c option worker_out list \<times> bool" where
  "deliver ops locked w e msg =
     (if e < length (wd_workers w) \<and> ew_state (wd_workers w ! e) \<noteq> Ended
      then case worker_result w e (settle ops locked (serve ops locked (wd_mem w) (wd_workers w ! e) msg)) of
        (w, out) \<Rightarrow> (w, out, True)
      else (w, [], False))"

text \<open>The answer of the device to the TRB in flight.\<close>

definition device_answers ::
  "'m bus_device \<Rightarrow> bool \<Rightarrow> ('m, 'c) endpoint_world \<Rightarrow> nat \<Rightarrow> real_answer option \<Rightarrow> ('m, 'c) endpoint_world" where
  "device_answers ops locked w e a =
     (if e < length (wd_workers w) \<and> ew_state (wd_workers w ! e) = WaitForTrbCompletion
      then fst (worker_result w e (settle ops locked (endpoint_complete ops True (wd_mem w) (wd_workers w ! e) a)))
      else w)"

definition world_env ::
  "'m bus_device \<Rightarrow> bool \<Rightarrow> (u8 \<Rightarrow> ('i, 't) complete_device option) \<Rightarrow> bool \<Rightarrow>
     (('m, 'c) endpoint_world, nat, 'c) slot_env" where
  "world_env ops locked device detached =
     \<lparr>env_dma = world_dma ops,
      env_launch = (\<lambda>w i ep port ctx.
        if wd_launcher w
        then case launch_endpoint ops (wd_mem w) (device port) detached i ep ctx of
            Inl f \<Rightarrow> (w\<lparr>wd_launcher := False\<rparr>, None)
          | Inr (m, wk) \<Rightarrow> (w\<lparr>wd_mem := m, wd_workers := wd_workers w @ [wk]\<rparr>, Some (length (wd_workers w)))
        else (w, None)),
      env_terminate = (\<lambda>w e.
        case deliver ops locked w e (Terminate None) of (w, out, sent) \<Rightarrow> (w, sent \<and> Terminated None \<in> set out)),
      env_send = (\<lambda>w e msg.
        case deliver ops locked w e (map_endpoint_msg Some msg) of (w, out, sent) \<Rightarrow> (w, sent))\<rparr>"

section \<open>The contract holds\<close>

definition world_known :: "('m, 'c) endpoint_world \<Rightarrow> nat set" where
  "world_known w = {..<length (wd_workers w)}"

text \<open>An endpoint that waits for work, and whose context does not touch the very end of the address space.\<close>

definition world_quiet :: "('m, 'c) endpoint_world \<Rightarrow> nat \<Rightarrow> bool" where
  "world_quiet w e \<longleftrightarrow>
     e < length (wd_workers w) \<and> listening (wd_workers w ! e) \<and>
     ew_state (wd_workers w ! e) \<notin> {WaitForTrbCompletion, ErrorState} \<and>
     unat (ew_context (wd_workers w ! e)) + 16 \<le> dma_limit"

text \<open>With no device attached, every endpoint is a placeholder and the launcher accepts any context.\<close>

definition world_up :: "(u8 \<Rightarrow> ('i, 't) complete_device option) \<Rightarrow> ('m, 'c) endpoint_world \<Rightarrow> bool" where
  "world_up device w \<longleftrightarrow> wd_launcher w \<and> (\<forall>port. device port = None)"

lemma worker_result_frame:
  "worker_result w e r = (w', out) \<Longrightarrow>
    length (wd_workers w') = length (wd_workers w) \<and> wd_launcher w' = wd_launcher w \<and>
    (\<forall>e'. e' \<noteq> e \<longrightarrow> wd_workers w' ! e' = wd_workers w ! e')"
  by (auto simp: worker_result_def split: sum.splits prod.splits)

lemma deliver_frame:
  "deliver ops locked w e msg = (w', out, sent) \<Longrightarrow>
    length (wd_workers w') = length (wd_workers w) \<and> wd_launcher w' = wd_launcher w \<and>
    (\<forall>e'. e' \<noteq> e \<longrightarrow> wd_workers w' ! e' = wd_workers w ! e')"
  using worker_result_frame by (fastforce simp: deliver_def split: if_splits prod.splits)

lemma quiet_frame:
  "length (wd_workers w') = length (wd_workers w) \<Longrightarrow> wd_workers w' ! e = wd_workers w ! e \<Longrightarrow>
    world_quiet w' e = world_quiet w e"
  by (simp add: world_quiet_def)

lemma world_is_service:
  fixes ops :: "'m bus_device" and device :: "u8 \<Rightarrow> ('i, 't) complete_device option"
  shows "endpoint_service (world_env ops locked device detached :: (('m, 'c) endpoint_world, nat, 'c) slot_env)
    world_known world_quiet (world_up device)"
proof unfold_locales
  fix w w' :: "('m, 'c) endpoint_world" and r v
  assume "dev_write (env_dma (world_env ops locked device detached)) w r v = Inr w'"
  then show "world_known w' = world_known w \<and> world_quiet w' = world_quiet w \<and> world_up device w' = world_up device w"
    by (auto simp: world_env_def world_dma_def world_known_def world_quiet_def world_up_def fun_eq_iff)
next
  fix w w' :: "('m, 'c) endpoint_world" and a bs
  assume "dev_write_bulk (env_dma (world_env ops locked device detached)) w a bs = Inr w'"
  then show "world_known w' = world_known w \<and> world_quiet w' = world_quiet w \<and> world_up device w' = world_up device w"
    by (auto simp: world_env_def world_dma_def world_known_def world_quiet_def world_up_def fun_eq_iff)
next
  fix w w' :: "('m, 'c) endpoint_world" and e answered
  assume "env_terminate (world_env ops locked device detached) w e = (w', answered)"
  then obtain out sent where d: "deliver ops locked w e (Terminate None) = (w', out, sent)"
    by (auto simp: world_env_def split: prod.splits)
  show "world_known w' = world_known w \<and> world_up device w' = world_up device w \<and>
      (\<forall>e'. e' \<noteq> e \<longrightarrow> world_quiet w' e' = world_quiet w e')"
    using deliver_frame [OF d] by (simp add: world_known_def world_up_def world_quiet_def)
next
  fix w w' :: "('m, 'c) endpoint_world" and e sent and msg :: "'c endpoint_msg"
  assume "env_send (world_env ops locked device detached) w e msg = (w', sent)"
  then show "world_known w' = world_known w"
    by (auto simp: world_env_def world_known_def dest: deliver_frame split: prod.splits)
next
  fix w w' :: "('m, 'c) endpoint_world" and i ep port ctx e
  assume "env_launch (world_env ops locked device detached) w i ep port ctx = (w', Some e)"
  then obtain m wk where "w' = w\<lparr>wd_mem := m, wd_workers := wd_workers w @ [wk]\<rparr>" "e = length (wd_workers w)"
    by (auto simp: world_env_def split: if_splits sum.splits prod.splits)
  then show "e \<notin> world_known w \<and> world_known w' = insert e (world_known w) \<and> (world_up device w \<longrightarrow> world_up device w') \<and>
      (\<forall>e'. e' \<noteq> e \<longrightarrow> world_quiet w' e' = world_quiet w e')"
    by (auto simp: world_known_def world_quiet_def world_up_def nth_append)
qed

interpretation world: endpoint_service "world_env ops locked device detached" world_known world_quiet "world_up device"
  by (rule world_is_service)

section \<open>Guest memory is the DMA bus\<close>

abbreviation world_safe :: "(dma_device dynamic_bus, 'c) endpoint_world \<Rightarrow> bool" where
  "world_safe w \<equiv> dyn_ok (wd_mem w)"

lemma world_is_accessible: "accessible_memory (world_dma dma_bus_ops) world_safe dma_limit"
proof
  fix w and a :: u64 and sz
  assume "world_safe w" "unat a + size_bytes sz \<le> dma_limit"
  then show "\<exists>v. dev_read (world_dma dma_bus_ops) w (request_new a sz) = Inr v"
    using accessible.read_total by (simp add: world_dma_def)
next
  fix w and a :: u64 and sz v
  assume "world_safe w" "unat a + size_bytes sz \<le> dma_limit"
  then show "\<exists>w'. dev_write (world_dma dma_bus_ops) w (request_new a sz) v = Inr w'"
    using accessible.write_total by (simp add: world_dma_def)
next
  fix w w' :: "(dma_device dynamic_bus, 'c) endpoint_world" and r v
  assume "world_safe w" "dev_write (world_dma dma_bus_ops) w r v = Inr w'"
  then show "world_safe w'" using accessible.write_ok by (auto simp: world_dma_def)
next
  fix w and a :: u64 and n
  assume "world_safe w" "unat a + n \<le> dma_limit"
  then show "\<exists>bs. dev_read_bulk (world_dma dma_bus_ops) w a n = Inr bs \<and> length bs = n"
    using accessible.read_bulk_total by (simp add: world_dma_def)
next
  fix w and a :: u64 and bs :: "u8 list"
  assume "world_safe w" "unat a + length bs \<le> dma_limit"
  then show "\<exists>w'. dev_write_bulk (world_dma dma_bus_ops) w a bs = Inr w'"
    using accessible.write_bulk_total by (simp add: world_dma_def)
next
  fix w w' :: "(dma_device dynamic_bus, 'c) endpoint_world" and a bs
  assume "world_safe w" "dev_write_bulk (world_dma dma_bus_ops) w a bs = Inr w'"
  then show "world_safe w'" using accessible.write_bulk_ok by (auto simp: world_dma_def)
next
  show "dma_limit < 2 ^ 64" by simp
qed

lemma deliver_terminate:
  assumes "dyn_ok (wd_mem w)" "world_quiet w e" "deliver dma_bus_ops locked w e (Terminate None) = (w', out, sent)"
  shows "sent \<and> Terminated None \<in> set out \<and> dyn_ok (wd_mem w')"
proof -
  let ?wk = "wd_workers w ! e"
  have q: "e < length (wd_workers w)" "listening ?wk" "ew_state ?wk \<notin> {WaitForTrbCompletion, ErrorState}"
    "unat (ew_context ?wk) + 16 \<le> dma_limit" using assms(2) by (simp_all add: world_quiet_def)
  obtain m1 where m1: "set_state dma_bus_ops (wd_mem w) (ew_context ?wk) ENDPOINT_DISABLED = Inr m1" "dyn_ok m1"
    using accessible.write_at [OF assms(1) q(4), of 0 Size1] by (auto simp: set_state_def)
  have "ew_state ?wk \<noteq> Ended" using q(2) by (auto simp: listening_def)
  then show ?thesis using assms(3) q(1) m1(2) serve_terminate [OF q(2,3) m1(1), of locked None]
    by (auto simp: deliver_def settle_def worker_result_def)
qed

lemma launch_ok:
  assumes "dyn_ok m" "launch_endpoint dma_bus_ops m device detached i ep ctx = Inr (m', wk)"
  shows "dyn_ok m'"
  using assms accessible.write_ok
  by (auto simp: launch_endpoint_def endpoint_launch_def set_state_def split: option.splits)

lemma launch_placeholder:
  assumes "dyn_ok m" "unat ctx + 16 \<le> dma_limit"
  shows "\<exists>m' wk. launch_endpoint dma_bus_ops m None detached i ep ctx = Inr (m', wk)"
proof -
  obtain v where "dev_read dma_bus_ops m (request_new (ctx + 4) Size1) = Inr v"
    using accessible.read_at [OF assms, of 4 Size1] by auto
  moreover obtain m' where m': "dev_write dma_bus_ops m (request_new ctx Size1) (ucast ENDPOINT_RUNNING) = Inr m'" "dyn_ok m'"
    using accessible.write_at [OF assms, of 0 Size1] by auto
  moreover obtain v' where "dev_read dma_bus_ops m' (request_new (ctx + 8) Size8) = Inr v'"
    using accessible.read_at [OF m'(2) assms(2), of 8 Size8] by auto
  ultimately show ?thesis
    by (simp add: launch_endpoint_def get_endpoint_type_def endpoint_launch_def set_state_def get_dequeue_pointer_and_cycle_state_def Let_def)
qed

lemma world_is_served:
  fixes device :: "u8 \<Rightarrow> ('i, 't) complete_device option"
  shows "served_slots (world_env dma_bus_ops locked device detached :: ((dma_device dynamic_bus, 'c) endpoint_world, nat, 'c) slot_env)
    world_known world_quiet (world_up device) world_safe dma_limit"
proof (intro served_slots.intro world_is_service)
  show "accessible_memory (env_dma (world_env dma_bus_ops locked device detached ::
      ((dma_device dynamic_bus, 'c) endpoint_world, nat, 'c) slot_env)) world_safe dma_limit"
    using world_is_accessible by (simp add: world_env_def)
  show "served_slots_axioms (world_env dma_bus_ops locked device detached ::
      ((dma_device dynamic_bus, 'c) endpoint_world, nat, 'c) slot_env) world_known world_quiet (world_up device) world_safe dma_limit"
  proof
    fix w w' :: "(dma_device dynamic_bus, 'c) endpoint_world" and e answered
    assume a: "world_safe w" "world_quiet w e" "env_terminate (world_env dma_bus_ops locked device detached) w e = (w', answered)"
    then obtain out sent where "deliver dma_bus_ops locked w e (Terminate None) = (w', out, sent)"
        "answered = (sent \<and> Terminated None \<in> set out)"
      by (auto simp: world_env_def split: prod.splits)
    then show "answered \<and> world_safe w'" using deliver_terminate [OF a(1,2)] by blast
  next
    fix w w' :: "(dma_device dynamic_bus, 'c) endpoint_world" and i ep port ctx e
    assume "world_safe w" "env_launch (world_env dma_bus_ops locked device detached) w i ep port ctx = (w', Some e)"
    then show "world_safe w'"
      by (auto simp: world_env_def dest: launch_ok split: if_splits sum.splits prod.splits)
  next
    fix w :: "(dma_device dynamic_bus, 'c) endpoint_world" and i ep port and ctx :: u64
    assume a: "world_safe w" "world_up device w" "unat ctx + 16 \<le> dma_limit"
    then have r: "wd_launcher w" "device port = None" by (simp_all add: world_up_def)
    obtain m' and wk :: "'c option endpoint_worker" where
      "launch_endpoint dma_bus_ops (wd_mem w) (device port) detached i ep ctx = Inr (m', wk)"
      using launch_placeholder [OF a(1,3)] unfolding r(2) by blast
    with r show "\<exists>w' e. env_launch (world_env dma_bus_ops locked device detached) w i ep port ctx = (w', Some e)"
      by (simp add: world_env_def)
  qed
qed

interpretation served: served_slots "world_env dma_bus_ops locked device detached" world_known world_quiet "world_up device"
  world_safe dma_limit
  by (rule world_is_served)

section \<open>Runs\<close>

datatype 'c world_action = SlotAct "'c slot_action" | DeviceAnswer nat "real_answer option"

fun world_run ::
  "'m bus_device \<Rightarrow> bool \<Rightarrow> (u8 \<Rightarrow> ('i, 't) complete_device option) \<Rightarrow> bool \<Rightarrow> ('m, 'c) endpoint_world \<Rightarrow>
     nat slot_worker \<Rightarrow> 'c world_action list \<Rightarrow> (('m, 'c) endpoint_world \<times> nat slot_worker \<times> 'c slot_out list) res" where
  "world_run ops locked device detached w s [] = Inr (w, s, [])"
| "world_run ops locked device detached w s (SlotAct a # as) =
     rbind (slot_act (world_env ops locked device detached) w s a) (\<lambda>(w, s, out).
     rbind (world_run ops locked device detached w s as) (\<lambda>(w, s, out2). Inr (w, s, out @ out2)))"
| "world_run ops locked device detached w s (DeviceAnswer e x # as) =
     world_run ops locked device detached (device_answers ops locked w e x) s as"

definition world_start :: "'m \<Rightarrow> ('m, 'c) endpoint_world" where
  "world_start mem = \<lparr>wd_mem = mem, wd_workers = [], wd_launcher = True, wd_out = []\<rparr>"

lemma device_answers_known: "world_known (device_answers ops locked w e x) = world_known w"
proof (cases "e < length (wd_workers w) \<and> ew_state (wd_workers w ! e) = WaitForTrbCompletion")
  case True
  obtain w' out where "worker_result w e (settle ops locked (endpoint_complete ops True (wd_mem w) (wd_workers w ! e) x)) = (w', out)"
    by force
  then show ?thesis using worker_result_frame True by (fastforce simp: device_answers_def world_known_def)
qed (auto simp: device_answers_def)

lemma slots_ok_new: "slots_ok K slot_worker_new"
  by (simp add: slots_ok_def slot_worker_new_def num_slots_enabled_def)

lemma world_run_ok:
  "slots_ok (world_known w) s \<Longrightarrow> world_run ops locked device detached w s as = Inr (w', s', out) \<Longrightarrow>
    slots_ok (world_known w') s'"
proof (induction as arbitrary: w s out)
  case (Cons a as)
  show ?case
  proof (cases a)
    case (SlotAct x)
    obtain w1 s1 o1 o2 where a: "slot_run (world_env ops locked device detached) w s [x] = Inr (w1, s1, o1)"
      and r: "world_run ops locked device detached w1 s1 as = Inr (w', s', o2)"
      using Cons.prems(2) SlotAct by auto
    show ?thesis using Cons.IH [OF world.slot_run_ok [OF Cons.prems(1) a] r] .
  next
    case (DeviceAnswer e x)
    show ?thesis
      using Cons.IH [of "device_answers ops locked w e x" s out] Cons.prems unfolding DeviceAnswer by (simp add: device_answers_known)
  qed
qed simp

text \<open>
  C16: The slots stay consistent. Whatever commands arrive, whatever the guest writes to the two slot
  registers and however the devices answer in between: the slot numbers stay in range; a slot that is only
  enabled has no endpoint, a slot in the Default or Addressed state has exactly the control endpoint, and
  a configured slot has at least that one; every endpoint belongs to one slot and one endpoint number and
  is a worker that was launched.
\<close>

theorem slots_consistent:
  assumes "world_run ops locked device detached (world_start mem) slot_worker_new as = Inr (w', s', out)"
  shows "slots_ok (world_known w') s'"
  using world_run_ok [OF slots_ok_new assms] .

theorem slots_consistent_witness:
  "\<exists>w s. world_run recorder_ops False (\<lambda>_. None :: (nat, nat) complete_device option) False (world_start []) slot_worker_new
       [SlotAct (ConfigWrite 2), SlotAct (SlotMsg (EnableSlotMsg (7 :: nat)) True), SlotAct (SlotMsg (AddressDeviceMsg (AddressDeviceData 0x1000 True 1) 8) True)] =
       Inr (w, s, [SlotIdReply 7 (Inr 1), SlotReply 8 Success]) \<and>
     slots_ok (world_known w) s \<and> world_known w = {0}"
proof -
  let ?run = "world_run recorder_ops False (\<lambda>_. None :: (nat, nat) complete_device option) False (world_start []) slot_worker_new
       [SlotAct (ConfigWrite 2), SlotAct (SlotMsg (EnableSlotMsg (7 :: nat)) True), SlotAct (SlotMsg (AddressDeviceMsg (AddressDeviceData 0x1000 True 1) 8) True)]"
  have "(case ?run of Inr (w, s, out) \<Rightarrow> out = [SlotIdReply 7 (Inr 1), SlotReply 8 Success] \<and> length (wd_workers w) = 1 | _ \<Rightarrow> False)"
    by code_simp
  then obtain w s where "?run = Inr (w, s, [SlotIdReply 7 (Inr 1), SlotReply 8 Success])" "length (wd_workers w) = 1"
    by (auto split: sum.splits)
  moreover from slots_consistent [OF this(1)] have "slots_ok (world_known w) s" .
  ultimately show ?thesis by (auto simp: world_known_def)
qed

text \<open>A slot in the Default state with a control endpoint that waits for its doorbell.\<close>

definition sample_slots :: "nat slot_worker" where
  "sample_slots = \<lparr>sw_slots = Some \<lparr>sl_id = 1, sl_state = SlotDefault 0x8000, sl_dcbaae = 8, sl_endpoints = Some 0 # replicate 30 None\<rparr>
     # replicate 7 None, sw_config = 4, sw_dcbaap = 0\<rparr>"

definition sample_world_in :: "'m \<Rightarrow> 'c option worker_state \<Rightarrow> ('m, 'c) endpoint_world" where
  "sample_world_in mem st = \<lparr>wd_mem = mem, wd_workers = [sample_endpoint st], wd_launcher = True, wd_out = []\<rparr>"

abbreviation sample_world :: "nat option worker_state \<Rightarrow> ((u64 \<times> u8 list) list, nat) endpoint_world" where
  "sample_world st \<equiv> sample_world_in [] st"

lemma sample_world_simps [simp]:
  "wd_mem (sample_world_in mem st) = mem" "wd_workers (sample_world_in mem st) = [sample_endpoint st]"
  "wd_launcher (sample_world_in mem st)" "wd_out (sample_world_in mem st) = []"
  by (simp_all add: sample_world_in_def)

lemma sample_quiet: "world_quiet (sample_world_in mem WaitForDoorbell) 0"
  by (simp add: world_quiet_def listening_def)

lemma sample_ref: "slot_ref sample_slots 1 =
    Some \<lparr>sl_id = 1, sl_state = SlotDefault 0x8000, sl_dcbaae = 8, sl_endpoints = Some 0 # replicate 30 None\<rparr>"
  by (simp add: slot_ref_def sample_slots_def one_get_def below_def)

lemma sample_senders: "slot_senders \<lparr>sl_id = 1, sl_state = SlotDefault 0x8000, sl_dcbaae = 8, sl_endpoints = Some (0::nat) # replicate 30 None\<rparr> = {0}"
  by (auto simp: slot_senders_def)

lemma sample_slots_ok: "slots_ok (world_known (sample_world_in mem st)) sample_slots"
proof -
  have "sw_slots sample_slots ! i = None" if "1 \<le> i" "i < MAX_SLOTS" for i
    using that by (simp add: sample_slots_def MAX_SLOTS_def nth_Cons' del: replicate.simps)
  then have none: "i = 0" if "sw_slots sample_slots ! i = Some sl" "i < MAX_SLOTS" for i sl
    using that by (cases "i = 0") auto
  have "slot_ok 1 \<lparr>sl_id = 1, sl_state = SlotDefault 0x8000, sl_dcbaae = 8, sl_endpoints = Some (0::nat) # replicate 30 None\<rparr>"
    by (auto simp: slot_ok_def uniq_def nth_Cons' simp del: replicate.simps)
  moreover have "sw_slots sample_slots ! 0 =
    Some \<lparr>sl_id = 1, sl_state = SlotDefault 0x8000, sl_dcbaae = 8, sl_endpoints = Some 0 # replicate 30 None\<rparr>"
    by (simp add: sample_slots_def)
  moreover have "length (sw_slots sample_slots) = MAX_SLOTS" "unat (num_slots_enabled (sw_config sample_slots)) \<le> MAX_SLOTS"
    by (simp_all add: sample_slots_def MAX_SLOTS_def num_slots_enabled_def)
  moreover have "0 \<in> world_known (sample_world_in mem st)" by (simp add: world_known_def)
  ultimately show ?thesis using none sample_senders unfolding slots_ok_def
    by (metis add_0 empty_subsetI insert_subset option.inject)
qed

text \<open>An endpoint that answered its termination has ended, and nothing revives it.\<close>

definition world_ended :: "('m, 'c) endpoint_world \<Rightarrow> nat \<Rightarrow> bool" where
  "world_ended w e \<longleftrightarrow> e < length (wd_workers w) \<and> ew_state (wd_workers w ! e) = Ended"

lemma terminated_ended:
  assumes "serve ops locked m wk (Terminate c) = Inr (m', wk', out)"
  shows "ew_state wk' \<noteq> LookForTrb" "Terminated c' \<in> set out \<Longrightarrow> ew_state wk' = Ended"
  using assms by (cases "ew_state wk"; auto simp: serve_def receive_defs listening_def endpoint_turn_def split: if_splits)+

lemma deliver_terminated:
  assumes "deliver ops locked w e (Terminate None) = (w', out, sent)" "Terminated None \<in> set out"
  shows "world_ended w' e"
proof -
  let ?wk = "wd_workers w ! e"
  have e: "e < length (wd_workers w)" using assms by (auto simp: deliver_def split: if_splits)
  obtain m' wk' where s: "serve ops locked (wd_mem w) ?wk (Terminate None) = Inr (m', wk', out)"
    "w' = w\<lparr>wd_mem := m', wd_workers := (wd_workers w)[e := wk'], wd_out := wd_out w @ out\<rparr>"
  proof (cases "serve ops locked (wd_mem w) ?wk (Terminate None)")
    case (Inl f)
    then show ?thesis using assms by (auto simp: deliver_def settle_def worker_result_def split: if_splits)
  next
    case (Inr x)
    obtain m' wk' o' where x: "x = (m', wk', o')" by (cases x)
    have "ew_state wk' \<noteq> LookForTrb" using terminated_ended(1) [OF Inr [unfolded x]] .
    then show ?thesis using that [of m' wk'] assms Inr x by (auto simp: deliver_def settle_def worker_result_def split: if_splits)
  qed
  then show ?thesis using e terminated_ended(2) [OF s(1) assms(2)] by (simp add: world_ended_def)
qed

lemma terminate_ended:
  assumes "env_terminate (world_env ops locked device detached) w e' = (w', answered)"
  shows "world_ended w e \<Longrightarrow> world_ended w' e" "answered \<Longrightarrow> world_ended w' e'"
proof -
  obtain out sent where d: "deliver ops locked w e' (Terminate None) = (w', out, sent)"
    "answered = (sent \<and> Terminated None \<in> set out)"
    using assms by (auto simp: world_env_def split: prod.splits)
  show "answered \<Longrightarrow> world_ended w' e'" using d deliver_terminated by blast
  show "world_ended w' e" if "world_ended w e"
  proof (cases "e' = e")
    case True
    then have "w' = w" using d(1) that by (auto simp: deliver_def world_ended_def)
    then show ?thesis using that by simp
  qed (use that deliver_frame [OF d(1)] in \<open>auto simp: world_ended_def\<close>)
qed

lemma terminate_all_ended:
  "terminate_all (world_env ops locked device detached) w es = (w', answered) \<Longrightarrow>
    (world_ended w e \<longrightarrow> world_ended w' e) \<and> (answered \<and> e \<in> set es \<longrightarrow> world_ended w' e)"
proof (induction es arbitrary: w answered)
  case (Cons x es)
  obtain w1 a b where s: "env_terminate (world_env ops locked device detached) w x = (w1, a)"
    "terminate_all (world_env ops locked device detached) w1 es = (w', b)" "answered = (a \<and> b)"
    using Cons.prems by (auto split: prod.splits)
  show ?case using Cons.IH [OF s(2)] terminate_ended(1) [OF s(1), of e] terminate_ended(2) [OF s(1)] s(3) by auto
qed simp

lemma drop_all_ended:
  "drop_all (world_env ops locked device detached) w sls = (w', answered) \<Longrightarrow>
    (world_ended w e \<longrightarrow> world_ended w' e) \<and>
    (\<forall>sl. answered \<and> Some sl \<in> set sls \<and> e \<in> slot_senders sl \<longrightarrow> world_ended w' e)"
proof (induction sls arbitrary: w answered)
  case (Cons x sls)
  show ?case
  proof (cases x)
    case None
    then show ?thesis using Cons by simp
  next
    case (Some y)
    obtain w1 a b where s: "pre_drop (world_env ops locked device detached) w y = (w1, a)"
      "drop_all (world_env ops locked device detached) w1 sls = (w', b)" "answered = (a \<and> b)"
      using Cons.prems Some by (auto split: prod.splits)
    have t: "world_ended w e \<longrightarrow> world_ended w1 e" "a \<and> e \<in> slot_senders y \<longrightarrow> world_ended w1 e"
      using terminate_all_ended [OF s(1) [unfolded pre_drop_def], of e] by (simp_all add: set_present slot_senders_def)
    then show ?thesis using Cons.IH [OF s(2)] s(3) Some by auto
  qed
qed simp

text \<open>An endpoint in the Error state, or with a TRB at its device, does not answer a termination.\<close>

definition world_busy :: "('m, 'c) endpoint_world \<Rightarrow> nat \<Rightarrow> bool" where
  "world_busy w e \<longleftrightarrow> e < length (wd_workers w) \<and> ew_state (wd_workers w ! e) \<in> {WaitForTrbCompletion, ErrorState}"

lemma terminate_busy:
  assumes "world_busy w e" "env_terminate (world_env ops locked device detached) w e' = (w', ok)"
  shows "world_busy w' e" "e' = e \<Longrightarrow> \<not> ok"
proof -
  obtain out sent where d: "deliver ops locked w e' (Terminate None) = (w', out, sent)" "ok = (sent \<and> Terminated None \<in> set out)"
    using assms(2) by (auto simp: world_env_def split: prod.splits)
  have b: "e < length (wd_workers w)" "ew_state (wd_workers w ! e) \<in> {WaitForTrbCompletion, ErrorState}"
    using assms(1) by (simp_all add: world_busy_def)
  have "w' = w\<lparr>wd_out := wd_out w @ [DroppedReply None]\<rparr> \<and> out = [DroppedReply None]" if "e' = e"
    using d(1) b serve_terminate_dropped [OF b(2), of ops locked "wd_mem w" None] unfolding that
    by (auto simp: deliver_def settle_def worker_result_def)
  then show "world_busy w' e" "e' = e \<Longrightarrow> \<not> ok" using d(2) deliver_frame [OF d(1)] assms(1)
    by (cases "e' = e"; auto simp: world_busy_def)+
qed

lemma terminate_all_busy:
  assumes "world_busy w e" "terminate_all (world_env ops locked device detached) w es = (w', ok)"
  shows "world_busy w' e" "e \<in> set es \<Longrightarrow> \<not> ok"
proof -
  have "world_busy w' e \<and> (e \<in> set es \<longrightarrow> \<not> ok)" using assms
  proof (induction es arbitrary: w ok)
    case (Cons x es)
    obtain w1 a b where s: "env_terminate (world_env ops locked device detached) w x = (w1, a)"
      "terminate_all (world_env ops locked device detached) w1 es = (w', b)" "ok = (a \<and> b)"
      using Cons.prems(2) by (auto split: prod.splits)
    show ?case using Cons.IH [OF terminate_busy(1) [OF Cons.prems(1) s(1)] s(2)] terminate_busy(2) [OF Cons.prems(1) s(1)] s(3) by auto
  qed simp
  then show "world_busy w' e" "e \<in> set es \<Longrightarrow> \<not> ok" by blast+
qed

lemma drop_all_busy:
  "world_busy w e \<Longrightarrow> drop_all (world_env ops locked device detached) w sls = (w', ok) \<Longrightarrow>
    Some sl \<in> set sls \<Longrightarrow> e \<in> slot_senders sl \<Longrightarrow> \<not> ok"
proof (induction sls arbitrary: w ok)
  case (Cons x sls)
  show ?case
  proof (cases x)
    case None
    then show ?thesis using Cons by auto
  next
    case (Some y)
    obtain w1 a b where s: "pre_drop (world_env ops locked device detached) w y = (w1, a)"
      "drop_all (world_env ops locked device detached) w1 sls = (w', b)" "ok = (a \<and> b)"
      using Cons.prems(2) Some by (auto split: prod.splits)
    note t = terminate_all_busy [OF Cons.prems(1) s(1) [unfolded pre_drop_def]]
    show ?thesis
    proof (cases "sl = y")
      case True
      then have "\<not> a" using t(2) Cons.prems(4) by (simp add: set_present slot_senders_def)
      then show ?thesis using s(3) by simp
    next
      case False
      then have "\<not> b" using Cons.IH [OF t(1) s(2)] Cons.prems(3,4) Some by auto
      then show ?thesis using s(3) by simp
    qed
  qed
qed simp

text \<open>
  A busy endpoint takes the slot worker down. Disabling a slot that has an endpoint in the Error state
  or with a TRB at its device, or resetting the controller while there is one, gets no answer and ends the
  slot worker, because the endpoint drops the request to terminate.
\<close>

theorem busy_endpoint_ends_slot_worker:
  assumes "slots_ok K s" "slot_ref s sid = Some sl" "e \<in> slot_senders sl" "world_busy w e"
    "sid \<le> num_slots_enabled (sw_config s)"
  shows "slot_step (world_env ops locked device detached) alive w s (DisableSlotMsg sid c) = Inl ChannelClosed"
    "slot_step (world_env ops locked device detached) alive w s (ResetAllSlots c) = Inl ChannelClosed"
proof -
  let ?env = "world_env ops locked device detached"
  obtain w1 a where p: "pre_drop ?env w sl = (w1, a)" by force
  have "\<not> a" using terminate_all_busy(2) [OF assms(4) p [unfolded pre_drop_def]] assms(3) by (simp add: set_present slot_senders_def)
  moreover have "1 \<le> sid" using slots_ok_ref(3) [OF assms(1,2)] by (simp add: word_le_nat_alt)
  ultimately show "slot_step ?env alive w s (DisableSlotMsg sid c) = Inl ChannelClosed"
    using assms(2,5) p by (simp add: disable_slot_def)
  obtain w2 b where d: "drop_all ?env w (sw_slots s) = (w2, b)" by force
  have "unat sid - 1 < length (sw_slots s)" using slots_ok_ref(1) [OF assms(1,2)] assms(1) by (simp add: slots_ok_def)
  then have "Some sl \<in> set (sw_slots s)" using slots_ok_ref(2) [OF assms(1,2)] by (metis nth_mem)
  then have "\<not> b" using drop_all_busy [OF assms(4) d _ assms(3)] by blast
  then show "slot_step ?env alive w s (ResetAllSlots c) = Inl ChannelClosed" using d by (simp add: reset_slots_def)
qed

theorem busy_endpoint_ends_slot_worker_witness:
  "slot_step (world_env recorder_ops False (\<lambda>_. None :: (nat, nat) complete_device option) False) True
     (sample_world ErrorState) sample_slots (DisableSlotMsg 1 7) = Inl ChannelClosed"
proof -
  have "world_busy (sample_world ErrorState) 0" by (simp add: world_busy_def)
  moreover have "(1 :: u8) \<le> num_slots_enabled (sw_config sample_slots)" by (simp add: sample_slots_def num_slots_enabled_def)
  ultimately show ?thesis
    using busy_endpoint_ends_slot_worker(1) [OF sample_slots_ok sample_ref, of 0] sample_senders by simp
qed

end
