(* ===== verification/DriverCommands.thy ===== *)
theory DriverCommands
  imports CommandRing SlotWorld
begin

text \<open>
  The driver's commands end to end: the command worker of \<open>command_ring.rs\<close> talks over the
  \<open>SlotWorkerHandle\<close> of \<open>slot_manager.rs\<close> to the slot worker and its endpoint workers.
\<close>

section \<open>The handle of the slot worker\<close>

text \<open>The first answer an endpoint worker sends to the command worker.\<close>

fun endpoint_answer :: "'c option worker_out list \<Rightarrow> slot_answer option" where
  "endpoint_answer [] = None"
| "endpoint_answer (Reply (Some c) code # out) = Some (CodeAnswer code)"
| "endpoint_answer (x # out) = endpoint_answer out"

fun answer_of :: "'c slot_out list \<Rightarrow> 'c option worker_out list \<Rightarrow> slot_answer option" where
  "answer_of (SlotReply c code # _) eps = Some (CodeAnswer code)"
| "answer_of (SlotIdReply c r # _) eps = Some (SlotIdAnswer r)"
| "answer_of _ eps = endpoint_answer eps"

text \<open>Sending a message to the slot worker and waiting for the answer.\<close>

definition slot_worker_handle ::
  "'m bus_device \<Rightarrow> bool \<Rightarrow> (u8 \<Rightarrow> ('i, 't) complete_device option) \<Rightarrow> bool \<Rightarrow>
     (('m, unit) endpoint_world \<times> nat slot_worker) slot_handle" where
  "slot_worker_handle ops locked device detached = (\<lambda>(w, s) msg.
     case slot_step (world_env ops locked device detached) True w s msg of
       Inl _ \<Rightarrow> ((w, s), None)
     | Inr (w', s', out) \<Rightarrow> ((w', s'), answer_of out (drop (length (wd_out w)) (wd_out w'))))"

section \<open>Commands for slots\<close>



lemma completion_event:
  "a AND 0x0f = 0 \<Longrightarrow> new_command_completion_event_trb a 0 code sid = Inr (CommandCompletion a 0 code sid)"
  by (simp add: new_command_completion_event_trb_def)



section \<open>Commands for endpoints\<close>

primrec endpoint_command_trb :: "ep_command \<Rightarrow> u8 \<Rightarrow> u8 \<Rightarrow> command_trb_variant" where
  "endpoint_command_trb StopCommand sid ep = StopEndpoint (StopEndpointData ep sid)"
| "endpoint_command_trb ResetCommand sid ep = ResetEndpoint (ResetEndpointData sid ep)"
| "endpoint_command_trb (SetDequeueCommand dp cs) sid ep = SetTrDequeuePointer (SetTrDequeuePointerData cs 0 dp 0 ep sid)"

lemma endpoint_answer_replies: "replies out = [(Some c, code)] \<Longrightarrow> endpoint_answer out = Some (CodeAnswer code)"
  by (induction out rule: endpoint_answer.induct) simp_all

lemma map_command_msg: "map_endpoint_msg Some (command_msg k ()) = command_msg k (Some ())"
  by (cases k) simp_all

lemma deliver_command:
  assumes "e < length (wd_workers w)" "listening (wd_workers w ! e)" "context_in_memory (wd_mem w) (ew_context (wd_workers w ! e))"
    "lr_dequeue_pointer (ew_ring (wd_workers w ! e)) AND 0xf = 0" "aligned_command k"
  shows "\<exists>w' out. deliver dma_bus_ops locked w e (command_msg k (Some c)) = (w', out, True) \<and> wd_out w' = wd_out w @ out \<and>
    replies out = [(Some c, snd (diagram (abs_state (wd_workers w ! e)) k))] \<and>
    abs_state (wd_workers w' ! e) = fst (diagram (abs_state (wd_workers w ! e)) k) \<and>
    (if snd (diagram (abs_state (wd_workers w ! e)) k) = Success
     then context_saved (wd_mem w) (ew_context (wd_workers w ! e)) ENDPOINT_STOPPED
       (Some (position_after k (ew_ring (wd_workers w ! e)))) (wd_mem w')
     else wd_mem w' = wd_mem w)"
proof -
  obtain m' wk' out where s: "serve dma_bus_ops locked (wd_mem w) (wd_workers w ! e) (command_msg k (Some c)) = Inr (m', wk', out)"
    "listening wk'" "(abs_state wk', replies out) = (case diagram (abs_state (wd_workers w ! e)) k of (st, code) \<Rightarrow> (st, [(Some c, code)]))"
    "if snd (diagram (abs_state (wd_workers w ! e)) k) = Success
     then context_saved (wd_mem w) (ew_context (wd_workers w ! e)) ENDPOINT_STOPPED
       (Some (position_after k (ew_ring (wd_workers w ! e)))) m' else m' = wd_mem w"
    using serve_command [OF assms(2-5), of locked "Some c"] by (auto split: if_splits)
  have "ew_state wk' \<noteq> LookForTrb" "ew_state (wd_workers w ! e) \<noteq> Ended" using s(2) assms(2) by (auto simp: listening_def)
  then show ?thesis using assms(1) s(1,3,4)
    by (auto simp: deliver_def settle_def worker_result_def split: prod.splits)
qed

text \<open>
  C13: A command TRB for an endpoint is executed and completed. For an endpoint that takes messages and
  whose context lies in a writable mapping of guest memory, the Stop, Reset and Set TR Dequeue Pointer
  commands travel from the command worker over the slot worker to the endpoint worker, which answers the
  command worker directly; the completion event carries the code of the endpoint state diagram, the
  endpoint takes the diagram's next state, a successful command leaves the state Stopped and the ring's
  position in the endpoint context, no other byte of guest memory, no other endpoint and no slot changes.
\<close>

theorem endpoint_command_completes:
  assumes "slot_ref s sid = Some sl" "endpoint_sender sl ep = Some e" "addr AND 0x0f = 0"
    "e < length (wd_workers w)" "listening (wd_workers w ! e)" "context_in_memory (wd_mem w) (ew_context (wd_workers w ! e))"
    "lr_dequeue_pointer (ew_ring (wd_workers w ! e)) AND 0xf = 0" "aligned_command k"
  shows "\<exists>w'. process_command (slot_worker_handle dma_bus_ops locked device detached) (w, s) addr (endpoint_command_trb k sid ep) =
      Inr ((w', s), CommandCompletion addr 0 (snd (diagram (abs_state (wd_workers w ! e)) k)) sid) \<and>
    abs_state (wd_workers w' ! e) = fst (diagram (abs_state (wd_workers w ! e)) k) \<and>
    (if snd (diagram (abs_state (wd_workers w ! e)) k) = Success
     then context_saved (wd_mem w) (ew_context (wd_workers w ! e)) ENDPOINT_STOPPED
       (Some (position_after k (ew_ring (wd_workers w ! e)))) (wd_mem w')
     else wd_mem w' = wd_mem w) \<and>
    (\<forall>e'. e' \<noteq> e \<longrightarrow> wd_workers w' ! e' = wd_workers w ! e')"
proof -
  let ?env = "world_env dma_bus_ops locked device detached :: ((dma_device dynamic_bus, unit) endpoint_world, nat, unit) slot_env"
  let ?code = "snd (diagram (abs_state (wd_workers w ! e)) k)"
  obtain w' out where d: "deliver dma_bus_ops locked w e (command_msg k (Some ())) = (w', out, True)" "wd_out w' = wd_out w @ out"
    "replies out = [(Some (), ?code)]" "abs_state (wd_workers w' ! e) = fst (diagram (abs_state (wd_workers w ! e)) k)"
    "if ?code = Success then context_saved (wd_mem w) (ew_context (wd_workers w ! e)) ENDPOINT_STOPPED
       (Some (position_after k (ew_ring (wd_workers w ! e)))) (wd_mem w') else wd_mem w' = wd_mem w"
    using deliver_command [OF assms(4-8)] by blast
  have s: "env_send ?env w e (command_msg k ()) = (w', True)"
    using d(1) by (simp add: world_env_def map_command_msg)
  have a: "slot_worker_handle dma_bus_ops locked device detached (w, s) msg = ((w', s), Some (CodeAnswer ?code))"
    if "slot_step ?env True w s msg = on_endpoint ?env True w s sid ep () (command_msg k ())" for msg
    using that assms(1,2) s d(2) endpoint_answer_replies [OF d(3)] by (simp add: slot_worker_handle_def on_endpoint_def)
  have "process_command (slot_worker_handle dma_bus_ops locked device detached) (w, s) addr (endpoint_command_trb k sid ep) =
      Inr ((w', s), CommandCompletion addr 0 ?code sid)"
    by (cases k) (simp_all add: ask_code_def a completion_event [OF assms(3)])
  then show ?thesis using d(4,5) deliver_frame [OF d(1)] by blast
qed

theorem endpoint_command_completes_witness:
  "\<exists>w'. process_command (slot_worker_handle dma_bus_ops False (\<lambda>_. None :: (nat, nat) complete_device option) False)
      (sample_world_in blank_memory WaitForDoorbell, sample_slots) 0x2000 (endpoint_command_trb StopCommand 1 1) =
    Inr ((w', sample_slots), CommandCompletion 0x2000 0 Success 1) \<and> abs_state (wd_workers w' ! 0) = AbsStopped \<and>
    dyn_byte (wd_mem w') 0x8020 = 3"
proof -
  let ?w = "sample_world_in blank_memory WaitForDoorbell :: (dma_device dynamic_bus, unit) endpoint_world"
  have "endpoint_sender \<lparr>sl_id = 1, sl_state = SlotDefault 0x8000, sl_dcbaae = 8, sl_endpoints = Some (0::nat) # replicate 30 None\<rparr> 1 = Some 0"
    by (simp add: endpoint_sender_def one_get_def below_def)
  then show ?thesis
    using endpoint_command_completes [OF sample_ref, where ep = 1 and e = 0 and addr = "0x2000" and w = ?w and
        k = StopCommand and locked = False and device = "\<lambda>_. None :: (nat, nat) complete_device option" and detached = False]
      sample_context
    by (auto simp: listening_def aligned_command_def abs_state_def context_saved_def ENDPOINT_STOPPED_def)
qed

section \<open>Batches of commands\<close>

text \<open>The memory of the command worker is that of the slot worker and its endpoints.\<close>

definition driver_bus :: "'m bus_device \<Rightarrow> (('m, 'c) endpoint_world \<times> nat slot_worker) bus_device" where
  "driver_bus ops =
     \<lparr>dev_size = (\<lambda>(w, s). dev_size (world_dma ops) w),
      dev_read = (\<lambda>(w, s). dev_read (world_dma ops) w),
      dev_write = (\<lambda>(w, s) r v. rbind (dev_write (world_dma ops) w r v) (\<lambda>w. Inr (w, s))),
      dev_read_bulk = (\<lambda>(w, s). dev_read_bulk (world_dma ops) w),
      dev_write_bulk = (\<lambda>(w, s) a bs. rbind (dev_write_bulk (world_dma ops) w a bs) (\<lambda>w. Inr (w, s)))\<rparr>"

text \<open>
  C14: A batch of commands. The driver puts any number of commands on the ring and rings the doorbell
  once. The command worker with its slot worker and endpoint workers then does exactly what executing the
  commands one after the other does: if all of them can be carried out, it sends one completion event per
  command, in order, each with the address of its command, and waits for the next doorbell with the ring
  behind the last command; if one of them ends a worker, the command worker ends with that error. This is
  so from the stopped and from the idle state, whenever the controller runs, as long as executing the
  commands does not overwrite the ones behind them.
\<close>

theorem command_batch:
  assumes "batch_on_ring (driver_bus dma_bus_ops) (slot_worker_handle dma_bus_ops locked device detached) (w, s) (cw_ring cw) bs"
    "cw_state cw \<in> {RingStopped, RingIdle}" "cw_queue cw = []" "running usbcmd"
  shows "command_turns (driver_bus dma_bus_ops) (slot_worker_handle dma_bus_ops locked device detached) usbcmd (2 * length bs + 2) ((w, s), command_doorbell cw) =
      (case command_results (slot_worker_handle dma_bus_ops locked device detached) (w, s) (lr_dequeue_pointer (cw_ring cw)) bs of
         Inl f \<Rightarrow> Inl f
       | Inr (ws, evs) \<Rightarrow>
           Inr ((ws, cw\<lparr>cw_running := cw_state cw = RingStopped \<or> cw_running cw, cw_state := RingIdle,
                        cw_ring := (advance ^^ length bs) (cw_ring cw)\<rparr>), map CommandEvent evs)) \<and>
    (\<forall>ws evs. command_results (slot_worker_handle dma_bus_ops locked device detached) (w, s) (lr_dequeue_pointer (cw_ring cw)) bs = Inr (ws, evs) \<longrightarrow>
       map ce_command_trb_pointer evs = ring_slots (lr_dequeue_pointer (cw_ring cw)) (length bs))"
  unfolding command_batch_turns [OF assms]
  by (auto dest: command_results_pointers split: sum.split)

text \<open>A ring at address 0 with the commands Enable Slot, Disable Slot for slot 1 and No Op, and a stale slot.\<close>

definition sample_command :: "u8 \<Rightarrow> u8 \<Rightarrow> u8 \<Rightarrow> raw_trb_buffer" where
  "sample_command c ty sid = replicate 12 0 @ [c, ty, 0, sid]"

definition sample_commands :: "raw_trb_buffer list" where
  "sample_commands = [sample_command 1 0x24 0, sample_command 1 0x28 1, sample_command 1 0x5c 0]"

definition command_memory :: "dma_device dynamic_bus" where
  "command_memory = single_segment (concat sample_commands @ sample_command 0 0 0)"

lemma command_memory_ok: "dyn_ok command_memory"
  unfolding command_memory_def by (rule single_segment_ok(1)) (simp add: sample_commands_def sample_command_def)

lemma command_memory_read:
  assumes "i < 4" "wd_mem w = command_memory"
  shows "dev_read_bulk (driver_bus dma_bus_ops) (w, s) (of_nat (16 * i)) 16 =
    Inr ((sample_commands @ [sample_command 0 0 0]) ! i)"
proof -
  let ?bytes = "concat sample_commands @ sample_command 0 0 0"
  have len: "length ?bytes = 64" by (simp add: sample_commands_def sample_command_def)
  have u: "unat (of_nat (16 * i) :: u64) = 16 * i" unfolding unat_of_nat using assms(1) by simp
  have "dev_read_bulk dma_bus_ops command_memory (of_nat (16 * i)) 16 = Inr (map (dyn_byte command_memory) [16 * i..<16 * i + 16])"
    using dyn.read_bulk_law [OF command_memory_ok, of "of_nat (16 * i)" 16] dma_bus_limit [OF command_memory_ok] u assms(1) by simp
  also have "map (dyn_byte command_memory) [16 * i..<16 * i + 16] = slice ?bytes (16 * i) 16"
    unfolding command_memory_def using len assms(1) by (intro single_segment_map) simp_all
  also have "\<dots> = (sample_commands @ [sample_command 0 0 0]) ! i"
    using assms(1) by (simp add: slice_def sample_commands_def sample_command_def less_Suc_eq numeral_eq_Suc) auto
  finally show ?thesis using assms(2) by (simp add: driver_bus_def world_dma_def)
qed

lemma sample_command_parse:
  "command_parse (sample_command 1 0x24 0) = Inr EnableSlot"
  "command_parse (sample_command 1 0x28 1) = Inr (DisableSlot (DisableSlotData 1))"
  "command_parse (sample_command 1 0x5c 0) = Inr NoOpCommand"
  "link_parse (sample_command 1 0x24 0) = None" "link_parse (sample_command 1 0x28 1) = None" "link_parse (sample_command 1 0x5c 0) = None"
  "cycle_bit (sample_command 1 ty sid)" "\<not> cycle_bit (sample_command 0 0 0)"
  by (code_simp, code_simp, code_simp, code_simp, code_simp, code_simp) (simp_all add: cycle_bit_def sample_command_def nth_append)

text \<open>Slots of which four may be used, and the same with the first one enabled.\<close>

definition sample_free :: "nat slot_worker" where
  "sample_free = \<lparr>sw_slots = replicate 8 None, sw_config = 4, sw_dcbaap = 0\<rparr>"

definition sample_enabled :: "nat slot_worker" where
  "sample_enabled = \<lparr>sw_slots = Some (slot_new 1 8) # replicate 7 None, sw_config = 4, sw_dcbaap = 0\<rparr>"

lemma sample_allocate: "allocate_slot sample_free = Inr (sample_enabled, Inr 1)"
  by code_simp

lemma sample_disable: "disable_slot env w sample_enabled 1 = Inr (w, sample_free, Success)"
proof -
  have r: "slot_ref sample_enabled 1 = Some (slot_new 1 8)" by code_simp
  have "List.map_filter (\<lambda>e. e) (sl_endpoints (slot_new 1 8 :: nat slot)) = []" by code_simp
  then have p: "pre_drop env w (slot_new 1 8) = (w, True)" by (simp add: pre_drop_def)
  have "one_put (sw_slots sample_enabled) (unat (1 :: u8)) None = Inr (sw_slots sample_free)"
    "(1 :: u8) \<le> num_slots_enabled (sw_config sample_enabled)" by code_simp+
  then show ?thesis using r p by (simp add: disable_slot_def) (simp add: sample_enabled_def sample_free_def)
qed

lemma sample_commands_run:
  "process_command (slot_worker_handle ops locked device detached) (w, sample_free) 0 EnableSlot = Inr ((w, sample_enabled), CommandCompletion 0 0 Success 1)"
    "process_command (slot_worker_handle ops locked device detached) (w, sample_enabled) 16 (DisableSlot (DisableSlotData 1)) =
      Inr ((w, sample_free), CommandCompletion 16 0 Success 1)"
    "process_command (slot_worker_handle ops locked device detached) (w, s) 32 NoOpCommand = Inr ((w, s), CommandCompletion 32 0 Success 0)"
  by (simp_all add: ask_slot_def ask_code_def slot_worker_handle_def sample_allocate sample_disable answer_def
      new_command_completion_event_trb_def)

theorem command_batch_witness:
  "\<exists>cw'. command_turns (driver_bus dma_bus_ops) (slot_worker_handle dma_bus_ops False (\<lambda>_. None :: (nat, nat) complete_device option) False) 1 8
      ((world_start command_memory, sample_free), command_doorbell (command_ring_new\<lparr>cw_ring := linked_ring_new 0 True\<rparr> :: nat command_worker)) =
    Inr (((world_start command_memory, sample_free), cw'),
      [CommandEvent (CommandCompletion 0 0 Success 1), CommandEvent (CommandCompletion 16 0 Success 1),
       CommandEvent (CommandCompletion 32 0 Success 0)]) \<and> cw_state cw' = RingIdle"
proof -
  let ?ask = "slot_worker_handle dma_bus_ops False (\<lambda>_. None :: (nat, nat) complete_device option) False"
  let ?w = "world_start command_memory :: (dma_device dynamic_bus, unit) endpoint_world"
  let ?cw = "command_ring_new\<lparr>cw_ring := linked_ring_new 0 True\<rparr> :: nat command_worker"
  note read = command_memory_read [of 0 ?w] command_memory_read [of 1 ?w] command_memory_read [of 2 ?w] command_memory_read [of 3 ?w]
  have r: "dev_read_bulk (driver_bus dma_bus_ops) (?w, s) 0 16 = Inr (sample_command 1 0x24 0)"
    "dev_read_bulk (driver_bus dma_bus_ops) (?w, s) 16 16 = Inr (sample_command 1 0x28 1)"
    "dev_read_bulk (driver_bus dma_bus_ops) (?w, s) 32 16 = Inr (sample_command 1 0x5c 0)"
    "dev_read_bulk (driver_bus dma_bus_ops) (?w, s) 48 16 = Inr (sample_command 0 0 0)" for s
    using read by (simp_all add: world_start_def sample_commands_def)
  have b: "batch_on_ring (driver_bus dma_bus_ops) ?ask (?w, sample_free) (cw_ring ?cw) sample_commands"
    by (simp add: sample_commands_def fresh_slot_def stale_slot_def r sample_command_parse sample_commands_run
        linked_ring_new_def advance_def del: process_command.simps)
  have c: "command_results ?ask (?w, sample_free) (lr_dequeue_pointer (cw_ring ?cw)) sample_commands =
      Inr ((?w, sample_free), [CommandCompletion 0 0 Success 1, CommandCompletion 16 0 Success 1, CommandCompletion 32 0 Success 0])"
    by (simp add: sample_commands_def sample_command_parse sample_commands_run linked_ring_new_def del: process_command.simps)
  have l: "2 * length sample_commands + 2 = 8" by (simp add: sample_commands_def)
  have "cw_state ?cw \<in> {RingStopped, RingIdle}" "cw_queue ?cw = []" "running 1"
    by (simp_all add: command_ring_new_def running_def)
  from command_batch [OF b this] show ?thesis unfolding c l by simp
qed

text \<open>A reset that arrives while the worker looks for the Enable Slot command.\<close>

theorem acknowledged_reset_lost_witness:
  "\<exists>cw'. command_turns (driver_bus dma_bus_ops) (slot_worker_handle dma_bus_ops False (\<lambda>_. None :: (nat, nat) complete_device option) False) 1 2
      ((world_start command_memory, sample_free), command_send_reset
        \<lparr>cw_state = LookingForNewCommand, cw_queue = [], cw_running = True, cw_ring = linked_ring_new 0 True\<rparr> (7 :: nat)) =
    Inr (((world_start command_memory, sample_enabled), cw'), [RingReset 7, CommandEvent (CommandCompletion 0 0 Success 1)]) \<and>
    \<not> cw_running cw'"
proof -
  let ?ask = "slot_worker_handle dma_bus_ops False (\<lambda>_. None :: (nat, nat) complete_device option) False"
  let ?w = "world_start command_memory :: (dma_device dynamic_bus, unit) endpoint_world"
  let ?cw = "\<lparr>cw_state = LookingForNewCommand, cw_queue = [] :: nat command_msg list, cw_running = True, cw_ring = linked_ring_new 0 True\<rparr>"
  have "fresh_slot (driver_bus dma_bus_ops) (?w, sample_free) (cw_ring ?cw) (sample_command 1 0x24 0)"
    using command_memory_read [of 0 ?w sample_free]
    by (simp add: fresh_slot_def world_start_def sample_commands_def sample_command_parse linked_ring_new_def)
  moreover have "process_command ?ask (?w, sample_free) (lr_dequeue_pointer (cw_ring ?cw)) EnableSlot =
      Inr ((?w, sample_enabled), CommandCompletion 0 0 Success 1)"
    using sample_commands_run(1) by (simp add: linked_ring_new_def del: process_command.simps)
  ultimately show ?thesis
    using acknowledged_reset_lost [of ?cw 1 "driver_bus dma_bus_ops" "(?w, sample_free)" "sample_command 1 0x24 0" EnableSlot ?ask
        "(?w, sample_enabled)" "CommandCompletion 0 0 Success 1" 7] sample_command_parse(1)
    by (auto simp: running_def)
qed

end
