(* ===== verification/EventRing.thy ===== *)
theory EventRing
  imports GuestMemory Trb
begin

text \<open>
  The event ring (\<open>src/device/xhci/event_ring.rs\<close>): the producer side of a ring of several segments
  in guest memory, described by the event ring segment table (ERST). The model is related to the
  abstract ring, the cyclic list of all TRB slots of the table with a write position.
\<close>

record event_ring =
  er_enqueue_pointer :: u64
  er_trb_count :: u32
  er_erst_count :: u32
  er_cycle_state :: bool

definition event_ring_new :: event_ring where
  "event_ring_new = \<lparr>er_enqueue_pointer = 0, er_trb_count = 0, er_erst_count = 0, er_cycle_state = False\<rparr>"

definition event_ring_reset :: "event_ring \<Rightarrow> event_ring" where
  "event_ring_reset r = r\<lparr>er_enqueue_pointer := 0, er_trb_count := 0, er_erst_count := 0,
     er_cycle_state := False\<rparr>"

text \<open>The two reads of a table entry: \<open>SEGMENT_BASE\<close> is offset 0, \<open>SIZE\<close> offset 8.\<close>

definition read_segment_base :: "'m bus_device \<Rightarrow> 'm \<Rightarrow> u64 \<Rightarrow> u64 res" where
  "read_segment_base ops m entry_addr = dev_read ops m (request_new (entry_addr + 0) Size8)"

definition read_segment_size :: "'m bus_device \<Rightarrow> 'm \<Rightarrow> u64 \<Rightarrow> u32 res" where
  "read_segment_size ops m entry_addr =
     rbind (dev_read ops m (request_new (entry_addr + 8) Size4)) (\<lambda>v. Inr (ucast v))"

definition event_ring_configure :: "'m bus_device \<Rightarrow> 'm \<Rightarrow> event_ring \<Rightarrow> u64 \<Rightarrow> u32 \<Rightarrow> event_ring res" where
  "event_ring_configure ops m r base_address erst_size =
     rbind (require (base_address AND 0x3f = 0) AssertFailed) (\<lambda>_.
     rbind (require (0 < erst_size) AssertFailed) (\<lambda>_.
     rbind (read_segment_base ops m base_address) (\<lambda>base.
     rbind (read_segment_size ops m base_address) (\<lambda>count.
     Inr (r\<lparr>er_enqueue_pointer := base, er_trb_count := count, er_cycle_state := True\<rparr>)))))"

definition check_event_ring_full ::
  "'m bus_device \<Rightarrow> 'm \<Rightarrow> event_ring \<Rightarrow> u64 \<Rightarrow> u32 \<Rightarrow> u64 \<Rightarrow> bool res" where
  "check_event_ring_full ops m r base_address erst_size dequeue_pointer =
     (if er_trb_count r = 1 then
        rbind (of_opt ArithOverflow (checked_add (er_erst_count r) 1)) (\<lambda>n.
        rbind (require (erst_size \<noteq> 0) DivByZero) (\<lambda>_.
        let next_seg = n mod erst_size;
            entry_addr = base_address + ucast next_seg * 16 in
        rbind (read_segment_base ops m entry_addr) (\<lambda>next_seg_pointer.
        Inr (dequeue_pointer = next_seg_pointer))))
      else Inr (dequeue_pointer = er_enqueue_pointer r + 16))"

definition advance_segment_or_wrap ::
  "'m bus_device \<Rightarrow> 'm \<Rightarrow> event_ring \<Rightarrow> u64 \<Rightarrow> u32 \<Rightarrow> event_ring res" where
  "advance_segment_or_wrap ops m r base_address erst_size =
     rbind (of_opt ArithOverflow (checked_add (er_erst_count r) 1)) (\<lambda>n.
     let wrapped = (n = erst_size);
         r1 = (if wrapped then r\<lparr>er_cycle_state := \<not> er_cycle_state r, er_erst_count := 0\<rparr>
               else r\<lparr>er_erst_count := n\<rparr>);
         entry_addr = base_address + ucast (er_erst_count r1) * 16 in
     rbind (read_segment_base ops m entry_addr) (\<lambda>base.
     rbind (read_segment_size ops m entry_addr) (\<lambda>count.
     Inr (r1\<lparr>er_enqueue_pointer := base, er_trb_count := count\<rparr>))))"

definition advance_enqueue_pointer ::
  "'m bus_device \<Rightarrow> 'm \<Rightarrow> event_ring \<Rightarrow> u64 \<Rightarrow> u32 \<Rightarrow> event_ring res" where
  "advance_enqueue_pointer ops m r base_address erst_size =
     (if er_trb_count r = 0 then advance_segment_or_wrap ops m r base_address erst_size
      else Inr (r\<lparr>er_enqueue_pointer := er_enqueue_pointer r + 16\<rparr>))"

text \<open>A full ring is a \<open>todo!()\<close> in the source.\<close>

definition enqueue ::
  "'m bus_device \<Rightarrow> 'm \<Rightarrow> event_ring \<Rightarrow> event_trb \<Rightarrow> u64 \<Rightarrow> u32 \<Rightarrow> u64 \<Rightarrow> ('m \<times> event_ring) res" where
  "enqueue ops m r trb base_address erst_size dequeue_pointer =
     rbind (check_event_ring_full ops m r base_address erst_size dequeue_pointer) (\<lambda>full.
     rbind (require (\<not> full) NotImplemented) (\<lambda>_.
     rbind (dev_write_bulk ops m (er_enqueue_pointer r) (event_to_bytes trb (er_cycle_state r))) (\<lambda>m'.
     rbind (of_opt ArithOverflow (checked_sub (er_trb_count r) 1)) (\<lambda>count.
     rbind (advance_enqueue_pointer ops m' (r\<lparr>er_trb_count := count\<rparr>) base_address erst_size) (\<lambda>r'.
     Inr (m', r'))))))"

section \<open>The abstract ring\<close>

text \<open>
  \<open>segs\<close> lists the base and the size of every segment. The slots of the ring are the addresses of
  all TRBs in order; a position is an index into them.
\<close>

type_synonym segments = "(u64 \<times> u32) list"

definition seg_slots :: "u64 \<times> u32 \<Rightarrow> u64 list" where
  "seg_slots s = map (\<lambda>j. fst s + 16 * of_nat j) [0..<unat (snd s)]"

definition slots :: "segments \<Rightarrow> u64 list" where
  "slots segs = concat (map seg_slots segs)"

definition seg_start :: "segments \<Rightarrow> nat \<Rightarrow> nat" where
  "seg_start segs i = length (slots (take i segs))"

text \<open>The driver's obligations: at least one segment, none empty, slots inside the address space.\<close>

definition wf_segments :: "nat \<Rightarrow> segments \<Rightarrow> bool" where
  "wf_segments limit segs \<longleftrightarrow> segs \<noteq> [] \<and> length segs < 2 ^ 32 \<and>
     (\<forall>s \<in> set segs. 0 < snd s) \<and> (\<forall>a \<in> set (slots segs). unat a + 16 \<le> limit)"

definition at_position :: "segments \<Rightarrow> event_ring \<Rightarrow> nat \<Rightarrow> bool" where
  "at_position segs r p \<longleftrightarrow>
     (let i = unat (er_erst_count r) in
      i < length segs \<and> 0 < er_trb_count r \<and> er_trb_count r \<le> snd (segs ! i) \<and>
      er_enqueue_pointer r =
        fst (segs ! i) + 16 * of_nat (unat (snd (segs ! i)) - unat (er_trb_count r)) \<and>
      p = seg_start segs i + (unat (snd (segs ! i)) - unat (er_trb_count r)))"

lemma length_seg_slots [simp]: "length (seg_slots s) = unat (snd s)"
  by (simp add: seg_slots_def)

lemma slots_append [simp]: "slots (xs @ ys) = slots xs @ slots ys"
  by (simp add: slots_def)

lemma slots_split: "i < length segs \<Longrightarrow>
    slots segs = slots (take i segs) @ seg_slots (segs ! i) @ slots (drop (Suc i) segs)"
  using arg_cong [OF id_take_nth_drop, of i segs slots] by (simp add: slots_def)

lemma slots_nth:
  assumes "i < length segs" "j < unat (snd (segs ! i))"
  shows "seg_start segs i + j < length (slots segs)"
    and "slots segs ! (seg_start segs i + j) = fst (segs ! i) + 16 * of_nat j"
  using assms
  by (subst slots_split [OF assms(1)];
      simp add: seg_start_def nth_append seg_slots_def)+

lemma seg_start_Suc:
  "i < length segs \<Longrightarrow> seg_start segs (Suc i) = seg_start segs i + unat (snd (segs ! i))"
  by (simp add: seg_start_def take_Suc_conv_app_nth) (simp add: slots_def)

lemma seg_start_length [simp]: "seg_start segs (length segs) = length (slots segs)"
  by (simp add: seg_start_def)

lemma seg_start_0 [simp]: "seg_start segs 0 = 0"
  by (simp add: seg_start_def slots_def)

lemma at_position_slot:
  assumes "at_position segs r p"
  shows "p < length (slots segs)" and "slots segs ! p = er_enqueue_pointer r"
proof -
  let ?i = "unat (er_erst_count r)"
  have i: "?i < length segs" "0 < er_trb_count r" "er_trb_count r \<le> snd (segs ! ?i)"
    using assms by (auto simp: at_position_def Let_def)
  then have lt: "unat (snd (segs ! ?i)) - unat (er_trb_count r) < unat (snd (segs ! ?i))"
    by (simp add: word_less_nat_alt word_le_nat_alt)
  show "p < length (slots segs)" "slots segs ! p = er_enqueue_pointer r"
    using slots_nth [OF i(1) lt] assms by (auto simp: at_position_def Let_def)
qed


text \<open>The position after \<open>p\<close>, in terms of the segment of \<open>p\<close>.\<close>

definition next_pos :: "segments \<Rightarrow> nat \<Rightarrow> nat" where
  "next_pos segs p = (Suc p) mod length (slots segs)"

definition next_seg :: "segments \<Rightarrow> nat \<Rightarrow> nat" where
  "next_seg segs i = (if Suc i = length segs then 0 else Suc i)"

lemma slots_nonempty: "wf_segments limit segs \<Longrightarrow> 0 < length (slots segs)"
  by (cases segs) (auto simp: wf_segments_def slots_def word_less_nat_alt)

lemma next_pos_inside:
  assumes "wf_segments limit segs" "at_position segs r p" "er_trb_count r \<noteq> 1"
  shows "next_pos segs p = Suc p" "Suc p < length (slots segs)"
    and "slots segs ! next_pos segs p = er_enqueue_pointer r + 16"
    and "at_position segs (r\<lparr>er_trb_count := er_trb_count r - 1,
           er_enqueue_pointer := er_enqueue_pointer r + 16\<rparr>) (next_pos segs p)"
proof -
  let ?i = "unat (er_erst_count r)" and ?c = "unat (er_trb_count r)"
  have i: "?i < length segs" "0 < ?c" "?c \<le> unat (snd (segs ! ?i))"
    using assms(2) by (auto simp: at_position_def Let_def word_less_nat_alt word_le_nat_alt)
  have "?c \<noteq> 1" using assms(3) by (metis unat_1 word_unat_eq_iff)
  then have c: "1 < ?c" using i(2) by simp
  then have c1: "unat (er_trb_count r - 1) = ?c - 1" by (simp add: unat_sub_le word_le_nat_alt)
  let ?j = "unat (snd (segs ! ?i)) - ?c"
  have j: "Suc ?j < unat (snd (segs ! ?i))" using c i by linarith
  have p: "p = seg_start segs ?i + ?j" "er_enqueue_pointer r = fst (segs ! ?i) + 16 * of_nat ?j"
    using assms(2) by (auto simp: at_position_def Let_def)
  show s: "Suc p < length (slots segs)" using slots_nth(1) [OF i(1) j] p by simp
  then show n: "next_pos segs p = Suc p" by (simp add: next_pos_def)
  show "slots segs ! next_pos segs p = er_enqueue_pointer r + 16"
    unfolding n using slots_nth(2) [OF i(1) j] p by (simp add: algebra_simps)
  have "unat (snd (segs ! ?i)) - (?c - 1) = Suc ?j" using c i by linarith
  then show "at_position segs (r\<lparr>er_trb_count := er_trb_count r - 1,
           er_enqueue_pointer := er_enqueue_pointer r + 16\<rparr>) (next_pos segs p)"
    unfolding n using i p c c1
    by (simp add: at_position_def Let_def word_less_nat_alt word_le_nat_alt algebra_simps)
qed

lemma next_pos_boundary:
  assumes "wf_segments limit segs" "at_position segs r p" "er_trb_count r = 1"
  defines "k \<equiv> next_seg segs (unat (er_erst_count r))"
  shows "k < length segs" "slots segs ! next_pos segs p = fst (segs ! k)"
    and "k = 0 \<longleftrightarrow> Suc p = length (slots segs)"
    and "er_erst_count r' = of_nat k \<Longrightarrow> er_trb_count r' = snd (segs ! k) \<Longrightarrow>
           er_enqueue_pointer r' = fst (segs ! k) \<Longrightarrow> at_position segs r' (next_pos segs p)"
proof -
  let ?i = "unat (er_erst_count r)"
  have i: "?i < length segs" "0 < unat (snd (segs ! ?i))"
    using assms(2,3) by (auto simp: at_position_def Let_def word_less_nat_alt word_le_nat_alt)
  have pos: "0 < snd s" if "s \<in> set segs" for s using assms(1) that by (simp add: wf_segments_def)
  have p: "Suc p = seg_start segs (Suc ?i)"
    using assms(2,3) i by (simp add: at_position_def Let_def seg_start_Suc)
  show k: "k < length segs" using i by (auto simp: k_def next_seg_def)
  have len: "unat (of_nat k :: u32) = k" using assms(1) k by (simp add: wf_segments_def unat_of_nat)
  have zero: "unat (snd (segs ! k)) > 0" using pos k by (simp add: word_less_nat_alt)
  have np: "next_pos segs p = seg_start segs k"
  proof (cases "Suc ?i = length segs")
    case True
    then show ?thesis using p by (simp add: next_pos_def k_def next_seg_def)
  next
    case False
    then have "Suc ?i < length segs" using i by simp
    then show ?thesis
      using p slots_nth(1) [of "Suc ?i" segs 0] zero
      by (simp add: next_pos_def k_def next_seg_def)
  qed
  show "slots segs ! next_pos segs p = fst (segs ! k)"
    using slots_nth(2) [OF k zero] np by simp
  show "k = 0 \<longleftrightarrow> Suc p = length (slots segs)"
  proof
    assume "k = 0"
    then have "Suc ?i = length segs" by (auto simp: k_def next_seg_def split: if_splits)
    then show "Suc p = length (slots segs)" using p by simp
  next
    assume "Suc p = length (slots segs)"
    then have "next_pos segs p = 0" by (simp add: next_pos_def)
    then have "seg_start segs k = 0" using np by simp
    then show "k = 0"
      using p i k by (cases "Suc ?i = length segs") (auto simp: k_def next_seg_def seg_start_Suc)
  qed
  show "at_position segs r' (next_pos segs p)"
    if "er_erst_count r' = of_nat k" "er_trb_count r' = snd (segs ! k)"
      "er_enqueue_pointer r' = fst (segs ! k)"
    using that k zero np len by (simp add: at_position_def Let_def word_less_nat_alt)
qed

section \<open>Enqueueing implements the abstract ring\<close>

text \<open>The segment table in memory.\<close>

definition erst_at :: "(nat \<Rightarrow> nat \<Rightarrow> bool) \<Rightarrow> (nat \<Rightarrow> u8) \<Rightarrow> u64 \<Rightarrow> segments \<Rightarrow> bool" where
  "erst_at wok mem base segs \<longleftrightarrow> (\<forall>i < length segs.
     wok (unat base + 16 * i) 8 \<and> wok (unat base + 16 * i + 8) 4 \<and>
     of_le_bytes (map mem [unat base + 16 * i..<unat base + 16 * i + 8]) = fst (segs ! i) \<and>
     of_le_bytes (map mem [unat base + 16 * i + 8..<unat base + 16 * i + 12]) = snd (segs ! i))"

text \<open>The events do not overwrite the table.\<close>

definition table_apart :: "u64 \<Rightarrow> segments \<Rightarrow> bool" where
  "table_apart base segs \<longleftrightarrow> (\<forall>a \<in> set (slots segs).
     unat a + 16 \<le> unat base \<or> unat base + 16 * length segs \<le> unat a)"


lemma erst_at_patch:
  assumes "erst_at wok mem base segs" "a \<in> set (slots segs)" "table_apart base segs"
    "length bs = 16"
  shows "erst_at wok (patch mem w (unat a) bs) base segs"
proof -
  have out: "patch mem w (unat a) bs x = mem x"
    if "unat base \<le> x" "x < unat base + 16 * length segs" for x
    using assms(2-4) that by (intro patch_outside) (auto simp: table_apart_def)
  have 1: "map (patch mem w (unat a) bs) [unat base + 16 * i..<unat base + 16 * i + 8] =
      map mem [unat base + 16 * i..<unat base + 16 * i + 8]" if "i < length segs" for i
    using that by (intro map_cong refl out) auto
  have 2: "map (patch mem w (unat a) bs) [unat base + 16 * i + 8..<unat base + 16 * i + 12] =
      map mem [unat base + 16 * i + 8..<unat base + 16 * i + 12]" if "i < length segs" for i
    using that by (intro map_cong refl out) auto
  show ?thesis using assms(1) unfolding erst_at_def by (simp add: 1 2 del: map_eq_conv)
qed

text \<open>A burst of events, produced while the driver's dequeue pointer stands still.\<close>

fun enqueue_all ::
  "'m bus_device \<Rightarrow> 'm \<Rightarrow> event_ring \<Rightarrow> event_trb list \<Rightarrow> u64 \<Rightarrow> u32 \<Rightarrow> u64 \<Rightarrow> ('m \<times> event_ring) res"
  where
  "enqueue_all ops m r [] base sz deq = Inr (m, r)"
| "enqueue_all ops m r (e # es) base sz deq =
     rbind (enqueue ops m r e base sz deq) (\<lambda>(m', r'). enqueue_all ops m' r' es base sz deq)"

text \<open>The slots do not overlap, and the driver mapped them writable.\<close>

definition slots_apart :: "segments \<Rightarrow> bool" where
  "slots_apart segs \<longleftrightarrow> (\<forall>x < length (slots segs). \<forall>y < length (slots segs). x \<noteq> y \<longrightarrow>
     unat (slots segs ! x) + 16 \<le> unat (slots segs ! y) \<or>
     unat (slots segs ! y) + 16 \<le> unat (slots segs ! x))"

definition slots_writable :: "(nat \<Rightarrow> bool) \<Rightarrow> segments \<Rightarrow> bool" where
  "slots_writable w segs \<longleftrightarrow> (\<forall>a \<in> set (slots segs). \<forall>k < 16. w (unat a + k))"

definition slot_bytes :: "(nat \<Rightarrow> u8) \<Rightarrow> segments \<Rightarrow> nat \<Rightarrow> raw_trb_buffer" where
  "slot_bytes mem segs x = map mem [unat (slots segs ! x)..<unat (slots segs ! x) + 16]"

definition slot_at :: "segments \<Rightarrow> nat \<Rightarrow> nat \<Rightarrow> nat" where
  "slot_at segs p i = (p + i) mod length (slots segs)"

definition cycle_at :: "segments \<Rightarrow> bool \<Rightarrow> nat \<Rightarrow> nat \<Rightarrow> bool" where
  "cycle_at segs c p i = (if length (slots segs) \<le> p + i then \<not> c else c)"

lemma slot_at_next: "slot_at segs (next_pos segs p) i = slot_at segs p (Suc i)"
  by (simp add: slot_at_def next_pos_def mod_simps)

lemma cycle_at_next:
  assumes "p < length (slots segs)" "i < length (slots segs)"
  shows "cycle_at segs (if Suc p = length (slots segs) then \<not> c else c) (next_pos segs p) i =
    cycle_at segs c p (Suc i)"
proof (cases "Suc p = length (slots segs)")
  case True
  then show ?thesis using assms by (simp add: cycle_at_def next_pos_def)
next
  case False
  then have "Suc p < length (slots segs)" using assms by simp
  then show ?thesis by (simp add: cycle_at_def next_pos_def)
qed

lemma slot_at_other:
  assumes "p < length (slots segs)" "0 < i" "i < length (slots segs)"
  shows "slot_at segs p i \<noteq> p"
proof (cases "p + i < length (slots segs)")
  case False
  then have "(p + i) mod length (slots segs) = p + i - length (slots segs)"
    using assms by (simp add: mod_if)
  then show ?thesis using assms False by (simp add: slot_at_def)
qed (use assms in \<open>simp add: slot_at_def\<close>)

lemma length_event_to_bytes [simp]: "length (event_to_bytes e c) = 16"
  by (cases e) (simp_all add: event_to_bytes_def event_data_bytes_def Let_def zeroed_trb_buffer_def)

lemma slot_bytes_patch_same:
  assumes "length bs = 16" "x < length (slots segs)" "slots_writable w segs"
  shows "slot_bytes (patch mem w (unat (slots segs ! x)) bs) segs x = bs"
proof (rule nth_equalityI)
  fix k assume k: "k < length (slot_bytes (patch mem w (unat (slots segs ! x)) bs) segs x)"
  then have "w (unat (slots segs ! x) + k)"
    using assms(2,3) by (auto simp: slots_writable_def slot_bytes_def)
  then show "slot_bytes (patch mem w (unat (slots segs ! x)) bs) segs x ! k = bs ! k"
    using k assms(1) by (simp add: slot_bytes_def patch_inside)
qed (use assms in \<open>simp add: slot_bytes_def\<close>)

lemma slot_bytes_patch_other:
  assumes "length bs = 16" "slots_apart segs" "x < length (slots segs)" "y < length (slots segs)" "x \<noteq> y"
  shows "slot_bytes (patch mem w (unat (slots segs ! x)) bs) segs y = slot_bytes mem segs y"
  unfolding slot_bytes_def using assms
  by (intro map_cong refl patch_outside) (fastforce simp: slots_apart_def)

context guest_memory
begin

lemma erst_entry:
  assumes "ok m" "erst_at (word_ok m) (byte_at m) base segs" "i < length segs" "length segs < 2 ^ 32"
  shows "read_segment_base ops m (base + ucast (of_nat i :: u32) * 16) = Inr (fst (segs ! i))"
    and "read_segment_size ops m (base + ucast (of_nat i :: u32) * 16) = Inr (snd (segs ! i))"
proof -
  let ?a = "unat base + 16 * i"
  have e: "word_ok m ?a 8" "word_ok m (?a + 8) 4"
    "of_le_bytes (map (byte_at m) [?a..<?a + 8]) = fst (segs ! i)"
    "of_le_bytes (map (byte_at m) [?a + 8..<?a + 12]) = snd (segs ! i)"
    using assms(2,3) by (auto simp: erst_at_def)
  have lt: "?a + 12 < 2 ^ 64"
    using word_ok_bound [OF e(2) assms(1)] unat_lt_max [of "dev_size ops m"] by simp
  have i: "unat (ucast (of_nat i :: u32) * 16 :: u64) = 16 * i"
  proof -
    have "unat (of_nat i :: u32) = i" using assms(3,4) by (simp add: unat_of_nat)
    then have "ucast (of_nat i :: u32) = (of_nat i :: u64)"
      by (metis of_nat_unat)
    then have "ucast (of_nat i :: u32) * 16 = (of_nat (16 * i) :: u64)" by simp
    moreover have "unat (of_nat (16 * i) :: u64) = 16 * i" using lt by (subst unat_of_nat) simp
    ultimately show ?thesis by (simp only:)
  qed
  have a: "unat (base + ucast (of_nat i :: u32) * 16) = ?a"
    using lt i by (subst unat_add_lt) simp_all
  have a8: "unat (base + ucast (of_nat i :: u32) * 16 + 8) = ?a + 8"
    using lt a by (subst unat_add_lt) simp_all
  show "read_segment_base ops m (base + ucast (of_nat i :: u32) * 16) = Inr (fst (segs ! i))"
    using word_read_law [OF assms(1), of "base + ucast (of_nat i :: u32) * 16" Size8] e a
    by (simp add: read_segment_base_def)
  have c: "ucast (of_le_bytes bs :: u64) = (of_le_bytes bs :: u32)" if "length bs \<le> 4" for bs
    using that by (intro bit_word_eqI) (auto simp: bit_simps bit_of_le_bytes)
  show "read_segment_size ops m (base + ucast (of_nat i :: u32) * 16) = Inr (snd (segs ! i))"
    using word_read_law [OF assms(1), of "base + ucast (of_nat i :: u32) * 16 + 8" Size4] e a8
    by (simp add: read_segment_size_def c add.commute [of 12])
qed

text \<open>One event, in terms of the abstract ring.\<close>

definition enqueued :: "'a \<Rightarrow> segments \<Rightarrow> u64 \<Rightarrow> event_ring \<Rightarrow> nat \<Rightarrow> event_trb \<Rightarrow> 'a \<Rightarrow> event_ring \<Rightarrow> bool" where
  "enqueued m segs base r p e m' r' \<longleftrightarrow> ok m' \<and> dev_size ops m' = dev_size ops m \<and>
     byte_at m' = patch (byte_at m) (writable m) (unat (slots segs ! p))
       (event_to_bytes e (er_cycle_state r)) \<and>
     writable m' = writable m \<and> word_ok m' = word_ok m \<and>
     erst_at (word_ok m') (byte_at m') base segs \<and> at_position segs r' (next_pos segs p) \<and>
     er_cycle_state r' = (if Suc p = length (slots segs) then \<not> er_cycle_state r else er_cycle_state r)"

lemma write_event:
  assumes "ok m" "erst_at (word_ok m) (byte_at m) base segs" "wf_segments (lim m) segs"
    "table_apart base segs" "at_position segs r p"
  obtains m' where "dev_write_bulk ops m (er_enqueue_pointer r) (event_to_bytes e (er_cycle_state r)) = Inr m'"
    "ok m'" "dev_size ops m' = dev_size ops m" "writable m' = writable m" "word_ok m' = word_ok m"
    "byte_at m' = patch (byte_at m) (writable m) (unat (slots segs ! p))
       (event_to_bytes e (er_cycle_state r))"
    "erst_at (word_ok m') (byte_at m') base segs"
proof -
  have len: "length (event_to_bytes e (er_cycle_state r)) = 16"
    by (cases e) (simp_all add: event_to_bytes_def event_data_bytes_def Let_def zeroed_trb_buffer_def)
  note p = at_position_slot [OF assms(5)]
  have mem: "slots segs ! p \<in> set (slots segs)" using p(1) by simp
  then have "unat (er_enqueue_pointer r) + length (event_to_bytes e (er_cycle_state r)) \<le> lim m"
    using assms(3) p(2) len by (simp add: wf_segments_def)
  then obtain m' where m': "dev_write_bulk ops m (er_enqueue_pointer r)
        (event_to_bytes e (er_cycle_state r)) = Inr m'" "ok m'"
      "dev_size ops m' = dev_size ops m" "writable m' = writable m"
      "byte_at m' = patch (byte_at m) (writable m) (unat (er_enqueue_pointer r))
        (event_to_bytes e (er_cycle_state r))"
    using write_bulk_law [OF assms(1)] by blast
  then show ?thesis
    using that word_ok_write_bulk [OF assms(1) m'(1)] p(2)
      erst_at_patch [OF assms(2) mem assms(4) len] by simp
qed

lemma enqueue_inside:
  assumes "ok m" "erst_at (word_ok m) (byte_at m) base segs" "wf_segments (lim m) segs"
    "table_apart base segs" "at_position segs r p" "er_trb_count r \<noteq> 1"
  shows "if dequeue_pointer = slots segs ! next_pos segs p
    then enqueue ops m r e base sz dequeue_pointer = Inl NotImplemented
    else \<exists>m' r'. enqueue ops m r e base sz dequeue_pointer = Inr (m', r') \<and>
      enqueued m segs base r p e m' r'"
proof -
  note n = next_pos_inside [OF assms(3,5,6)]
  have pos: "0 < er_trb_count r" using assms(5) by (simp add: at_position_def Let_def)
  have c: "checked_sub (er_trb_count r) 1 = Some (er_trb_count r - 1)" "er_trb_count r - 1 \<noteq> 0"
    using pos assms(6) by (auto simp: checked_sub_def word_le_nat_alt word_less_nat_alt Suc_le_eq)
  obtain m' where m': "dev_write_bulk ops m (er_enqueue_pointer r) (event_to_bytes e (er_cycle_state r)) = Inr m'"
    "ok m'" "dev_size ops m' = dev_size ops m" "writable m' = writable m" "word_ok m' = word_ok m"
    "byte_at m' = patch (byte_at m) (writable m) (unat (slots segs ! p))
       (event_to_bytes e (er_cycle_state r))"
    "erst_at (word_ok m') (byte_at m') base segs"
    using write_event [OF assms(1-5)] by metis
  show ?thesis
    using n m' c assms(6)
    by (auto simp: enqueue_def check_event_ring_full_def advance_enqueue_pointer_def enqueued_def)
qed

lemma enqueue_boundary:
  assumes "ok m" "erst_at (word_ok m) (byte_at m) base segs" "wf_segments (lim m) segs"
    "table_apart base segs" "at_position segs r p" "er_trb_count r = 1" "sz = of_nat (length segs)"
  shows "if dequeue_pointer = slots segs ! next_pos segs p
    then enqueue ops m r e base sz dequeue_pointer = Inl NotImplemented
    else \<exists>m' r'. enqueue ops m r e base sz dequeue_pointer = Inr (m', r') \<and>
      enqueued m segs base r p e m' r'"
proof -
  let ?i = "unat (er_erst_count r)"
  define k where "k = next_seg segs ?i"
  note b = next_pos_boundary [OF assms(3,5,6), folded k_def]
  have small: "length segs < 2 ^ 32" using assms(3) by (simp add: wf_segments_def)
  have i: "?i < length segs" using assms(5) by (simp add: at_position_def Let_def)
  have usz: "unat sz = length segs" using small assms(7) by (simp add: unat_of_nat)
  have u: "unat (of_nat (Suc ?i) :: u32) = Suc ?i"
    by (subst unat_of_nat) (use i small in simp)
  have n: "checked_add (er_erst_count r) 1 = Some (of_nat (Suc ?i))" "unat (of_nat (Suc ?i) :: u32) = Suc ?i"
    using i small u by (auto simp: checked_add_def)
  have eq: "(of_nat (Suc ?i) :: u32) = sz \<longleftrightarrow> Suc ?i = length segs"
    using n(2) usz by (auto simp: word_unat_eq_iff)
  have md: "(of_nat (Suc ?i) :: u32) mod sz = of_nat k"
  proof -
    have "unat ((of_nat (Suc ?i) :: u32) mod sz) = k"
      using n(2) usz i by (simp add: unat_mod_distrib k_def next_seg_def)
    then show ?thesis by (metis of_nat_unat ucast_id)
  qed
  have nz: "sz \<noteq> 0" using usz i by auto
  obtain m' where m': "dev_write_bulk ops m (er_enqueue_pointer r) (event_to_bytes e (er_cycle_state r)) = Inr m'"
    "ok m'" "dev_size ops m' = dev_size ops m" "writable m' = writable m" "word_ok m' = word_ok m"
    "byte_at m' = patch (byte_at m) (writable m) (unat (slots segs ! p))
       (event_to_bytes e (er_cycle_state r))"
    "erst_at (word_ok m') (byte_at m') base segs"
    using write_event [OF assms(1-5)] by metis
  note entry = erst_entry [OF assms(1,2) b(1) small] erst_entry [OF m'(2,7) b(1) small]
  define r' where "r' = r\<lparr>er_trb_count := snd (segs ! k), er_erst_count := of_nat k,
      er_enqueue_pointer := fst (segs ! k),
      er_cycle_state := (if k = 0 then \<not> er_cycle_state r else er_cycle_state r)\<rparr>"
  have kz: "k = (if Suc ?i = length segs then 0 else Suc ?i)" by (simp add: k_def next_seg_def)
  have adv: "advance_segment_or_wrap ops m' (r\<lparr>er_trb_count := 0\<rparr>) base sz = Inr r'"
    using entry(3,4) n(1) eq kz by (cases "Suc ?i = length segs") (auto simp: advance_segment_or_wrap_def Let_def r'_def)
  have full: "check_event_ring_full ops m r base sz dequeue_pointer =
      Inr (dequeue_pointer = slots segs ! next_pos segs p)"
    using entry(1) n(1) md nz b(2) assms(6) by (simp add: check_event_ring_full_def Let_def)
  have "enqueued m segs base r p e m' r'"
    using m' b(3) b(4) [of r'] by (simp add: enqueued_def r'_def)
  then show ?thesis
    using full m'(1) adv assms(6)
    by (auto simp: enqueue_def advance_enqueue_pointer_def checked_sub_def)
qed

lemma enqueue_step:
  assumes "ok m" "erst_at (word_ok m) (byte_at m) base segs" "wf_segments (lim m) segs"
    "table_apart base segs" "at_position segs r p"
  shows "if dequeue_pointer = slots segs ! next_pos segs p
    then enqueue ops m r e base (of_nat (length segs)) dequeue_pointer = Inl NotImplemented
    else \<exists>m' r'. enqueue ops m r e base (of_nat (length segs)) dequeue_pointer = Inr (m', r') \<and>
      enqueued m segs base r p e m' r'"
  using enqueue_inside [OF assms] enqueue_boundary [OF assms _ refl]
  by (cases "er_trb_count r = 1") blast+


lemma enqueue_all_spec:
  assumes "ok m" "erst_at (word_ok m) (byte_at m) base segs" "wf_segments (lim m) segs"
    "table_apart base segs" "slots_apart segs" "slots_writable (writable m) segs"
    "at_position segs r p" "sz = of_nat (length segs)" "length es < length (slots segs)"
    "\<And>i. i < length es \<Longrightarrow> deq \<noteq> slots segs ! slot_at segs p (Suc i)"
  shows "\<exists>m' r'. enqueue_all ops m r es base sz deq = Inr (m', r') \<and> ok m' \<and>
    at_position segs r' (slot_at segs p (length es)) \<and>
    er_cycle_state r' = cycle_at segs (er_cycle_state r) p (length es) \<and>
    (\<forall>i < length es. slot_bytes (byte_at m') segs (slot_at segs p i) =
       event_to_bytes (es ! i) (cycle_at segs (er_cycle_state r) p i)) \<and>
    (\<forall>y < length (slots segs). (\<forall>i < length es. slot_at segs p i \<noteq> y) \<longrightarrow>
       slot_bytes (byte_at m') segs y = slot_bytes (byte_at m) segs y)"
  using assms(1-3,6,7,9,10)
proof (induction es arbitrary: m r p)
  case Nil
  have "p < length (slots segs)" using at_position_slot(1) [OF Nil(5)] .
  then show ?case using Nil by (simp add: slot_at_def cycle_at_def)
next
  case (Cons e es)
  let ?N = "length (slots segs)" and ?q = "next_pos segs p" and ?c = "er_cycle_state r"
  have p: "p < ?N" using at_position_slot(1) [OF Cons.prems(5)] .
  have s0: "slot_at segs p 0 = p" using p by (simp add: slot_at_def)
  have c0: "cycle_at segs ?c p 0 = ?c" using p by (simp add: cycle_at_def)
  have q: "?q = slot_at segs p (Suc 0)" by (simp add: slot_at_def next_pos_def)
  have "deq \<noteq> slots segs ! ?q" using Cons.prems(7) [of 0] q by simp
  then obtain m1 r1 where e1: "enqueue ops m r e base sz deq = Inr (m1, r1)"
      and d: "enqueued m segs base r p e m1 r1"
    using enqueue_step [OF Cons.prems(1-3) assms(4) Cons.prems(5), of deq e] assms(8) by auto
  note d1 = d [unfolded enqueued_def]
  have cyc: "er_cycle_state r1 = (if Suc p = ?N then \<not> ?c else ?c)" using d1 by simp
  have m1: "slot_bytes (byte_at m1) segs p = event_to_bytes e ?c"
    "\<And>y. y < ?N \<Longrightarrow> y \<noteq> p \<Longrightarrow> slot_bytes (byte_at m1) segs y = slot_bytes (byte_at m) segs y"
    using d1 p slot_bytes_patch_same [OF length_event_to_bytes p Cons.prems(4)]
      slot_bytes_patch_other [OF length_event_to_bytes assms(5) p] by auto
  have ih: "\<exists>m' r'. enqueue_all ops m1 r1 es base sz deq = Inr (m', r') \<and> ok m' \<and>
    at_position segs r' (slot_at segs ?q (length es)) \<and>
    er_cycle_state r' = cycle_at segs (er_cycle_state r1) ?q (length es) \<and>
    (\<forall>i < length es. slot_bytes (byte_at m') segs (slot_at segs ?q i) =
       event_to_bytes (es ! i) (cycle_at segs (er_cycle_state r1) ?q i)) \<and>
    (\<forall>y < ?N. (\<forall>i < length es. slot_at segs ?q i \<noteq> y) \<longrightarrow>
       slot_bytes (byte_at m') segs y = slot_bytes (byte_at m1) segs y)"
  proof (rule Cons.IH)
    show "deq \<noteq> slots segs ! slot_at segs ?q (Suc i)" if "i < length es" for i
      using Cons.prems(7) [of "Suc i"] that by (simp add: slot_at_next)
  qed (use d1 Cons.prems in auto)
  then obtain m2 r2 where ih2: "enqueue_all ops m1 r1 es base sz deq = Inr (m2, r2)" "ok m2"
    "at_position segs r2 (slot_at segs p (Suc (length es)))"
    "er_cycle_state r2 = cycle_at segs ?c p (Suc (length es))"
    "\<And>i. i < length es \<Longrightarrow> slot_bytes (byte_at m2) segs (slot_at segs p (Suc i)) =
       event_to_bytes (es ! i) (cycle_at segs ?c p (Suc i))"
    "\<And>y. y < ?N \<Longrightarrow> (\<forall>i < length es. slot_at segs p (Suc i) \<noteq> y) \<Longrightarrow>
       slot_bytes (byte_at m2) segs y = slot_bytes (byte_at m1) segs y"
    using Cons.prems(6) by (auto simp: slot_at_next cyc cycle_at_next [OF p])
  have "slot_bytes (byte_at m2) segs p = event_to_bytes e ?c"
    using ih2(6) [OF p] slot_at_other [OF p] Cons.prems(6) m1(1) by auto
  then have new: "slot_bytes (byte_at m2) segs (slot_at segs p i) =
      event_to_bytes ((e # es) ! i) (cycle_at segs ?c p i)" if "i < length (e # es)" for i
    using that ih2(5) s0 c0 by (cases i) auto
  have old: "slot_bytes (byte_at m2) segs y = slot_bytes (byte_at m) segs y"
    if "y < ?N" "\<forall>i < length (e # es). slot_at segs p i \<noteq> y" for y
  proof -
    have "y \<noteq> p" "\<forall>i < length es. slot_at segs p (Suc i) \<noteq> y" using that(2) s0 by auto
    then show ?thesis using ih2(6) [OF that(1)] m1(2) [OF that(1)] by simp
  qed
  show ?case using e1 ih2(1-4) new old by simp
qed

end


section \<open>The event ring in guest memory\<close>

lemma configure_reads:
  assumes "dyn_ok m" "erst_at (in_one_segment m) (dyn_byte m) base segs" "segs \<noteq> []"
    "length segs < 2 ^ 32"
  shows "read_segment_base dma_bus_ops m base = Inr (fst (segs ! 0))"
    and "read_segment_size dma_bus_ops m base = Inr (snd (segs ! 0))"
  using guest.erst_entry [OF assms(1,2), of 0] assms(3,4) by auto

text \<open>
  Configuring the event ring. When the driver has written a segment table at an aligned address
  and the ring was reset before, \<open>configure\<close> leaves it at the first slot of the first segment with
  cycle state 1. (The segment index is not part of what \<open>configure\<close> sets: it stays what it was.)
\<close>

theorem configure_at_start:
  assumes "dyn_ok m" "erst_at (in_one_segment m) (dyn_byte m) base segs"
    "wf_segments dma_limit segs" "base AND 0x3f = 0"
  shows "\<exists>r'. event_ring_configure dma_bus_ops m r base (of_nat (length segs)) = Inr r' \<and>
    er_cycle_state r' \<and> er_erst_count r' = er_erst_count r \<and>
    (er_erst_count r = 0 \<longrightarrow> at_position segs r' 0)"
proof -
  have ne: "segs \<noteq> []" "length segs < 2 ^ 32" using assms(3) by (auto simp: wf_segments_def)
  then have "(0 :: u32) < of_nat (length segs)"
    by (simp add: word_less_nat_alt unat_of_nat)
  moreover have "0 < snd (segs ! 0)" using assms(3) ne by (simp add: wf_segments_def)
  ultimately show ?thesis
    using configure_reads [OF assms(1,2) ne] assms(4) ne(1)
    by (simp add: event_ring_configure_def at_position_def Let_def)
qed

text \<open>
  C19: One event. \<open>enqueue\<close> implements the abstract ring: it refuses (with the \<open>todo!\<close> for a full ring)
  exactly when the dequeue pointer is the slot after the write position, and otherwise writes the
  event with the current cycle bit to the slot of its position and nothing else, and moves to the
  next slot, across segments, flipping the cycle state when it returns to the first slot.
\<close>

theorem event_ring_enqueue_refines:
  assumes "dyn_ok m" "erst_at (in_one_segment m) (dyn_byte m) base segs"
    "wf_segments dma_limit segs" "table_apart base segs" "at_position segs r p"
  shows "if deq = slots segs ! next_pos segs p
    then enqueue dma_bus_ops m r e base (of_nat (length segs)) deq = Inl NotImplemented
    else \<exists>m' r'. enqueue dma_bus_ops m r e base (of_nat (length segs)) deq = Inr (m', r') \<and>
      dyn_ok m' \<and> erst_at (in_one_segment m') (dyn_byte m') base segs \<and>
      dyn_byte m' = patch (dyn_byte m) (dyn_writable m) (unat (slots segs ! p))
        (event_to_bytes e (er_cycle_state r)) \<and>
      at_position segs r' (next_pos segs p) \<and>
      er_cycle_state r' =
        (if Suc p = length (slots segs) then \<not> er_cycle_state r else er_cycle_state r)"
proof -
  have "wf_segments (unat (dev_size dma_bus_ops m)) segs" using assms(3) dma_bus_limit [OF assms(1)] by simp
  note step = guest.enqueue_step [OF assms(1,2) this assms(4,5), of deq e]
  show ?thesis
  proof (cases "deq = slots segs ! next_pos segs p")
    case True
    then show ?thesis using step by simp
  next
    case False
    then show ?thesis using step unfolding guest.enqueued_def if_not_P [OF False] by blast
  qed
qed

text \<open>
  A burst of events. While the dequeue pointer stands still and is not reached, every event of
  a burst shorter than the ring lands in its own slot, in order, with the cycle bit of its pass;
  the other slots keep their contents, so a driver that reads on from its position sees exactly
  these events and then a stale cycle bit.
\<close>

theorem event_ring_burst:
  assumes "dyn_ok m" "erst_at (in_one_segment m) (dyn_byte m) base segs"
    "wf_segments dma_limit segs" "table_apart base segs" "slots_apart segs"
    "slots_writable (dyn_writable m) segs" "at_position segs r p" "length es < length (slots segs)"
    "\<And>i. i < length es \<Longrightarrow> deq \<noteq> slots segs ! slot_at segs p (Suc i)"
  shows "\<exists>m' r'. enqueue_all dma_bus_ops m r es base (of_nat (length segs)) deq = Inr (m', r') \<and>
    at_position segs r' (slot_at segs p (length es)) \<and>
    er_cycle_state r' = cycle_at segs (er_cycle_state r) p (length es) \<and>
    (\<forall>i < length es. slot_bytes (dyn_byte m') segs (slot_at segs p i) =
       event_to_bytes (es ! i) (cycle_at segs (er_cycle_state r) p i)) \<and>
    (\<forall>y < length (slots segs). (\<forall>i < length es. slot_at segs p i \<noteq> y) \<longrightarrow>
       slot_bytes (dyn_byte m') segs y = slot_bytes (dyn_byte m) segs y)"
  using guest.enqueue_all_spec [OF assms(1,2) _ assms(4-7) refl assms(8,9)] assms(3)
  unfolding dma_bus_limit [OF assms(1)] by blast

subsection \<open>A concrete ring\<close>

text \<open>A table of two segments at address 0, with one slot at 0x40 and two at 0x60.\<close>

definition erst_example :: "u8 list" where
  "erst_example = [0x40, 0, 0, 0, 0, 0, 0, 0,  1, 0, 0, 0, 0, 0, 0, 0,
     0x60, 0, 0, 0, 0, 0, 0, 0,  2, 0, 0, 0, 0, 0, 0, 0] @ replicate 96 0"

definition segs_example :: segments where
  "segs_example = [(0x40, 1), (0x60, 2)]"

definition event_ring_example :: event_ring where
  "event_ring_example = \<lparr>er_enqueue_pointer = 0x40, er_trb_count = 1, er_erst_count = 0,
     er_cycle_state = True\<rparr>"

lemma slots_example: "slots segs_example = [0x40, 0x60, 0x70]"
  by (simp add: slots_def segs_example_def seg_slots_def upt_rec)

lemma length_erst_example [simp]: "length erst_example = 128"
  by (simp add: erst_example_def)

lemma erst_example_facts:
  "dyn_ok (single_segment erst_example)"
  "erst_at (in_one_segment (single_segment erst_example)) (dyn_byte (single_segment erst_example))
     0 segs_example"
  "wf_segments dma_limit segs_example" "table_apart 0 segs_example" "slots_apart segs_example"
  "slots_writable (dyn_writable (single_segment erst_example)) segs_example"
  "at_position segs_example event_ring_example 0"
proof -
  let ?m = "single_segment erst_example"
  show "dyn_ok ?m" by (simp add: single_segment_ok)
  have b: "map (dyn_byte ?m) [a..<a + n] = slice erst_example a n" if "a + n \<le> 128" for a n
    using that by (intro single_segment_map) simp_all
  have "of_le_bytes (slice erst_example 0 8) = (0x40 :: u64)"
    "of_le_bytes (slice erst_example 8 4) = (1 :: u32)"
    "of_le_bytes (slice erst_example 16 8) = (0x60 :: u64)"
    "of_le_bytes (slice erst_example 24 4) = (2 :: u32)"
    by (simp_all add: erst_example_def slice_def)
  then show "erst_at (in_one_segment ?m) (dyn_byte ?m) 0 segs_example"
    using b [of 0 8] b [of 8 4] b [of 16 8] b [of 24 4]
    by (simp add: erst_at_def segs_example_def single_segment_word less_Suc_eq del: map_eq_conv)
  show "wf_segments dma_limit segs_example" "table_apart 0 segs_example"
    by (simp_all add: wf_segments_def table_apart_def slots_example) (simp_all add: segs_example_def)
  show "slots_apart segs_example"
    by (simp add: slots_apart_def slots_example less_Suc_eq)
  show "slots_writable (dyn_writable ?m) segs_example"
    by (simp add: slots_writable_def slots_example single_segment_ok)
  show "at_position segs_example event_ring_example 0"
    by (simp add: at_position_def segs_example_def event_ring_example_def)
qed

theorem configure_at_start_witness:
  "\<exists>r'. event_ring_configure dma_bus_ops (single_segment erst_example) event_ring_new 0 2 = Inr r' \<and>
     er_cycle_state r' \<and> at_position segs_example r' 0"
  using configure_at_start [OF erst_example_facts(1-3), of event_ring_new]
  by (auto simp: event_ring_new_def segs_example_def)

theorem event_ring_enqueue_refines_witness:
  "enqueue dma_bus_ops (single_segment erst_example) event_ring_example (PortStatusChange 1) 0 2 0x60 =
     Inl NotImplemented \<and>
   (\<exists>m' r'. enqueue dma_bus_ops (single_segment erst_example) event_ring_example (PortStatusChange 1) 0 2 0x40 =
     Inr (m', r') \<and> at_position segs_example r' 1)"
proof -
  have n: "(of_nat (length segs_example) :: u32) = 2" by (simp add: segs_example_def)
  have s: "slots segs_example ! 1 = 0x60" "next_pos segs_example 0 = 1"
    by (simp_all add: slots_example next_pos_def)
  note step = event_ring_enqueue_refines [OF erst_example_facts(1-4,7), unfolded s n,
      of _ "PortStatusChange 1"]
  show ?thesis using step [of "0x60"] step [of "0x40"] by auto
qed

theorem event_ring_burst_witness:
  "\<exists>m' r'. enqueue_all dma_bus_ops (single_segment erst_example) event_ring_example
      [PortStatusChange 1, PortStatusChange 2] 0 2 0x40 = Inr (m', r') \<and>
    slot_bytes (dyn_byte m') segs_example 1 = event_to_bytes (PortStatusChange 2) True"
proof -
  let ?es = "[PortStatusChange 1, PortStatusChange 2]"
  have free: "0x40 \<noteq> slots segs_example ! slot_at segs_example 0 (Suc i)" if "i < length ?es" for i
    using that by (auto simp: slots_example slot_at_def less_Suc_eq)
  have len: "length ?es < length (slots segs_example)" by (simp add: slots_example)
  have n: "(of_nat (length segs_example) :: u32) = 2" by (simp add: segs_example_def)
  obtain m' r' where "enqueue_all dma_bus_ops (single_segment erst_example) event_ring_example ?es 0 2 0x40
        = Inr (m', r')"
      and slots: "\<forall>i < length ?es. slot_bytes (dyn_byte m') segs_example (slot_at segs_example 0 i) =
        event_to_bytes (?es ! i) (cycle_at segs_example (er_cycle_state event_ring_example) 0 i)"
    using event_ring_burst [OF erst_example_facts len free] unfolding n by blast
  moreover have "slot_bytes (dyn_byte m') segs_example 1 = event_to_bytes (PortStatusChange 2) True"
    using slots [rule_format, of 1]
    by (simp add: slot_at_def slots_example cycle_at_def event_ring_example_def)
  ultimately show ?thesis by blast
qed

end
