(* ===== verification/Interrupter.thy ===== *)
theory Interrupter
  imports EventRing Registers
begin

text \<open>
  The interrupter (\<open>src/device/xhci/interrupter.rs\<close>): its runtime registers, written by the guest at
  any time, and the worker that owns the event ring and the interrupt line. The worker's two
  loops, waiting for the first ERSTBA write and serving a configured ring, are the two values of
  \<open>it_configured\<close>; one turn of a loop is one step. \<open>'l\<close> is the type of interrupt lines and \<open>'c\<close>
  that of the reply channels; \<open>alive\<close> says whether the receiver of a reply is still there. The
  debug-build hook that suppresses the kick is not modelled.
\<close>

section \<open>State and messages\<close>

datatype ('l, 'c) interrupter_msg =
    SendEvent event_trb
  | UpdateInterruptLine 'l
  | ResetInterrupter 'c

record 'l interrupter =
  it_iman :: u64
  it_imod :: u64
  it_erstba :: u64
  it_erstsz :: u64
  it_erdp :: u64
  it_line :: 'l
  it_ring :: event_ring
  it_configured :: bool
  it_notified :: bool

text \<open>What a step does to the outside: an event written to the ring, an interrupt, an answered reset.\<close>

datatype ('l, 'c) interrupter_out =
    Enqueued event_trb
  | Interrupt 'l
  | ResetDone 'c

definition IMOD_DEFAULT :: u64 where "IMOD_DEFAULT = 4000"

definition interrupter_new :: "'l \<Rightarrow> 'l interrupter" where
  "interrupter_new dummy =
     \<lparr>it_iman = 0, it_imod = IMOD_DEFAULT, it_erstba = 0, it_erstsz = 0, it_erdp = 0, it_line = dummy,
      it_ring = event_ring_new, it_configured = False, it_notified = False\<rparr>"

definition interrupter_reset :: "'l interrupter \<Rightarrow> 'l interrupter" where
  "interrupter_reset w =
     w\<lparr>it_iman := 0, it_imod := IMOD_DEFAULT, it_erstba := 0, it_erstsz := 0, it_erdp := 0,
       it_ring := event_ring_reset (it_ring w)\<rparr>"

text \<open>
  An ERSTBA write stores the value and wakes the tasks that are waiting at this moment
  (\<open>notify_waiters\<close>); \<open>waiting\<close> says whether the worker is suspended in its \<open>select!\<close>.
\<close>

definition write_erstba :: "u64 \<Rightarrow> bool \<Rightarrow> 'l interrupter \<Rightarrow> 'l interrupter" where
  "write_erstba v waiting w =
     w\<lparr>it_erstba := v, it_notified := it_notified w \<or> (waiting \<and> \<not> it_configured w)\<rparr>"

section \<open>The worker\<close>

text \<open>
  One message in the loop that waits for the configuration. The \<open>select!\<close> drops the future of the
  other branch, and with it a notification that had already arrived.
\<close>

fun wait_message ::
  "'l interrupter \<Rightarrow> ('l, 'c) interrupter_msg \<Rightarrow> bool \<Rightarrow> ('l interrupter \<times> ('l, 'c) interrupter_out list) res"
  where
  "wait_message w (SendEvent e) alive = Inr (w\<lparr>it_notified := False\<rparr>, [])"
| "wait_message w (UpdateInterruptLine l) alive = Inr (w\<lparr>it_line := l, it_notified := False\<rparr>, [])"
| "wait_message w (ResetInterrupter c) alive =
     rbind (require alive ChannelClosed) (\<lambda>_.
     Inr ((interrupter_reset w)\<lparr>it_notified := False\<rparr>, [ResetDone c]))"

text \<open>The notification branch: configure the ring from the registers.\<close>

definition wake_up :: "'m bus_device \<Rightarrow> 'm \<Rightarrow> 'l interrupter \<Rightarrow> 'l interrupter res" where
  "wake_up ops m w =
     rbind (event_ring_configure ops m (it_ring w) (erstba_masked (it_erstba w)) (ucast (it_erstsz w))) (\<lambda>r.
     Inr (w\<lparr>it_ring := r, it_configured := True, it_notified := False\<rparr>))"

fun serve_message ::
  "'m bus_device \<Rightarrow> 'm \<Rightarrow> 'l interrupter \<Rightarrow> ('l, 'c) interrupter_msg \<Rightarrow> bool \<Rightarrow>
     ('m \<times> 'l interrupter \<times> ('l, 'c) interrupter_out list) res" where
  "serve_message ops m w (SendEvent e) alive =
     rbind (enqueue ops m (it_ring w) e (erstba_masked (it_erstba w)) (ucast (it_erstsz w)) (it_erdp w)) (\<lambda>(m', r).
     Inr (m', w\<lparr>it_ring := r\<rparr>, [Enqueued e, Interrupt (it_line w)]))"
| "serve_message ops m w (UpdateInterruptLine l) alive = Inr (m, w\<lparr>it_line := l\<rparr>, [Interrupt l])"
| "serve_message ops m w (ResetInterrupter c) alive =
     rbind (require alive ChannelClosed) (\<lambda>_.
     Inr (m, (interrupter_reset w)\<lparr>it_configured := False\<rparr>, [ResetDone c]))"

text \<open>Everything that can happen to the interrupter, in any order.\<close>

datatype ('l, 'c) interrupter_action =
    WriteIman u64
  | WriteImod u64
  | WriteErstsz u64
  | WriteErstba u64 bool
  | WriteErdp u64
  | Message "('l, 'c) interrupter_msg" bool
  | WakeUp

fun interrupter_step ::
  "'m bus_device \<Rightarrow> 'm \<times> 'l interrupter \<Rightarrow> ('l, 'c) interrupter_action \<Rightarrow>
     (('m \<times> 'l interrupter) \<times> ('l, 'c) interrupter_out list) res" where
  "interrupter_step ops (m, w) (WriteIman v) = Inr ((m, w\<lparr>it_iman := v\<rparr>), [])"
| "interrupter_step ops (m, w) (WriteImod v) = Inr ((m, w\<lparr>it_imod := v\<rparr>), [])"
| "interrupter_step ops (m, w) (WriteErstsz v) = Inr ((m, w\<lparr>it_erstsz := v\<rparr>), [])"
| "interrupter_step ops (m, w) (WriteErstba v waiting) = Inr ((m, write_erstba v waiting w), [])"
| "interrupter_step ops (m, w) (WriteErdp v) = Inr ((m, w\<lparr>it_erdp := v\<rparr>), [])"
| "interrupter_step ops (m, w) (Message msg alive) =
     (if it_configured w then rbind (serve_message ops m w msg alive) (\<lambda>(m', w', out). Inr ((m', w'), out))
      else rbind (wait_message w msg alive) (\<lambda>(w', out). Inr ((m, w'), out)))"
| "interrupter_step ops (m, w) WakeUp =
     (if it_notified w \<and> \<not> it_configured w then rbind (wake_up ops m w) (\<lambda>w'. Inr ((m, w'), [])) else Inr ((m, w), []))"

fun interrupter_run ::
  "'m bus_device \<Rightarrow> 'm \<times> 'l interrupter \<Rightarrow> ('l, 'c) interrupter_action list \<Rightarrow>
     (('m \<times> 'l interrupter) \<times> ('l, 'c) interrupter_out list) res" where
  "interrupter_run ops s [] = Inr (s, [])"
| "interrupter_run ops s (a # as) =
     rbind (interrupter_step ops s a) (\<lambda>(s', out).
     rbind (interrupter_run ops s' as) (\<lambda>(s'', outs). Inr (s'', out @ outs)))"

lemma interrupter_run_append:
  "interrupter_run ops s (as @ bs) =
     rbind (interrupter_run ops s as) (\<lambda>(s', out).
     rbind (interrupter_run ops s' bs) (\<lambda>(s'', outs). Inr (s'', out @ outs)))"
  by (induction as arbitrary: s) (simp_all add: case_prod_unfold rbind_assoc)

section \<open>No event is left unsignalled\<close>

text \<open>
  \<open>signalled l out\<close>: after the last event of the output there is an interrupt on the line \<open>l\<close>.
\<close>

definition signalled :: "'l \<Rightarrow> ('l, 'c) interrupter_out list \<Rightarrow> bool" where
  "signalled l out \<longleftrightarrow> (\<forall>xs e ys. out = xs @ Enqueued e # ys \<longrightarrow> Interrupt l \<in> set ys)"

lemma signalled_Nil [simp]: "signalled l []" by (simp add: signalled_def)

lemma signalled_append:
  "signalled l' out \<Longrightarrow> l' = l \<or> Interrupt l \<in> set out' \<Longrightarrow> signalled l out' \<Longrightarrow> signalled l (out @ out')"
  unfolding signalled_def by (fastforce simp: append_eq_append_conv2 append_eq_Cons_conv)

lemma signalled_no_event:
  "(\<And>e. Enqueued e \<notin> set out) \<Longrightarrow> signalled l out"
  by (auto simp: signalled_def) blast

lemma signalled_event: "signalled l [Enqueued e, Interrupt l]"
  by (auto simp: signalled_def append_eq_Cons_conv Cons_eq_append_conv)

lemma step_line:
  assumes "interrupter_step ops (m, w) a = Inr ((m', w'), out)" "\<forall>c b. a \<noteq> Message (ResetInterrupter c) b"
    "it_configured w"
  shows "it_configured w' \<and> signalled (it_line w') out \<and> (it_line w' = it_line w \<or> Interrupt (it_line w') \<in> set out)"
proof (cases a)
  case (Message msg alive)
  then show ?thesis using assms
    by (cases msg) (auto simp: signalled_event signalled_no_event)
qed (use assms in \<open>auto simp: write_erstba_def wake_up_def split: if_splits\<close>)

lemma run_line:
  assumes "interrupter_run ops (m, w) as = Inr ((m', w'), out)"
    "\<forall>c b. Message (ResetInterrupter c) b \<notin> set as" "it_configured w"
  shows "it_configured w' \<and> signalled (it_line w') out \<and> (it_line w' = it_line w \<or> Interrupt (it_line w') \<in> set out)"
  using assms
proof (induction as arbitrary: m w out)
  case (Cons a as)
  obtain m1 w1 o1 o2 where s: "interrupter_step ops (m, w) a = Inr ((m1, w1), o1)"
    "interrupter_run ops (m1, w1) as = Inr ((m', w'), o2)" "out = o1 @ o2"
    using Cons.prems(1) by auto
  have 1: "it_configured w1 \<and> signalled (it_line w1) o1 \<and> (it_line w1 = it_line w \<or> Interrupt (it_line w1) \<in> set o1)"
    using step_line [OF s(1)] Cons.prems(2,3) by fastforce
  have 2: "it_configured w' \<and> signalled (it_line w') o2 \<and> (it_line w' = it_line w1 \<or> Interrupt (it_line w') \<in> set o2)"
    using Cons.IH [OF s(2)] Cons.prems(2) 1 by simp
  show ?case
    using 1 2 signalled_append [of "it_line w1" o1 "it_line w'" o2] s(3) by auto
qed simp

text \<open>
  C20: No event is stranded by a hand-over of the interrupt line. While the ring is configured and no reset
  comes in between, whatever sequence of events, interrupt lines and register writes the worker processes,
  each event it writes to the ring is followed by an interrupt on the line that is installed at the end: a
  client that takes the line over is always told about older events. (Events that arrive while the ring is
  not configured are dropped.)
\<close>

theorem events_reach_current_line:
  assumes "interrupter_run ops (m, w) as = Inr ((m', w'), out)"
    "\<forall>c b. Message (ResetInterrupter c) b \<notin> set as" "it_configured w" "out = xs @ Enqueued e # ys"
  shows "Interrupt (it_line w') \<in> set ys"
  using run_line [OF assms(1-3)] assms(4) by (auto simp: signalled_def)

theorem events_reach_current_line_witness:
  "\<exists>m' w'. interrupter_run dma_bus_ops (single_segment erst_example,
      (interrupter_new (5 :: nat))\<lparr>it_ring := event_ring_example, it_configured := True, it_erstsz := 2, it_erdp := 0x40\<rparr>)
      [Message (SendEvent (PortStatusChange 1)) True, Message (UpdateInterruptLine 7) True] =
    Inr ((m', w'), [Enqueued (PortStatusChange 1), Interrupt 5, Interrupt 7 :: (nat, nat) interrupter_out]) \<and>
    it_line w' = 7 \<and> Interrupt (it_line w') \<in> set [Interrupt 5, Interrupt 7 :: (nat, nat) interrupter_out]"
proof -
  let ?w = "(interrupter_new 5)\<lparr>it_ring := event_ring_example, it_configured := True, it_erstsz := 2, it_erdp := 0x40\<rparr>"
  let ?m = "single_segment erst_example"
  have n: "(of_nat (length segs_example) :: u32) = 2" by (simp add: segs_example_def)
  have s: "slots segs_example ! 1 = 0x60" "next_pos segs_example 0 = 1"
    by (simp_all add: slots_example next_pos_def)
  obtain m' r' where e: "enqueue dma_bus_ops ?m event_ring_example (PortStatusChange 1) 0 2 0x40 = Inr (m', r')"
    using guest.enqueue_step [OF erst_example_facts(1,2) _ erst_example_facts(4,7), of "0x40" "PortStatusChange 1"]
      dma_bus_limit [OF erst_example_facts(1)] erst_example_facts(3) unfolding s n by auto
  let ?as = "[Message (SendEvent (PortStatusChange 1)) True, Message (UpdateInterruptLine 7) True]
    :: (nat, nat) interrupter_action list"
  have r: "interrupter_run dma_bus_ops (?m, ?w) ?as =
      Inr ((m', ?w\<lparr>it_ring := r', it_line := 7\<rparr>), [] @ Enqueued (PortStatusChange 1) # [Interrupt 5, Interrupt 7])"
    using e by (simp add: interrupter_new_def erstba_masked_def)
  have "Interrupt (it_line (?w\<lparr>it_ring := r', it_line := 7\<rparr>)) \<in> set [Interrupt 5, Interrupt 7 :: (nat, nat) interrupter_out]"
    by (rule events_reach_current_line [OF r _ _ refl]) (simp_all add: interrupter_new_def)
  moreover have "it_line (?w\<lparr>it_ring := r', it_line := 7\<rparr>) = 7" by simp
  ultimately show ?thesis using r [unfolded append_Nil] by (intro exI conjI)
qed

section \<open>Two hazards of the registers\<close>

lemma aligned_slot: "\<forall>a \<in> set (slots segs). a AND 0xf = 0 \<Longrightarrow> wf_segments l segs \<Longrightarrow> d AND 0xf \<noteq> 0 \<Longrightarrow>
    d \<noteq> slots segs ! next_pos segs p"
  using slots_nonempty [of l segs] by (auto simp: next_pos_def)

text \<open>
  C31: The ring-full check compares the raw ERDP register. When the guest writes ERDP with any of its
  four flag bits set (drivers set the event handler busy bit on every update), the check never
  fires on a ring of aligned slots: the worker writes the event at its position, even into the slot
  before the guest's dequeue position, where the ring is full.
\<close>

theorem erdp_flags_defeat_full_check:
  assumes "dyn_ok m" "erst_at (in_one_segment m) (dyn_byte m) (erstba_masked (it_erstba w)) segs"
    "wf_segments dma_limit segs" "table_apart (erstba_masked (it_erstba w)) segs"
    "at_position segs (it_ring w) p" "it_configured w" "ucast (it_erstsz w) = (of_nat (length segs) :: u32)"
    "\<forall>a \<in> set (slots segs). a AND 0xf = 0" "it_erdp w AND 0xf \<noteq> 0"
  shows "\<exists>m' w'. interrupter_step dma_bus_ops (m, w) (Message (SendEvent e) alive) =
      Inr ((m', w'), [Enqueued e, Interrupt (it_line w)]) \<and>
    dyn_byte m' = patch (dyn_byte m) (dyn_writable m) (unat (slots segs ! p))
      (event_to_bytes e (er_cycle_state (it_ring w))) \<and>
    at_position segs (it_ring w') (next_pos segs p)"
proof -
  have "wf_segments (unat (dev_size dma_bus_ops m)) segs" using assms(3) dma_bus_limit [OF assms(1)] by simp
  note step = guest.enqueue_step [OF assms(1,2) this assms(4,5), of "it_erdp w" e]
  then obtain m' r' where "enqueue dma_bus_ops m (it_ring w) e (erstba_masked (it_erstba w))
      (of_nat (length segs)) (it_erdp w) = Inr (m', r')"
    "guest.enqueued m segs (erstba_masked (it_erstba w)) (it_ring w) p e m' r'"
    using aligned_slot [OF assms(8,3,9)] by auto
  then show ?thesis using assms(6,7) by (simp add: guest.enqueued_def)
qed

theorem erdp_flags_defeat_full_check_witness:
  "\<exists>m' w'. interrupter_step dma_bus_ops (single_segment erst_example,
      (interrupter_new (0 :: nat))\<lparr>it_ring := event_ring_example, it_configured := True, it_erstsz := 2, it_erdp := 0x68\<rparr>)
      (Message (SendEvent (PortStatusChange 1)) True) =
    Inr ((m', w'), [Enqueued (PortStatusChange 1), Interrupt 0 :: (nat, nat) interrupter_out]) \<and>
    slots segs_example ! next_pos segs_example 0 = 0x60"
proof -
  let ?w = "(interrupter_new (0 :: nat))\<lparr>it_ring := event_ring_example, it_configured := True, it_erstsz := 2, it_erdp := 0x68\<rparr>"
  have n: "(of_nat (length segs_example) :: u32) = 2" by (simp add: segs_example_def)
  have a: "\<forall>a \<in> set (slots segs_example). a AND 0xf = 0" by (simp add: slots_example)
  have "erstba_masked (it_erstba ?w) = 0" by (simp add: interrupter_new_def erstba_masked_def)
  moreover have "it_configured ?w" "ucast (it_erstsz ?w) = (of_nat (length segs_example) :: u32)"
    "it_erdp ?w AND 0xf \<noteq> 0" "it_ring ?w = event_ring_example" "it_line ?w = 0"
    by (simp_all add: n) (simp_all add: interrupter_new_def)
  moreover have "slots segs_example ! next_pos segs_example 0 = 0x60" by (simp add: slots_example next_pos_def)
  ultimately show ?thesis
    using erdp_flags_defeat_full_check [of "single_segment erst_example" ?w segs_example 0 "PortStatusChange 1" True,
        OF erst_example_facts(1) _ _ _ _ _ _ a] erst_example_facts(2-7)
      dma_bus_limit [OF erst_example_facts(1)]
    by fastforce
qed

lemma unconfigured_events_dropped:
  "\<not> it_configured w \<Longrightarrow> \<not> it_notified w \<Longrightarrow>
     interrupter_run ops (m, w) (map (\<lambda>e. Message (SendEvent e) True) es) = Inr ((m, w), [])"
  by (induction es) (cases w; simp)+

text \<open>
  A lost configuration. The notification of an ERSTBA write is lost when a message is ready at
  the same time and the worker takes that one first: the registers then hold the new segment table,
  but the ring stays unconfigured, and every later event is dropped without an interrupt.
\<close>

theorem erstba_wakeup_lost:
  "interrupter_run ops (m, interrupter_new l)
     ([WriteErstsz sz, WriteErstba base True, Message (SendEvent e) True, WakeUp] @
      map (\<lambda>e. Message (SendEvent e) True) es) =
   Inr ((m, (interrupter_new l)\<lparr>it_erstsz := sz, it_erstba := base\<rparr>), [])"
  by (simp add: interrupter_new_def write_erstba_def unconfigured_events_dropped)

end
