(* ===== verification/Controller.thy ===== *)
theory Controller
  imports Interrupter PciConfig Port CommandRing
begin

text \<open>
  The xHCI controller as the guest sees it (\<open>src/device/pci/xhci.rs\<close>): the configuration space and
  the MMIO registers, which read and write the registers of the components or send messages to their
  workers, and the coordinator of host controller resets (\<open>src/device/xhci/controller_reset.rs\<close>).
  The channels to the interrupter and to the slot worker are lists; the flags say whether their workers
  still run. \<open>'l\<close> is the type of interrupt lines, \<open>'c\<close> that of reply channels and \<open>'e\<close> that of endpoint
  senders.
\<close>

section \<open>The controller\<close>

record ('l, 'i, 't, 'c, 'e) xhci_controller =
  xc_config_space :: config_space
  xc_interrupter :: "'l interrupter"
  xc_events :: "('l, 'c) interrupter_msg list"
  xc_ports :: "('i, 't) port_worker"
  xc_portpmsc :: "u32 list"
  xc_command :: "'c command_worker"
  xc_slots :: "'e slot_worker"
  xc_slot_msgs :: "'c slot_msg list"
  xc_usbcmd :: u32
  xc_reset_notified :: bool
  xc_interrupter_up :: bool
  xc_command_up :: bool
  xc_slots_up :: bool

text \<open>\<open>dummy\<close> is the interrupt line that does nothing.\<close>

definition controller_new :: "'l \<Rightarrow> ('l, 'i, 't, 'c, 'e) xhci_controller res" where
  "controller_new dummy =
     rbind port_worker_new (\<lambda>ports.
     rbind build_config_space (\<lambda>cs.
     Inr \<lparr>xc_config_space = cs, xc_interrupter = interrupter_new dummy, xc_events = [], xc_ports = ports,
       xc_portpmsc = replicate MAX_PORTS 0, xc_command = command_ring_new, xc_slots = slot_worker_new,
       xc_slot_msgs = [], xc_usbcmd = 0, xc_reset_notified = False, xc_interrupter_up = True,
       xc_command_up = True, xc_slots_up = True\<rparr>))"

definition connect_irq :: "('l, 'i, 't, 'c, 'e) xhci_controller \<Rightarrow> 'l \<Rightarrow> ('l, 'i, 't, 'c, 'e) xhci_controller res" where
  "connect_irq x irq =
     rbind (require (xc_interrupter_up x) UnwrapFailed) (\<lambda>_.
     Inr (x\<lparr>xc_events := xc_events x @ [UpdateInterruptLine irq]\<rparr>))"

definition write_cfg ::
  "('l, 'i, 't, 'c, 'e) xhci_controller \<Rightarrow> request \<Rightarrow> u64 \<Rightarrow> ('l, 'i, 't, 'c, 'e) xhci_controller res" where
  "write_cfg x req v = rbind (cs_write (xc_config_space x) req v) (\<lambda>cs. Inr (x\<lparr>xc_config_space := cs\<rparr>))"

definition read_cfg :: "('l, 'i, 't, 'c, 'e) xhci_controller \<Rightarrow> request \<Rightarrow> u64 res" where
  "read_cfg x req = cs_read (xc_config_space x) req"

definition controller_bar :: "('l, 'i, 't, 'c, 'e) xhci_controller \<Rightarrow> u8 \<Rightarrow> bar_info option" where
  "controller_bar x bar_no = cs_bar (xc_config_space x) bar_no"

section \<open>Register offsets\<close>

abbreviation (input) "OP_BASE \<equiv> 0x40 :: u64"
abbreviation (input) "RUN_BASE \<equiv> 0x3000 :: u64"
abbreviation (input) "OFFSET_USBCMD \<equiv> 0x40 :: u64"
abbreviation (input) "OFFSET_USBSTS \<equiv> 0x44 :: u64"
abbreviation (input) "OFFSET_PAGESIZE \<equiv> 0x48 :: u64"
abbreviation (input) "OFFSET_DNCTL \<equiv> 0x54 :: u64"
abbreviation (input) "OFFSET_CRCR \<equiv> 0x58 :: u64"
abbreviation (input) "OFFSET_CRCR_HI \<equiv> 0x5c :: u64"
abbreviation (input) "OFFSET_DCBAAP \<equiv> 0x70 :: u64"
abbreviation (input) "OFFSET_DCBAAP_HI \<equiv> 0x74 :: u64"
abbreviation (input) "OFFSET_CONFIG \<equiv> 0x78 :: u64"
abbreviation (input) "OFFSET_MFINDEX \<equiv> 0x3000 :: u64"
abbreviation (input) "OFFSET_IMAN \<equiv> 0x3020 :: u64"
abbreviation (input) "OFFSET_IMOD \<equiv> 0x3024 :: u64"
abbreviation (input) "OFFSET_ERSTSZ \<equiv> 0x3028 :: u64"
abbreviation (input) "OFFSET_ERSTBA \<equiv> 0x3030 :: u64"
abbreviation (input) "OFFSET_ERSTBA_HI \<equiv> 0x3034 :: u64"
abbreviation (input) "OFFSET_ERDP \<equiv> 0x3038 :: u64"
abbreviation (input) "OFFSET_ERDP_HI \<equiv> 0x303c :: u64"

definition DOORBELL_CONTROLLER :: u64 where "DOORBELL_CONTROLLER = 0x2000"
definition DOORBELL_DEVICE :: u64 where "DOORBELL_DEVICE = 0x2004"
definition DOORBELL_DEVICE_END :: u64 where "DOORBELL_DEVICE_END = DOORBELL_DEVICE + of_nat MAX_SLOTS * 4"

definition SUPPORTED_PROTOCOLS :: u64 where "SUPPORTED_PROTOCOLS = 0x20"
definition SUPPORTED_PROTOCOLS_USB2 :: u64 where "SUPPORTED_PROTOCOLS_USB2 = 0x30"
definition HCIVERSION :: u64 where "HCIVERSION = 0x100"
definition HCSPARAMS1 :: u64 where
  "HCSPARAMS1 = push_bit 24 (of_nat MAX_PORTS) OR push_bit 8 1 OR of_nat MAX_SLOTS"
definition HCSPARAMS2 :: u64 where "HCSPARAMS2 = push_bit 4 15"
definition HCCPARAMS1 :: u64 where "HCCPARAMS1 = push_bit 14 SUPPORTED_PROTOCOLS"
definition USB_STRING :: u64 where "USB_STRING = 0x20425355"
definition PROTOCOLS_CAP_INFO :: u64 where
  "PROTOCOLS_CAP_INFO = 2 OR push_bit 24 3 OR push_bit 16 0x20 OR
     push_bit 8 (drop_bit 2 (SUPPORTED_PROTOCOLS_USB2 - SUPPORTED_PROTOCOLS))"
definition PROTOCOLS_CONFIG :: u64 where "PROTOCOLS_CONFIG = 1 OR push_bit 8 (of_nat NUM_USB3_PORTS)"
definition PROTOCOLS_USB2_CAP_INFO :: u64 where "PROTOCOLS_USB2_CAP_INFO = 2 OR push_bit 24 2"
definition PROTOCOLS_USB2_CONFIG :: u64 where
  "PROTOCOLS_USB2_CONFIG = (of_nat NUM_USB3_PORTS + 1) OR push_bit 8 (of_nat (MAX_PORTS - NUM_USB3_PORTS))"

section \<open>MMIO\<close>

text \<open>
  A write to the MMIO region. \<open>coordinator\<close> and \<open>unconfigured\<close> say whether the reset coordinator and the
  interrupter are waiting for a notification at this moment.
\<close>

definition write_io ::
  "bool \<Rightarrow> bool \<Rightarrow> ('l, 'i, 't, 'c, 'e) xhci_controller \<Rightarrow> u32 \<Rightarrow> request \<Rightarrow> u64 \<Rightarrow>
     ('l, 'i, 't, 'c, 'e) xhci_controller res" where
  "write_io coordinator unconfigured x region req v =
     rbind (require (region = 0) AssertFailed) (\<lambda>_.
     let a = req_addr req;
         it = xc_interrupter x;
         zero = rbind (require (v = 0) AssertFailed) (\<lambda>_. Inr x) in
     if a = OFFSET_USBCMD then
       rbind (usbcmd_write (xc_usbcmd x) v) (\<lambda>(u, notify).
       Inr (x\<lparr>xc_usbcmd := u, xc_reset_notified := xc_reset_notified x \<or> (notify \<and> coordinator)\<rparr>))
     else if a = OFFSET_DNCTL then rbind (require (v = 2) AssertFailed) (\<lambda>_. Inr x)
     else if a = OFFSET_CRCR then
       rbind (require (xc_command_up x \<or> cw_queue (command_control (xc_command x) v) = cw_queue (xc_command x)) UnwrapFailed) (\<lambda>_.
       Inr (x\<lparr>xc_command := command_control (xc_command x) v\<rparr>))
     else if a = OFFSET_CRCR_HI then zero
     else if a = OFFSET_DCBAAP then Inr (x\<lparr>xc_slots := (xc_slots x)\<lparr>sw_dcbaap := dcbaap_write v\<rparr>\<rparr>)
     else if a = OFFSET_DCBAAP_HI then zero
     else if a = OFFSET_CONFIG then
       rbind (config_write (ucast v)) (\<lambda>c. Inr (x\<lparr>xc_slots := (xc_slots x)\<lparr>sw_config := c\<rparr>\<rparr>))
     else if a = OFFSET_USBSTS then Inr x
     else if a = OFFSET_IMAN then Inr (x\<lparr>xc_interrupter := it\<lparr>it_iman := v\<rparr>\<rparr>)
     else if a = OFFSET_IMOD then Inr (x\<lparr>xc_interrupter := it\<lparr>it_imod := v\<rparr>\<rparr>)
     else if a = OFFSET_ERSTSZ then Inr (x\<lparr>xc_interrupter := it\<lparr>it_erstsz := v\<rparr>\<rparr>)
     else if a = OFFSET_ERSTBA then Inr (x\<lparr>xc_interrupter := write_erstba v unconfigured it\<rparr>)
     else if a = OFFSET_ERSTBA_HI then zero
     else if a = OFFSET_ERDP then Inr (x\<lparr>xc_interrupter := it\<lparr>it_erdp := v\<rparr>\<rparr>)
     else if a = OFFSET_ERDP_HI then zero
     else if a = DOORBELL_CONTROLLER then
       rbind (require (xc_command_up x) UnwrapFailed) (\<lambda>_. Inr (x\<lparr>xc_command := command_doorbell (xc_command x)\<rparr>))
     else if DOORBELL_DEVICE \<le> a \<and> a < DOORBELL_DEVICE_END then
       rbind (require (xc_slots_up x) UnwrapFailed) (\<lambda>_.
       Inr (x\<lparr>xc_slot_msgs := xc_slot_msgs x @ [SlotDoorbell (ucast ((a - DOORBELL_CONTROLLER) div 4)) (ucast v)]\<rparr>))
     else case get_portsc_id a of
       Some port_id \<Rightarrow>
         rbind (one_index (pw_portsc (xc_ports x)) port_id) (\<lambda>r.
         case portsc_write r v of (r, ev) \<Rightarrow>
         rbind (one_put (pw_portsc (xc_ports x)) port_id r) (\<lambda>ps.
         rbind (require (ev = None \<or> xc_interrupter_up x) UnwrapFailed) (\<lambda>_.
         Inr (x\<lparr>xc_ports := (xc_ports x)\<lparr>pw_portsc := ps\<rparr>,
                xc_events := xc_events x @ (case ev of None \<Rightarrow> [] | Some e \<Rightarrow> [SendEvent e])\<rparr>))))
     | None \<Rightarrow>
         (case get_portpmsc_id a of
            Some port_id \<Rightarrow>
              rbind (one_put (xc_portpmsc x) port_id (ucast v)) (\<lambda>ps. Inr (x\<lparr>xc_portpmsc := ps\<rparr>))
          | None \<Rightarrow> Inl NotImplemented))"

definition read_io :: "('l, 'i, 't, 'c, 'e) xhci_controller \<Rightarrow> u32 \<Rightarrow> request \<Rightarrow> u64 res" where
  "read_io x region req =
     rbind (require (region = 0) AssertFailed) (\<lambda>_.
     let a = req_addr req; it = xc_interrupter x in
     if a = 0x0 then Inr OP_BASE
     else if a = 0x2 then Inr HCIVERSION
     else if a = 0x4 then Inr HCSPARAMS1
     else if a = 0x8 then Inr HCSPARAMS2
     else if a = 0xc then Inr 0
     else if a = 0x10 then Inr HCCPARAMS1
     else if a = 0x14 then Inr DOORBELL_CONTROLLER
     else if a = 0x18 then Inr RUN_BASE
     else if a = 0x1c then Inr 0
     else if a = SUPPORTED_PROTOCOLS then Inr PROTOCOLS_CAP_INFO
     else if a = 0x24 then Inr USB_STRING
     else if a = 0x28 then Inr PROTOCOLS_CONFIG
     else if a = 0x2c then Inr 0
     else if a = SUPPORTED_PROTOCOLS_USB2 then Inr PROTOCOLS_USB2_CAP_INFO
     else if a = 0x34 then Inr USB_STRING
     else if a = 0x38 then Inr PROTOCOLS_USB2_CONFIG
     else if a = 0x3c then Inr 0
     else if a = OFFSET_USBCMD then Inr (ucast (xc_usbcmd x))
     else if a = OFFSET_USBSTS then Inr (usbsts_read (xc_usbcmd x))
     else if a = OFFSET_DNCTL then Inr 2
     else if a = OFFSET_CRCR then Inr (command_status (xc_command x))
     else if a = OFFSET_CRCR_HI then Inr 0
     else if a = OFFSET_DCBAAP then Inr (sw_dcbaap (xc_slots x))
     else if a = OFFSET_DCBAAP_HI then Inr 0
     else if a = OFFSET_PAGESIZE then Inr 1
     else if a = OFFSET_CONFIG then Inr (ucast (sw_config (xc_slots x)))
     else if a = OFFSET_IMAN then Inr (it_iman it)
     else if a = OFFSET_IMOD then Inr (it_imod it)
     else if a = OFFSET_ERSTSZ then Inr (it_erstsz it)
     else if a = OFFSET_ERSTBA then Inr (it_erstba it)
     else if a = OFFSET_ERSTBA_HI then Inr 0
     else if a = OFFSET_ERDP then Inr (it_erdp it)
     else if a = OFFSET_ERDP_HI then Inr 0
     else if a = DOORBELL_CONTROLLER then Inr 0
     else if DOORBELL_DEVICE \<le> a \<and> a < DOORBELL_DEVICE_END then Inr 0
     else if a = OFFSET_MFINDEX then Inr 0
     else case get_portsc_id a of
       Some port_id \<Rightarrow> rbind (one_index (pw_portsc (xc_ports x)) port_id) (\<lambda>r. Inr (ps_value r))
     | None \<Rightarrow>
         (case get_portpmsc_id a of
            Some port_id \<Rightarrow> rbind (one_index (xc_portpmsc x) port_id) (\<lambda>v. Inr (ucast v))
          | None \<Rightarrow> (case get_portli_id a of Some _ \<Rightarrow> Inr 0 | None \<Rightarrow> Inl NotImplemented)))"

section \<open>Host controller reset\<close>

text \<open>
  A reset sender asks its component and waits for the acknowledgement; \<open>False\<close> when the component is gone
  or drops the request. The coordinator takes the components in order and stops at the first failure.
\<close>

type_synonym 'x reset_sender = "'x \<Rightarrow> 'x \<times> bool"

fun reset_components :: "'x reset_sender list \<Rightarrow> 'x \<Rightarrow> 'x \<times> bool" where
  "reset_components [] x = (x, True)"
| "reset_components (r # rs) x = (case r x of (x, ok) \<Rightarrow> if ok then reset_components rs x else (x, False))"

definition coordinator_reset :: "'x reset_sender list \<Rightarrow> 'x \<Rightarrow> u32 \<Rightarrow> 'x \<times> u32" where
  "coordinator_reset rs x usbcmd =
     (case reset_components rs x of (x, ok) \<Rightarrow> (x, if ok then clear_hcrst usbcmd else usbcmd))"

text \<open>One notification.\<close>

definition coordinator_turn :: "'x reset_sender list \<Rightarrow> 'x \<Rightarrow> u32 \<Rightarrow> 'x \<times> u32" where
  "coordinator_turn rs x usbcmd =
     (if ucast usbcmd AND usbcmd_HCRST = 0 then (x, usbcmd) else coordinator_reset rs x usbcmd)"

section \<open>The reset senders of the controller\<close>

text \<open>
  The three components in the order of \<open>XhciController::new\<close>. Sending fails when the worker has ended; the
  worker then takes its messages in order, up to \<open>n\<close> turns for the command ring. The slot worker clears its
  two registers before it terminates the endpoints, and ends when one of them does not answer.
\<close>

definition reset_command_ring ::
  "('w, 'e, 'c) slot_env \<Rightarrow> 'w slot_handle \<Rightarrow> nat \<Rightarrow> 'c \<Rightarrow> ('w \<times> ('l, 'i, 't, 'c, 'e) xhci_controller) reset_sender" where
  "reset_command_ring env ask n c = (\<lambda>(w, x).
     if \<not> xc_command_up x then ((w, x), False)
     else case command_turns (env_dma env) ask (xc_usbcmd x) n (w, command_send_reset (xc_command x) c) of
       Inr ((w, cw), out) \<Rightarrow> ((w, x\<lparr>xc_command := cw\<rparr>), RingReset c \<in> set out)
     | Inl _ \<Rightarrow> ((w, x\<lparr>xc_command_up := False\<rparr>), False))"

definition reset_interrupter ::
  "('w, 'e, 'c) slot_env \<Rightarrow> 'c \<Rightarrow> ('w \<times> ('l, 'i, 't, 'c, 'e) xhci_controller) reset_sender" where
  "reset_interrupter env c = (\<lambda>(w, x).
     if \<not> xc_interrupter_up x then ((w, x), False)
     else case interrupter_run (env_dma env) (w, xc_interrupter x)
              (map (\<lambda>msg. Message msg True) (xc_events x @ [ResetInterrupter c])) of
       Inr ((w, it), out) \<Rightarrow> ((w, x\<lparr>xc_interrupter := it, xc_events := []\<rparr>), Interrupter.ResetDone c \<in> set out)
     | Inl _ \<Rightarrow> ((w, x\<lparr>xc_interrupter_up := False\<rparr>), False))"

definition reset_slot_manager ::
  "('w, 'e, 'c) slot_env \<Rightarrow> 'c \<Rightarrow> ('w \<times> ('l, 'i, 't, 'c, 'e) xhci_controller) reset_sender" where
  "reset_slot_manager env c = (\<lambda>(w, x).
     if \<not> xc_slots_up x then ((w, x), False)
     else case slot_run env w (xc_slots x) (map (\<lambda>msg. SlotMsg msg True) (xc_slot_msgs x)) of
       Inl _ \<Rightarrow> ((w, x\<lparr>xc_slots_up := False\<rparr>), False)
     | Inr (w, s, _) \<Rightarrow>
         (case slot_step env True w s (ResetAllSlots c) of
            Inr (w, s, out) \<Rightarrow> ((w, x\<lparr>xc_slots := s, xc_slot_msgs := []\<rparr>), Slots.ResetDone c \<in> set out)
          | Inl _ \<Rightarrow>
              ((fst (drop_all env w (sw_slots s)),
                x\<lparr>xc_slots := s\<lparr>sw_config := 0, sw_dcbaap := 0\<rparr>, xc_slot_msgs := [], xc_slots_up := False\<rparr>), False)))"

definition controller_reset ::
  "('w, 'e, 'c) slot_env \<Rightarrow> 'w slot_handle \<Rightarrow> nat \<Rightarrow> 'c \<Rightarrow> 'w \<Rightarrow> ('l, 'i, 't, 'c, 'e) xhci_controller \<Rightarrow>
     'w \<times> ('l, 'i, 't, 'c, 'e) xhci_controller" where
  "controller_reset env ask n c w x =
     (case coordinator_turn [reset_command_ring env ask n c, reset_interrupter env c, reset_slot_manager env c]
             (w, x) (xc_usbcmd x) of
        ((w, x), u) \<Rightarrow> (w, x\<lparr>xc_usbcmd := u\<rparr>))"

end
