(* ===== verification/ControllerSpec.thy ===== *)
theory ControllerSpec
  imports Controller SlotWorld
begin

text \<open>
  What a guest can do to the controller through its registers, what the capability registers promise, and
  what a host controller reset does to the command ring, the interrupter and the slots.
\<close>

section \<open>Register accesses\<close>

definition workers_up :: "('l, 'i, 't, 'c, 'e) xhci_controller \<Rightarrow> bool" where
  "workers_up x \<longleftrightarrow> xc_interrupter_up x \<and> xc_command_up x \<and> xc_slots_up x \<and>
     length (pw_portsc (xc_ports x)) = MAX_PORTS \<and> length (xc_portpmsc x) = MAX_PORTS"

lemma port_id_range:
  assumes "get_port_id_from_addr a offset_PORTSC (of_nat MAX_PORTS) off = Some i"
  shows "1 \<le> i \<and> i \<le> MAX_PORTS"
proof -
  have r: "0x440 \<le> a" "a < 0x4c0" and i: "i = unat ((a - 0x440) div 0x10) + 1"
    using assms by (auto simp: get_port_id_from_addr_def MAX_PORTS_def PORT_STRIDE_def offset_PORTSC_def split: if_splits)
  have "unat (a - 0x440) = unat a - 0x440" using r(1) by (simp add: unat_sub_le)
  moreover have "unat a < 0x4c0" using r(2) by (simp add: word_less_nat_alt)
  ultimately have "unat (a - 0x440) div 16 < 8" by simp
  then show ?thesis using i by (simp add: MAX_PORTS_def unat_div)
qed

lemma usbcmd_write_total: "\<exists>u' n. usbcmd_write u v = Inr (u', n)"
  using usbcmd_write_bits by blast

lemma one_in_range: "length xs = MAX_PORTS \<Longrightarrow> 1 \<le> i \<Longrightarrow> i \<le> MAX_PORTS \<Longrightarrow> \<exists>y. one_index xs i = Inr y"
  "length xs = MAX_PORTS \<Longrightarrow> 1 \<le> i \<Longrightarrow> i \<le> MAX_PORTS \<Longrightarrow> \<exists>ys. one_put xs i x = Inr ys"
  by (simp_all add: one_index_def one_put_def below_def MAX_PORTS_def)

text \<open>The registers a guest may write, with the values they take.\<close>

definition write_accepted :: "u64 \<Rightarrow> u64 \<Rightarrow> bool" where
  "write_accepted a v \<longleftrightarrow>
     a \<in> {OFFSET_USBCMD, OFFSET_USBSTS, OFFSET_CRCR, OFFSET_DCBAAP, OFFSET_IMAN, OFFSET_IMOD, OFFSET_ERSTSZ, OFFSET_ERSTBA,
       OFFSET_ERDP, DOORBELL_CONTROLLER} \<or>
     a = OFFSET_DNCTL \<and> v = 2 \<or>
     a \<in> {OFFSET_CRCR_HI, OFFSET_DCBAAP_HI, OFFSET_ERSTBA_HI, OFFSET_ERDP_HI} \<and> v = 0 \<or>
     a = OFFSET_CONFIG \<and> unat (v AND 0xff) \<le> MAX_SLOTS \<or>
     DOORBELL_DEVICE \<le> a \<and> a < DOORBELL_DEVICE_END \<or>
     get_portsc_id a \<noteq> None \<or> get_portpmsc_id a \<noteq> None"

lemma config_write_iff: "is_ok (config_write (ucast (v :: u64))) \<longleftrightarrow> unat (v AND 0xff) \<le> MAX_SLOTS"
proof -
  have "(ucast ((ucast v :: u32) AND 0xff) :: u8) = ucast (v AND 0xff)" by (rule bit_word_eqI) (auto simp: bit_simps)
  moreover have "unat (ucast (v AND 0xff) :: u8) = unat (v AND 0xff)"
  proof -
    have "v AND 0xff = take_bit 8 v" by (simp add: take_bit_eq_mask mask_eq_exp_minus_1)
    then have "unat (v AND 0xff) < 256" by (simp add: take_bit_eq_mod unat_mod)
    then show ?thesis by (simp add: unsigned_ucast_eq take_bit_eq_mod)
  qed
  ultimately show ?thesis by (simp add: config_write_def require_def)
qed

lemma is_ok_bind:
  "is_ok (rbind (require b e) f) \<longleftrightarrow> b \<and> is_ok (f ())"
  "is_ok (rbind (config_write w) (\<lambda>c. Inr (g c))) \<longleftrightarrow> is_ok (config_write w)"
  by (cases b; simp) (cases "config_write w"; simp)

text \<open>The registers outside the port register sets.\<close>

lemma write_plain:
  assumes none: "get_portsc_id a = None" "get_portpmsc_id a = None" and up: "workers_up x"
  shows "is_ok (write_io co un x 0 (request_new a sz) v) \<longleftrightarrow> write_accepted a v"
proof -
  obtain u n where u: "usbcmd_write (xc_usbcmd x) v = Inr (u, n)" using usbcmd_write_total by blast
  show ?thesis
    unfolding write_io_def write_accepted_def Let_def if_distrib [of is_ok] none
    using u up none by (simp add: request_new_def workers_up_def is_ok_bind config_write_iff DOORBELL_CONTROLLER_def
        DOORBELL_DEVICE_def DOORBELL_DEVICE_END_def cong: if_cong) (simp_all add: MAX_SLOTS_def)
qed

lemma write_plain_up:
  assumes none: "get_portsc_id a = None" "get_portpmsc_id a = None" and up: "workers_up x"
  shows "\<forall>x'. write_io co un x 0 (request_new a sz) v = Inr x' \<longrightarrow> workers_up x'"
  using up none
  by (simp add: write_io_def Let_def request_new_def workers_up_def split: if_splits prod.splits) fastforce

lemma write_io_outcome:
  assumes "workers_up x"
  shows "(is_ok (write_io co un x 0 (request_new a sz) v) \<longleftrightarrow> write_accepted a v) \<and>
    (\<forall>x'. write_io co un x 0 (request_new a sz) v = Inr x' \<longrightarrow> workers_up x')"
proof -
  have up: "xc_interrupter_up x" "xc_command_up x" "xc_slots_up x" "length (pw_portsc (xc_ports x)) = MAX_PORTS"
    "length (xc_portpmsc x) = MAX_PORTS" using assms by (simp_all add: workers_up_def)
  obtain u n where u: "usbcmd_write (xc_usbcmd x) v = Inr (u, n)" using usbcmd_write_total by blast
  have c: "(\<exists>c. config_write (ucast v) = Inr c) \<longleftrightarrow> unat (v AND 0xff) \<le> MAX_SLOTS"
    using config_write_iff [of v] by (cases "config_write (ucast v)") auto
  have portsc: "\<exists>r. one_index (pw_portsc (xc_ports x)) i = Inr r" "\<exists>ps. one_put (pw_portsc (xc_ports x)) i r = Inr ps \<and> length ps = MAX_PORTS"
    if "get_portsc_id a = Some i" for i r
    using port_id_range [of a 0 i] that up(4) by (auto simp: get_portsc_id_def one_index_def one_put_def below_def MAX_PORTS_def)
  have pmsc: "\<exists>ps. one_put (xc_portpmsc x) i r = Inr ps \<and> length ps = MAX_PORTS"
    if "get_portpmsc_id a = Some i" for i r
    using port_id_range [of a 4 i] that up(5) by (auto simp: get_portpmsc_id_def one_index_def one_put_def below_def MAX_PORTS_def)
  have port: "is_ok r \<and> (\<forall>x'. r = Inr x' \<longrightarrow> workers_up x')"
    if g: "get_portsc_id a = Some i" and r: "r = rbind (one_index (pw_portsc (xc_ports x)) i) (\<lambda>p.
         case portsc_write p v of (p, ev) \<Rightarrow>
         rbind (one_put (pw_portsc (xc_ports x)) i p) (\<lambda>ps.
         rbind (require (ev = None \<or> xc_interrupter_up x) UnwrapFailed) (\<lambda>_.
         Inr (x\<lparr>xc_ports := (xc_ports x)\<lparr>pw_portsc := ps\<rparr>,
                xc_events := xc_events x @ (case ev of None \<Rightarrow> [] | Some e \<Rightarrow> [SendEvent e])\<rparr>))))" for i r
  proof -
    obtain p where p: "one_index (pw_portsc (xc_ports x)) i = Inr p" using portsc(1) [OF g] by blast
    obtain p' ev where w: "portsc_write p v = (p', ev)" by force
    obtain ps where "one_put (pw_portsc (xc_ports x)) i p' = Inr ps" "length ps = MAX_PORTS" using portsc(2) [OF g] by blast
    then show ?thesis using p w up unfolding r by (simp add: workers_up_def)
  qed
  show ?thesis
  proof (cases "0x440 \<le> a \<and> a < 0x4c0")
    case True
    then have ne: "a \<noteq> 0x40" "a \<noteq> 0x44" "a \<noteq> 0x54" "a \<noteq> 0x58" "a \<noteq> 0x5c" "a \<noteq> 0x70" "a \<noteq> 0x74" "a \<noteq> 0x78" "a \<noteq> 0x2000"
      "a \<noteq> 0x3020" "a \<noteq> 0x3024" "a \<noteq> 0x3028" "a \<noteq> 0x3030" "a \<noteq> 0x3034" "a \<noteq> 0x3038" "a \<noteq> 0x303c" "\<not> 0x2004 \<le> a"
      by (auto simp: not_le intro: order_less_trans)
    show ?thesis
    proof (cases "get_portsc_id a")
      case (Some i)
      then show ?thesis using port [OF Some refl] ne
        by (simp add: write_io_def request_new_def DOORBELL_CONTROLLER_def DOORBELL_DEVICE_def write_accepted_def)
    next
      case None
      show ?thesis
      proof (cases "get_portpmsc_id a")
        case (Some j)
        obtain ps where "one_put (xc_portpmsc x) j (ucast v) = Inr ps" "length ps = MAX_PORTS" using pmsc [OF Some] by blast
        then show ?thesis using ne up None Some
          by (simp add: write_io_def request_new_def DOORBELL_CONTROLLER_def DOORBELL_DEVICE_def write_accepted_def workers_up_def)
      qed (use ne None in \<open>simp add: write_io_def request_new_def DOORBELL_CONTROLLER_def DOORBELL_DEVICE_def write_accepted_def\<close>)
    qed
  next
    case False
    then have none: "get_portsc_id a = None" "get_portpmsc_id a = None"
      by (auto simp: get_portsc_id_def get_portpmsc_id_def get_port_id_from_addr_def offset_PORTSC_def MAX_PORTS_def PORT_STRIDE_def)
    show ?thesis using write_plain [OF none assms] write_plain_up [OF none assms] by blast
  qed
qed

lemma controller_new_up:
  obtains x :: "('l, 'i, 't, 'c, 'e) xhci_controller" where "controller_new dummy = Inr x" "workers_up x"
    "xc_slots x = slot_worker_new" "xc_command x = command_ring_new" "xc_events x = []" "xc_slot_msgs x = []"
    "xc_interrupter x = interrupter_new dummy" "xc_usbcmd x = 0"
proof -
  obtain ps :: "('i, 't) port_worker" where ps: "port_worker_new = Inr ps" "port_ok ps" using port_worker_new_ok by blast
  obtain cs where cs: "build_config_space = Inr cs" using build_config_space_ok by blast
  have "\<exists>x :: ('l, 'i, 't, 'c, 'e) xhci_controller. controller_new dummy = Inr x \<and> workers_up x \<and>
      xc_slots x = slot_worker_new \<and> xc_command x = command_ring_new \<and> xc_events x = [] \<and> xc_slot_msgs x = [] \<and>
      xc_interrupter x = interrupter_new dummy \<and> xc_usbcmd x = 0"
    unfolding controller_new_def ps(1) cs using ps(2) by (simp add: workers_up_def port_ok_def shape_ok_def)
  then show ?thesis using that by blast
qed

section \<open>What the driver discovers\<close>

text \<open>
  The specification's list of extended capabilities, as a driver walks it: major revision, first port and
  number of ports of every supported protocol.
\<close>

fun protocol_caps :: "(u64 \<Rightarrow> u64 res) \<Rightarrow> nat \<Rightarrow> u64 \<Rightarrow> (u64 \<times> nat \<times> nat) list res" where
  "protocol_caps rd 0 a = Inr []"
| "protocol_caps rd (Suc n) a =
     rbind (rd a) (\<lambda>info.
     rbind (rd (a + 8)) (\<lambda>ports.
     rbind (if drop_bit 8 info AND 0xff = 0 then Inr [] else protocol_caps rd n (a + 4 * (drop_bit 8 info AND 0xff))) (\<lambda>caps.
     Inr ((drop_bit 24 info, unat (ports AND 0xff), unat (drop_bit 8 ports AND 0xff)) # caps))))"

definition read_reg :: "('l, 'i, 't, 'c, 'e) xhci_controller \<Rightarrow> u64 \<Rightarrow> u64 res" where
  "read_reg x a = read_io x 0 (request_new a Size4)"

definition major_of :: "usb_version \<Rightarrow> u64" where
  "major_of v = (case v of USB3 \<Rightarrow> 3 | USB2 \<Rightarrow> 2)"

definition covering :: "(u64 \<times> nat \<times> nat) list \<Rightarrow> nat \<Rightarrow> u64 list" where
  "covering caps i = map fst (filter (\<lambda>(v, first, n). first \<le> i \<and> i < first + n) caps)"

lemma capability_registers:
  "read_reg x 0x4 = Inr 0x8000108" "read_reg x 0x10 = Inr 0x80000" "read_reg x 0x14 = Inr 0x2000"
  "read_reg x 0x20 = Inr 0x3200402" "read_reg x 0x28 = Inr 0x401" "read_reg x 0x30 = Inr 0x2000002" "read_reg x 0x38 = Inr 0x405"
  unfolding read_reg_def read_io_def Let_def by (simp_all add: request_new_def HCSPARAMS1_def HCCPARAMS1_def
      DOORBELL_CONTROLLER_def SUPPORTED_PROTOCOLS_def SUPPORTED_PROTOCOLS_USB2_def PROTOCOLS_CAP_INFO_def
      PROTOCOLS_CONFIG_def PROTOCOLS_USB2_CAP_INFO_def PROTOCOLS_USB2_CONFIG_def MAX_PORTS_def MAX_SLOTS_def NUM_USB3_PORTS_def)

lemma discovered_caps:
  "protocol_caps (read_reg x) 256 (4 * drop_bit 16 0x80000) = Inr [(3, 1, 4), (2, 5, 4)]"
proof -
  have "protocol_caps (read_reg x) (Suc (Suc n)) (4 * drop_bit 16 0x80000) = Inr [(3, 1, 4), (2, 5, 4)]" for n
    by (simp add: capability_registers)
  from this [of 254] show ?thesis by simp
qed

lemma doorbell_address:
  assumes "k \<in> {1..MAX_SLOTS}"
  shows "DOORBELL_DEVICE \<le> 0x2000 + 4 * of_nat k \<and> 0x2000 + 4 * of_nat k < DOORBELL_DEVICE_END \<and>
    (0x2000 + 4 * of_nat k - DOORBELL_CONTROLLER) div 4 = of_nat k"
proof -
  have "k \<in> set [1..<MAX_SLOTS + 1]" using assms by auto
  then consider "k = 1" | "k = 2" | "k = 3" | "k = 4" | "k = 5" | "k = 6" | "k = 7" | "k = 8"
    by (force simp: MAX_SLOTS_def upt_rec)
  then show ?thesis by cases (simp_all add: DOORBELL_DEVICE_def DOORBELL_DEVICE_END_def DOORBELL_CONTROLLER_def MAX_SLOTS_def)
qed

lemma write_doorbell:
  assumes "DOORBELL_DEVICE \<le> a" "a < DOORBELL_DEVICE_END"
  shows "write_io co un x 0 (request_new a sz) v =
    rbind (require (xc_slots_up x) UnwrapFailed) (\<lambda>_.
    Inr (x\<lparr>xc_slot_msgs := xc_slot_msgs x @ [SlotDoorbell (ucast ((a - DOORBELL_CONTROLLER) div 4)) (ucast v)]\<rparr>))"
proof -
  have "0x2004 \<le> a" "a < 0x2024" using assms by (simp_all add: DOORBELL_DEVICE_def DOORBELL_DEVICE_END_def MAX_SLOTS_def)
  then have "a \<notin> {0x40, 0x44, 0x54, 0x58, 0x5c, 0x70, 0x74, 0x78, 0x2000, 0x3020, 0x3024, 0x3028, 0x3030, 0x3034, 0x3038, 0x303c}"
    by (auto simp: not_le)
  then show ?thesis using assms by (simp add: write_io_def request_new_def DOORBELL_CONTROLLER_def)
qed

text \<open>
  C32: The capability registers describe the controller. The driver reads the number of ports and slots,
  finds for every port exactly one supported protocol, of the version the port really has, and a doorbell
  write at the advertised offset of a slot reaches the slot worker with this slot number and target.
\<close>

theorem capabilities_match:
  assumes "xc_slots_up x"
  shows "\<exists>p c db caps. read_reg x 0x4 = Inr p \<and> read_reg x 0x10 = Inr c \<and> read_reg x 0x14 = Inr db \<and>
    protocol_caps (read_reg x) 256 (4 * drop_bit 16 c) = Inr caps \<and>
    unat (drop_bit 24 p) = MAX_PORTS \<and> unat (p AND 0xff) = MAX_SLOTS \<and>
    (\<forall>i \<in> {1..MAX_PORTS}. \<exists>v. port_version (of_nat i) = Inr v \<and> covering caps i = [major_of v]) \<and>
    (\<forall>k \<in> {1..MAX_SLOTS}. write_io co un x 0 (request_new (db + 4 * of_nat k) sz) (ucast (t :: u8)) =
       Inr (x\<lparr>xc_slot_msgs := xc_slot_msgs x @ [SlotDoorbell (of_nat k) t]\<rparr>))"
proof (intro exI conjI)
  show "read_reg x 0x4 = Inr 0x8000108" "read_reg x 0x10 = Inr 0x80000" "read_reg x 0x14 = Inr 0x2000"
    by (rule capability_registers)+
  show "protocol_caps (read_reg x) 256 (4 * drop_bit 16 0x80000) = Inr [(3, 1, 4), (2, 5, 4)]" by (rule discovered_caps)
  show "unat (drop_bit 24 (0x8000108 :: u64)) = MAX_PORTS" "unat ((0x8000108 :: u64) AND 0xff) = MAX_SLOTS"
    by (simp_all add: MAX_PORTS_def MAX_SLOTS_def)
  have "list_all (\<lambda>i. \<exists>v. port_version (of_nat i) = Inr v \<and> covering [(3, 1, 4), (2, 5, 4)] i = [major_of v]) [1..<MAX_PORTS + 1]"
    by (simp add: MAX_PORTS_def NUM_USB3_PORTS_def upt_rec port_version_def covering_def major_of_def)
  then show "\<forall>i \<in> {1..MAX_PORTS}. \<exists>v. port_version (of_nat i) = Inr v \<and> covering [(3, 1, 4), (2, 5, 4)] i = [major_of v]"
    unfolding list_all_iff by auto
  have b: "ucast (of_nat k :: u64) = (of_nat k :: u8)" for k by (rule bit_word_eqI) (simp add: bit_simps)
  show "\<forall>k \<in> {1..MAX_SLOTS}. write_io co un x 0 (request_new (0x2000 + 4 * of_nat k) sz) (ucast t) =
       Inr (x\<lparr>xc_slot_msgs := xc_slot_msgs x @ [SlotDoorbell (of_nat k) t]\<rparr>)"
  proof
    fix k
    assume "k \<in> {1..MAX_SLOTS}"
    then have d: "DOORBELL_DEVICE \<le> 0x2000 + 4 * of_nat k" "0x2000 + 4 * of_nat k < DOORBELL_DEVICE_END"
      "(0x2000 + 4 * of_nat k - DOORBELL_CONTROLLER) div 4 = of_nat k" using doorbell_address by blast+
    show "write_io co un x 0 (request_new (0x2000 + 4 * of_nat k) sz) (ucast t) =
       Inr (x\<lparr>xc_slot_msgs := xc_slot_msgs x @ [SlotDoorbell (of_nat k) t]\<rparr>)"
      using assms unfolding write_doorbell [OF d(1,2)] d(3) b by simp
  qed
qed

theorem capabilities_match_witness:
  "\<exists>(x :: (nat, nat, nat, nat, nat) xhci_controller) caps. controller_new 0 = Inr x \<and>
     protocol_caps (read_reg x) 256 0x20 = Inr caps \<and> covering caps 4 = [3] \<and> covering caps 5 = [2] \<and>
     write_io False False x 0 (request_new 0x2020 Size4) 3 = Inr (x\<lparr>xc_slot_msgs := [SlotDoorbell 8 3]\<rparr>)"
proof -
  obtain x :: "(nat, nat, nat, nat, nat) xhci_controller" where x: "controller_new 0 = Inr x" "workers_up x" "xc_slot_msgs x = []"
    using controller_new_up by metis
  then have "xc_slots_up x" by (simp add: workers_up_def)
  from capabilities_match [OF this, of False False Size4 3] obtain c db caps where
    c: "read_reg x 0x10 = Inr c" "read_reg x 0x14 = Inr db" "protocol_caps (read_reg x) 256 (4 * drop_bit 16 c) = Inr caps"
    "\<forall>i \<in> {1..MAX_PORTS}. \<exists>v. port_version (of_nat i) = Inr v \<and> covering caps i = [major_of v]"
    "\<forall>k \<in> {1..MAX_SLOTS}. write_io False False x 0 (request_new (db + 4 * of_nat k) Size4) (ucast (3 :: u8)) =
       Inr (x\<lparr>xc_slot_msgs := xc_slot_msgs x @ [SlotDoorbell (of_nat k) 3]\<rparr>)" by blast
  have "c = 0x80000" "db = 0x2000" using c(1,2) by (simp_all add: capability_registers)
  moreover have "covering caps 4 = [3]" "covering caps 5 = [2]"
    using c(4) [THEN bspec, of 4] c(4) [THEN bspec, of 5]
    by (auto simp: MAX_PORTS_def NUM_USB3_PORTS_def port_version_def major_of_def)
  ultimately show ?thesis using c(3) c(5) [THEN bspec, of 8] x(1,3)
    by (intro exI [of _ x] exI [of _ caps]) (simp add: MAX_SLOTS_def)
qed

end
