(* ===== verification/ControllerReset.thy ===== *)
theory ControllerReset
  imports ControllerSpec
begin

text \<open>
  Host controller resets with the real components: the coordinator of \<open>controller_reset.rs\<close> over the command
  ring, the interrupter, the slot worker and the endpoint workers.
\<close>

section \<open>The components\<close>

lemma command_turns_asleep:
  "cw_state w = RingStopped \<Longrightarrow> cw_queue w = [] \<Longrightarrow> command_turns ops ask u n (s, w) = Inr ((s, w), [])"
  by (induction n) (simp_all add: command_turn_def)

lemma command_reset_served:
  assumes "cw_state w \<in> {RingStopped, RingIdle}" "cw_queue w = []" "0 < n"
  shows "command_turns ops ask u n (s, command_send_reset w c) =
    Inr ((s, w\<lparr>cw_running := False, cw_state := RingStopped\<rparr>), [RingReset c])"
proof -
  obtain k where n: "n = Suc k" using assms(3) by (cases n) auto
  have "command_turn ops ask True u (s, command_send_reset w c) =
      Inr ((s, w\<lparr>cw_running := False, cw_state := RingStopped\<rparr>), [RingReset c])"
    using assms(1,2) by (auto simp: command_turn_def command_send_reset_def send_to_worker_def)
  then show ?thesis using assms(2) unfolding n by (simp add: command_turns_asleep)
qed

lemma interrupter_reset_served:
  "interrupter_run ops (m, it) [Message (ResetInterrupter c) True] =
     Inr ((m, (interrupter_reset it)\<lparr>it_configured := False, it_notified := it_configured it \<and> it_notified it\<rparr>), [Interrupter.ResetDone c])"
  by (cases "it_configured it") (simp_all add: interrupter_reset_def)

text \<open>What a reset leaves of the command ring and of the interrupter.\<close>

definition half_reset :: "('l, 'i, 't, 'c, 'e) xhci_controller \<Rightarrow> ('l, 'i, 't, 'c, 'e) xhci_controller" where
  "half_reset x = (let it = xc_interrupter x in
     x\<lparr>xc_command := (xc_command x)\<lparr>cw_running := False, cw_state := RingStopped\<rparr>,
       xc_interrupter := (interrupter_reset it)\<lparr>it_configured := False, it_notified := it_configured it \<and> it_notified it\<rparr>\<rparr>)"

text \<open>The guest asked for a reset and nothing is on its way to the components.\<close>

definition reset_requested :: "('l, 'i, 't, 'c, 'e) xhci_controller \<Rightarrow> bool" where
  "reset_requested x \<longleftrightarrow> ucast (xc_usbcmd x) AND usbcmd_HCRST \<noteq> 0 \<and>
     xc_command_up x \<and> xc_interrupter_up x \<and> xc_slots_up x \<and>
     cw_state (xc_command x) \<in> {RingStopped, RingIdle} \<and> cw_queue (xc_command x) = [] \<and>
     xc_events x = [] \<and> xc_slot_msgs x = []"

lemma coordinator_reaches_slots:
  assumes "reset_requested x" "0 < n"
  shows "controller_reset env ask n c w x =
    (case reset_slot_manager env c (w, half_reset x) of
       ((w, x'), ok) \<Rightarrow> (w, x'\<lparr>xc_usbcmd := if ok then clear_hcrst (xc_usbcmd x) else xc_usbcmd x\<rparr>))"
proof -
  have r: "ucast (xc_usbcmd x) AND usbcmd_HCRST \<noteq> 0" "xc_command_up x" "xc_interrupter_up x" "xc_slots_up x"
    "cw_state (xc_command x) \<in> {RingStopped, RingIdle}" "cw_queue (xc_command x) = []" "xc_events x = []"
    using assms(1) by (simp_all add: reset_requested_def)
  note c = command_reset_served [OF r(5,6) assms(2)]
  have e: "map (\<lambda>msg. Message msg True) (xc_events x @ [ResetInterrupter c]) = [Message (ResetInterrupter c) True]"
    using r(7) by simp
  have "reset_command_ring env ask n c (w, x) =
      ((w, x\<lparr>xc_command := (xc_command x)\<lparr>cw_running := False, cw_state := RingStopped\<rparr>\<rparr>), True)"
    using r(2) by (simp add: reset_command_ring_def c)
  moreover have "reset_interrupter env c (w, x\<lparr>xc_command := (xc_command x)\<lparr>cw_running := False, cw_state := RingStopped\<rparr>\<rparr>) =
      ((w, half_reset x), True)"
    using r(3,7) unfolding reset_interrupter_def
    by (simp add: interrupter_reset_served half_reset_def Let_def del: interrupter_run.simps)
  ultimately show ?thesis using r(1)
    by (simp add: controller_reset_def coordinator_turn_def coordinator_reset_def split: prod.splits)
qed

section \<open>Resets\<close>


text \<open>A controller that was asked to reset, with the sample slot.\<close>

lemma reset_sample:
  obtains x :: "(nat, nat, nat, nat, nat) xhci_controller" where "reset_requested x" "xc_slots x = sample_slots"
    "xc_usbcmd x = 3" "cw_state (xc_command x) = RingStopped"
proof -
  obtain x :: "(nat, nat, nat, nat, nat) xhci_controller" where x: "workers_up x" "xc_command x = command_ring_new"
    "xc_events x = []" "xc_slot_msgs x = []" using controller_new_up by metis
  show ?thesis
    by (rule that [of "x\<lparr>xc_usbcmd := 3, xc_slots := sample_slots\<rparr>"])
      (use x in \<open>simp_all add: reset_requested_def workers_up_def command_ring_new_def\<close>)
qed

lemma sample_member: "Some sl \<in> set (sw_slots sample_slots) \<longleftrightarrow>
    sl = \<lparr>sl_id = 1, sl_state = SlotDefault 0x8000, sl_dcbaae = 8, sl_endpoints = Some 0 # replicate 30 None\<rparr>"
  by (auto simp: sample_slots_def)


text \<open>
  C30: One busy endpoint defeats a reset. With an endpoint in the Error state or with a TRB at its device,
  the command ring and the interrupter are reset but HCRST stays set, because the slot worker ends without
  an answer; the next doorbell write for any slot then panics the client thread, and every later reset
  fails as well.
\<close>

theorem busy_endpoint_defeats_reset:
  assumes "reset_requested x" "0 < n" "Some sl \<in> set (sw_slots (xc_slots x))" "e \<in> slot_senders sl" "world_busy w e"
  shows "\<exists>w' x'. controller_reset (world_env ops locked device detached) ask n c w x = (w', x') \<and>
    xc_usbcmd x' = xc_usbcmd x \<and> cw_state (xc_command x') = RingStopped \<and> \<not> it_configured (xc_interrupter x') \<and>
    (\<forall>co un a sz v. DOORBELL_DEVICE \<le> a \<longrightarrow> a < DOORBELL_DEVICE_END \<longrightarrow>
       write_io co un x' 0 (request_new a sz) v = Inl UnwrapFailed) \<and>
    (\<forall>w'' c'. xc_usbcmd (snd (controller_reset (world_env ops locked device detached) ask n c' w'' x')) = xc_usbcmd x)"
proof -
  let ?env = "world_env ops locked device detached"
  let ?x' = "(half_reset x)\<lparr>xc_slots := (xc_slots x)\<lparr>sw_config := 0, sw_dcbaap := 0\<rparr>, xc_slots_up := False\<rparr>"
  obtain w' ok where d: "drop_all ?env w (sw_slots (xc_slots x)) = (w', ok)" by force
  have "\<not> ok" using drop_all_busy [OF assms(5) d assms(3,4)] .
  then have "reset_slot_manager ?env c (w, half_reset x) = ((w', ?x'), False)"
    using assms(1) d by (simp add: reset_slot_manager_def half_reset_def Let_def reset_requested_def reset_slots_def)
  then have r: "controller_reset ?env ask n c w x = (w', ?x')"
    by (simp add: coordinator_reaches_slots [OF assms(1,2)] half_reset_def Let_def)
  have again: "xc_usbcmd (snd (controller_reset ?env ask n c' w'' ?x')) = xc_usbcmd x" for w'' c'
    by (simp add: controller_reset_def coordinator_turn_def coordinator_reset_def reset_command_ring_def
        reset_interrupter_def reset_slot_manager_def half_reset_def Let_def split: prod.splits sum.splits)
  show ?thesis
    by (intro exI [of _ w'] exI [of _ ?x'] conjI r again allI impI)
      (simp_all add: half_reset_def Let_def write_doorbell)
qed

theorem busy_endpoint_defeats_reset_witness:
  "\<exists>(x :: (nat, nat, nat, nat, nat) xhci_controller) w' x'. xc_slots x = sample_slots \<and>
     controller_reset (world_env recorder_ops False (\<lambda>_. None :: (nat, nat) complete_device option) False)
       (\<lambda>s m. (s, None)) 1 7 (sample_world ErrorState) x = (w', x') \<and>
     xc_usbcmd x' = 3 \<and> write_io False False x' 0 (request_new 0x2004 Size4) 1 = Inl UnwrapFailed"
proof -
  obtain x :: "(nat, nat, nat, nat, nat) xhci_controller" where x: "reset_requested x" "xc_slots x = sample_slots"
    "xc_usbcmd x = 3" using reset_sample by metis
  have m: "\<exists>sl. Some sl \<in> set (sw_slots (xc_slots x)) \<and> 0 \<in> slot_senders sl"
    unfolding x(2) sample_member using sample_senders by auto
  then obtain sl where m: "Some sl \<in> set (sw_slots (xc_slots x))" "0 \<in> slot_senders sl" by blast
  have b: "world_busy (sample_world ErrorState) 0" by (simp add: world_busy_def)
  note t = busy_endpoint_defeats_reset [OF x(1) zero_less_one m b, of recorder_ops False
      "\<lambda>_. None :: (nat, nat) complete_device option" False "\<lambda>s m. (s, None)" 7]
  have d: "DOORBELL_DEVICE \<le> 0x2004" "0x2004 < DOORBELL_DEVICE_END"
    by (simp_all add: DOORBELL_DEVICE_def DOORBELL_DEVICE_END_def MAX_SLOTS_def)
  show ?thesis using t d x(2,3) by (intro exI [of _ x]) (elim exE conjE, auto)
qed

end
