(* ===== verification/Backend.thy ===== *)
theory Backend
  imports Controller Handover DynamicBus
begin

text \<open>
  The device behind one vfio-user server (\<open>src/xhci_backend.rs\<close>): the DMA bus and the controller, as the
  operations of the \<open>ServerBackend\<close> trait that \<open>shared_backend.rs\<close> wraps. The constants are those of
  \<open>linux/vfio.h\<close>.

  An operation that panics ends the thread of its connection. The locks around the backend recover from
  poisoning, so for everybody else it is an operation that failed and left the backend; only the lock of
  the configuration space stays poisoned (\<open>bk_config_poisoned\<close>), and every later access to it panics.
\<close>

section \<open>The backend\<close>

text \<open>
  An interrupt line is an eventfd of a client, or nothing (\<open>DummyInterruptLine\<close>). The two flags say
  whether the coordinator and the interrupter are waiting for a notification at this moment.
\<close>

type_synonym 'f irq_line = "'f option"

record ('f, 'i, 't, 'c, 'e) xhci_backend =
  bk_dma_bus :: "dma_device dynamic_bus"
  bk_controller :: "('f irq_line, 'i, 't, 'c, 'e) xhci_controller"
  bk_config_poisoned :: bool
  bk_coordinator_waits :: bool
  bk_interrupter_waits :: bool

definition backend_new :: "('f, 'i, 't, 'c, 'e) xhci_backend res" where
  "backend_new =
     rbind (controller_new None) (\<lambda>c.
     Inr \<lparr>bk_dma_bus = dyn_new dma_device_ops Filler, bk_controller = c, bk_config_poisoned = False,
       bk_coordinator_waits = True, bk_interrupter_waits = True\<rparr>)"

definition PANIC :: io_error where "PANIC = ''panicked''"

definition VFIO_PCI_CONFIG_REGION_INDEX :: u32 where "VFIO_PCI_CONFIG_REGION_INDEX = 7"
definition VFIO_PCI_BAR5_REGION_INDEX :: u32 where "VFIO_PCI_BAR5_REGION_INDEX = 5"
definition VFIO_PCI_NUM_REGIONS :: nat where "VFIO_PCI_NUM_REGIONS = 9"
definition VFIO_PCI_NUM_IRQS :: nat where "VFIO_PCI_NUM_IRQS = 5"

record region_info =
  ri_index :: u32
  ri_size :: u64
  ri_read_write :: bool

definition server_region :: "('f, 'i, 't, 'c, 'e) xhci_backend \<Rightarrow> u32 \<Rightarrow> region_info" where
  "server_region b i =
     (let empty_region = \<lparr>ri_index = i, ri_size = 0, ri_read_write = False\<rparr> in
      if i = VFIO_PCI_CONFIG_REGION_INDEX then \<lparr>ri_index = i, ri_size = 256, ri_read_write = True\<rparr>
      else if i \<le> VFIO_PCI_BAR5_REGION_INDEX then
        (case controller_bar (bk_controller b) (ucast i) of
           None \<Rightarrow> empty_region
         | Some bar \<Rightarrow> \<lparr>ri_index = i, ri_size = ucast (bar_size bar), ri_read_write = True\<rparr>)
      else empty_region)"

definition backend_regions :: "('f, 'i, 't, 'c, 'e) xhci_backend \<Rightarrow> region_info list" where
  "backend_regions b = map (\<lambda>i. server_region b (of_nat i)) [0..<VFIO_PCI_NUM_REGIONS]"

text \<open>Index and count of every interrupt.\<close>

definition backend_irqs :: "(u32 \<times> u32) list" where
  "backend_irqs = map (\<lambda>i. (of_nat i, if of_nat i = VFIO_PCI_MSIX_IRQ_INDEX then 1 else 0)) [0..<VFIO_PCI_NUM_IRQS]"

section \<open>Register accesses\<close>

definition backend_region_read ::
  "('f, 'i, 't, 'c, 'e) xhci_backend \<Rightarrow> u32 \<Rightarrow> u64 \<Rightarrow> nat \<Rightarrow>
     ('f, 'i, 't, 'c, 'e) xhci_backend \<times> (io_error + u8 list)" where
  "backend_region_read b region offset n =
     (case request_size_try_from (of_nat n) of
        None \<Rightarrow> (b, Inl ''unsupported region read size'')
      | Some sz \<Rightarrow>
          let finish = (\<lambda>v. if 8 < n then Inl ''unsupported region read size'' else Inr (le_bytes n (v :: u64))) in
          if region = VFIO_PCI_CONFIG_REGION_INDEX then
            (if bk_config_poisoned b then (b, Inl PANIC)
             else case read_cfg (bk_controller b) (request_new offset sz) of
               Inl _ \<Rightarrow> (b\<lparr>bk_config_poisoned := True\<rparr>, Inl PANIC)
             | Inr v \<Rightarrow> (b, finish v))
          else if region = 0 then
            (case read_io (bk_controller b) 0 (request_new offset sz) of Inl _ \<Rightarrow> (b, Inl PANIC) | Inr v \<Rightarrow> (b, finish v))
          else (b, finish (- 1)))"

definition backend_region_write ::
  "('f, 'i, 't, 'c, 'e) xhci_backend \<Rightarrow> u32 \<Rightarrow> u64 \<Rightarrow> u8 list \<Rightarrow>
     ('f, 'i, 't, 'c, 'e) xhci_backend \<times> (io_error + unit)" where
  "backend_region_write b region offset data =
     (case request_size_try_from (of_nat (length data)) of
        None \<Rightarrow> (b, Inl ''unsupported region write size'')
      | Some sz \<Rightarrow>
          if length data \<notin> {1, 2, 4} then (b, Inl ''unsupported region write size'')
          else
            let v = of_le_bytes data :: u64; x = bk_controller b in
            if region = VFIO_PCI_CONFIG_REGION_INDEX then
              (if bk_config_poisoned b then (b, Inl PANIC)
               else case write_cfg x (request_new offset sz) v of
                 Inl _ \<Rightarrow> (b\<lparr>bk_config_poisoned := True\<rparr>, Inl PANIC)
               | Inr x \<Rightarrow> (b\<lparr>bk_controller := x\<rparr>, Inr ()))
            else if region = 0 then
              (case write_io (bk_coordinator_waits b) (bk_interrupter_waits b) x 0 (request_new offset sz) v of
                 Inl _ \<Rightarrow> (b, Inl PANIC)
               | Inr x \<Rightarrow> (b\<lparr>bk_controller := x\<rparr>, Inr ()))
            else (b, Inl ''unsupported region write''))"

section \<open>Guest memory\<close>

text \<open>\<open>mmap\<close> is what mapping a range of a file yields. The error texts leave out the address.\<close>

definition backend_dma_map ::
  "('f \<Rightarrow> u64 \<Rightarrow> u64 \<Rightarrow> io_error + u8 list) \<Rightarrow> ('f, 'i, 't, 'c, 'e) xhci_backend \<Rightarrow> bool \<times> bool \<Rightarrow> u64 \<Rightarrow> u64 \<Rightarrow> u64 \<Rightarrow>
     'f option \<Rightarrow> ('f, 'i, 't, 'c, 'e) xhci_backend \<times> (io_error + unit)" where
  "backend_dma_map mmap b flags offset address sz fd =
     (case fd of
        None \<Rightarrow> (b, Inl ''DMA region without file descriptor is not supported'')
      | Some fd \<Rightarrow>
          (case access_rights_try_from (fst flags) (snd flags) of
             None \<Rightarrow> (b, Inl ''unsupported DMA map flags'')
           | Some rights \<Rightarrow>
               (case new_from_fd (mmap fd offset sz) sz rights of
                  Inl e \<Rightarrow> (b, Inl e)
                | Inr mseg \<Rightarrow>
                    (case dyn_add dma_device_ops Filler (bk_dma_bus b) address (Segment mseg) of
                       Inl _ \<Rightarrow> (b, Inl ''failed to map DMA region'')
                     | Inr bus \<Rightarrow> (b\<lparr>bk_dma_bus := bus\<rparr>, Inr ())))))"

definition backend_dma_unmap ::
  "('f, 'i, 't, 'c, 'e) xhci_backend \<Rightarrow> u64 \<Rightarrow> u64 \<Rightarrow> ('f, 'i, 't, 'c, 'e) xhci_backend \<times> (io_error + unit)" where
  "backend_dma_unmap b address sz =
     (case dyn_remove_range dma_device_ops Filler (bk_dma_bus b) address sz of
        Inl _ \<Rightarrow> (b, Inl ''failed to unmap DMA region'')
      | Inr bus \<Rightarrow> (b\<lparr>bk_dma_bus := bus\<rparr>, Inr ()))"

section \<open>Reset and interrupts\<close>

definition backend_reset ::
  "('f, 'i, 't, 'c, 'e) xhci_backend \<Rightarrow> ('f, 'i, 't, 'c, 'e) xhci_backend \<times> (io_error + unit)" where
  "backend_reset b = (b, Inl ''device reset is not supported'')"

definition backend_set_irqs ::
  "('f, 'i, 't, 'c, 'e) xhci_backend \<Rightarrow> 'f registration \<Rightarrow> ('f, 'i, 't, 'c, 'e) xhci_backend \<times> (io_error + unit)" where
  "backend_set_irqs b reg =
     (case validate_irq_request (reg_index reg) (reg_count reg) of
        Inl e \<Rightarrow> (b, Inl e)
      | Inr _ \<Rightarrow>
          (case connect_irq (bk_controller b) (case reg_fds reg of [] \<Rightarrow> None | f # _ \<Rightarrow> Some f) of
             Inl _ \<Rightarrow> (b, Inl PANIC)
           | Inr x \<Rightarrow> (b\<lparr>bk_controller := x\<rparr>, Inr ())))"

definition xhci_backend_ops ::
  "('f \<Rightarrow> u64 \<Rightarrow> u64 \<Rightarrow> io_error + u8 list) \<Rightarrow> ('f, ('f, 'i, 't, 'c, 'e) xhci_backend) backend_ops" where
  "xhci_backend_ops mmap =
     \<lparr>be_region_read = backend_region_read, be_region_write = backend_region_write,
      be_dma_map = backend_dma_map mmap, be_dma_unmap = backend_dma_unmap, be_reset = backend_reset,
      be_set_irqs = backend_set_irqs\<rparr>"

section \<open>The workers of the backend\<close>

text \<open>
  Between two requests the interrupter takes a message or a notification, and the other workers change the
  rest of the controller and send it events and reset requests.
\<close>

inductive backend_work ::
  "('f, 'i, 't, 'c, 'e) xhci_backend \<Rightarrow> ('f, 'i, 't, 'c, 'e) xhci_backend \<Rightarrow> ('f irq_line, 'c) interrupter_out list \<Rightarrow> bool" where
  work_message:
    "xc_events (bk_controller b) = msg # rest \<Longrightarrow>
     interrupter_step dma_bus_ops (bk_dma_bus b, xc_interrupter (bk_controller b)) (Message msg alive) = Inr ((m, it), out) \<Longrightarrow>
     backend_work b (b\<lparr>bk_dma_bus := m, bk_controller := (bk_controller b)\<lparr>xc_interrupter := it, xc_events := rest\<rparr>\<rparr>) out"
| work_wake_up:
    "interrupter_step dma_bus_ops (bk_dma_bus b, xc_interrupter (bk_controller b)) WakeUp = Inr ((m, it), out) \<Longrightarrow>
     backend_work b (b\<lparr>bk_dma_bus := m, bk_controller := (bk_controller b)\<lparr>xc_interrupter := it\<rparr>\<rparr>) out"
| work_ended:
    "backend_work b (b\<lparr>bk_controller := (bk_controller b)\<lparr>xc_interrupter_up := False\<rparr>\<rparr>) []"
| work_other:
    "xc_interrupter (bk_controller b') = xc_interrupter (bk_controller b) \<Longrightarrow>
     xc_events (bk_controller b') = xc_events (bk_controller b) @ msgs \<Longrightarrow>
     (\<forall>l. UpdateInterruptLine l \<notin> set msgs) \<Longrightarrow>
     backend_work b b' []"

end
