(* ===== verification/BackendSpec.thy ===== *)
theory BackendSpec
  imports Backend ControllerSpec PciGuest HandoverTrace
begin

text \<open>
  The backend keeps the contracts of its clients: the interrupt line of the shared backend's
  \<open>irq_backend\<close> interface, the guest memory a client maps, and what a client's region accesses can do.
\<close>

section \<open>The interrupt line\<close>

text \<open>
  Open files: a descriptor refers to a description, and duplicating one yields another descriptor of the
  same description, if the process may have one more. What \<open>fstat\<close> and \<open>/proc\<close> say is arbitrary.
\<close>

datatype open_file = OpenFile (descriptor: nat) (description: nat)

definition unix_files ::
  "(open_file \<Rightarrow> nat option) \<Rightarrow> (open_file \<Rightarrow> bool) \<Rightarrow> (open_file \<Rightarrow> string option) \<Rightarrow> open_file os_files" where
  "unix_files dup stat info =
     \<lparr>try_clone = (\<lambda>f. case dup f of None \<Rightarrow> Inl ''Too many open files'' | Some n \<Rightarrow> Inr (OpenFile n (description f))),
      metadata_ok = stat, fdinfo = info\<rparr>"

text \<open>The line the interrupter will have when it has taken all its messages.\<close>

fun pending_line :: "'l \<Rightarrow> ('l, 'c) interrupter_msg list \<Rightarrow> 'l" where
  "pending_line l [] = l"
| "pending_line l (UpdateInterruptLine l' # msgs) = pending_line l' msgs"
| "pending_line l (_ # msgs) = pending_line l msgs"

definition backend_line :: "('f, 'i, 't, 'c, 'e) xhci_backend \<Rightarrow> 'f irq_line" where
  "backend_line b = pending_line (it_line (xc_interrupter (bk_controller b))) (xc_events (bk_controller b))"

lemma pending_line_append: "pending_line l (xs @ ys) = pending_line (pending_line l xs) ys"
  by (induction l xs rule: pending_line.induct) simp_all

lemma pending_line_same: "\<forall>l'. UpdateInterruptLine l' \<notin> set msgs \<Longrightarrow> pending_line l msgs = l"
  by (induction l msgs rule: pending_line.induct) auto

lemma pending_line_event: "pending_line l (case ev of None \<Rightarrow> [] | Some e \<Rightarrow> [SendEvent e]) = l"
  by (cases ev) simp_all

lemma write_io_line:
  "write_io co un x region req v = Inr x' \<Longrightarrow>
     pending_line (it_line (xc_interrupter x')) (xc_events x') = pending_line (it_line (xc_interrupter x)) (xc_events x)"
  by (cases "get_portsc_id (req_addr req)"; cases "get_portpmsc_id (req_addr req)")
    (auto simp: write_io_def Let_def write_erstba_def pending_line_append pending_line_event case_prod_unfold
      split: if_split_asm)

lemma backend_is_irq_backend:
  fixes mmap :: "open_file \<Rightarrow> u64 \<Rightarrow> u64 \<Rightarrow> io_error + u8 list"
  shows "irq_backend (unix_files dup stat info)
    (xhci_backend_ops mmap :: (open_file, (open_file, 'i, 't, 'c, 'e) xhci_backend) backend_ops) backend_line description"
proof unfold_locales
  fix b b' :: "(open_file, 'i, 't, 'c, 'e) xhci_backend" and rg off n r
  assume "be_region_read (xhci_backend_ops mmap) b rg off n = (b', r)"
  then show "backend_line b' = backend_line b"
    by (auto simp: xhci_backend_ops_def backend_region_read_def backend_line_def Let_def
        split: if_splits option.splits sum.splits)
next
  fix b b' :: "(open_file, 'i, 't, 'c, 'e) xhci_backend" and rg off bs r
  assume "be_region_write (xhci_backend_ops mmap) b rg off bs = (b', r)"
  then show "backend_line b' = backend_line b"
    by (auto simp: xhci_backend_ops_def backend_region_write_def backend_line_def Let_def write_cfg_def write_io_line
        split: if_splits option.splits sum.splits)
qed (auto simp: unix_files_def xhci_backend_ops_def backend_set_irqs_def connect_irq_def backend_line_def
    backend_dma_map_def backend_dma_unmap_def backend_reset_def pending_line_append
    split: option.splits sum.splits list.splits)

interpretation irq: irq_backend "unix_files dup stat info" "xhci_backend_ops mmap" backend_line description
  by (rule backend_is_irq_backend)

section \<open>The shared device\<close>

text \<open>Requests of the connections and the controllers, interleaved with the work of the backend.\<close>

inductive device_reach ::
  "'f os_files \<Rightarrow> ('f \<Rightarrow> u64 \<Rightarrow> u64 \<Rightarrow> io_error + u8 list) \<Rightarrow> ('f, 'i, 't, 'c, 'e) xhci_backend \<Rightarrow>
     ('f, ('f, 'i, 't, 'c, 'e) xhci_backend) shared \<Rightarrow> bool"
  for os mmap b0 where
  device_start: "device_reach os mmap b0 (handover_init b0)"
| device_request: "device_reach os mmap b0 st \<Longrightarrow> ho_step os (xhci_backend_ops mmap) st st' \<Longrightarrow> device_reach os mmap b0 st'"
| device_work: "device_reach os mmap b0 st \<Longrightarrow> backend_work (sh_backend st) b' out \<Longrightarrow>
    device_reach os mmap b0 (st\<lparr>sh_backend := b'\<rparr>)"

lemma wait_message_line:
  "wait_message it msg alive = Inr (it', out) \<Longrightarrow> it_line it' = pending_line (it_line it) [msg] \<and> (\<forall>l. Interrupt l \<notin> set out)"
  by (cases msg) (auto simp: interrupter_reset_def)

lemma serve_message_line:
  "serve_message ops m it msg alive = Inr (m', it', out) \<Longrightarrow>
     it_line it' = pending_line (it_line it) [msg] \<and> (\<forall>l. Interrupt l \<in> set out \<longrightarrow> l = it_line it')"
  by (cases msg) (auto simp: interrupter_reset_def)

lemma message_line:
  assumes "interrupter_step ops (m, it) (Message msg alive) = Inr ((m', it'), out)"
  shows "it_line it' = pending_line (it_line it) [msg] \<and> (\<forall>l. Interrupt l \<in> set out \<longrightarrow> l = it_line it')"
  using assms wait_message_line [of it msg alive it' out] serve_message_line [of ops m it msg alive m' it' out]
  by (cases "it_configured it") auto

lemma wake_up_line:
  "interrupter_step ops (m, it) WakeUp = Inr ((m', it'), out) \<Longrightarrow> it_line it' = it_line it \<and> out = []"
  by (auto simp: wake_up_def split: if_splits)

lemma work_line:
  assumes "backend_work b b' out"
  shows "backend_line b' = backend_line b \<and> (\<forall>l. Interrupt l \<in> set out \<longrightarrow> l = it_line (xc_interrupter (bk_controller b')))"
  using assms
proof cases
  case (work_message msg rest alive m it)
  have "pending_line l (msg # rest) = pending_line (pending_line l [msg]) rest" for l
    using pending_line_append [of l "[msg]" rest] by simp
  with message_line [OF work_message(3)] work_message(1,2) show ?thesis by (auto simp: backend_line_def)
next
  case (work_wake_up m it)
  then show ?thesis using wake_up_line [OF work_wake_up(2)] by (simp add: backend_line_def)
next
  case work_ended
  then show ?thesis by (simp add: backend_line_def)
next
  case (work_other msgs)
  then show ?thesis by (simp add: backend_line_def pending_line_append pending_line_same)
qed

definition owner_description :: "open_file ownership \<Rightarrow> nat option" where
  "owner_description ow = (case owner_reg ow of Some r \<Rightarrow>
     (case reg_fds r of f # _ \<Rightarrow> Some (description f) | [] \<Rightarrow> None) | None \<Rightarrow> None)"

lemma irq_line_inv:
  "irq.line_inv st \<longleftrightarrow> (owner (sh_ownership st) \<noteq> NO_OWNER \<longrightarrow> backend_line (sh_backend st) = None \<or>
     map_option description (backend_line (sh_backend st)) = owner_description (sh_ownership st))"
  by (simp add: irq.line_inv_def irq.owner_line_def owner_description_def)

lemma device_reach_line:
  "device_reach (unix_files dup stat info) mmap b0 st \<Longrightarrow> irq.line_inv st"
proof (induction rule: device_reach.induct)
  case device_start
  show ?case by (simp add: irq_line_inv handover_init_def)
next
  case (device_request st st')
  show ?case by (rule irq.line_step [OF device_request(2,3)])
next
  case (device_work st b' out)
  then show ?case using work_line [OF device_work(2)] by (simp add: irq_line_inv)
qed

text \<open>
  C4: Interrupts go to the owner. In every reachable state of the device, under any interleaving of the
  connections, the controllers of the hand-over and the workers of the backend: while the device has an
  owner, the interrupt line in force once the interrupter has taken its messages is the eventfd the owner
  registered, or none; and an interrupt the backend raises with no registration on its way goes there and
  never to a previous owner.
\<close>

theorem interrupts_follow_owner:
  assumes "device_reach (unix_files dup stat info) mmap b0 st" "owner (sh_ownership st) \<noteq> NO_OWNER"
  shows "(backend_line (sh_backend st) = None \<or>
      map_option description (backend_line (sh_backend st)) = owner_description (sh_ownership st)) \<and>
    (\<forall>b' out l. backend_work (sh_backend st) b' out \<longrightarrow> Interrupt l \<in> set out \<longrightarrow>
       (\<forall>l'. UpdateInterruptLine l' \<notin> set (xc_events (bk_controller b'))) \<longrightarrow>
       l = None \<or> map_option description l = owner_description (sh_ownership st))"
proof -
  have b: "backend_line (sh_backend st) = None \<or>
      map_option description (backend_line (sh_backend st)) = owner_description (sh_ownership st)"
    using device_reach_line [OF assms(1)] assms(2) by (simp add: irq_line_inv)
  have "l = backend_line (sh_backend st)"
    if "backend_work (sh_backend st) b' out" "Interrupt l \<in> set out"
      "\<forall>l'. UpdateInterruptLine l' \<notin> set (xc_events (bk_controller b'))" for b' out l
    using work_line [OF that(1)] that(2) pending_line_same [OF that(3)] by (auto simp: backend_line_def)
  with b show ?thesis by blast
qed

text \<open>Connection 0 registers an eventfd with the device.\<close>

definition boot_registration :: "open_file registration" where
  "boot_registration = \<lparr>reg_index = 2, reg_flags = 0, reg_start = 0, reg_count = 1, reg_fds = [OpenFile 10 7]\<rparr>"

theorem interrupts_follow_owner_witness:
  "\<exists>(b0 :: (open_file, nat, nat, nat, nat) xhci_backend) st.
     device_reach (unix_files (\<lambda>f. Some 11) (\<lambda>_. True) (\<lambda>_. None)) (\<lambda>_ _ _. Inl ''EACCES'') b0 st \<and>
     owner (sh_ownership st) = 0 \<and> map_option description (backend_line (sh_backend st)) = Some 7"
proof -
  let ?os = "unix_files (\<lambda>f. Some 11) (\<lambda>_. True) (\<lambda>_. None)"
  let ?mmap = "\<lambda>(_ :: open_file) (_ :: u64) (_ :: u64). Inl ''EACCES'' :: io_error + u8 list"
  obtain x :: "(open_file irq_line, nat, nat, nat, nat) xhci_controller" where x: "workers_up x" "xc_events x = []"
    using controller_new_up [of None] by metis
  let ?b = "\<lparr>bk_dma_bus = dyn_new dma_device_ops Filler, bk_controller = x, bk_config_poisoned = False,
       bk_coordinator_waits = True, bk_interrupter_waits = True\<rparr>"
  let ?bops = "xhci_backend_ops ?mmap :: (open_file, (open_file, nat, nat, nat, nat) xhci_backend) backend_ops"
  let ?h = "handover_init ?b :: (open_file, (open_file, nat, nat, nat, nat) xhci_backend) shared"
  define st where "st = fst (sb_set_irqs ?os ?bops ?h (conn_example 0) boot_registration 0 0 0)"
  obtain b' where b': "be_set_irqs ?bops (sh_backend ?h) boot_registration = (b', Inr ())"
    "backend_line b' = Some (OpenFile 10 7)"
    using x by (simp add: xhci_backend_ops_def backend_set_irqs_def boot_registration_def validate_irq_request_def
        VFIO_PCI_MSIX_IRQ_INDEX_def connect_irq_def workers_up_def handover_init_def backend_line_def)
  have st: "st = ?h\<lparr>sh_backend := b', sh_ownership := (sh_ownership ?h)
      \<lparr>live := insert (conn_id (conn_example 0)) (live (sh_ownership ?h)), owner := conn_id (conn_example 0),
       owner_reg := Some (boot_registration\<lparr>reg_fds := [OpenFile 11 7]\<rparr>), epoch := Suc (epoch (sh_ownership ?h))\<rparr>\<rparr>"
    unfolding st_def
    by (rule set_irqs_claims [OF _ _ _ _ _ _ b'(1)])
      (simp_all add: conn_example_def boot_registration_def validate_irq_request_def VFIO_PCI_MSIX_IRQ_INDEX_def
        handover_init_def unix_files_def)
  have "device_reach ?os ?mmap ?b st" unfolding st_def
    by (rule device_request [OF device_start step_irqs_fst]) (simp add: conn_example_def NO_OWNER_def)
  moreover from interrupts_follow_owner [OF this] b'(2) have "map_option description (backend_line (sh_backend st)) = Some 7"
    by (simp add: st conn_example_def NO_OWNER_def owner_description_def)
  moreover have "owner (sh_ownership st) = 0" by (simp add: st conn_example_def)
  ultimately show ?thesis by blast
qed

section \<open>Guest memory\<close>

lemma add_all_fits: "add_all ops b es = Inr b' \<Longrightarrow> e \<in> set es \<Longrightarrow> seg_fits ops e"
  by (induction es arbitrary: b) (auto simp: bus_add_Inr seg_fits_def)

lemma dyn_add_fits:
  "dyn_add ops mk db a d = Inr db' \<Longrightarrow> seg_fits ops \<lparr>de_start = a, de_device = d\<rparr>"
  by (auto simp: dyn_add_def Let_def dyn_build_def intro: add_all_fits)

text \<open>
  C34: The device reads the memory a client mapped. After a successful DMA map request the DMA bus is well
  formed again, and a device access inside the mapped range returns exactly the bytes of the file range,
  whatever was mapped before; the requests are refused without a descriptor or without read permission.
\<close>

theorem mapped_memory_is_read:
  assumes "dyn_ok (bk_dma_bus b)" "mmap fd offset sz = Inr bytes" "length bytes = unat sz"
    "backend_dma_map mmap b flags offset address sz (Some fd) = (b', Inr ())" "k + n \<le> unat sz"
  shows "fst flags \<and> dyn_ok (bk_dma_bus b') \<and> bk_controller b' = bk_controller b \<and>
    dev_read_bulk dma_bus_ops (bk_dma_bus b') (address + of_nat k) n = Inr (take n (drop k bytes))"
proof -
  obtain rights where r: "access_rights_try_from (fst flags) (snd flags) = Some rights"
    using assms(4) by (auto simp: backend_dma_map_def split: option.splits)
  obtain seg where seg: "new_from_fd (mmap fd offset sz) sz rights = Inr seg" "seg_size seg = sz" "map_bytes (seg_mapping seg) = bytes"
    using assms(2) by (cases rights) (simp_all add: new_from_fd_def)
  then obtain bus where bus: "dyn_add dma_device_ops Filler (bk_dma_bus b) address (Segment seg) = Inr bus" "b' = b\<lparr>bk_dma_bus := bus\<rparr>"
    using assms(4) r by (auto simp: backend_dma_map_def split: sum.splits)
  have ok: "dma_ok (Segment seg)" using seg assms(3) by (simp add: seg_ok_def)
  note e = dyn_add_effect [OF assms(1) ok bus(1)]
  have "seg_fits dma_device_ops \<lparr>de_start = address, de_device = Segment seg\<rparr>"
    using bus(1) by (rule dyn_add_fits)
  then have fits: "unat address + unat sz < 2 ^ 64" using seg(2) by (simp add: seg_fits_def)
  have u: "unat (address + of_nat k) = unat address + k" using fits assms(5) by (simp add: unat_word_ariths unat_of_nat)
  have byte: "dyn_byte bus (unat address + i) = bytes ! i" if "i < unat sz" for i
    using e [of "unat address + i"] that seg assms(3) by (simp add: seg_covers_def seg_byte_def)
  have "dev_read_bulk dma_bus_ops bus (address + of_nat k) n = Inr (map (dyn_byte bus) [unat address + k..<unat address + k + n])"
    using dyn.read_bulk_law [of bus "address + of_nat k" n] e fits assms(5) u dma_bus_limit [of bus] by simp
  moreover have "map (dyn_byte bus) [unat address + k..<unat address + k + n] = take n (drop k bytes)"
    using assms(3,5) byte by (intro nth_equalityI) (simp_all add: add.assoc)
  moreover have "fst flags" using r by (auto simp: access_rights_try_from_def split: if_splits)
  ultimately show ?thesis using e bus(2) by simp
qed

lemma dyn_new_ok: "dyn_ok (dyn_new dma_device_ops Filler)"
proof -
  have "dyn_build dma_device_ops Filler [] = Inr (bus_new dma_device_ops Filler (- 1))" by (simp add: dyn_build_def)
  from dyn_build_Inr [OF this full_default_Filler] show ?thesis
    by (intro ok_bus_dyn) (simp_all add: dyn_new_def)
qed

theorem mapped_memory_is_read_witness:
  "\<exists>(b :: (nat, nat, nat, nat, nat) xhci_backend) b'.
     backend_dma_map (\<lambda>fd off sz. Inr [1, 2, 3, 4]) b (True, True) 0 0x1000 4 (Some 5) = (b', Inr ()) \<and>
     dev_read_bulk dma_bus_ops (bk_dma_bus b') 0x1002 2 = Inr [3, 4]"
proof -
  obtain x :: "(nat irq_line, nat, nat, nat, nat) xhci_controller" where "workers_up x" using controller_new_up [of None] by metis
  let ?b = "\<lparr>bk_dma_bus = dyn_new dma_device_ops Filler, bk_controller = x, bk_config_poisoned = False,
       bk_coordinator_waits = True, bk_interrupter_waits = True\<rparr>"
  let ?mmap = "\<lambda>(fd :: nat) (off :: u64) (sz :: u64). Inr [1, 2, 3, 4] :: io_error + u8 list"
  have "\<exists>b'. backend_dma_map ?mmap ?b (True, True) 0 0x1000 4 (Some 5) = (b', Inr ())"
    by (simp add: backend_dma_map_def access_rights_try_from_def new_from_fd_def dyn_new_def dyn_add_def dyn_build_def Let_def
        bus_add_def checked_add_def bus_size_def bus_new_def bus_new_with_default_def default_device_new_with_size_def)
  then obtain b' where b': "backend_dma_map ?mmap ?b (True, True) 0 0x1000 4 (Some 5) = (b', Inr ())" by blast
  have "dyn_ok (bk_dma_bus ?b)" using dyn_new_ok by simp
  from mapped_memory_is_read [where k = 2 and n = 2, OF this _ _ b'] b' show ?thesis by auto
qed

section \<open>What region accesses can do\<close>

text \<open>The configuration space of a controller whatever its client wrote into it.\<close>

definition config_ok :: "('l, 'i, 't, 'c, 'e) xhci_controller \<Rightarrow> bool" where
  "config_ok x \<longleftrightarrow> (\<exists>c0. build_config_space = Inr c0 \<and> cs_from c0 (xc_config_space x))"

definition write_fits :: "('f, 'i, 't, 'c, 'e) xhci_backend \<Rightarrow> u32 \<Rightarrow> u64 \<Rightarrow> u8 list \<Rightarrow> bool" where
  "write_fits b region offset data \<longleftrightarrow>
     region = VFIO_PCI_CONFIG_REGION_INDEX \<and> \<not> bk_config_poisoned b \<and> unat offset + length data \<le> 256 \<or>
     region = 0 \<and> write_accepted offset (of_le_bytes data)"

lemma write_size:
  "length data \<in> {1, 2, 4} \<Longrightarrow> \<exists>sz. request_size_try_from (of_nat (length data)) = Some sz \<and> size_bytes sz = length data"
  by (auto simp: request_size_try_from_def)

lemma write_cfg_ok:
  assumes "config_ok x" "unat offset + size_bytes sz \<le> 256"
  shows "\<exists>x'. write_cfg x (request_new offset sz) v = Inr x' \<and> config_ok x' \<and> (workers_up x \<longrightarrow> workers_up x')"
proof -
  obtain c0 where c0: "build_config_space = Inr c0" "cs_from c0 (xc_config_space x)" using assms(1) by (auto simp: config_ok_def)
  have "unat (req_addr (request_new offset sz)) + size_bytes (req_size (request_new offset sz)) \<le> 256"
    using assms(2) by (simp add: request_new_def)
  from cs_write_from [OF c0(2) this, of v] c0(1) show ?thesis
    by (auto simp: write_cfg_def config_ok_def workers_up_def)
qed

lemma write_cfg_refused:
  assumes "config_ok x" "256 < unat offset + size_bytes sz"
  shows "\<exists>e. write_cfg x (request_new offset sz) v = Inl e"
proof -
  obtain c0 where c0: "cs_from c0 (xc_config_space x)" using assms(1) by (auto simp: config_ok_def)
  have "\<not> in_range (cs_regs (xc_config_space x)) (request_new offset sz)"
    using assms(2) c0 by (simp add: in_range_def request_new_def cs_from_def)
  then have "\<not> is_ok (rs_write (cs_regs (xc_config_space x)) (request_new offset sz) v)"
    using rs_write_ok_iff [OF cs_from_wf [OF c0]] by blast
  then show ?thesis
    by (cases "rs_write (cs_regs (xc_config_space x)) (request_new offset sz) v") (simp_all add: write_cfg_def cs_write_def)
qed

lemma write_io_config: "write_io co un x region req v = Inr x' \<Longrightarrow> xc_config_space x' = xc_config_space x"
  by (cases "get_portsc_id (req_addr req)"; cases "get_portpmsc_id (req_addr req)")
    (auto simp: write_io_def Let_def case_prod_unfold split: if_split_asm)

text \<open>
  C5: What a client's write can do. While the workers run, a region write changes something exactly when
  its length is 1, 2 or 4 and it lies in the configuration space, or hits a register of BAR 0 with a value
  the register takes. Every other length and every other region is refused with an error; what remains
  panics, which ends the connection's thread. Whatever happens, the controller stays consistent, and a
  write that does not succeed leaves controller and guest memory as they were.
\<close>

theorem client_write_outcome:
  assumes "workers_up (bk_controller b)" "config_ok (bk_controller b)"
    "backend_region_write b region offset data = (b', r)"
  shows "workers_up (bk_controller b') \<and> config_ok (bk_controller b') \<and>
    (r = Inr () \<longleftrightarrow> length data \<in> {1, 2, 4} \<and> write_fits b region offset data) \<and>
    (r \<noteq> Inr () \<longrightarrow> bk_controller b' = bk_controller b \<and> bk_dma_bus b' = bk_dma_bus b) \<and>
    (r = Inl PANIC \<longleftrightarrow> length data \<in> {1, 2, 4} \<and> region \<in> {0, VFIO_PCI_CONFIG_REGION_INDEX} \<and> \<not> write_fits b region offset data)"
proof (cases "length data \<in> {1, 2, 4}")
  case False
  then have "b' = b \<and> r = Inl ''unsupported region write size''"
    using assms(3) by (auto simp: backend_region_write_def split: option.splits)
  then show ?thesis using False assms(1,2) by (simp add: PANIC_def)
next
  case True
  then obtain sz where sz: "request_size_try_from (of_nat (length data)) = Some sz" "size_bytes sz = length data"
    using write_size by blast
  let ?x = "bk_controller b" and ?v = "of_le_bytes data :: u64"
  have ne: "(0 :: u32) \<noteq> VFIO_PCI_CONFIG_REGION_INDEX" by (simp add: VFIO_PCI_CONFIG_REGION_INDEX_def)
  consider (config) "region = VFIO_PCI_CONFIG_REGION_INDEX" | (mmio) "region = 0" | (other) "region \<notin> {0, VFIO_PCI_CONFIG_REGION_INDEX}"
    by blast
  then show ?thesis
  proof cases
    case config
    show ?thesis
    proof (cases "\<not> bk_config_poisoned b \<and> unat offset + length data \<le> 256")
      case fits: True
      then obtain x' where "write_cfg ?x (request_new offset sz) ?v = Inr x'" "config_ok x'" "workers_up x'"
        using write_cfg_ok [OF assms(2), of offset sz ?v] sz(2) assms(1) by auto
      then show ?thesis using assms(3) True sz(1) config fits
        by (auto simp: backend_region_write_def write_fits_def)
    next
      case nofit: False
      have "\<exists>p. b' = b\<lparr>bk_config_poisoned := p\<rparr> \<and> r = Inl PANIC"
      proof (cases "bk_config_poisoned b")
        case False
        then obtain e where "write_cfg ?x (request_new offset sz) ?v = Inl e"
          using write_cfg_refused [OF assms(2), of offset sz ?v] nofit sz(2) by auto
        then show ?thesis using assms(3) True sz(1) config False by (auto simp: backend_region_write_def)
      qed (use assms(3) True sz(1) config in \<open>auto simp: backend_region_write_def intro: exI [of _ True]\<close>)
      then show ?thesis using assms(1,2) True config nofit ne by (auto simp: write_fits_def)
    qed
  next
    case mmio
    note w = write_io_outcome [OF assms(1), of "bk_coordinator_waits b" "bk_interrupter_waits b" offset sz ?v]
    show ?thesis
    proof (cases "write_io (bk_coordinator_waits b) (bk_interrupter_waits b) ?x 0 (request_new offset sz) ?v")
      case (Inl e)
      then show ?thesis using assms True sz(1) mmio ne w by (auto simp: backend_region_write_def write_fits_def)
    next
      case (Inr x')
      then have "config_ok x'" using assms(2) write_io_config [OF Inr] by (simp add: config_ok_def)
      then show ?thesis using assms(3) True sz(1) mmio ne w Inr
        by (auto simp: backend_region_write_def write_fits_def PANIC_def)
    qed
  next
    case other
    then have "b' = b \<and> r = Inl ''unsupported region write''"
      using assms(3) True sz(1) by (auto simp: backend_region_write_def Let_def)
    then show ?thesis using assms(1,2) other True by (simp add: PANIC_def write_fits_def)
  qed
qed

theorem client_write_outcome_witness:
  "\<exists>b :: (nat, nat, nat, nat, nat) xhci_backend.
     snd (backend_region_write b 0 0x78 [8]) = Inr () \<and> snd (backend_region_write b 0 0x78 [9]) = Inl PANIC \<and>
     snd (backend_region_write b 7 4 [6, 1]) = Inr () \<and> snd (backend_region_write b 3 0 [1, 0, 0, 0]) \<notin> {Inr (), Inl PANIC}"
proof -
  obtain ps :: "(nat, nat) port_worker" where ps: "port_worker_new = Inr ps" "port_ok ps" using port_worker_new_ok by blast
  obtain c0 where c0: "build_config_space = Inr c0" "cs_from c0 c0" using xhci_config_space .
  have config_ok_c0: "xc_config_space y = c0 \<Longrightarrow> config_ok y" for y :: "(nat irq_line, nat, nat, nat, nat) xhci_controller"
    using c0 unfolding config_ok_def by blast
  have "\<exists>x :: (nat irq_line, nat, nat, nat, nat) xhci_controller. workers_up x \<and> config_ok x"
    using ps(2) by (intro exI [of _ "\<lparr>xc_config_space = c0, xc_interrupter = interrupter_new None, xc_events = [], xc_ports = ps,
       xc_portpmsc = replicate MAX_PORTS 0, xc_command = command_ring_new, xc_slots = slot_worker_new,
       xc_slot_msgs = [], xc_usbcmd = 0, xc_reset_notified = False, xc_interrupter_up = True,
       xc_command_up = True, xc_slots_up = True\<rparr>"])
      (simp add: workers_up_def config_ok_c0 port_ok_def shape_ok_def)
  then obtain x :: "(nat irq_line, nat, nat, nat, nat) xhci_controller" where x: "workers_up x" "config_ok x" by blast
  let ?b = "\<lparr>bk_dma_bus = dyn_new dma_device_ops Filler, bk_controller = x, bk_config_poisoned = False,
       bk_coordinator_waits = True, bk_interrupter_waits = True\<rparr>"
  have t: "(snd (backend_region_write ?b region offset data) = Inr () \<longleftrightarrow> length data \<in> {1, 2, 4} \<and> write_fits ?b region offset data) \<and>
    (snd (backend_region_write ?b region offset data) = Inl PANIC \<longleftrightarrow>
       length data \<in> {1, 2, 4} \<and> region \<in> {0, VFIO_PCI_CONFIG_REGION_INDEX} \<and> \<not> write_fits ?b region offset data)"
    for region offset data
    using client_write_outcome [of ?b region offset data "fst (backend_region_write ?b region offset data)"
        "snd (backend_region_write ?b region offset data)"] x by simp
  have "write_accepted 0x78 (of_le_bytes [8])" "\<not> write_accepted 0x78 (of_le_bytes [9])" by code_simp+
  then have "write_fits ?b 0 0x78 [8]" "\<not> write_fits ?b 0 0x78 [9]" "write_fits ?b 7 4 [6, 1]" "\<not> write_fits ?b 3 0 [1, 0, 0, 0]"
    by (simp_all only: write_fits_def) (simp_all add: VFIO_PCI_CONFIG_REGION_INDEX_def)
  then show ?thesis using t [of 0 "0x78" "[8]"] t [of 0 "0x78" "[9]"] t [of 7 4 "[6, 1]"] t [of 3 0 "[1, 0, 0, 0]"]
    by (intro exI [of _ ?b]) (simp add: VFIO_PCI_CONFIG_REGION_INDEX_def)
qed

end
