(* ===== verification/HotplugServer.thy ===== *)
theory HotplugServer
  imports HandoverProtocol Port
begin

text \<open>
  The control server (\<open>src/hotplug_server.rs\<close>): one connection of the hotplug socket is one command, its
  effect on the ports and on the shared ownership, and the bytes of the answer. Opening a USB device from
  a file descriptor is a parameter, as is how Rust's debug format quotes a string. A port worker that
  has ended is a panic of the server, whose \<open>expect\<close> waits for its answer.
\<close>

type_synonym device_id = "u8 \<times> u8"

record ('f, 'b, 't) hotplug_server =
  hv_ports :: "(device_id, 't) port_worker"
  hv_shared :: "('f, 'b) shared option"

text \<open>What the server relies on: the files and the backend of the hand-over, the USB library, the interrupter.\<close>

record ('f, 'b, 'u, 't) server_env =
  se_os :: "'f os_files"
  se_backend :: "('f, 'b) backend_ops"
  se_open :: "u8 \<Rightarrow> u8 \<Rightarrow> 'u \<Rightarrow> (device_id, 't) complete_device option"
  se_quote :: "string \<Rightarrow> string"
  se_up :: bool

section \<open>The hotplug control\<close>

text \<open>A message to the port worker and its answer; without one, \<open>expect\<close> panics.\<close>

fun answers_of :: "('i, 't) port_out list \<Rightarrow> response option" where
  "answers_of [] = None"
| "answers_of (Responded r # outs) = Some r"
| "answers_of (out # outs) = answers_of outs"

definition ask_ports ::
  "(device_id, 't) port_worker \<Rightarrow> (device_id, 't) port_msg \<Rightarrow> bool \<Rightarrow> ((device_id, 't) port_worker \<times> response) res" where
  "ask_ports ps msg up =
     rbind (port_message ps msg True up) (\<lambda>(ps', outs).
     rbind (of_opt UnwrapFailed (answers_of outs)) (\<lambda>r. Inr (ps', r)))"

definition control_attach ::
  "(device_id, 't) port_worker \<Rightarrow> (device_id, 't) complete_device \<Rightarrow> bool \<Rightarrow> ((device_id, 't) port_worker \<times> response) res" where
  "control_attach ps device up = ask_ports ps (Attach device) up"

definition control_detach ::
  "(device_id, 't) port_worker \<Rightarrow> device_id \<Rightarrow> bool \<Rightarrow> ((device_id, 't) port_worker \<times> response) res" where
  "control_detach ps ident up = ask_ports ps (Detach ident None) up"

section \<open>Commands\<close>

text \<open>
  The answer is what is written to the socket: nothing when a device cannot be opened, and no value while
  a watch is parked.
\<close>

definition handle_attach ::
  "('f, 'b, 'u, 't) server_env \<Rightarrow> ('f, 'b, 't) hotplug_server \<Rightarrow> u8 \<Rightarrow> u8 \<Rightarrow> 'u \<Rightarrow>
     (('f, 'b, 't) hotplug_server \<times> u8 list option) res" where
  "handle_attach env sv bus dev fd =
     (case se_open env bus dev fd of
        None \<Rightarrow> Inr (sv, Some [])
      | Some device \<Rightarrow>
          rbind (control_attach (hv_ports sv) device (se_up env)) (\<lambda>(ps, response).
          Inr (sv\<lparr>hv_ports := ps\<rparr>, Some (send_response response))))"

definition handle_detach ::
  "('f, 'b, 'u, 't) server_env \<Rightarrow> ('f, 'b, 't) hotplug_server \<Rightarrow> u8 \<Rightarrow> u8 \<Rightarrow>
     (('f, 'b, 't) hotplug_server \<times> u8 list option) res" where
  "handle_detach env sv bus dev =
     rbind (control_detach (hv_ports sv) (bus, dev) (se_up env)) (\<lambda>(ps, response).
     Inr (sv\<lparr>hv_ports := ps\<rparr>, Some (send_response response)))"

primrec handle_command ::
  "('f, 'b, 'u, 't) server_env \<Rightarrow> ('f, 'b, 't) hotplug_server \<Rightarrow> time \<Rightarrow> time list \<Rightarrow> 'u command \<Rightarrow>
     (('f, 'b, 't) hotplug_server \<times> u8 list option) res" where
  "handle_command env sv now rounds (AttachCommand bus dev fd) = handle_attach env sv bus dev fd"
| "handle_command env sv now rounds (DetachCommand bus dev) = handle_detach env sv bus dev"
| "handle_command env sv now rounds ListCommand =
     rbind (send_device_list ListFollowing (attached_devices (hv_ports sv))) (\<lambda>wire. Inr (sv, Some wire))"
| "handle_command env sv now rounds (HandoverCommand c) =
     rbind (handle_handover (se_os env) (se_backend env) (hv_shared sv) c
              (of_nat (length (attached_devices (hv_ports sv)))) now rounds) (\<lambda>(shared, reply).
     Inr (sv\<lparr>hv_shared := shared\<rparr>, map_option send_reply_line reply))"

section \<open>Connections\<close>

definition protocol_display :: "(string \<Rightarrow> string) \<Rightarrow> protocol_error \<Rightarrow> string" where
  "protocol_display quote e =
     (case e of
        EmptyCommand \<Rightarrow> ''empty hand-over command''
      | MissingConn \<Rightarrow> ''missing connection id''
      | ConnNotANumber \<Rightarrow> ''connection id is not a number''
      | MissingEpoch \<Rightarrow> ''missing epoch''
      | EpochNotANumber \<Rightarrow> ''epoch is not a number''
      | MissingTimeout \<Rightarrow> ''missing timeout in milliseconds''
      | TimeoutNotANumber \<Rightarrow> ''timeout is not a number''
      | UnknownVerb v \<Rightarrow> ''unknown hand-over command '' @ quote v
      | TrailingArgument a \<Rightarrow> ''unexpected trailing argument '' @ quote a
      | UnexpectedReply l \<Rightarrow> ''unexpected hand-over reply '' @ quote l
      | ReplyWithoutCode \<Rightarrow> ''error reply without a code''
      | ConnectionClosed \<Rightarrow> ''the control connection closed before an answer arrived''
      | UnterminatedLine \<Rightarrow> ''the control connection sent an unterminated line''
      | NotAscii \<Rightarrow> ''failed to read the reply: stream did not contain valid UTF-8'')"

text \<open>One accepted connection: a malformed hand-over command is answered, other malformed commands are not.\<close>

definition serve_connection ::
  "('f, 'b, 'u, 't) server_env \<Rightarrow> ('f, 'b, 't) hotplug_server \<Rightarrow> time \<Rightarrow> time list \<Rightarrow> 'u socket \<Rightarrow>
     (('f, 'b, 't) hotplug_server \<times> u8 list option) res" where
  "serve_connection env sv now rounds socket =
     (case receive_command socket of
        Inr c \<Rightarrow> handle_command env sv now rounds c
      | Inl (HandoverError e) \<Rightarrow>
          Inr (sv, Some (send_reply_line (reply_error ''EPARSE'' (protocol_display (se_quote env) e))))
      | Inl _ \<Rightarrow> Inr (sv, Some []))"

text \<open>
  The accept loop over the connections that come in, each with its time; it goes on after a refused
  accept (\<open>None\<close>), and stops for good in a parked watch.
\<close>

fun run_hotplug_server ::
  "('f, 'b, 'u, 't) server_env \<Rightarrow> ('f, 'b, 't) hotplug_server \<Rightarrow> (time \<times> time list \<times> 'u socket) option list \<Rightarrow>
     (('f, 'b, 't) hotplug_server \<times> u8 list list) res" where
  "run_hotplug_server env sv [] = Inr (sv, [])"
| "run_hotplug_server env sv (None # conns) = run_hotplug_server env sv conns"
| "run_hotplug_server env sv (Some (now, rounds, socket) # conns) =
     rbind (serve_connection env sv now rounds socket) (\<lambda>(sv, wire).
     case wire of
       None \<Rightarrow> Inr (sv, [])
     | Some w \<Rightarrow> rbind (run_hotplug_server env sv conns) (\<lambda>(sv, ws). Inr (sv, w # ws)))"

end
