(* ===== verification/Remote.thy ===== *)
theory Remote
  imports HotplugServer ProtocolRoundtrip HandoverTrace
begin

text \<open>
  The control tool (\<open>src/bin/remote.rs\<close>, \<open>device_paths.rs\<close>) against the control server: what an operator
  who runs it sees and causes. The server is a function from a message to its answer over a state; in the
  properties it is the model of the server, with other activity between two connections of the tool.
\<close>

section \<open>Device paths\<close>

text \<open>\<open>u8::from_str\<close>; and a canonical path as its components, if there is one.\<close>

definition parse_u8 :: "string \<Rightarrow> u8 option" where
  "parse_u8 s = (case parse_u64 s of Some v \<Rightarrow> if unat v < 256 then Some (ucast v) else None | None \<Rightarrow> None)"

definition resolve_path :: "string list option \<Rightarrow> (u8 \<times> u8) option" where
  "resolve_path components =
     (case components of
        None \<Rightarrow> None
      | Some cs \<Rightarrow>
          if length cs \<noteq> 6 \<or> cs ! 0 \<noteq> ''/'' \<or> cs ! 1 \<noteq> ''dev'' \<or> cs ! 2 \<noteq> ''bus'' \<or> cs ! 3 \<noteq> ''usb'' then None
          else (case (parse_u8 (cs ! 4), parse_u8 (cs ! 5)) of
                  (Some bus, Some dev) \<Rightarrow> Some (bus, dev) | _ \<Rightarrow> None))"

section \<open>The tool\<close>

text \<open>
  An action of the command line. The device of an attach is its path and the file the tool gets by opening,
  resetting and reopening it, \<open>None\<close> if one of these fails.
\<close>

datatype 'u tool_action =
    ToolAttach "string list option" "'u option"
  | ToolDetach u8 u8
  | ToolList
  | ToolStatus
  | ToolWatch u64
  | ToolReady string
  | ToolCommit string
  | ToolAbort string string
  | ToolReclaim string

datatype tool_error =
    ToolProtocol protocol_error
  | Refused string string
  | StatusRefused string string
  | NoConnection string
  | UnresolvedPath
  | OpenFailed
  | SocketClosed
  | UnexpectedAnswer response

datatype tool_output = PrintedBody string | PrintedResponse response | PrintedDevices "(u8 \<times> u8) list"

type_synonym ('s, 'u) server = "'s \<Rightarrow> u8 list \<times> 'u option \<Rightarrow> 's \<times> u8 list"

text \<open>One hand-over command on a connection of its own.\<close>

definition tool_handover ::
  "('s, 'u) server \<Rightarrow> 's \<Rightarrow> handover_command \<Rightarrow> 's \<times> (tool_error + handover_reply)" where
  "tool_handover server s c =
     (let (s, wire) = server s (send_command (HandoverCommand c)) in
      (s, case receive_reply wire of Inl e \<Rightarrow> Inl (ToolProtocol e) | Inr r \<Rightarrow> Inr r))"

definition tool_status :: "('s, 'u) server \<Rightarrow> 's \<Rightarrow> 's \<times> (tool_error + handover_snapshot)" where
  "tool_status server s =
     (let (s, reply) = tool_handover server s HoStatus in
      (s, rbind reply (\<lambda>reply. case reply of
            ReplyOk body \<Rightarrow> Inr (parse_snapshot body)
          | ReplyErr code detail \<Rightarrow> Inl (StatusRefused code detail))))"

definition tool_resolve :: "handover_snapshot \<Rightarrow> string \<Rightarrow> tool_error + u64" where
  "tool_resolve sn role = of_opt (NoConnection role) (resolve_role sn role)"

definition resolve_conn :: "('s, 'u) server \<Rightarrow> 's \<Rightarrow> string \<Rightarrow> 's \<times> (tool_error + u64)" where
  "resolve_conn server s role =
     (case parse_u64 role of
        Some cid \<Rightarrow> (s, Inr cid)
      | None \<Rightarrow> (let (s, sn) = tool_status server s in (s, rbind sn (\<lambda>sn. tool_resolve sn role))))"

definition report :: "tool_error + handover_reply \<Rightarrow> tool_error + tool_output" where
  "report reply =
     rbind reply (\<lambda>reply. case reply of
       ReplyOk body \<Rightarrow> Inr (PrintedBody body) | ReplyErr code detail \<Rightarrow> Inl (Refused code detail))"

text \<open>Run the second command if the first part succeeded.\<close>

definition and_then :: "'s \<times> (tool_error + 'a) \<Rightarrow> ('s \<Rightarrow> 'a \<Rightarrow> 's \<times> (tool_error + 'b)) \<Rightarrow> 's \<times> (tool_error + 'b)" where
  "and_then x f = (case x of (s, Inl e) \<Rightarrow> (s, Inl e) | (s, Inr v) \<Rightarrow> f s v)"

definition run_handover :: "('s, 'u) server \<Rightarrow> 's \<Rightarrow> handover_command \<Rightarrow> 's \<times> (tool_error + tool_output)" where
  "run_handover server s c = (let (s, reply) = tool_handover server s c in (s, report reply))"

text \<open>Commit and reclaim take the epoch from a status query; the role is resolved in the same snapshot.\<close>

definition with_snapshot ::
  "('s, 'u) server \<Rightarrow> 's \<Rightarrow> string \<Rightarrow> (u64 \<Rightarrow> u64 \<Rightarrow> handover_command) \<Rightarrow> 's \<times> (tool_error + tool_output)" where
  "with_snapshot server s role command =
     and_then (tool_status server s) (\<lambda>s sn.
     and_then (s, tool_resolve sn role) (\<lambda>s conn.
     run_handover server s (command conn (sn_epoch sn))))"

definition tool_response :: "('s, 'u) server \<Rightarrow> 's \<Rightarrow> 'u command \<Rightarrow> 's \<times> (tool_error + tool_output)" where
  "tool_response server s c =
     (let (s, wire) = server s (send_command c) in
      (s, case receive_response wire of Inl e \<Rightarrow> Inl SocketClosed | Inr (r, rest) \<Rightarrow> Inr (PrintedResponse r)))"

definition tool_list :: "('s, 'u) server \<Rightarrow> 's \<Rightarrow> ('s \<times> (tool_error + tool_output)) res" where
  "tool_list server s =
     (let (s, wire) = server s (send_command ListCommand) in
      case receive_response wire of
        Inl e \<Rightarrow> Inr (s, Inl SocketClosed)
      | Inr (r, rest) \<Rightarrow>
          if r \<noteq> ListFollowing then Inr (s, Inl (UnexpectedAnswer r))
          else rbind (receive_devices_list r rest) (\<lambda>devices.
            Inr (s, case devices of Inl e \<Rightarrow> Inl SocketClosed | Inr ds \<Rightarrow> Inr (PrintedDevices ds))))"

primrec run_tool :: "('s, 'u) server \<Rightarrow> 's \<Rightarrow> 'u tool_action \<Rightarrow> ('s \<times> (tool_error + tool_output)) res" where
  "run_tool server s (ToolAttach path file) =
     Inr (case resolve_path path of
            None \<Rightarrow> (s, Inl UnresolvedPath)
          | Some (bus, dev) \<Rightarrow>
              (case file of
                 None \<Rightarrow> (s, Inl OpenFailed)
               | Some fd \<Rightarrow> tool_response server s (AttachCommand bus dev fd)))"
| "run_tool server s (ToolDetach bus dev) = Inr (tool_response server s (DetachCommand bus dev))"
| "run_tool server s ToolList = tool_list server s"
| "run_tool server s ToolStatus = Inr (run_handover server s HoStatus)"
| "run_tool server s (ToolWatch ms) = Inr (run_handover server s (HoWatch ms))"
| "run_tool server s (ToolReady role) =
     Inr (and_then (resolve_conn server s role) (\<lambda>s conn. run_handover server s (HoReady conn)))"
| "run_tool server s (ToolCommit role) = Inr (with_snapshot server s role HoCommit)"
| "run_tool server s (ToolAbort role reason) =
     Inr (and_then (resolve_conn server s role) (\<lambda>s conn. run_handover server s (HoAbort conn reason)))"
| "run_tool server s (ToolReclaim role) = Inr (with_snapshot server s role HoReclaim)"

section \<open>The tool against the server\<close>

text \<open>
  The state of the server and what happens before each connection of the tool: another change of the state,
  and the time. A panic of the server or a parked watch leaves the tool without an answer.
\<close>

type_synonym ('f, 'b, 't) schedule = "((('f, 'b, 't) hotplug_server \<Rightarrow> ('f, 'b, 't) hotplug_server) \<times> time) list"

fun live_server ::
  "('f, 'b, 'u, 't) server_env \<Rightarrow> (('f, 'b, 't) hotplug_server \<times> ('f, 'b, 't) schedule, 'u) server" where
  "live_server env (sv, []) message = ((sv, []), [])"
| "live_server env (sv, (change, now) # later) message =
     (case serve_connection env (change sv) now [] [message] of
        Inl panic \<Rightarrow> ((change sv, later), [])
      | Inr (sv', None) \<Rightarrow> ((sv', later), [])
      | Inr (sv', Some wire) \<Rightarrow> ((sv', later), wire))"

subsection \<open>Devices\<close>

lemma server_command:
  assumes "\<forall>h. c \<noteq> HandoverCommand h"
  shows "serve_connection env sv now rounds [send_command c] = handle_command env sv now rounds c"
proof -
  have "receive_command (send_command c # []) = Inr c" by (rule other_command_received [OF assms])
  then show ?thesis by (simp add: serve_connection_def)
qed

lemma answers_events: "answers_of (port_events ps @ [Responded r]) = Some r"
  by (induction ps) (simp_all add: port_events_def)

lemma few_devices:
  assumes "shape_ok ps"
  shows "length (attached_devices ps) \<le> 8"
proof -
  have "length (List.map_filter id xs) \<le> length xs" for xs :: "('i, 't) attached_device option list"
    by (induction xs) (auto simp: List.map_filter_simps split: option.split)
  from this [of "pw_devices ps"] show ?thesis using assms by (simp add: attached_devices_def shape_ok_def MAX_PORTS_def)
qed

lemma tool_lists:
  assumes "shape_ok (hv_ports (change sv))"
  shows "run_tool (live_server env) (sv, (change, now) # later) ToolList =
    Inr ((change sv, later), Inr (PrintedDevices (attached_devices (hv_ports (change sv)))))"
proof -
  let ?ds = "attached_devices (hv_ports (change sv))"
  have "length ?ds \<le> 127" using few_devices [OF assms] by simp
  from device_list_bytes [OF this] obtain wire rest where w: "send_device_list ListFollowing ?ds = Inr wire"
    "receive_response wire = Inr (ListFollowing, rest)" "receive_devices_list ListFollowing rest = Inr (Inr ?ds)" by blast
  then have "live_server env (sv, (change, now) # later) (send_command ListCommand) = ((change sv, later), wire)"
    by (simp add: server_command del: send_command.simps)
  then show ?thesis using w(2,3) by (simp add: tool_list_def)
qed

lemma tool_answer:
  assumes "handle_command env (change sv) now [] c = Inr (sv', Some (send_response r))" "\<forall>h. c \<noteq> HandoverCommand h"
  shows "tool_response (live_server env) (sv, (change, now) # later) c = ((sv', later), Inr (PrintedResponse r))"
  using assms response_wire_roundtrip [of r "[]"] by (simp add: tool_response_def server_command del: send_command.simps)

lemma attached_set: "set (attached_devices ps) = {cd_identifier (at_device a) | a. Some a \<in> set (pw_devices ps)}"
  by (auto simp: in_attached_devices hit_def)

lemma mem_without: "Some b \<in> set (without ident None ds) \<longleftrightarrow> Some b \<in> set ds \<and> cd_identifier (at_device b) \<noteq> ident"
proof
  assume b: "Some b \<in> set ds \<and> cd_identifier (at_device b) \<noteq> ident"
  then have "(case Some b of None \<Rightarrow> None | Some a \<Rightarrow> if hit ident None a then None else Some a) \<in> set (without ident None ds)"
    unfolding without_def set_map by (intro imageI) simp
  then show "Some b \<in> set (without ident None ds)" using b by (simp add: hit_def)
qed (auto simp: without_def hit_def split: option.splits if_splits)

lemma attached_without:
  assumes "pw_devices ps' = without ident None (pw_devices ps)"
  shows "set (attached_devices ps') = set (attached_devices ps) - {ident}"
  using assms by (auto simp: attached_set mem_without)

lemma attached_put:
  assumes "pw_devices ps' = (without (cd_identifier d) None (pw_devices ps))[p := Some a]" "p < length (pw_devices ps)"
    "without (cd_identifier d) None (pw_devices ps) ! p = None" "at_device a = d"
  shows "set (attached_devices ps') = insert (cd_identifier d) (set (attached_devices ps))"
proof -
  let ?w = "without (cd_identifier d) None (pw_devices ps)"
  have "Some b \<in> set (?w[p := Some a]) \<longleftrightarrow> b = a \<or> Some b \<in> set ?w" for b
    using assms(2,3) by (auto simp: in_set_conv_nth nth_list_update) (metis length_without option.distinct(1))
  then have "set (attached_devices ps') = insert (cd_identifier d) {cd_identifier (at_device b) | b. Some b \<in> set ?w}"
    using assms(1,4) by (auto simp: attached_set)
  also have "{cd_identifier (at_device b) | b. Some b \<in> set ?w} = set (attached_devices ps) - {cd_identifier d}"
    by (auto simp: attached_set mem_without)
  finally show ?thesis by simp
qed

lemma attach_listed:
  assumes "shape_ok ps"
  shows "\<exists>ps' r. control_attach ps d True = Inr (ps', r) \<and> shape_ok ps' \<and>
    set (attached_devices ps') = (if r = SuccessfulOperation then insert (cd_identifier d) (set (attached_devices ps))
      else set (attached_devices ps) - {cd_identifier d}) \<and>
    (r = SuccessfulOperation \<longleftrightarrow> (\<exists>sp. cd_speed d = Some sp \<and>
       free_ports (from_speed sp) (without (cd_identifier d) None (pw_devices ps)) \<noteq> []))"
proof -
  let ?base = "without (cd_identifier d) None (pw_devices ps)"
  obtain ps' r out where o: "port_attach ps d True = Inr (r, ps', out)" "shape_ok ps'"
    "case cd_speed d of
       None \<Rightarrow> r = CouldNotDetermineSpeed \<and> pw_devices ps' = ?base \<and> pw_listeners ps' = pw_listeners ps \<and>
         out = port_events (hits (cd_identifier d) None (pw_devices ps))
     | Some sp \<Rightarrow> (case free_ports (from_speed sp) ?base of
         [] \<Rightarrow> r = NoFreePort \<and> pw_devices ps' = ?base \<and> pw_listeners ps' = pw_listeners ps \<and>
           out = port_events (hits (cd_identifier d) None (pw_devices ps))
       | p # _ \<Rightarrow> r = SuccessfulOperation \<and>
           pw_devices ps' = ?base[p := Some \<lparr>at_device = d, at_instance = cd_token d\<rparr>] \<and>
           pw_listeners ps' = pw_listeners ps @ [(cd_identifier d, cd_token d)] \<and>
           out = port_events (hits (cd_identifier d) None (pw_devices ps)) @ port_events [p])"
    using attach_outcome [OF assms, of d] by blast
  have events: "port_events ps @ port_events qs = port_events (ps @ qs)" for ps qs by (simp add: port_events_def)
  have a: "port_attach ps d True = Inr (r, ps', out)" "shape_ok ps'"
    "case cd_speed d of
       None \<Rightarrow> r = CouldNotDetermineSpeed \<and> pw_devices ps' = ?base
     | Some sp \<Rightarrow> (case free_ports (from_speed sp) ?base of
         [] \<Rightarrow> r = NoFreePort \<and> pw_devices ps' = ?base
       | p # _ \<Rightarrow> r = SuccessfulOperation \<and>
           pw_devices ps' = ?base[p := Some \<lparr>at_device = d, at_instance = cd_token d\<rparr>])"
    "\<exists>qs. out = port_events qs"
    using o events by (auto split: option.splits list.splits)
  have "control_attach ps d True = Inr (ps', r)"
    using a(1,4) by (auto simp: control_attach_def ask_ports_def answers_events)
  moreover have "set (attached_devices ps') = (if r = SuccessfulOperation then insert (cd_identifier d) (set (attached_devices ps))
      else set (attached_devices ps) - {cd_identifier d})"
  proof (cases "r = SuccessfulOperation")
    case True
    then obtain sp p rest where p: "cd_speed d = Some sp" "free_ports (from_speed sp) ?base = p # rest"
      "pw_devices ps' = ?base[p := Some \<lparr>at_device = d, at_instance = cd_token d\<rparr>]"
      using a(3) by (auto split: option.splits list.splits)
    then have "p \<in> set (free_ports (from_speed sp) ?base)" by simp
    then have "p < length (pw_devices ps)" "?base ! p = None" by (auto simp: free_ports_def)
    then show ?thesis using attached_put [OF p(3)] True by simp
  next
    case False
    then have "pw_devices ps' = ?base" using a(3) by (auto split: option.splits list.splits)
    then show ?thesis using attached_without False by simp
  qed
  moreover have "r = SuccessfulOperation \<longleftrightarrow> (\<exists>sp. cd_speed d = Some sp \<and> free_ports (from_speed sp) ?base \<noteq> [])"
    using a(3) by (auto split: option.splits list.splits)
  ultimately show ?thesis using a(2) by blast
qed

lemma detach_listed:
  assumes "shape_ok ps"
  shows "\<exists>ps' r. control_detach ps ident True = Inr (ps', r) \<and> shape_ok ps' \<and>
    (r = SuccessfulOperation \<longleftrightarrow> ident \<in> set (attached_devices ps)) \<and>
    set (attached_devices ps') = set (attached_devices ps) - {ident}"
proof -
  obtain ps' where d: "port_detach ps ident None True = Inr (if hits ident None (pw_devices ps) = [] then NoSuchDevice
      else SuccessfulOperation, ps', port_events (hits ident None (pw_devices ps)))" "shape_ok ps'"
    "pw_devices ps' = without ident None (pw_devices ps)"
    using detach_outcome [OF assms] by blast
  have "hits ident None (pw_devices ps) = [] \<longleftrightarrow> ident \<notin> set (attached_devices ps)"
  proof (cases "ident \<in> set (attached_devices ps)")
    case True
    then obtain p a where "p < length (pw_devices ps)" "pw_devices ps ! p = Some a" "hit ident None a"
      unfolding in_attached_devices by (auto simp: in_set_conv_nth)
    then have "p \<in> set (hits ident None (pw_devices ps))" by (simp add: hits_def)
    then show ?thesis using True by auto
  next
    case False
    then show ?thesis using hits_none [of "pw_devices ps" ident None] by (auto simp: in_attached_devices)
  qed
  then show ?thesis using d attached_without [OF d(3)]
    by (auto simp: control_detach_def ask_ports_def answers_events)
qed

text \<open>
  C28: What the control tool reports about devices is true. An attach that prints success leaves the device
  listed, one that prints anything else leaves it unlisted; a detach prints success exactly when the device
  was listed, and leaves it unlisted; the other devices stay as they are, and the list the tool prints is
  the devices on the ports.
\<close>

theorem tool_tells_the_truth:
  assumes "shape_ok (hv_ports sv)" "se_up env" "resolve_path path = Some (bus, dev)"
    "se_open env bus dev fd = Some d" "cd_identifier d = (bus, dev)"
  shows "\<exists>s1 s2 s3 s4 r1 r2 ds1 ds2.
    run_tool (live_server env) (sv, [(id, t1), (id, t2), (id, t3), (id, t4)]) (ToolAttach path (Some fd)) =
      Inr (s1, Inr (PrintedResponse r1)) \<and>
    run_tool (live_server env) s1 ToolList = Inr (s2, Inr (PrintedDevices ds1)) \<and>
    set ds1 = (if r1 = SuccessfulOperation then insert (bus, dev) (set (attached_devices (hv_ports sv)))
               else set (attached_devices (hv_ports sv)) - {(bus, dev)}) \<and>
    run_tool (live_server env) s2 (ToolDetach b2 d2) = Inr (s3, Inr (PrintedResponse r2)) \<and>
    (r2 = SuccessfulOperation \<longleftrightarrow> (b2, d2) \<in> set ds1) \<and>
    run_tool (live_server env) s3 ToolList = Inr (s4, Inr (PrintedDevices ds2)) \<and>
    set ds2 = set ds1 - {(b2, d2)}"
proof -
  obtain ps1 r1 where a: "control_attach (hv_ports sv) d True = Inr (ps1, r1)" "shape_ok ps1"
    "set (attached_devices ps1) = (if r1 = SuccessfulOperation then insert (bus, dev) (set (attached_devices (hv_ports sv)))
      else set (attached_devices (hv_ports sv)) - {(bus, dev)})"
    using attach_listed [OF assms(1), of d] assms(5) by auto
  obtain ps2 r2 where b: "control_detach ps1 (b2, d2) True = Inr (ps2, r2)" "shape_ok ps2"
    "r2 = SuccessfulOperation \<longleftrightarrow> (b2, d2) \<in> set (attached_devices ps1)"
    "set (attached_devices ps2) = set (attached_devices ps1) - {(b2, d2)}"
    using detach_listed [OF a(2), of "(b2, d2)"] by blast
  let ?sv1 = "sv\<lparr>hv_ports := ps1\<rparr>" and ?sv2 = "sv\<lparr>hv_ports := ps2\<rparr>"
  have 1: "run_tool (live_server env) (sv, [(id, t1), (id, t2), (id, t3), (id, t4)]) (ToolAttach path (Some fd)) =
      Inr ((?sv1, [(id, t2), (id, t3), (id, t4)]), Inr (PrintedResponse r1))"
    using assms(2-4) a(1) tool_answer [of env id sv t1 "AttachCommand bus dev fd" ?sv1 r1]
    by (simp add: handle_attach_def)
  have 2: "run_tool (live_server env) (?sv1, [(id, t2), (id, t3), (id, t4)]) ToolList =
      Inr ((?sv1, [(id, t3), (id, t4)]), Inr (PrintedDevices (attached_devices ps1)))"
    using tool_lists [of id ?sv1 env t2] a(2) by simp
  have 3: "run_tool (live_server env) (?sv1, [(id, t3), (id, t4)]) (ToolDetach b2 d2) =
      Inr ((?sv2, [(id, t4)]), Inr (PrintedResponse r2))"
    using assms(2) b(1) tool_answer [of env id ?sv1 t3 "DetachCommand b2 d2" ?sv2 r2]
    by (simp add: handle_detach_def)
  have 4: "run_tool (live_server env) (?sv2, [(id, t4)]) ToolList =
      Inr ((?sv2, []), Inr (PrintedDevices (attached_devices ps2)))"
    using tool_lists [of id ?sv2 env t4] b(2) by simp
  show ?thesis using 1 2 3 4 a(3) b(3,4) by blast
qed

text \<open>An attached device that is listed and detached again.\<close>

definition one_port_env :: "(nat, nat option, nat, nat) server_env" where
  "one_port_env = \<lparr>se_os = plain_os, se_backend = line_backend,
     se_open = (\<lambda>bus dev fd. Some \<lparr>cd_identifier = (bus, dev), cd_speed = Some High, cd_token = fd\<rparr>),
     se_quote = id, se_up = True\<rparr>"

theorem tool_tells_the_truth_witness:
  "\<exists>ps s1 s2 r1 ds1. port_worker_new = Inr ps \<and>
    run_tool (live_server one_port_env) (\<lparr>hv_ports = ps, hv_shared = None\<rparr>, [(id, 1), (id, 2), (id, 3), (id, 4)])
      (ToolAttach (Some [''/'', ''dev'', ''bus'', ''usb'', ''001'', ''004'']) (Some 9)) = Inr (s1, Inr (PrintedResponse r1)) \<and>
    run_tool (live_server one_port_env) s1 ToolList = Inr (s2, Inr (PrintedDevices ds1)) \<and>
    ((1, 4) \<in> set ds1 \<longleftrightarrow> r1 = SuccessfulOperation)"
proof -
  obtain ps :: "(u8 \<times> u8, nat) port_worker" where ps: "port_worker_new = Inr ps" "port_ok ps" "pw_devices ps = replicate MAX_PORTS None" using port_worker_new_ok by blast
  have path: "resolve_path (Some [''/'', ''dev'', ''bus'', ''usb'', ''001'', ''004'']) = Some (1, 4)"
    by (simp add: resolve_path_def parse_u8_def parse_u64_def)
  have sh: "shape_ok (hv_ports \<lparr>hv_ports = ps, hv_shared = None :: (nat, nat option) shared option\<rparr>)" using ps by (simp add: port_ok_def)
  have none: "attached_devices ps = []"
    using ps(3) by (simp add: attached_devices_def List.map_filter_def)
  let ?d = "\<lparr>cd_identifier = (1, 4), cd_speed = Some High, cd_token = 9\<rparr> :: (u8 \<times> u8, nat) complete_device"
  have env: "se_up one_port_env" "se_open one_port_env 1 4 9 = Some ?d" "cd_identifier ?d = (1, 4)"
    by (simp_all add: one_port_env_def)
  from tool_tells_the_truth [OF sh env(1) path env(2,3), of 1 2 3 4 0 0]
  obtain s1 s2 r1 ds1 where r:
    "run_tool (live_server one_port_env) (\<lparr>hv_ports = ps, hv_shared = None\<rparr>, [(id, 1), (id, 2), (id, 3), (id, 4)])
      (ToolAttach (Some [''/'', ''dev'', ''bus'', ''usb'', ''001'', ''004'']) (Some 9)) = Inr (s1, Inr (PrintedResponse r1))"
    "run_tool (live_server one_port_env) s1 ToolList = Inr (s2, Inr (PrintedDevices ds1))"
    "set ds1 = (if r1 = SuccessfulOperation then insert (1, 4) (set (attached_devices ps)) else set (attached_devices ps) - {(1, 4)})"
    by (elim exE conjE) (rule that, simp_all only: hotplug_server.simps)
  from r(3) have "(1, 4) \<in> set ds1 \<longleftrightarrow> r1 = SuccessfulOperation" by simp
  then show ?thesis using ps(1) r(1,2) by blast
qed

subsection \<open>Ownership\<close>

lemma status_text: "is_ascii (render_status h)" "no_break (render_status h)"
proof -
  have lit: "is_ascii ''owner=''" "no_break ''owner=''" "is_ascii '' prev=''" "no_break '' prev=''"
    "is_ascii '' candidate=''" "no_break '' candidate=''" "is_ascii '' epoch=''" "no_break '' epoch=''"
    "is_ascii '' ready=''" "no_break '' ready=''" "is_ascii '' lease_ms=''" "no_break '' lease_ms=''"
    "is_ascii '' devices=''" "no_break '' devices=''" "is_ascii '' require_ready=''" "no_break '' require_ready=''"
    "is_ascii '' require_device=''" "no_break '' require_device=''" "is_ascii '' binding=''" "no_break '' binding=''"
    "is_ascii '' controller=''" "no_break '' controller=''" "is_ascii '' deferred_a3=''" "no_break '' deferred_a3=''"
    "is_ascii '' live=[''" "no_break '' live=[''" "is_ascii '']''" "no_break '']''" "is_ascii '', ''" "no_break '', ''"
    "is_ascii ''-''" "no_break ''-''" "is_ascii ''true''" "no_break ''true''" "is_ascii ''false''" "no_break ''false''"
    "is_ascii []" "no_break []"
    by (simp_all add: is_ascii_def no_break_def)
  have nat: "is_ascii (show_nat n)" "no_break (show_nat n)" for n
    by (simp_all only: show_nat_text)
  have ids: "is_ascii (show_id v)" "no_break (show_id v)" "is_ascii (show_bool b)" "no_break (show_bool b)" for v b
    by (simp_all add: show_id_def show_bool_def lit show_u64_chars split: option.split)
  have "is_ascii (show_list vs) \<and> no_break (show_list vs)" for vs
    by (induction vs rule: show_list.induct) (simp_all only: show_list.simps text_append lit show_u64_chars simp_thms)
  then show "is_ascii (render_status h)" "no_break (render_status h)"
    by (simp_all only: render_status_def text_append lit nat ids simp_thms)
qed

lemma ok_reply_arrives:
  "receive_reply (send_reply_line (ReplyOk (render_status h))) =
     (if length (render_status h) \<le> 1021 then parse_reply (encode_reply (ReplyOk (render_status h))) else Inl UnterminatedLine)"
proof -
  have "is_ascii (encode_reply (ReplyOk (render_status h)))" "no_break (encode_reply (ReplyOk (render_status h)))"
    using status_text [of h] by (simp_all add: is_ascii_def no_break_def)
  note line = read_line_sent [OF this, of "[]"]
  have "length (encode_reply (ReplyOk (render_status h))) = 3 + length (render_status h)" by simp
  then show ?thesis unfolding receive_reply_def send_reply_line_def using line
    by (simp only: append_Nil2 MAX_LINE_def split: if_split) auto
qed

lemma error_reply_is_error: "receive_reply (send_reply_line (ReplyErr code detail)) \<noteq> Inr (ReplyOk body)"
proof
  assume r: "receive_reply (send_reply_line (ReplyErr code detail)) = Inr (ReplyOk body)"
  then obtain line where l: "read_line (send_reply_line (ReplyErr code detail)) = Inr line" "parse_reply line = Inr (ReplyOk body)"
    by (auto simp: receive_reply_def)
  obtain rest where "send_reply_line (ReplyErr code detail) = 101 # rest"
    by (simp add: send_reply_line_def bytes_of_def)
  then obtain dec where t: "decode_text (takeWhile (\<lambda>b. b \<noteq> 10) (take (MAX_LINE + 1) (101 # rest))) = Some dec"
    "line = trim_line_end dec"
    using l(1) by (auto simp: read_line_def Let_def split: if_splits option.splits)
  have e: "char_of (101 :: nat) = CHR ''e''" by code_simp
  from t(1) e obtain dec' where dec: "dec = CHR ''e'' # dec'"
    by (auto simp: decode_text_def MAX_LINE_def split: if_splits)
  have "trim_line_end dec = [] \<or> hd (trim_line_end dec) = CHR ''e''"
  proof -
    have "\<exists>k. trim_line_end dec = take k dec"
      unfolding trim_line_end_def
      by (metis dropWhile_eq_drop rev_rev_ident take_rev rev_drop)
    then show ?thesis using dec by (metis hd_take list.sel(1) neq0_conv take_eq_Nil take_0)
  qed
  then have "strip_prefix ''ok'' line = None"
    using t(2) by (cases "trim_line_end dec") (auto simp: strip_prefix_def)
  then show False using l(2) by (auto simp: parse_reply_def split: option.splits prod.splits if_splits)
qed

lemma handover_exchange:
  fixes env :: "('f, 'b, 'u, 't) server_env"
  assumes "ascii_command c" "length (encode_command c) \<le> 1024" "normalised c = c"
  shows "tool_handover (live_server env) (sv, (change, now) # later) c =
    (case handle_handover (se_os env) (se_backend env) (hv_shared (change sv)) c
        (of_nat (length (attached_devices (hv_ports (change sv))))) now [] of
       Inl e \<Rightarrow> ((change sv, later), Inl (ToolProtocol ConnectionClosed))
     | Inr (shared, None) \<Rightarrow> (((change sv)\<lparr>hv_shared := shared\<rparr>, later), Inl (ToolProtocol ConnectionClosed))
     | Inr (shared, Some reply) \<Rightarrow> (((change sv)\<lparr>hv_shared := shared\<rparr>, later),
         case receive_reply (send_reply_line reply) of Inl e \<Rightarrow> Inl (ToolProtocol e) | Inr r \<Rightarrow> Inr r))"
proof -
  have "receive_command [send_command (HandoverCommand c :: 'u command)] = Inr (HandoverCommand c)"
    using handover_command_received [OF assms(1), of "[]"] assms(2,3) by simp
  then have s: "serve_connection env (change sv) now [] [send_command (HandoverCommand c)] =
      handle_command env (change sv) now [] (HandoverCommand c)"
    by (simp add: serve_connection_def del: send_command.simps handle_command.simps)
  moreover have "receive_reply [] = Inl ConnectionClosed" by (simp add: receive_reply_def read_line_def)
  ultimately show ?thesis
    by (auto simp: tool_handover_def s simp del: send_command.simps split: sum.split option.split prod.split)
qed

lemma commit_success:
  assumes "handover_commit os bops st cid ep now = Inr (st', Inr status)"
  shows "owner (sh_ownership st') = cid" "epoch (sh_ownership st') = ep + 1"
    "candidate (fst (expire_candidate (sh_ownership st) now)) = None \<and> owner (sh_ownership st) = cid \<and>
       epoch (sh_ownership st) = ep + 1 \<or>
     (\<exists>cand. candidate (sh_ownership st) = Some cand \<and> now \<le> cand_deadline cand \<and> cand_id cand = cid \<and>
       epoch (sh_ownership st) = ep)"
  using assms
  by (auto simp: handover_commit_def commit_install_def expire_candidate_def Let_def case_prod_unfold
      split: option.splits if_splits sum.splits prod.splits)

text \<open>What a status query shows to the tool: the ownership, as it is once an expired candidate is dropped.\<close>

lemma status_exchange:
  fixes env :: "('f, 'b, 'u, 't) server_env"
  assumes "tool_status (live_server env) (sv, (change, now) # later) = (s', Inr sn)" "hv_shared (change sv) = Some st"
    "epoch (sh_ownership st) < 2 ^ 64" "lease (sh_ownership st) < 2 ^ 64"
  shows "\<exists>st'. s' = ((change sv)\<lparr>hv_shared := Some st'\<rparr>, later) \<and>
    sn_candidate sn = map_option cand_id (candidate (fst (expire_candidate (sh_ownership st) now))) \<and>
    sn_epoch sn = of_nat (epoch (sh_ownership st))"
proof -
  let ?st = "note_device_inventory (note_controller_seen st) (of_nat (length (attached_devices (hv_ports (change sv)))))"
  obtain st' h where h: "handover_status_of ?st now = (st', h)" by fastforce
  have "tool_handover (live_server env) (sv, (change, now) # later) HoStatus = (((change sv)\<lparr>hv_shared := Some st'\<rparr>, later),
      case receive_reply (send_reply_line (ReplyOk (render_status h))) of Inl e \<Rightarrow> Inl (ToolProtocol e) | Inr r \<Rightarrow> Inr r)"
    using handover_exchange [of HoStatus env sv change now later] assms(2) h by (simp add: Let_def reply_of_def)
  with assms(1) have s: "s' = ((change sv)\<lparr>hv_shared := Some st'\<rparr>, later)"
    and r: "\<exists>body. receive_reply (send_reply_line (ReplyOk (render_status h))) = Inr (ReplyOk body) \<and> sn = parse_snapshot body"
    by (auto simp: tool_status_def split: sum.splits handover_reply.splits)
  from r obtain body where body: "parse_reply (encode_reply (ReplyOk (render_status h))) = Inr (ReplyOk body)" "sn = parse_snapshot body"
    by (auto simp: ok_reply_arrives split: if_splits)
  have hs: "hs_candidate h = map_option cand_id (candidate (fst (expire_candidate (sh_ownership st) now)))"
    "hs_epoch h = epoch (sh_ownership st)" "hs_lease_ms h = lease (sh_ownership st)"
    using h by (auto simp: handover_status_of_def render_locked_def note_device_inventory_def note_controller_seen_def
        expire_candidate_def Let_def split: option.splits)
  from status_arrives [of h] hs assms(3,4) body(1) have "parse_snapshot body = snapshot_of h"
    by (auto simp: reply_of_def)
  then show ?thesis using s body(2) hs by (intro exI [of _ st']) (simp add: snapshot_of_def)
qed

lemma commit_exchange:
  fixes env :: "('f, 'b, 'u, 't) server_env"
  assumes "run_handover (live_server env) (sv, (change, now) # later) (HoCommit cid ep) = (s', Inr out)"
  shows "\<exists>st st' status. hv_shared (change sv) = Some st \<and> s' = ((change sv)\<lparr>hv_shared := Some st'\<rparr>, later) \<and>
    handover_commit (se_os env) (se_backend env)
      (note_device_inventory (note_controller_seen st) (of_nat (length (attached_devices (hv_ports (change sv))))))
      cid (unat ep) now = Inr (st', Inr status)"
proof -
  have len: "length (encode_command (HoCommit cid ep)) \<le> 1024"
    using show_u64_length [of cid] show_u64_length [of ep] by simp
  have no: "receive_reply (send_reply_line (ReplyErr code detail)) \<noteq> Inr (ReplyOk body)" for code detail body
    by (rule error_reply_is_error)
  have ok: "\<exists>body. receive_reply (send_reply_line reply) = Inr (ReplyOk body)"
    if "report (case receive_reply (send_reply_line reply) of Inl e \<Rightarrow> Inl (ToolProtocol e) | Inr r \<Rightarrow> Inr r) = Inr out" for reply
    using that by (auto simp: report_def split: sum.splits handover_reply.splits)
  have "report (Inl e) \<noteq> Inr out" for e by (simp add: report_def)
  with assms obtain shared reply where h: "handle_handover (se_os env) (se_backend env) (hv_shared (change sv)) (HoCommit cid ep)
        (of_nat (length (attached_devices (hv_ports (change sv))))) now [] = Inr (shared, Some reply)"
    "s' = ((change sv)\<lparr>hv_shared := shared\<rparr>, later)"
    "report (case receive_reply (send_reply_line reply) of Inl e \<Rightarrow> Inl (ToolProtocol e) | Inr r \<Rightarrow> Inr r) = Inr out"
    using handover_exchange [OF _ len, of env sv change now later]
    by (auto simp: run_handover_def split: sum.splits option.splits prod.splits)
  from ok [OF h(3)] obtain body where b: "receive_reply (send_reply_line reply) = Inr (ReplyOk body)" by blast
  then obtain ok_text where reply: "reply = ReplyOk ok_text" using no by (cases reply) auto
  obtain st where st: "hv_shared (change sv) = Some st"
    using h(1) reply by (cases "hv_shared (change sv)") (auto simp: reply_error_def)
  let ?st = "note_device_inventory (note_controller_seen st) (of_nat (length (attached_devices (hv_ports (change sv)))))"
  from h(1) st obtain st' r where r: "handover_commit (se_os env) (se_backend env) ?st cid (unat ep) now = Inr (st', r)"
    "shared = Some st'" "reply = reply_of r" by (auto simp: Let_def)
  then obtain status where "r = Inr status" using reply by (cases r) (auto simp: reply_of_def reply_error_def)
  then show ?thesis using st r(1,2) h(2) by auto
qed

text \<open>
  C9: The operator's commit hands the device to the connection the operator saw, and only if no other
  hand-over came in between. The tool resolves the candidate and the epoch in one status query and commits
  them on a second connection; whatever happens between the two, a commit that is reported as successful
  leaves exactly that connection the owner, one epoch later, and just before it was either still the staged
  candidate in the same epoch, or had been committed by somebody else in that very epoch.
\<close>

theorem tool_commits_what_it_saw:
  assumes "run_tool (live_server env) (sv, [(c1, t1), (c2, t2)]) (ToolCommit ''candidate'') = Inr (s', Inr out)"
    "hv_shared (c1 sv) = Some st1" "epoch (sh_ownership st1) < 2 ^ 64" "lease (sh_ownership st1) < 2 ^ 64"
  shows "\<exists>seen sv1 st2 st'. candidate (fst (expire_candidate (sh_ownership st1) t1)) = Some seen \<and>
    sv1 = (c1 sv)\<lparr>hv_shared := hv_shared sv1\<rparr> \<and> hv_shared (c2 sv1) = Some st2 \<and>
    s' = ((c2 sv1)\<lparr>hv_shared := Some st'\<rparr>, []) \<and>
    owner (sh_ownership st') = cand_id seen \<and> epoch (sh_ownership st') = epoch (sh_ownership st1) + 1 \<and>
    (owner (sh_ownership st2) = cand_id seen \<and> epoch (sh_ownership st2) = epoch (sh_ownership st1) + 1 \<or>
     (\<exists>cand. candidate (sh_ownership st2) = Some cand \<and> cand_id cand = cand_id seen \<and>
        epoch (sh_ownership st2) = epoch (sh_ownership st1)))"
proof -
  let ?ow = "fst (expire_candidate (sh_ownership st1) t1)"
  from assms(1) obtain s1 sn conn where run:
    "tool_status (live_server env) (sv, [(c1, t1), (c2, t2)]) = (s1, Inr sn)" "tool_resolve sn ''candidate'' = Inr conn"
    "run_handover (live_server env) s1 (HoCommit conn (sn_epoch sn)) = (s', Inr out)"
    by (auto simp: with_snapshot_def and_then_def split: sum.splits prod.splits)
  from status_exchange [OF run(1) assms(2-4)] obtain st1' where s1: "s1 = ((c1 sv)\<lparr>hv_shared := Some st1'\<rparr>, [(c2, t2)])"
    "sn_candidate sn = map_option cand_id (candidate ?ow)" "sn_epoch sn = of_nat (epoch (sh_ownership st1))" by blast
  obtain seen where seen: "candidate ?ow = Some seen" "conn = cand_id seen"
    using run(2) s1(2) by (auto simp: tool_resolve_def resolve_role_def)
  let ?sv1 = "(c1 sv)\<lparr>hv_shared := Some st1'\<rparr>"
  from commit_exchange [OF run(3) [unfolded s1(1)]] obtain st2 st' status where c: "hv_shared (c2 ?sv1) = Some st2"
    "s' = ((c2 ?sv1)\<lparr>hv_shared := Some st'\<rparr>, [])"
    "handover_commit (se_os env) (se_backend env)
      (note_device_inventory (note_controller_seen st2) (of_nat (length (attached_devices (hv_ports (c2 ?sv1))))))
      conn (unat (sn_epoch sn)) t2 = Inr (st', Inr status)" by blast
  have ep: "unat (sn_epoch sn) = epoch (sh_ownership st1)" using assms(3) s1(3) by (simp add: unat_of_nat)
  note won = commit_success [OF c(3), unfolded ep]
  show ?thesis
    by (rule exI [of _ seen], rule exI [of _ ?sv1], rule exI [of _ st2], rule exI [of _ st'])
       (use seen c won in \<open>auto simp: note_device_inventory_def note_controller_seen_def\<close>)
qed

text \<open>The ready candidate of the example, committed through the tool while a device is attached.\<close>

definition sample_ports :: "(u8 \<times> u8, nat) port_worker" where
  "sample_ports = \<lparr>pw_devices = [Some \<lparr>at_device = \<lparr>cd_identifier = (1, 4), cd_speed = Some High, cd_token = 9\<rparr>, at_instance = 9\<rparr>],
     pw_portsc = [], pw_cancelled = {}, pw_listeners = []\<rparr>"

definition noted :: "(nat, nat option) shared" where
  "noted = note_device_inventory (note_controller_seen run_ready) 1"

lemma noted_ownership:
  "sh_ownership noted = (sh_ownership run_ready)\<lparr>controller_seen := True, device_count := Some 1\<rparr>"
  by (simp add: noted_def note_device_inventory_def note_controller_seen_def)

lemma noted_again: "note_device_inventory (note_controller_seen noted) 1 = noted"
  by (simp add: noted_def note_device_inventory_def note_controller_seen_def)

lemma noted_status: "handover_status_of noted 250 = (noted, render_locked (sh_ownership noted))"
  by (simp add: handover_status_of_def noted_ownership run_eqs expire_candidate_def Let_def)

definition noted_committed :: "(nat, nat option) shared" where
  "noted_committed = noted\<lparr>sh_backend := Some 11, sh_ownership := (sh_ownership noted)
     \<lparr>candidate := None, prev := 0, prev_reg := Some (reg_example 10), owner := 1,
      owner_reg := Some (reg_example 11), epoch := 2, committed_at := Some 300\<rparr>\<rparr>"

lemma noted_commit:
  "handover_commit plain_os line_backend noted 1 1 300 =
     Inr (noted_committed, Inr (render_locked (sh_ownership noted_committed)))"
proof -
  let ?ow = "sh_ownership noted"
  let ?c = "\<lparr>cand_id = 1, cand_reg = reg_example 11, cand_deadline = 2100, cand_ready = True\<rparr>"
  have own: "candidate ?ow = Some ?c" "owner ?ow = 0" "epoch ?ow = 1" "owner_reg ?ow = Some (reg_example 10)"
    "device_count ?ow = Some 1" "mapped_of ?ow 0 = []"
    by (simp_all add: noted_ownership run_eqs mapped_of_def)
  have pf: "preflight_hard plain_os ?ow ?c [] chk = Inr ()" for chk
    by (simp add: preflight_hard_def own ranges_cover_def)
  have "handover_commit plain_os line_backend noted 1 1 300 = Inr (commit_install plain_os line_backend noted ?ow ?c 300)"
    by (simp add: handover_commit_def expire_candidate_def own pf Let_def)
  also have "commit_install plain_os line_backend noted ?ow ?c 300 = (noted_committed, Inr (render_locked (sh_ownership noted_committed)))"
    by (simp add: commit_install_def own noted_committed_def Let_def numeral_2_eq_2)
  finally show ?thesis .
qed

lemma short_status:
  assumes "hs_live h = [0, 1]" "hs_owner h \<in> {Some 0, Some 1}" "hs_prev h \<in> {None, Some 0}" "hs_candidate h \<in> {None, Some 1}"
    "hs_epoch h \<in> {1, 2}" "hs_lease_ms h = 5000" "hs_devices h = Some 1"
  shows "length (render_status h) \<le> 1021"
proof -
  have b: "length (show_bool b) \<le> 5" for b by (simp add: show_bool_def)
  have i: "length (show_id v) \<le> 20" for v using show_u64_length by (auto simp: show_id_def split: option.split)
  have n: "length (show_nat (hs_epoch h)) \<le> 20" "length (show_nat (hs_lease_ms h)) \<le> 20"
    using show_nat_length [of "hs_epoch h" 19] show_nat_length [of "hs_lease_ms h" 19] assms(5,6) by auto
  have l: "length (show_list (hs_live h)) \<le> 42"
    using assms(1) show_u64_length [of 0] show_u64_length [of 1] by simp
  show ?thesis
    unfolding render_status_def length_append
    using i [of "hs_owner h"] i [of "hs_prev h"] i [of "hs_candidate h"] i [of "hs_devices h"] n l
      b [of "hs_candidate_ready h"] b [of "hs_require_ready h"] b [of "hs_require_device h"] b [of "hs_binding h"]
      b [of "hs_controller h"] b [of "hs_deferred_a3 h"] by simp
qed

lemma noted_lines:
  "length (render_status (render_locked (sh_ownership noted))) \<le> 1021"
  "length (render_status (render_locked (sh_ownership noted_committed))) \<le> 1021"
proof -
  have "sorted_list_of_set {1, 0 :: u64} = [0, 1]" by code_simp
  then show "length (render_status (render_locked (sh_ownership noted))) \<le> 1021"
    "length (render_status (render_locked (sh_ownership noted_committed))) \<le> 1021"
    by (auto intro!: short_status simp: render_locked_def noted_committed_def noted_ownership run_eqs opt_id_def)
qed

lemma sample_commit:
  "\<exists>s' out. run_tool (live_server one_port_env) (\<lparr>hv_ports = sample_ports, hv_shared = Some run_ready\<rparr>, [(id, 250), (id, 300)])
     (ToolCommit ''candidate'') = Inr (s', Inr out)"
proof -
  let ?sv = "\<lparr>hv_ports = sample_ports, hv_shared = Some run_ready\<rparr>" and ?sn = "\<lparr>hv_ports = sample_ports, hv_shared = Some noted\<rparr>"
  let ?h = "render_locked (sh_ownership noted)" and ?h2 = "render_locked (sh_ownership noted_committed)"
  have ports: "length (attached_devices sample_ports) = 1"
    by (simp add: sample_ports_def attached_devices_def List.map_filter_def)
  have env: "se_os one_port_env = plain_os" "se_backend one_port_env = line_backend" by (simp_all add: one_port_env_def)
  have hs: "hs_epoch ?h < 2 ^ 64" "hs_lease_ms ?h < 2 ^ 64" "hs_epoch ?h = 1" "hs_candidate ?h = Some 1"
    "hs_epoch ?h2 < 2 ^ 64" "hs_lease_ms ?h2 < 2 ^ 64"
    by (simp_all add: render_locked_def noted_ownership noted_committed_def run_eqs)
  obtain body where body: "receive_reply (send_reply_line (ReplyOk (render_status ?h))) = Inr (ReplyOk body)"
    "parse_snapshot body = snapshot_of ?h"
    using status_arrives [OF hs(1,2)] noted_lines(1) by (auto simp: ok_reply_arrives reply_of_def)
  obtain body2 where body2: "receive_reply (send_reply_line (ReplyOk (render_status ?h2))) = Inr (ReplyOk body2)"
    using status_arrives [OF hs(5,6)] noted_lines(2) by (auto simp: ok_reply_arrives reply_of_def)
  have 1: "tool_status (live_server one_port_env) (?sv, [(id, 250), (id, 300)]) = ((?sn, [(id, 300)]), Inr (snapshot_of ?h))"
    using handover_exchange [of HoStatus one_port_env ?sv id 250 "[(id, 300)]"] noted_status body
    by (simp add: tool_status_def ports env reply_of_def Let_def noted_def [symmetric])
  have len: "length (encode_command (HoCommit 1 1)) \<le> 1024"
    using show_u64_length [of 1] by simp
  have 2: "run_handover (live_server one_port_env) (?sn, [(id, 300)]) (HoCommit 1 1) =
      ((\<lparr>hv_ports = sample_ports, hv_shared = Some noted_committed\<rparr>, []), Inr (PrintedBody body2))"
    using handover_exchange [OF _ len, of one_port_env ?sn id 300 "[]"] noted_commit body2
    by (simp add: run_handover_def ports env reply_of_def Let_def noted_again report_def)
  have "tool_resolve (snapshot_of ?h) ''candidate'' = Inr 1" "sn_epoch (snapshot_of ?h) = 1"
    using hs by (simp_all add: tool_resolve_def resolve_role_def snapshot_of_def)
  with 1 2 show ?thesis by (simp add: with_snapshot_def and_then_def)
qed

theorem tool_commits_what_it_saw_witness:
  "\<exists>s' out. run_tool (live_server one_port_env) (\<lparr>hv_ports = sample_ports, hv_shared = Some run_ready\<rparr>, [(id, 250), (id, 300)])
     (ToolCommit ''candidate'') = Inr (s', Inr out) \<and>
   (\<exists>st'. hv_shared (fst s') = Some st' \<and> owner (sh_ownership st') = 1 \<and> epoch (sh_ownership st') = 2)"
proof -
  obtain s' out where run: "run_tool (live_server one_port_env)
     (\<lparr>hv_ports = sample_ports, hv_shared = Some run_ready\<rparr>, [(id, 250), (id, 300)]) (ToolCommit ''candidate'') = Inr (s', Inr out)"
    using sample_commit by blast
  have st: "hv_shared (id \<lparr>hv_ports = sample_ports, hv_shared = Some run_ready\<rparr>) = Some run_ready"
    "epoch (sh_ownership run_ready) < 2 ^ 64" "lease (sh_ownership run_ready) < 2 ^ 64"
    "fst (expire_candidate (sh_ownership run_ready) 250) = sh_ownership run_ready" "epoch (sh_ownership run_ready) = 1"
    "\<And>c. candidate (sh_ownership run_ready) = Some c \<Longrightarrow> cand_id c = 1"
    by (auto simp: run_eqs expire_candidate_def)
  from tool_commits_what_it_saw [OF run st(1-3)] show ?thesis using run st(4-6) by auto
qed

end
