(* ===== verification/Nusb.thy ===== *)
theory Nusb
  imports RealEndpoint Port
begin

text \<open>
  The real device behind the controller (\<open>src/device/xhci/nusb.rs\<close>): requests become calls of the nusb
  library and its results become the results the endpoint handles expect. The library and the device are
  parameters: \<open>nusb_device\<close> answers control requests over a state of its own, the completions of the
  other endpoints are arguments. The worker task of a control endpoint and its two channels are one
  state; its steps are turns of the task.
\<close>

section \<open>Types of the nusb library\<close>

datatype transfer_error =
    NusbCancelled
  | NusbStall
  | NusbDisconnected
  | NusbFault
  | NusbInvalidArgument
  | NusbUnknown "32 word"

datatype recipient = RecipientDevice | RecipientInterface | RecipientEndpoint
datatype control_type = StandardType | ClassType | VendorType
datatype nusb_speed = NusbLow | NusbFull | NusbHigh | NusbSuper | NusbSuperPlus | NusbNewSpeed

record control_out_request =
  co_control_type :: control_type
  co_recipient :: recipient
  co_request :: u8
  co_value :: u16
  co_index :: u16
  co_data :: "u8 list"

record control_in_request =
  ci_control_type :: control_type
  ci_recipient :: recipient
  ci_request :: u8
  ci_value :: u16
  ci_index :: u16
  ci_length :: u16

record 'd nusb_device =
  nu_control_out :: "'d \<Rightarrow> control_out_request \<Rightarrow> 'd \<times> transfer_error option"
  nu_control_in :: "'d \<Rightarrow> control_in_request \<Rightarrow> 'd \<times> (transfer_error + u8 list)"

section \<open>Conversions\<close>

primrec speed_from_nusb :: "nusb_speed \<Rightarrow> speed res" where
  "speed_from_nusb NusbLow = Inr Low"
| "speed_from_nusb NusbFull = Inr Full"
| "speed_from_nusb NusbHigh = Inr High"
| "speed_from_nusb NusbSuper = Inr Super"
| "speed_from_nusb NusbSuperPlus = Inr SuperPlus"
| "speed_from_nusb NusbNewSpeed = Inl NotImplemented"

primrec map_error :: "transfer_error \<Rightarrow> control_result" where
  "map_error NusbCancelled = CtlTransactionError"
| "map_error NusbStall = CtlStall"
| "map_error NusbDisconnected = CtlDisconnect"
| "map_error NusbFault = CtlTransactionError"
| "map_error NusbInvalidArgument = CtlTransactionError"
| "map_error (NusbUnknown n) = CtlTransactionError"

definition map_status :: "transfer_error option \<Rightarrow> in_status" where
  "map_status status =
     (case status of None \<Rightarrow> InSuccess
      | Some err \<Rightarrow> (case err of NusbStall \<Rightarrow> InStall | NusbDisconnected \<Rightarrow> InDisconnect | _ \<Rightarrow> InTransactionError))"

definition map_out_status :: "transfer_error option \<Rightarrow> out_result" where
  "map_out_status status =
     (case status of None \<Rightarrow> OutSuccess
      | Some err \<Rightarrow> (case err of NusbStall \<Rightarrow> OutStall | NusbDisconnected \<Rightarrow> OutDisconnect | _ \<Rightarrow> OutTransactionError))"

text \<open>The other values of both fields panic.\<close>

definition extract_recipient_and_type :: "u8 \<Rightarrow> (recipient \<times> control_type) res" where
  "extract_recipient_and_type request_type =
     (let v = request_type AND 0x1f in
      rbind (if v = 0 then Inr RecipientDevice else if v = 1 then Inr RecipientInterface
             else if v = 2 then Inr RecipientEndpoint else Inl UnreachableCode) (\<lambda>recipient.
      let t = drop_bit 5 request_type AND 0x3 in
      rbind (if t = 0 then Inr StandardType else if t = 1 then Inr ClassType
             else if t = 2 then Inr VendorType else Inl UnreachableCode) (\<lambda>ty.
      Inr (recipient, ty))))"

definition endpoint_id_to_address :: "u8 \<Rightarrow> u8" where
  "endpoint_id_to_address endpoint_id = word_rotr 1 endpoint_id"

definition determine_buffer_size :: "nat \<Rightarrow> nat \<Rightarrow> nat res" where
  "determine_buffer_size guest_transfer_length max_packet_size =
     (if guest_transfer_length \<le> max_packet_size then Inr max_packet_size
      else rbind (require (max_packet_size \<noteq> 0) DivByZero) (\<lambda>_.
        let n = (guest_transfer_length + max_packet_size - 1) div max_packet_size * max_packet_size in
        rbind (require (n < 2 ^ 64) ArithOverflow) (\<lambda>_. Inr n)))"

section \<open>The device\<close>

text \<open>
  The claimed interfaces, each as the endpoint addresses of its descriptor. \<open>numbers\<close> are the interface
  numbers of the active configuration, if there is one.
\<close>

definition device_wrapper_try_from :: "u8 list option \<Rightarrow> (u8 \<Rightarrow> u8 list option) \<Rightarrow> u8 list list option" where
  "device_wrapper_try_from numbers claim =
     (case numbers of None \<Rightarrow> None | Some ns \<Rightarrow> those (map claim ns))"

fun get_interface_number_containing_endpoint :: "u8 list list \<Rightarrow> u8 \<Rightarrow> nat option" where
  "get_interface_number_containing_endpoint [] address = None"
| "get_interface_number_containing_endpoint (i # is) address =
     (if address \<in> set i then Some 0 else map_option Suc (get_interface_number_containing_endpoint is address))"

text \<open>\<open>opens n address\<close>: the library opens the endpoint of interface \<open>n\<close>.\<close>

definition open_endpoint :: "u8 list list \<Rightarrow> (nat \<Rightarrow> u8 \<Rightarrow> bool) \<Rightarrow> u8 \<Rightarrow> bool" where
  "open_endpoint interfaces opens endpoint_id =
     (let address = endpoint_id_to_address endpoint_id in
      case get_interface_number_containing_endpoint interfaces address of
        None \<Rightarrow> False | Some n \<Rightarrow> opens n address)"

section \<open>Control endpoints\<close>

text \<open>
  The handle and its worker task: the two unbounded channels, and whether the task still runs.
\<close>

record control_link =
  cl_requests :: "usb_request list"
  cl_responses :: "control_result list"
  cl_worker :: bool

definition control_link_new :: control_link where
  "control_link_new = \<lparr>cl_requests = [], cl_responses = [], cl_worker = True\<rparr>"

definition submit_control_request :: "control_link \<Rightarrow> usb_request \<Rightarrow> control_link res" where
  "submit_control_request l r =
     rbind (require (cl_worker l) ChannelClosed) (\<lambda>_. Inr (l\<lparr>cl_requests := cl_requests l @ [r]\<rparr>))"

text \<open>\<open>None\<close> is waiting; a dead worker has dropped its end of the response channel.\<close>

definition next_control_completion :: "control_link \<Rightarrow> (control_result \<times> control_link) option" where
  "next_control_completion l =
     (case cl_responses l of
        a # as \<Rightarrow> Some (a, l\<lparr>cl_responses := as\<rparr>)
      | [] \<Rightarrow> if cl_worker l then None else Some (CtlTransactionError, l))"

definition control_link_cancel :: "control_link \<Rightarrow> control_link" where
  "control_link_cancel l = l"

definition control_link_clear_halt :: "control_link \<Rightarrow> control_link" where
  "control_link_clear_halt l = l"

definition control_link_drop :: "control_link \<Rightarrow> control_link" where
  "control_link_drop l = l\<lparr>cl_worker := False\<rparr>"

definition serve_request :: "'d nusb_device \<Rightarrow> 'd \<Rightarrow> usb_request \<Rightarrow> ('d \<times> control_result) res" where
  "serve_request nusb d r =
     rbind (extract_recipient_and_type (ur_request_type r)) (\<lambda>(recipient, control_type).
     let is_out_request = (ur_request_type r AND 0x80 = 0) in
     if is_out_request then
       let data = (case ur_data r of Some bs \<Rightarrow> bs | None \<Rightarrow> []);
           (d, err) = nu_control_out nusb d \<lparr>co_control_type = control_type, co_recipient = recipient,
             co_request = ur_request r, co_value = ur_value r, co_index = ur_index r, co_data = data\<rparr> in
       Inr (d, case err of None \<Rightarrow> SuccessfulControlOut | Some e \<Rightarrow> map_error e)
     else
       let (d, result) = nu_control_in nusb d \<lparr>ci_control_type = control_type, ci_recipient = recipient,
             ci_request = ur_request r, ci_value = ur_value r, ci_index = ur_index r, ci_length = ur_length r\<rparr> in
       Inr (d, case result of Inr data \<Rightarrow> SuccessfulControlIn data | Inl e \<Rightarrow> map_error e))"

text \<open>A turn of the task; a panic ends it, and with it the requests it has not taken.\<close>

definition control_worker_turn :: "'d nusb_device \<Rightarrow> 'd \<Rightarrow> control_link \<Rightarrow> 'd \<times> control_link" where
  "control_worker_turn nusb d l =
     (case cl_requests l of
        [] \<Rightarrow> (d, l)
      | r # rs \<Rightarrow>
          if \<not> cl_worker l then (d, l)
          else (case serve_request nusb d r of
             Inl _ \<Rightarrow> (d, l\<lparr>cl_requests := [], cl_worker := False\<rparr>)
           | Inr (d, a) \<Rightarrow> (d, l\<lparr>cl_requests := rs, cl_responses := cl_responses l @ [a]\<rparr>)))"

section \<open>Bulk and interrupt endpoints\<close>

text \<open>\<open>nh_pending\<close>: the transfers the library has in flight on the endpoint.\<close>

record normal_handle =
  nh_id :: u8
  nh_request_length :: nat
  nh_open :: bool
  nh_pending :: nat

definition normal_handle_new :: "u8 \<Rightarrow> normal_handle" where
  "normal_handle_new endpoint_id = \<lparr>nh_id = endpoint_id, nh_request_length = 0, nh_open = False, nh_pending = 0\<rparr>"

text \<open>The endpoint is opened on first use; \<open>opened\<close> says whether \<open>open_endpoint\<close> succeeds.\<close>

definition ensure_endpoint :: "bool \<Rightarrow> normal_handle \<Rightarrow> normal_handle res" where
  "ensure_endpoint opened h =
     (if nh_open h then Inr h
      else rbind (require opened UnwrapFailed) (\<lambda>_. Inr (h\<lparr>nh_open := True\<rparr>)))"

definition real_out_submit :: "bool \<Rightarrow> normal_handle \<Rightarrow> u8 list \<Rightarrow> (normal_handle \<times> u8 list) res" where
  "real_out_submit opened h data =
     rbind (ensure_endpoint opened h) (\<lambda>h. Inr (h\<lparr>nh_pending := nh_pending h + 1\<rparr>, data))"

definition real_out_completion :: "bool \<Rightarrow> normal_handle \<Rightarrow> transfer_error option \<Rightarrow> (normal_handle \<times> out_result) res" where
  "real_out_completion opened h status =
     rbind (ensure_endpoint opened h) (\<lambda>h. Inr (h\<lparr>nh_pending := nh_pending h - 1\<rparr>, map_out_status status))"

text \<open>A submission of no bytes reaches the device as no transfer at all.\<close>

definition real_in_submit :: "bool \<Rightarrow> nat \<Rightarrow> normal_handle \<Rightarrow> nat \<Rightarrow> (normal_handle \<times> nat option) res" where
  "real_in_submit opened max_packet_size h len =
     (let h = h\<lparr>nh_request_length := len\<rparr> in
      if len = 0 then Inr (h, None)
      else rbind (ensure_endpoint opened h) (\<lambda>h.
        rbind (determine_buffer_size len max_packet_size) (\<lambda>request_len.
        Inr (h\<lparr>nh_pending := nh_pending h + 1\<rparr>, Some request_len))))"

text \<open>\<open>status\<close> and \<open>data\<close>: the completion of the library, with as many bytes as were received.\<close>

definition real_in_completion ::
  "bool \<Rightarrow> normal_handle \<Rightarrow> transfer_error option \<Rightarrow> u8 list \<Rightarrow> (normal_handle \<times> in_result) res" where
  "real_in_completion opened h status data =
     (if nh_request_length h = 0 then Inr (h, \<lparr>ir_status = InSuccess, ir_data = []\<rparr>)
      else rbind (ensure_endpoint opened h) (\<lambda>h.
        Inr (h\<lparr>nh_pending := nh_pending h - 1\<rparr>, \<lparr>ir_status = map_status status, ir_data = data\<rparr>)))"

text \<open>Cancelling waits for every pending transfer; the count is what \<open>pending()\<close> returns.\<close>

fun drain_pending :: "normal_handle \<Rightarrow> nat \<Rightarrow> normal_handle" where
  "drain_pending h 0 = h"
| "drain_pending h (Suc n) = drain_pending (h\<lparr>nh_pending := nh_pending h - 1\<rparr>) n"

definition real_cancel :: "bool \<Rightarrow> normal_handle \<Rightarrow> normal_handle res" where
  "real_cancel opened h = rbind (ensure_endpoint opened h) (\<lambda>h. Inr (drain_pending h (nh_pending h)))"

definition real_clear_halt :: "bool \<Rightarrow> normal_handle \<Rightarrow> normal_handle res" where
  "real_clear_halt opened h = ensure_endpoint opened h"

end
