(* ===== verification/NusbSpec.thy ===== *)
theory NusbSpec
  imports Nusb EndpointSpec
begin

text \<open>
  What the endpoint handles get from the real device: control requests served in order and with the
  setup packet of the guest, buffers that fit, and the ways a guest can lose the control endpoint.
\<close>

section \<open>Control requests\<close>

text \<open>
  The setup packet of a request as the USB specification lays it out, from the fields handed to the
  library: direction in bit 7, type in bits 5 and 6, recipient below.
\<close>

primrec recipient_code :: "recipient \<Rightarrow> u8" where
  "recipient_code RecipientDevice = 0"
| "recipient_code RecipientInterface = 1"
| "recipient_code RecipientEndpoint = 2"

primrec type_code :: "control_type \<Rightarrow> u8" where
  "type_code StandardType = 0"
| "type_code ClassType = 1"
| "type_code VendorType = 2"

definition request_type_byte :: "bool \<Rightarrow> recipient \<times> control_type \<Rightarrow> u8" where
  "request_type_byte device_to_host rt =
     (if device_to_host then 0x80 else 0) OR push_bit 5 (type_code (snd rt)) OR recipient_code (fst rt)"

definition valid_request_type :: "u8 \<Rightarrow> bool" where
  "valid_request_type t \<longleftrightarrow> t AND 0x1f \<le> 2 \<and> drop_bit 5 t AND 0x3 \<le> 2"

lemma word8_cases: "(x :: u8) \<in> set (map of_nat [0..<256])"
proof -
  have "unat x < 256" using unat_lt_max [of x] by simp
  then have "of_nat (unat x) \<in> set (map of_nat [0..<256] :: u8 list)" unfolding set_map set_upt by (intro imageI) simp
  then show ?thesis by simp
qed

lemma request_type_exact:
  "case extract_recipient_and_type t of
     Inl f \<Rightarrow> \<not> valid_request_type t
   | Inr rt \<Rightarrow> valid_request_type t \<and> request_type_byte (t AND 0x80 \<noteq> 0) rt = t"
proof -
  have "list_all (\<lambda>t. case extract_recipient_and_type t of
     Inl f \<Rightarrow> \<not> valid_request_type t
   | Inr rt \<Rightarrow> valid_request_type t \<and> request_type_byte (t AND 0x80 \<noteq> 0) rt = t) (map of_nat [0..<256])"
    by code_simp
  then show ?thesis using word8_cases [of t] by (simp only: list_all_iff)
qed

lemma request_type_valid:
  "valid_request_type t \<longleftrightarrow> (\<exists>rt. extract_recipient_and_type t = Inr rt)"
  "extract_recipient_and_type t = Inr rt \<Longrightarrow> request_type_byte (t AND 0x80 \<noteq> 0) rt = t"
  using request_type_exact [of t] by (auto split: sum.splits)

text \<open>
  A device on the wire: it sees the eight bytes of the setup packet and the data of an OUT request. The
  library builds the setup packet from the fields it is given, the length from the data.
\<close>

type_synonym 'd wire_device = "'d \<Rightarrow> u8 list \<Rightarrow> u8 list \<Rightarrow> 'd \<times> (transfer_error + u8 list)"

definition setup_packet :: "u8 \<Rightarrow> u8 \<Rightarrow> u16 \<Rightarrow> u16 \<Rightarrow> u16 \<Rightarrow> u8 list" where
  "setup_packet request_type request value index len =
     [request_type, request] @ le_bytes 2 value @ le_bytes 2 index @ le_bytes 2 len"

definition wire_nusb :: "'d wire_device \<Rightarrow> 'd nusb_device" where
  "wire_nusb dev = \<lparr>
     nu_control_out = (\<lambda>d c. let (d, r) = dev d (setup_packet (request_type_byte False (co_recipient c, co_control_type c))
         (co_request c) (co_value c) (co_index c) (of_nat (length (co_data c)))) (co_data c) in
       (d, case r of Inl e \<Rightarrow> Some e | Inr _ \<Rightarrow> None)),
     nu_control_in = (\<lambda>d c. dev d (setup_packet (request_type_byte True (ci_recipient c, ci_control_type c))
         (ci_request c) (ci_value c) (ci_index c) (ci_length c)) [])\<rparr>"

text \<open>A request the program carries out as it is: an OUT request with as much data as it announces.\<close>

definition faithful_request :: "usb_request \<Rightarrow> bool" where
  "faithful_request r \<longleftrightarrow> valid_request_type (ur_request_type r) \<and>
     (ur_request_type r AND 0x80 = 0 \<longrightarrow> length (request_data r) = unat (ur_length r))"

definition wire_answer :: "'d wire_device \<Rightarrow> 'd \<Rightarrow> usb_request \<Rightarrow> 'd \<times> control_result" where
  "wire_answer dev d r =
     (let out = (ur_request_type r AND 0x80 = 0);
          (d, a) = dev d (build_setup_bytes r) (if out then request_data r else []) in
      (d, case a of Inl e \<Rightarrow> map_error e | Inr data \<Rightarrow> if out then SuccessfulControlOut else SuccessfulControlIn data))"

lemma low_byte: "ucast (w AND 0xff) = (ucast (w :: u16) :: u8)"
proof -
  have "w AND 0xff = take_bit 8 w" by (simp add: take_bit_eq_mask mask_eq_exp_minus_1)
  then show ?thesis by (intro bit_word_eqI) (auto simp: bit_simps)
qed

lemma setup_packet_bytes:
  "setup_packet (ur_request_type r) (ur_request r) (ur_value r) (ur_index r) (ur_length r) = build_setup_bytes r"
  by (simp add: setup_packet_def build_setup_bytes_def le_bytes_2 low_byte)

lemma serve_faithful:
  assumes "faithful_request r"
  shows "serve_request (wire_nusb dev) d r = Inr (wire_answer dev d r)"
proof -
  obtain rt where rt: "extract_recipient_and_type (ur_request_type r) = Inr rt"
    using assms request_type_valid(1) by (auto simp: faithful_request_def)
  note b = request_type_valid(2) [OF rt]
  obtain rc ty where rt': "rt = (rc, ty)" by (cases rt)
  show ?thesis
  proof (cases "ur_request_type r AND 0x80 = 0")
    case True
    then have "of_nat (length (request_data r)) = ur_length r" using assms by (simp add: faithful_request_def)
    then show ?thesis using True rt rt' b setup_packet_bytes [of r]
      by (auto simp: serve_request_def wire_answer_def wire_nusb_def request_data_def Let_def case_prod_unfold
          split: sum.splits)
  next
    case False
    then show ?thesis using rt rt' b setup_packet_bytes [of r]
      by (auto simp: serve_request_def wire_answer_def wire_nusb_def Let_def case_prod_unfold split: sum.splits)
  qed
qed

section \<open>The order of the answers\<close>

datatype link_action = LinkSubmit usb_request | LinkTurn | LinkTake

text \<open>A run of the handle and its worker; \<open>sub\<close> and \<open>got\<close> collect what was submitted and received.\<close>

fun link_run ::
  "'d nusb_device \<Rightarrow> link_action list \<Rightarrow> 'd \<times> control_link \<times> usb_request list \<times> control_result list \<Rightarrow>
     ('d \<times> control_link \<times> usb_request list \<times> control_result list) res" where
  "link_run nusb [] s = Inr s"
| "link_run nusb (LinkSubmit r # as) (d, l, sub, got) =
     rbind (submit_control_request l r) (\<lambda>l. link_run nusb as (d, l, sub @ [r], got))"
| "link_run nusb (LinkTurn # as) (d, l, sub, got) =
     (let (d, l) = control_worker_turn nusb d l in link_run nusb as (d, l, sub, got))"
| "link_run nusb (LinkTake # as) (d, l, sub, got) =
     (case next_control_completion l of
        None \<Rightarrow> link_run nusb as (d, l, sub, got)
      | Some (a, l) \<Rightarrow> link_run nusb as (d, l, sub, got @ [a]))"

fun wire_answers :: "'d wire_device \<Rightarrow> 'd \<Rightarrow> usb_request list \<Rightarrow> 'd \<times> control_result list" where
  "wire_answers dev d [] = (d, [])"
| "wire_answers dev d (r # rs) =
     (let (d, a) = wire_answer dev d r; (d, as) = wire_answers dev d rs in (d, a # as))"

lemma wire_answers_snoc:
  "wire_answers dev d (rs @ [r]) =
     (let (d1, as) = wire_answers dev d rs; (d2, a) = wire_answer dev d1 r in (d2, as @ [a]))"
  by (induction rs arbitrary: d) (simp_all add: Let_def case_prod_unfold)

definition link_ok :: "'d wire_device \<Rightarrow> 'd \<Rightarrow> 'd \<times> control_link \<times> usb_request list \<times> control_result list \<Rightarrow> bool" where
  "link_ok dev d0 s =
     (case s of (d, l, sub, got) \<Rightarrow> cl_worker l \<and>
        (\<exists>served. sub = served @ cl_requests l \<and> (\<forall>r \<in> set sub. faithful_request r) \<and>
           wire_answers dev d0 served = (d, got @ cl_responses l)))"

lemma link_turn_ok:
  assumes "link_ok dev d0 (d, l, sub, got)"
  shows "case control_worker_turn (wire_nusb dev) d l of (d, l) \<Rightarrow> link_ok dev d0 (d, l, sub, got)"
proof (cases "cl_requests l")
  case Nil
  then show ?thesis using assms by (simp add: control_worker_turn_def)
next
  case (Cons r rs)
  from assms obtain served where s: "cl_worker l" "sub = served @ r # rs" "\<forall>r \<in> set sub. faithful_request r"
    "wire_answers dev d0 served = (d, got @ cl_responses l)" by (auto simp: link_ok_def Cons)
  obtain d1 a where a: "wire_answer dev d r = (d1, a)" by fastforce
  have "serve_request (wire_nusb dev) d r = Inr (d1, a)" using serve_faithful [of r dev d] s(2,3) a by simp
  moreover have "wire_answers dev d0 (served @ [r]) = (d1, (got @ cl_responses l) @ [a])"
    by (simp add: wire_answers_snoc s(4) a)
  ultimately show ?thesis using s(1-3) Cons
    by (auto simp: link_ok_def control_worker_turn_def intro!: exI [of _ "served @ [r]"])
qed

lemma link_run_ok:
  assumes "link_ok dev d0 s" "\<forall>r. LinkSubmit r \<in> set as \<longrightarrow> faithful_request r"
  shows "\<exists>s'. link_run (wire_nusb dev) as s = Inr s' \<and> link_ok dev d0 s'"
  using assms
proof (induction as arbitrary: s)
  case Nil then show ?case by simp
next
  case (Cons act as)
  obtain d l sub got where s: "s = (d, l, sub, got)" by (cases s)
  have rest: "\<forall>r. LinkSubmit r \<in> set as \<longrightarrow> faithful_request r" using Cons.prems(2) by simp
  show ?case
  proof (cases act)
    case (LinkSubmit r)
    then have "link_ok dev d0 (d, l\<lparr>cl_requests := cl_requests l @ [r]\<rparr>, sub @ [r], got)"
      using Cons.prems s by (auto simp: link_ok_def)
    then show ?thesis using Cons.IH [OF _ rest] Cons.prems(1) s LinkSubmit
      by (auto simp: submit_control_request_def link_ok_def)
  next
    case LinkTurn
    then show ?thesis using link_turn_ok [of dev d0 d l sub got] Cons.IH [OF _ rest] Cons.prems(1) s
      by (auto simp: case_prod_unfold Let_def)
  next
    case LinkTake
    show ?thesis
    proof (cases "cl_responses l")
      case Nil
      then have "next_control_completion l = None"
        using Cons.prems(1) s by (simp add: next_control_completion_def link_ok_def)
      then show ?thesis using Cons.IH [OF Cons.prems(1) rest] LinkTake s by simp
    next
      case (Cons a rs)
      then have "link_ok dev d0 (d, l\<lparr>cl_responses := rs\<rparr>, sub, got @ [a])"
        using Cons.prems(1) s by (auto simp: link_ok_def)
      then show ?thesis using Cons.IH [OF _ rest] Cons LinkTake s by (simp add: next_control_completion_def)
    qed
  qed
qed

text \<open>
  C24: Control requests reach the device as the guest wrote them and are answered in order. In every
  interleaving of submissions, turns of the worker and completions, the device has seen exactly the setup
  packets and data of the first requests submitted, one after the other, and the completions received, then
  those waiting, are its answers to them; the others wait in order, and the worker lives.
\<close>

theorem control_requests_in_order:
  assumes "\<forall>r. LinkSubmit r \<in> set as \<longrightarrow> faithful_request r"
  shows "\<exists>d l sub got served. link_run (wire_nusb dev) as (d0, control_link_new, [], []) = Inr (d, l, sub, got) \<and>
    sub = served @ cl_requests l \<and> wire_answers dev d0 served = (d, got @ cl_responses l) \<and> cl_worker l"
proof -
  have "link_ok dev d0 (d0, control_link_new, [], [])" by (simp add: link_ok_def control_link_new_def)
  from link_run_ok [OF this assms] obtain s' where s: "link_run (wire_nusb dev) as (d0, control_link_new, [], []) = Inr s'"
    "link_ok dev d0 s'" by blast
  obtain d l sub got where "s' = (d, l, sub, got)" by (cases s')
  with s show ?thesis by (auto simp: link_ok_def)
qed

text \<open>A device that counts the requests and answers with the setup packet.\<close>

definition echo_device :: "nat wire_device" where
  "echo_device d setup data = (d + 1, Inr setup)"

definition sample_request :: "u16 \<Rightarrow> usb_request" where
  "sample_request v = \<lparr>ur_address = 0x4020, ur_request_type = 0x80, ur_request = 6, ur_value = v, ur_index = 0,
     ur_length = 8, ur_data_pointer = Some 0x5000, ur_data = Some (replicate 8 0)\<rparr>"

lemma sample_faithful: "faithful_request (sample_request v)"
  by (simp add: faithful_request_def sample_request_def valid_request_type_def)

theorem control_requests_in_order_witness:
  "\<exists>l. link_run (wire_nusb echo_device) [LinkSubmit (sample_request 0x100), LinkTurn, LinkTake]
       (0, control_link_new, [], []) =
     Inr (1, l, [sample_request 0x100], [SuccessfulControlIn [0x80, 6, 0, 1, 0, 0, 8, 0]])"
proof -
  let ?as = "[LinkSubmit (sample_request 0x100), LinkTurn, LinkTake]"
  have f: "\<forall>r. LinkSubmit r \<in> set ?as \<longrightarrow> faithful_request r" using sample_faithful by simp
  from control_requests_in_order [OF f, of echo_device 0] obtain d l sub got served where
    r: "link_run (wire_nusb echo_device) ?as (0, control_link_new, [], []) = Inr (d, l, sub, got)"
    "sub = served @ cl_requests l" "wire_answers echo_device 0 served = (d, got @ cl_responses l)" by blast
  have "wire_answer echo_device 0 (sample_request 0x100) = (1, SuccessfulControlIn [0x80, 6, 0, 1, 0, 0, 8, 0])"
    by code_simp
  then have "sub = [sample_request 0x100]" "cl_requests l = []" "length got = 1"
    using r(1) serve_faithful [OF sample_faithful, of echo_device 0 "0x100"]
    by (auto simp: submit_control_request_def control_link_new_def control_worker_turn_def next_control_completion_def)
  then show ?thesis using r \<open>wire_answer echo_device 0 (sample_request 0x100) = _\<close>
    by (cases got) auto
qed

section \<open>Losing the control endpoint\<close>

text \<open>
  C25: A guest can lose the control endpoint of a device for good. A request whose type byte names a
  reserved recipient or the reserved type is accepted, panics the worker before it reaches the device and
  is reported as a transaction error; every later request of the driver then fails in the endpoint handle,
  at the TRB that completes it, which ends the endpoint's worker.
\<close>

theorem reserved_request_kills_endpoint:
  assumes "\<not> valid_request_type (ur_request_type r)" "cl_worker l" "cl_requests l = []" "cl_responses l = []"
  shows "\<exists>l1 l2. submit_control_request l r = Inr l1 \<and> control_worker_turn nusb d l1 = (d, l2) \<and>
    next_control_completion l2 = Some (CtlTransactionError, l2) \<and>
    (\<forall>req. submit_control_request l2 req = Inl ChannelClosed) \<and>
    (\<forall>h t p req. parser_trb ops m (ch_parser h) t = Inr (p, BreakOk req) \<longrightarrow>
       control_submit ops m (is_ok (submit_control_request l2 req)) h t = Inl ChannelClosed)"
proof -
  let ?l1 = "l\<lparr>cl_requests := [r]\<rparr>"
  let ?l2 = "?l1\<lparr>cl_requests := [], cl_worker := False\<rparr>"
  obtain f where "extract_recipient_and_type (ur_request_type r) = Inl f"
    using assms(1) request_type_valid(1) [of "ur_request_type r"] by (cases "extract_recipient_and_type (ur_request_type r)") auto
  then have "control_worker_turn nusb d ?l1 = (d, ?l2)"
    using assms(2) by (simp add: control_worker_turn_def serve_request_def)
  moreover have "submit_control_request l r = Inr ?l1" using assms(2,3) by (simp add: submit_control_request_def)
  moreover have closed: "submit_control_request ?l2 req = Inl ChannelClosed" for req
    by (simp add: submit_control_request_def)
  ultimately show ?thesis using assms(4)
    by (intro exI [of _ ?l1] exI [of _ ?l2]) (simp add: next_control_completion_def control_submit_def)
qed

theorem reserved_request_kills_endpoint_witness:
  "\<exists>l1 l2. submit_control_request control_link_new ((sample_request 0)\<lparr>ur_request_type := 0x43\<rparr>) = Inr l1 \<and>
     control_worker_turn (wire_nusb echo_device) 0 l1 = (0, l2) \<and>
     submit_control_request l2 (sample_request 0x100) = Inl ChannelClosed"
proof -
  have "\<not> valid_request_type (ur_request_type ((sample_request 0)\<lparr>ur_request_type := 0x43\<rparr>))"
    by (simp add: valid_request_type_def)
  from reserved_request_kills_endpoint [OF this, of control_link_new "wire_nusb echo_device" 0 recorder_ops "[]"]
  show ?thesis by (auto simp: control_link_new_def)
qed

text \<open>
  C26: A stopped control transfer leaves its answer to the next one. Cancelling does nothing to a request
  under way, so when an IN request is stopped and a second one submitted, the first completion after that
  is the answer to the first request: its data is written to the buffer of the second one, which is
  reported to the driver as successful.
\<close>

theorem stale_control_answer:
  assumes "submit_control_request control_link_new r1 = Inr l1"
    "serve_request nusb d r1 = Inr (d1, SuccessfulControlIn data1)" "serve_request nusb d1 r2 = Inr (d2, a2)"
    "control_submit ops m True h t = Inr (h2, [SubmitControl r2])"
    "ur_request_type r2 AND 0x80 \<noteq> 0" "ur_data_pointer r2 = Some ptr" "dev_write_bulk ops m ptr data1 = Inr m'"
  shows "\<exists>l2 l3 l4 h3. submit_control_request (control_link_cancel l1) r2 = Inr l2 \<and>
    control_worker_turn nusb d l2 = (d1, l3) \<and> next_control_completion l3 = Some (SuccessfulControlIn data1, l4) \<and>
    control_complete ops m True h2 (SuccessfulControlIn data1) = Inr (m', h3, TrbOk,
      [Event (Transfer (ur_address r2) 0 Success False (ch_endpoint_id h) (ch_slot_id h))])"
proof -
  have l1: "l1 = control_link_new\<lparr>cl_requests := [r1]\<rparr>"
    using assms(1) by (auto simp: submit_control_request_def control_link_new_def)
  let ?l2 = "control_link_new\<lparr>cl_requests := [r1, r2]\<rparr>"
  let ?l3 = "control_link_new\<lparr>cl_requests := [r2], cl_responses := [SuccessfulControlIn data1]\<rparr>"
  let ?l4 = "control_link_new\<lparr>cl_requests := [r2]\<rparr>"
  obtain p flow where "parser_trb ops m (ch_parser h) t = Inr (p, flow)"
    using assms(4) by (auto simp: control_submit_def)
  then have h2: "h2 = h\<lparr>ch_parser := p, ch_submission := AwaitingControlIn (clone_without_data r2)\<rparr>"
    using assms(4,5) by (cases flow) (auto simp: control_submit_def Let_def split: if_splits)
  have "submit_control_request (control_link_cancel l1) r2 = Inr ?l2"
    by (simp add: l1 control_link_cancel_def submit_control_request_def control_link_new_def)
  moreover have "control_worker_turn nusb d ?l2 = (d1, ?l3)" "next_control_completion ?l3 = Some (SuccessfulControlIn data1, ?l4)"
    using assms(2) by (simp_all add: control_worker_turn_def control_link_new_def next_control_completion_def)
  moreover have "\<exists>h3. control_complete ops m True h2 (SuccessfulControlIn data1) = Inr (m', h3, TrbOk,
      [Event (Transfer (ur_address r2) 0 Success False (ch_endpoint_id h) (ch_slot_id h))])"
    using assms(6,7) by (simp add: h2 control_complete_def clone_without_data_def send_transfer_def
        new_transfer_event_trb_def Let_def)
  ultimately show ?thesis by blast
qed

text \<open>The second request asks for descriptor 2 and gets descriptor 1.\<close>

definition awaiting_status :: "usb_request \<Rightarrow> control_handle" where
  "awaiting_status r = (control_handle_new 1 1 (meta_control 2 1 1))\<lparr>ch_parser := \<lparr>cp_state = DataStageConsumed, cp_builder = r\<rparr>\<rparr>"

theorem stale_control_answer_witness:
  "\<exists>l1 l2 l3 l4 h2 h3. submit_control_request control_link_new (sample_request 0x100) = Inr l1 \<and>
     submit_control_request (control_link_cancel l1) (sample_request 0x200) = Inr l2 \<and>
     control_worker_turn (wire_nusb echo_device) 0 l2 = (1, l3) \<and>
     next_control_completion l3 = Some (SuccessfulControlIn [0x80, 6, 0, 1, 0, 0, 8, 0], l4) \<and>
     control_complete recorder_ops [] True h2 (SuccessfulControlIn [0x80, 6, 0, 1, 0, 0, 8, 0]) =
       Inr ([(0x5000, [0x80, 6, 0, 1, 0, 0, 8, 0])], h3, TrbOk, [Event (Transfer 0x4020 0 Success False 1 1)])"
proof -
  let ?t = "\<lparr>raw_address = 0x4020, raw_buffer = [0, 0, 0, 0, 0, 0, 0, 0, 0, 0, 0, 0, 0x21, 16, 0, 0]\<rparr>"
  let ?h = "awaiting_status (sample_request 0x200)"
  have p: "transfer_parse (raw_buffer ?t) = Inr (StatusStage (StatusStageTrbData False True False))" by code_simp
  have 1: "submit_control_request control_link_new (sample_request 0x100) = Inr (control_link_new\<lparr>cl_requests := [sample_request 0x100]\<rparr>)"
    by (simp add: submit_control_request_def control_link_new_def)
  have a: "wire_answer echo_device 0 (sample_request 0x100) = (1, SuccessfulControlIn [0x80, 6, 0, 1, 0, 0, 8, 0])" by code_simp
  obtain d2 a2 where a2: "wire_answer echo_device 1 (sample_request 0x200) = (d2, a2)" by fastforce
  have 4: "\<exists>h2. control_submit recorder_ops [] True ?h ?t = Inr (h2, [SubmitControl (sample_request 0x200)])"
    using p by (simp add: awaiting_status_def control_handle_new_def control_submit_def parser_trb_def parser_status_def
        sample_request_def)
  then obtain h2 where 4: "control_submit recorder_ops [] True ?h ?t = Inr (h2, [SubmitControl (sample_request 0x200)])" by blast
  have "\<exists>l2 l3 l4 h3. submit_control_request (control_link_cancel (control_link_new\<lparr>cl_requests := [sample_request 0x100]\<rparr>)) (sample_request 0x200) = Inr l2 \<and>
    control_worker_turn (wire_nusb echo_device) 0 l2 = (1, l3) \<and>
    next_control_completion l3 = Some (SuccessfulControlIn [0x80, 6, 0, 1, 0, 0, 8, 0], l4) \<and>
    control_complete recorder_ops [] True h2 (SuccessfulControlIn [0x80, 6, 0, 1, 0, 0, 8, 0]) =
      Inr ([(0x5000, [0x80, 6, 0, 1, 0, 0, 8, 0])], h3, TrbOk,
      [Event (Transfer (ur_address (sample_request 0x200)) 0 Success False (ch_endpoint_id ?h) (ch_slot_id ?h))])"
    by (rule stale_control_answer [OF 1 _ _ 4])
       (use serve_faithful [OF sample_faithful, of echo_device 0 "0x100"] serve_faithful [OF sample_faithful, of echo_device 1 "0x200"] a a2
        in \<open>simp_all add: sample_request_def recorder_ops_def\<close>)
  then show ?thesis using 1 by (auto simp: awaiting_status_def control_handle_new_def sample_request_def)
qed

section \<open>Transfer buffers\<close>

lemma determine_buffer_size_div:
  fixes n mps :: nat
  assumes "0 < mps" "mps < n"
  shows "n \<le> (n + mps - 1) div mps * mps" "(n + mps - 1) div mps * mps < n + mps"
proof -
  have "(n + mps - 1) div mps * mps + (n + mps - 1) mod mps = n + mps - 1" by (rule div_mult_mod_eq)
  moreover have "(n + mps - 1) mod mps < mps" using assms(1) by simp
  ultimately show "n \<le> (n + mps - 1) div mps * mps" "(n + mps - 1) div mps * mps < n + mps" using assms by linarith+
qed

text \<open>
  C38: The buffer of an IN transfer holds the transfer and no packet overruns it. For a packet size above
  zero it is the smallest multiple of the packet size that holds both the transfer and one packet, and the
  computation does not overflow for a transfer below $2^{63}$ bytes and a packet size below that.
\<close>

theorem in_buffer_fits:
  assumes "0 < len" "len < 2 ^ 63" "0 < mps" "mps < 2 ^ 63" "opened"
  shows "\<exists>h' n. real_in_submit opened mps h len = Inr (h', Some n) \<and> nh_request_length h' = len \<and>
    len \<le> n \<and> mps dvd n \<and> mps \<le> n \<and> (\<forall>k. len \<le> k \<longrightarrow> mps \<le> k \<longrightarrow> mps dvd k \<longrightarrow> n \<le> k)"
proof -
  have "\<exists>n. determine_buffer_size len mps = Inr n \<and> len \<le> n \<and> mps dvd n \<and> n < max len 1 + mps \<and> mps \<le> n"
  proof (cases "len \<le> mps")
    case True
    then show ?thesis using assms by (simp add: determine_buffer_size_def)
  next
    case False
    define n where "n = (len + mps - 1) div mps * mps"
    have "len \<le> n" "n < len + mps" using determine_buffer_size_div [of mps len] False assms(3) unfolding n_def by simp_all
    moreover have "determine_buffer_size len mps = (if n < 2 ^ 64 then Inr n else Inl ArithOverflow)" "mps dvd n"
      using False assms(3) by (simp_all add: determine_buffer_size_def n_def)
    ultimately show ?thesis using False assms(1,2,4) by auto
  qed
  then obtain n where n: "determine_buffer_size len mps = Inr n" "len \<le> n" "mps dvd n" "n < max len 1 + mps" "mps \<le> n" by blast
  have "n \<le> k" if k: "len \<le> k" "mps dvd k" for k
  proof (rule ccontr)
    assume "\<not> n \<le> k"
    then have "mps dvd n - k" "0 < n - k" using n(3) k(2) by (simp_all add: dvd_diff_nat)
    then have "mps \<le> n - k" by (rule dvd_imp_le)
    then show False using k(1) n(4) assms(1,3) by simp
  qed
  then show ?thesis using n assms(1,5) by (auto simp: real_in_submit_def ensure_endpoint_def Let_def)
qed

theorem in_buffer_fits_witness:
  "\<exists>h' n. real_in_submit True 512 (normal_handle_new 3) 700 = Inr (h', Some n) \<and> 700 \<le> n \<and> n \<le> 1024"
proof -
  have "(0::nat) < 700" "(700::nat) < 2 ^ 63" "(0::nat) < 512" "(512::nat) < 2 ^ 63" True by simp_all
  from in_buffer_fits [OF this, of "normal_handle_new 3"] obtain h' n where
    r: "real_in_submit True 512 (normal_handle_new 3) 700 = Inr (h', Some n)" "700 \<le> n"
       "\<forall>k\<ge>700. 512 \<le> k \<longrightarrow> 512 dvd k \<longrightarrow> n \<le> k" by blast
  moreover have "(512::nat) dvd 1024" by simp
  ultimately show ?thesis using r(3) [rule_format, of 1024] by auto
qed

text \<open>After a cancel nothing is in flight, so the next completion belongs to the next submission.\<close>

lemma drain_pending_all: "nh_pending (drain_pending h n) = nh_pending h - n"
  by (induction n arbitrary: h) simp_all

lemma cancel_empties:
  "real_cancel opened h = Inr h' \<Longrightarrow> nh_pending h' = 0"
  by (auto simp: real_cancel_def drain_pending_all)

end
