(* ===== verification/PcapSpec.thy ===== *)
theory PcapSpec
  imports Pcap
begin

text \<open>
  What a reader of the capture file sees. \<open>read_capture\<close> is an independent reader of the pcap format with
  the USB link type; a capture the program has not disabled reads back as exactly the packets it was
  handed, in order.
\<close>

section \<open>Layout\<close>

lemma fill_field:
  "length pre = off \<Longrightarrow> length ys \<le> n \<Longrightarrow>
     overwrite (pre @ replicate n z) off ys = (pre @ ys) @ replicate (n - length ys) z"
  "length pre = off \<Longrightarrow> 0 < n \<Longrightarrow> (pre @ replicate n z)[off := x] = (pre @ [x]) @ replicate (n - 1) z"
  "length ys \<le> n \<Longrightarrow> overwrite (replicate n z) 0 ys = ys @ replicate (n - length ys) z"
  by (simp_all add: overwrite_def list_update_append) (cases n; simp)

lemma header_layout:
  assumes "length (uh_setup h) = 8"
  shows "header_bytes h now =
    le_bytes 8 (uh_id h) @ [uh_event_type h, uh_transfer_type h, uh_endpoint_address h, uh_device_address h] @
    le_bytes 2 (uh_bus_number h) @ [uh_setup_flag h, uh_data_flag h] @ le_bytes 8 (fst now) @ le_bytes 4 (snd now) @
    le_bytes 4 (uh_status h) @ le_bytes 4 (uh_data_length h) @ le_bytes 4 (uh_delivered_data_length h) @ uh_setup h"
proof -
  have "header_bytes h now =
    ((((((((((((((le_bytes 8 (uh_id h) @ [uh_event_type h]) @ [uh_transfer_type h]) @ [uh_endpoint_address h]) @ [uh_device_address h]) @
      le_bytes 2 (uh_bus_number h)) @ [uh_setup_flag h]) @ [uh_data_flag h]) @ le_bytes 8 (fst now)) @ le_bytes 4 (snd now)) @
      le_bytes 4 (uh_status h)) @ le_bytes 4 (uh_data_length h)) @ le_bytes 4 (uh_delivered_data_length h)) @ uh_setup h) @ replicate 0 0)"
    unfolding header_bytes_def Let_def
    by (simp add: fill_field assms del: append_assoc append.simps replicate.simps)
  then show ?thesis by simp
qed

lemma length_header_bytes: "length (uh_setup h) = 8 \<Longrightarrow> length (header_bytes h now) = 48"
  by (simp add: header_layout)

section \<open>The reader\<close>

definition read_header :: "u8 list \<Rightarrow> usb_packet_header \<times> (u64 \<times> u32)" where
  "read_header b =
     (\<lparr>uh_id = of_le_bytes (slice b 0 8), uh_event_type = b ! 8, uh_transfer_type = b ! 9,
       uh_endpoint_address = b ! 10, uh_device_address = b ! 11, uh_bus_number = of_le_bytes (slice b 12 2),
       uh_setup_flag = b ! 14, uh_data_flag = b ! 15, uh_status = of_le_bytes (slice b 28 4),
       uh_data_length = of_le_bytes (slice b 32 4), uh_delivered_data_length = of_le_bytes (slice b 36 4),
       uh_setup = slice b 40 8\<rparr>,
      (of_le_bytes (slice b 16 8), of_le_bytes (slice b 24 4)))"

text \<open>A packet as a reader sees it: its length on the wire, its header with the time, and the payload kept.\<close>

record captured =
  cp_original :: u32
  cp_header :: "usb_packet_header \<times> (u64 \<times> u32)"
  cp_payload :: "u8 list"

function read_records :: "u8 list \<Rightarrow> captured list option" where
  "read_records b =
     (if b = [] then Some []
      else if length b < 16 then None
      else let n = unat (of_le_bytes (slice b 8 4) :: u32); p = slice b 16 n in
        if length b < 16 + n \<or> n < 48 then None
        else map_option ((#) \<lparr>cp_original = of_le_bytes (slice b 12 4), cp_header = read_header p, cp_payload = drop 48 p\<rparr>)
               (read_records (drop (16 + n) b)))"
  by auto
termination by (relation "measure length") (auto simp: Let_def)

declare read_records.simps [simp del]

definition read_capture :: "u8 list \<Rightarrow> captured list option" where
  "read_capture b =
     (if 24 \<le> length b \<and> of_le_bytes (slice b 0 4) = (0xa1b2c3d4 :: u32) \<and> of_le_bytes (slice b 4 2) = (2 :: u16) \<and>
         of_le_bytes (slice b 20 4) = (189 :: u32)
      then read_records (drop 24 b) else None)"

lemma read_header_bytes:
  assumes "length (uh_setup h) = 8"
  shows "read_header (header_bytes h now @ rest) = (h, now)"
  unfolding header_layout [OF assms]
  by (simp add: read_header_def slice_def nth_append of_le_bytes_le_bytes assms)

section \<open>One packet\<close>

definition captured_of :: "(u64 \<times> u32) \<Rightarrow> usb_packet_header \<times> u8 list \<Rightarrow> captured" where
  "captured_of now p = \<lparr>cp_original = of_nat (48 + length (snd p)), cp_header = (fst p, now),
     cp_payload = take (65535 - 48) (snd p)\<rparr>"

lemma record_layout:
  assumes "length (uh_setup h) = 8"
  shows "pcap_record_bytes (Some now) h payload =
    Inr (le_bytes 4 (ucast (fst now) :: u32) @ le_bytes 4 (snd now) @
         le_bytes 4 (of_nat (min (48 + length payload) 65535) :: u32) @ le_bytes 4 (of_nat (48 + length payload) :: u32) @
         header_bytes h now @ take (65535 - 48) payload)"
  using assms
  by (cases "length payload \<le> 65535 - 48")
     (auto simp: pcap_record_bytes_def length_header_bytes SNAPLEN_def Let_def min_def)

lemma read_records_step:
  assumes "unat (of_le_bytes (slice q 8 4) :: u32) = n" "16 + n \<le> length q" "48 \<le> n"
  shows "read_records q = map_option ((#) \<lparr>cp_original = of_le_bytes (slice q 12 4),
      cp_header = read_header (slice q 16 n), cp_payload = drop 48 (slice q 16 n)\<rparr>) (read_records (drop (16 + n) q))"
proof -
  have "q \<noteq> []" using assms(2) by auto
  then show ?thesis using assms by (subst read_records.simps) (simp add: Let_def)
qed

lemma read_record:
  assumes "length (uh_setup h) = 8" "pcap_record_bytes (Some now) h payload = Inr r"
  shows "read_records (r @ rest) = map_option ((#) (captured_of now (h, payload))) (read_records rest)"
proof -
  let ?n = "min (48 + length payload) 65535"
  let ?a = "le_bytes 4 (ucast (fst now) :: u32) @ le_bytes 4 (snd now)"
  let ?p = "header_bytes h now @ take (65535 - 48) payload"
  have r: "r = ?a @ le_bytes 4 (of_nat ?n :: u32) @ le_bytes 4 (of_nat (48 + length payload) :: u32) @ ?p"
    using assms(2) record_layout [OF assms(1)] by simp
  have n: "unat (of_nat ?n :: u32) = ?n" by (simp add: unat_of_nat min_def)
  have lp: "length ?p = ?n" using length_header_bytes [OF assms(1)] by simp
  have s: "slice (r @ rest) 8 4 = le_bytes 4 (of_nat ?n :: u32)"
    "slice (r @ rest) 12 4 = le_bytes 4 (of_nat (48 + length payload) :: u32)"
    "slice (r @ rest) 16 ?n = ?p" "drop (16 + ?n) (r @ rest) = rest" "length (r @ rest) = 16 + ?n + length rest"
    using lp length_header_bytes [OF assms(1), of now] unfolding r by (auto simp: slice_def min_def)
  have "unat (of_le_bytes (slice (r @ rest) 8 4) :: u32) = ?n"
    unfolding s(1) using n by (simp add: of_le_bytes_le_bytes)
  from read_records_step [OF this] s(5)
  have "read_records (r @ rest) = map_option ((#) \<lparr>cp_original = of_le_bytes (slice (r @ rest) 12 4),
      cp_header = read_header (slice (r @ rest) 16 ?n), cp_payload = drop 48 (slice (r @ rest) 16 ?n)\<rparr>)
      (read_records (drop (16 + ?n) (r @ rest)))" by simp
  then show ?thesis
    unfolding s by (simp add: of_le_bytes_le_bytes read_header_bytes [OF assms(1)] length_header_bytes [OF assms(1)] captured_of_def)
qed

lemma global_header:
  "length pcap_global_header_bytes = 24" "read_capture (pcap_global_header_bytes @ b) = read_records b"
proof -
  have g: "pcap_global_header_bytes = [0xd4, 0xc3, 0xb2, 0xa1, 2, 0, 4, 0, 0, 0, 0, 0, 0, 0, 0, 0, 0xff, 0xff, 0, 0, 189, 0, 0, 0]"
    by code_simp
  show "length pcap_global_header_bytes = 24" by (simp add: g)
  have m: "of_le_bytes [0xd4, 0xc3, 0xb2, 0xa1] = (0xa1b2c3d4 :: u32)" "of_le_bytes [2, 0] = (2 :: u16)"
    "of_le_bytes [189, 0, 0, 0] = (189 :: u32)" by code_simp+
  show "read_capture (pcap_global_header_bytes @ b) = read_records b"
    unfolding read_capture_def by (simp add: g slice_def m del: of_le_bytes.simps)
qed

section \<open>A whole capture\<close>

text \<open>Every packet comes with what the clock says and how the file operations go.\<close>

fun emit_all ::
  "'p pcap_manager option \<Rightarrow> ((u64 \<times> u32) \<times> pcap_io \<times> usb_packet_header \<times> u8 list) list \<Rightarrow> 'p pcap_manager option res" where
  "emit_all g [] = Inr g"
| "emit_all g ((now, io, p) # es) = rbind (emit_packet (Some now) io g p) (\<lambda>g. emit_all g es)"

text \<open>The capture is disabled for good, or holds exactly the packets \<open>done\<close>.\<close>

definition capture_ok :: "'p pcap_manager \<Rightarrow> captured list \<Rightarrow> bool" where
  "capture_ok m done =
     (if pm_path m = None then pm_writer m = None \<and> pm_warned m
      else \<not> pm_warned m \<and>
        (case pm_writer m of None \<Rightarrow> done = []
         | Some w \<Rightarrow> (\<exists>b. w = pcap_global_header_bytes @ b \<and>
             (\<forall>rest. read_records (b @ rest) = map_option ((@) done) (read_records rest)))))"

lemma emit_ok:
  assumes "length (uh_setup (fst p)) = 8" "capture_ok m done"
  shows "\<exists>m'. emit_packet (Some now) io (Some m) p = Inr (Some m') \<and> capture_ok m' (done @ [captured_of now p])"
proof -
  obtain h payload where p: "p = (h, payload)" by (cases p)
  have l: "length (uh_setup h) = 8" using assms(1) p by simp
  obtain r where r: "pcap_record_bytes (Some now) h payload = Inr r" using record_layout [OF l] by blast
  have cons: "(@) [x] = (#) x" for x :: captured by auto
  have app: "(@) (done @ [x]) = (\<lambda>y. done @ x # y)" for x by auto
  note rr = read_record [OF l r]
  have "capture_ok (manager_write_record io m r) (done @ [captured_of now p])"
  proof (cases "pm_writer m")
    case None
    then show ?thesis using assms(2) rr
      by (auto simp: p cons capture_ok_def manager_write_record_def ensure_writer_def pcap_disable_def
          split: option.splits if_splits)
  next
    case (Some w)
    then obtain b where b: "w = pcap_global_header_bytes @ b" "pm_path m \<noteq> None" "\<not> pm_warned m"
        "\<And>rest. read_records (b @ rest) = map_option ((@) done) (read_records rest)"
      using assms(2) by (auto simp: capture_ok_def split: if_splits)
    have "read_records ((b @ r) @ rest) = map_option ((@) (done @ [captured_of now p])) (read_records rest)" for rest
      by (simp add: b(4) rr p option.map_comp comp_def app)
    then show ?thesis using Some b(1-3)
      by (auto simp: capture_ok_def manager_write_record_def ensure_writer_def pcap_disable_def split: option.splits)
  qed
  then show ?thesis by (simp add: emit_packet_def p r usb_pcap_write_record_def)
qed

lemma emit_all_ok:
  assumes "\<forall>(now, io, p) \<in> set es. length (uh_setup (fst p)) = 8" "capture_ok m done"
  shows "\<exists>m'. emit_all (Some m) es = Inr (Some m') \<and> capture_ok m' (done @ map (\<lambda>(now, io, p). captured_of now p) es)"
  using assms
proof (induction es arbitrary: m "done")
  case Nil then show ?case by simp
next
  case (Cons e es)
  obtain now io p where e: "e = (now, io, p)" by (cases e)
  obtain m1 where m1: "emit_packet (Some now) io (Some m) p = Inr (Some m1)" "capture_ok m1 (done @ [captured_of now p])"
    using emit_ok [of p m "done" now io] Cons.prems e by auto
  then show ?case using Cons.IH [OF _ m1(2)] Cons.prems e by auto
qed

text \<open>
  C37: The capture file is complete or given up. Whatever the file system answers, after any sequence of
  packets the capture is disabled for good with one warning, or nothing has been captured, or the file
  reads back as exactly these packets in order: every header field and the time as written, the payload up
  to the snap length. Capturing never panics while the clock is past the epoch.
\<close>

theorem capture_complete_or_disabled:
  assumes "\<forall>(now, io, p) \<in> set es. length (uh_setup (fst p)) = 8"
  shows "\<exists>m. emit_all (usb_pcap_init (Some path) None) es = Inr (Some m) \<and>
    (if pm_path m = None then pm_writer m = None \<and> pm_warned m
     else case pm_writer m of None \<Rightarrow> es = []
       | Some w \<Rightarrow> read_capture w = Some (map (\<lambda>(now, io, p). captured_of now p) es))"
proof -
  have "capture_ok (pcap_manager_new (Some path)) []" by (simp add: capture_ok_def pcap_manager_new_def)
  from emit_all_ok [OF assms this] obtain m where m: "emit_all (Some (pcap_manager_new (Some path))) es = Inr (Some m)"
    "capture_ok m (map (\<lambda>(now, io, p). captured_of now p) es)" by auto
  have "read_records b = Some xs" if "\<forall>rest. read_records (b @ rest) = map_option ((@) xs) (read_records rest)" for b xs
    using that [rule_format, of "[]"] by (simp add: read_records.simps [of "[]"])
  note complete = this
  have "if pm_path m = None then pm_writer m = None \<and> pm_warned m
     else case pm_writer m of None \<Rightarrow> es = []
       | Some w \<Rightarrow> read_capture w = Some (map (\<lambda>(now, io, p). captured_of now p) es)"
  proof (cases "pm_writer m")
    case None
    then show ?thesis using m(2) by (auto simp: capture_ok_def split: if_splits)
  next
    case (Some w)
    show ?thesis
    proof (cases "pm_path m")
      case None
      then show ?thesis using m(2) by (simp add: capture_ok_def)
    next
      case (Some p)
      with m(2) \<open>pm_writer m = Some w\<close> obtain b where b: "w = pcap_global_header_bytes @ b"
        "\<forall>rest. read_records (b @ rest) = map_option ((@) (map (\<lambda>(now, io, p). captured_of now p) es)) (read_records rest)"
        unfolding capture_ok_def by (simp only: option.case option.distinct if_False) (elim conjE exE, rule that)
      have "read_capture w = Some (map (\<lambda>(now, io, p). captured_of now p) es)"
        unfolding b(1) global_header(2) by (intro complete) (rule b(2))
      then show ?thesis using Some \<open>pm_writer m = Some w\<close> by simp
    qed
  qed
  moreover have "emit_all (usb_pcap_init (Some path) None) es = Inr (Some m)"
    using m(1) by (simp add: usb_pcap_init_def)
  ultimately show ?thesis by blast
qed

text \<open>A bulk IN completion of three bytes, emitted while every file operation succeeds.\<close>

definition sample_io :: pcap_io where
  "sample_io = \<lparr>io_dir = Some True, io_create = True, io_header = True, io_record = True\<rparr>"

definition sample_header :: usb_packet_header where
  "sample_header = \<lparr>uh_id = 0x4000, uh_event_type = 0x43, uh_transfer_type = 3, uh_endpoint_address = 0x81,
     uh_device_address = 1, uh_bus_number = 2, uh_setup_flag = 0x2d, uh_data_flag = 0, uh_status = 0,
     uh_data_length = 3, uh_delivered_data_length = 3, uh_setup = replicate 8 0\<rparr>"

lemma sample_packet: "in_completion (meta_bulk 2 1 3) 0x4000 [1, 2, 3] = Inr (sample_header, [1, 2, 3])"
  by code_simp

theorem capture_complete_or_disabled_witness:
  "\<exists>m w. emit_all (usb_pcap_init (Some ''/tmp/usb.pcap'') None) [((1700000000, 5), sample_io, sample_header, [1, 2, 3])] =
       Inr (Some m) \<and> pm_writer m = Some w \<and>
     read_capture w = Some [\<lparr>cp_original = 51, cp_header = (sample_header, (1700000000, 5)), cp_payload = [1, 2, 3]\<rparr>]"
proof -
  let ?es = "[((1700000000, 5), sample_io, sample_header, [1, 2, 3])] :: ((u64 \<times> u32) \<times> pcap_io \<times> usb_packet_header \<times> u8 list) list"
  have "\<forall>(now, io, p) \<in> set ?es. length (uh_setup (fst p)) = 8" by (simp add: sample_header_def)
  from capture_complete_or_disabled [OF this, of "''/tmp/usb.pcap''"]
  obtain m where m: "emit_all (usb_pcap_init (Some ''/tmp/usb.pcap'') None) ?es = Inr (Some m)"
    "if pm_path m = None then pm_writer m = None \<and> pm_warned m
     else case pm_writer m of None \<Rightarrow> ?es = []
       | Some w \<Rightarrow> read_capture w = Some (map (\<lambda>(now, io, p). captured_of now p) ?es)" by (elim exE conjE) (rule that)
  obtain r where "pcap_record_bytes (Some (1700000000, 5)) sample_header [1, 2, 3] = Inr r"
    using record_layout [of sample_header] by (simp add: sample_header_def)
  then have "pm_path m \<noteq> None \<and> pm_writer m \<noteq> None"
    using m(1) by (auto simp: usb_pcap_init_def emit_packet_def usb_pcap_write_record_def manager_write_record_def
        ensure_writer_def pcap_manager_new_def sample_io_def)
  then show ?thesis using m by (auto simp: captured_of_def)
qed

end
