(* ===== verification/Daemon.thy ===== *)
theory Daemon
  imports BackendSpec Remote
begin

text \<open>
  The process (\<open>src/main.rs\<close>, \<open>cli.rs\<close>, and \<open>add_device_from_path\<close> of \<open>xhci_backend.rs\<close>): what the command
  line configures, how the devices named on it are attached, and the client threads of a process that serves
  several clients, with everything that can happen between two of their steps. The sockets, the parser of
  the command line, logging and the runtime are not modelled.
\<close>

section \<open>The command line\<close>

text \<open>
  The options that decide behaviour. A device is its path, as in the control tool, and what opening,
  resetting and reopening it yields.
\<close>

record 't cli =
  cli_devices :: "(string list option \<times> (speed option \<times> 't) option) list"
  cli_max_clients :: nat
  cli_preflight_timeout_ms :: u64
  cli_lease_ms :: u64
  cli_require_ready :: bool
  cli_require_device :: bool
  cli_block_registration :: bool
  cli_require_controller :: bool
  cli_auto_reclaim :: bool

definition cli_default :: "'t cli" where
  "cli_default =
     \<lparr>cli_devices = [], cli_max_clients = 1, cli_preflight_timeout_ms = 2000, cli_lease_ms = 5000,
      cli_require_ready = True, cli_require_device = True, cli_block_registration = False,
      cli_require_controller = False, cli_auto_reclaim = True\<rparr>"

section \<open>Start\<close>

text \<open>Whether the device was attached; a failure of the initial attachment panics.\<close>

definition add_device_from_path ::
  "(device_id, 't) port_worker \<Rightarrow> string list option \<Rightarrow> (speed option \<times> 't) option \<Rightarrow>
     ((device_id, 't) port_worker \<times> bool) res" where
  "add_device_from_path ps path opened =
     (case resolve_path path of
        None \<Rightarrow> Inr (ps, False)
      | Some (bus, dev) \<Rightarrow>
          (case opened of
             None \<Rightarrow> Inr (ps, False)
           | Some (sp, token) \<Rightarrow>
               rbind (control_attach ps \<lparr>cd_identifier = (bus, dev), cd_speed = sp, cd_token = token\<rparr> True) (\<lambda>(ps, response).
               Inr (ps, response = SuccessfulOperation))))"

fun attach_devices ::
  "(device_id, 't) port_worker \<Rightarrow> (string list option \<times> (speed option \<times> 't) option) list \<Rightarrow>
     (device_id, 't) port_worker res" where
  "attach_devices ps [] = Inr ps"
| "attach_devices ps ((path, opened) # ds) =
     rbind (add_device_from_path ps path opened) (\<lambda>(ps, ok).
     rbind (require ok AssertFailed) (\<lambda>_. attach_devices ps ds))"

datatype ('f, 'b) runner = Single 'b | Multi "('f, 'b) shared"

definition make_runner :: "'t cli \<Rightarrow> 'b \<Rightarrow> ('f, 'b) runner" where
  "make_runner cli b =
     (if 1 < cli_max_clients cli then
        Multi (configure_handover (handover_init b)
          (Some (unat (cli_lease_ms cli))) (Some (unat (cli_preflight_timeout_ms cli))) (Some (cli_require_ready cli))
          (Some (cli_auto_reclaim cli)) (Some (cli_require_device cli)) (Some (cli_block_registration cli))
          (Some (cli_require_controller cli)))
      else Single b)"

definition runner_handover :: "('f, 'b) runner \<Rightarrow> ('f, 'b) shared option" where
  "runner_handover r = (case r of Single _ \<Rightarrow> None | Multi st \<Rightarrow> Some st)"

text \<open>What \<open>main\<close> hands to the control server, and what then serves the clients.\<close>

definition start_process ::
  "'t cli \<Rightarrow> (device_id, 't) port_worker \<Rightarrow> 'b \<Rightarrow> (('f, 'b, 't) hotplug_server \<times> ('f, 'b) runner) res" where
  "start_process cli ps b =
     rbind (attach_devices ps (cli_devices cli)) (\<lambda>ps.
     let r = make_runner cli b in Inr (\<lparr>hv_ports = ps, hv_shared = runner_handover r\<rparr>, r))"

section \<open>Client threads\<close>

text \<open>
  A thread takes a connection, serves its requests until the client is gone, and starts over. A request that
  panics ends the thread; nobody calls \<open>disconnect\<close> for its connection.
\<close>

datatype client_thread =
    Connecting
  | Serving connection
  | Waiting connection time
  | Panicked connection

datatype 'f client_request =
    RegionRead u32 u64 nat
  | RegionWrite u32 u64 "u8 list"
  | DmaMap "bool \<times> bool" u64 u64 u64 "'f option"
  | DmaUnmap u64 u64
  | ResetRequest
  | SetIrqs "'f registration" time time time

definition thread_after :: "connection \<Rightarrow> io_error + 'r \<Rightarrow> client_thread" where
  "thread_after c r = (case r of Inl e \<Rightarrow> if e = PANIC then Panicked c else Serving c | Inr _ \<Rightarrow> Serving c)"

primrec serve_client ::
  "'f os_files \<Rightarrow> ('f, 'b) backend_ops \<Rightarrow> ('f, 'b) shared \<Rightarrow> connection \<Rightarrow> 'f client_request \<Rightarrow>
     ('f, 'b) shared \<times> client_thread" where
  "serve_client os bops st c (RegionRead region offset n) =
     (case sb_region_read bops st c region offset n of (st, c, r) \<Rightarrow> (st, thread_after c r))"
| "serve_client os bops st c (RegionWrite region offset data) =
     (case sb_region_write bops st c region offset data of (st, c, r) \<Rightarrow> (st, thread_after c r))"
| "serve_client os bops st c (DmaMap flags offset address sz fd) =
     (case sb_dma_map bops st c flags offset address sz fd of (st, c, r) \<Rightarrow> (st, thread_after c r))"
| "serve_client os bops st c (DmaUnmap address sz) =
     (case sb_dma_unmap bops st c address sz of (st, c, r) \<Rightarrow> (st, thread_after c r))"
| "serve_client os bops st c ResetRequest =
     (case sb_reset bops st c of (st, c, r) \<Rightarrow> (st, thread_after c r))"
| "serve_client os bops st c (SetIrqs reg now1 now2 now3) =
     (case sb_set_irqs os bops st c reg now1 now2 now3 of
        (st, c, Replied r) \<Rightarrow> (st, thread_after c r)
      | (st, c, Parked deadline) \<Rightarrow> (st, Waiting c deadline))"

record ('f, 'b) daemon =
  dm_shared :: "('f, 'b) shared"
  dm_threads :: "client_thread list"

definition run_multi_client :: "('f, 'b) shared \<Rightarrow> nat \<Rightarrow> ('f, 'b) daemon" where
  "run_multi_client st max_clients = \<lparr>dm_shared = st, dm_threads = replicate max_clients Connecting\<rparr>"

text \<open>
  What can happen: a thread starts its next turn, its client sends a request, a parked registration wakes
  up, a client goes, a command comes in on the control socket, the device works on its own. The thread's
  index comes first; an action a thread is not in the state for does nothing. The wake-ups of a watch are
  taken together.
\<close>

datatype ('f, 'b) daemon_action =
    NextTurn nat
  | ClientRequest nat "'f client_request"
  | ParkedWakes nat time
  | ClientGone nat time
  | Control handover_command u64 time "time list"
  | DeviceWorks "'b \<Rightarrow> 'b"

definition at_thread ::
  "('f, 'b) daemon \<Rightarrow> nat \<Rightarrow> (client_thread \<Rightarrow> (('f, 'b) shared \<times> client_thread) option) \<Rightarrow> ('f, 'b) daemon" where
  "at_thread d i f =
     (if i < length (dm_threads d) then
        (case f (dm_threads d ! i) of
           Some (st, t) \<Rightarrow> \<lparr>dm_shared = st, dm_threads = (dm_threads d)[i := t]\<rparr>
         | None \<Rightarrow> d)
      else d)"

fun client_turn ::
  "'f os_files \<Rightarrow> ('f, 'b) backend_ops \<Rightarrow> ('f, 'b) shared \<Rightarrow> ('f, 'b) daemon_action \<Rightarrow> client_thread \<Rightarrow>
     (('f, 'b) shared \<times> client_thread) option" where
  "client_turn os bops st (NextTurn i) Connecting = (case connect st of (st, c) \<Rightarrow> Some (st, Serving c))"
| "client_turn os bops st (ClientRequest i rq) (Serving c) = Some (serve_client os bops st c rq)"
| "client_turn os bops st (ParkedWakes i now) (Waiting c deadline) =
     (case parked_round st c deadline now of
        (st, None) \<Rightarrow> Some (st, Waiting c deadline)
      | (st, Some r) \<Rightarrow> Some (st, Serving c))"
| "client_turn os bops st (ClientGone i now) (Serving c) = Some (disconnect os bops st (conn_id c) now, Connecting)"
| "client_turn os bops st _ _ = None"

primrec daemon_step ::
  "'f os_files \<Rightarrow> ('f, 'b) backend_ops \<Rightarrow> ('f, 'b) daemon_action \<Rightarrow> ('f, 'b) daemon \<Rightarrow> ('f, 'b) daemon" where
  "daemon_step os bops (NextTurn i) d = at_thread d i (client_turn os bops (dm_shared d) (NextTurn i))"
| "daemon_step os bops (ClientRequest i rq) d = at_thread d i (client_turn os bops (dm_shared d) (ClientRequest i rq))"
| "daemon_step os bops (ParkedWakes i now) d = at_thread d i (client_turn os bops (dm_shared d) (ParkedWakes i now))"
| "daemon_step os bops (ClientGone i now) d = at_thread d i (client_turn os bops (dm_shared d) (ClientGone i now))"
| "daemon_step os bops (Control c attached now rounds) d =
     (case handle_handover os bops (Some (dm_shared d)) c attached now rounds of
        Inr (Some st, _) \<Rightarrow> d\<lparr>dm_shared := st\<rparr>
      | _ \<Rightarrow> d)"
| "daemon_step os bops (DeviceWorks f) d = d\<lparr>dm_shared := (dm_shared d)\<lparr>sh_backend := f (sh_backend (dm_shared d))\<rparr>\<rparr>"

definition daemon_run ::
  "'f os_files \<Rightarrow> ('f, 'b) backend_ops \<Rightarrow> ('f, 'b) daemon_action list \<Rightarrow> ('f, 'b) daemon \<Rightarrow> ('f, 'b) daemon" where
  "daemon_run os bops acts d = fold (daemon_step os bops) acts d"

end
