(* ===== verification/DaemonSpec.thy ===== *)
theory DaemonSpec
  imports Daemon
begin

text \<open>
  What a start of the process leaves behind, and what the client threads keep: the connections that count
  as live are those of the threads, and what becomes of the device when the thread of its owner panics.
\<close>

section \<open>Start\<close>

lemma add_device_listed:
  assumes "shape_ok ps"
  shows "\<exists>ps' ok. add_device_from_path ps path opened = Inr (ps', ok) \<and> shape_ok ps' \<and>
    (ok \<longrightarrow> (\<exists>ident. resolve_path path = Some ident \<and> opened \<noteq> None \<and>
       set (attached_devices ps') = insert ident (set (attached_devices ps))))"
proof (cases "resolve_path path")
  case (Some ident)
  obtain bus dev where ident: "ident = (bus, dev)" by (cases ident)
  show ?thesis
  proof (cases opened)
    case (Some so)
    obtain sp token where so: "so = (sp, token)" by (cases so)
    let ?d = "\<lparr>cd_identifier = (bus, dev), cd_speed = sp, cd_token = token\<rparr>"
    obtain ps' r where "control_attach ps ?d True = Inr (ps', r)" "shape_ok ps'"
      "set (attached_devices ps') = (if r = SuccessfulOperation then insert (cd_identifier ?d) (set (attached_devices ps))
        else set (attached_devices ps) - {cd_identifier ?d})"
      using attach_listed [OF assms, of ?d] by blast
    then show ?thesis using \<open>resolve_path path = Some ident\<close> Some ident so by (simp add: add_device_from_path_def)
  qed (use Some ident assms in \<open>auto simp: add_device_from_path_def\<close>)
qed (use assms in \<open>auto simp: add_device_from_path_def\<close>)

definition named :: "(string list option \<times> (speed option \<times> 't) option) list \<Rightarrow> device_id set" where
  "named ds = {ident. \<exists>path opened. (path, opened) \<in> set ds \<and> resolve_path path = Some ident}"

lemma named_simps [simp]:
  "named [] = {}"
  "named ((path, opened) # ds) = (case resolve_path path of Some ident \<Rightarrow> insert ident (named ds) | None \<Rightarrow> named ds)"
  by (auto simp: named_def split: option.splits)

lemma attach_devices_listed:
  assumes "shape_ok ps"
  shows "attach_devices ps ds = Inl AssertFailed \<or>
    (\<exists>ps'. attach_devices ps ds = Inr ps' \<and> shape_ok ps' \<and>
       (\<forall>(path, opened) \<in> set ds. resolve_path path \<noteq> None \<and> opened \<noteq> None) \<and>
       set (attached_devices ps') = set (attached_devices ps) \<union> named ds)"
  using assms
proof (induction ds arbitrary: ps)
  case (Cons d ds)
  obtain path opened where d: "d = (path, opened)" by (cases d)
  obtain ps' ok where a: "add_device_from_path ps path opened = Inr (ps', ok)" "shape_ok ps'"
    "ok \<longrightarrow> (\<exists>ident. resolve_path path = Some ident \<and> opened \<noteq> None \<and>
       set (attached_devices ps') = insert ident (set (attached_devices ps)))"
    using add_device_listed [OF Cons.prems] by blast
  show ?case using a Cons.IH [OF a(2)] by (cases ok) (auto simp: d)
qed simp

text \<open>
  A process that comes up has attached exactly the devices of its command line, and serves them as
  the options say. Starting it either panics, or every path named a device that could be opened, and the
  ports list exactly the named devices. With at most one client there is no ownership, and every hand-over
  command is refused as such; with more, the device starts unowned, with no connection counted as live and
  with the policy of the command line, which both the client threads and the control server use.
\<close>

theorem process_start:
  fixes ps :: "(device_id, 't) port_worker"
  assumes "port_worker_new = Inr ps"
  shows "start_process cli ps b = Inl AssertFailed \<or>
    (\<exists>sv r. start_process cli ps b = Inr (sv, r) \<and>
       (\<forall>(path, opened) \<in> set (cli_devices cli). resolve_path path \<noteq> None \<and> opened \<noteq> None) \<and>
       set (attached_devices (hv_ports sv)) = named (cli_devices cli) \<and>
       (if 1 < cli_max_clients cli then
          \<exists>st. r = Multi st \<and> hv_shared sv = Some st \<and> sh_backend st = b \<and>
            owner (sh_ownership st) = NO_OWNER \<and> epoch (sh_ownership st) = 0 \<and> live (sh_ownership st) = {} \<and>
            lease (sh_ownership st) = unat (cli_lease_ms cli) \<and>
            preflight_timeout (sh_ownership st) = unat (cli_preflight_timeout_ms cli) \<and>
            (require_ready (sh_ownership st) \<longleftrightarrow> cli_require_ready cli) \<and>
            (require_device (sh_ownership st) \<longleftrightarrow> cli_require_device cli) \<and>
            (block_registration (sh_ownership st) \<longleftrightarrow> cli_block_registration cli) \<and>
            (require_controller (sh_ownership st) \<longleftrightarrow> cli_require_controller cli) \<and>
            (auto_reclaim (sh_ownership st) \<longleftrightarrow> cli_auto_reclaim cli)
        else r = Single b \<and>
          (\<forall>os bops c attached now rounds. \<exists>detail.
             handle_handover os bops (hv_shared sv) c attached now rounds =
               Inr (None, Some (ReplyErr ''ENOHANDOVER'' detail)))))"
proof -
  obtain ps0 :: "(device_id, 't) port_worker" where "port_worker_new = Inr ps0" "port_ok ps0"
    "pw_devices ps0 = replicate MAX_PORTS None"
    using port_worker_new_ok by blast
  moreover from this(1) have "ps0 = ps" using assms by (metis sum.inject(2))
  ultimately have ps: "shape_ok ps" "attached_devices ps = []"
    by (simp_all add: port_ok_def attached_devices_def List.map_filter_def)
  show ?thesis
    using attach_devices_listed [OF ps(1), of "cli_devices cli"]
    by (auto simp: start_process_def make_runner_def runner_handover_def Let_def ps(2) configure_handover_def upd_def
        reply_error_def)
qed

definition one_device_cli :: "nat cli" where
  "one_device_cli = cli_default\<lparr>cli_max_clients := 2, cli_lease_ms := 7000,
     cli_devices := [(Some [''/'', ''dev'', ''bus'', ''usb'', ''001'', ''004''], Some (Some High, 9))]\<rparr>"

lemma fresh_attach:
  fixes ps :: "(device_id, 't) port_worker"
  assumes "shape_ok ps" "pw_devices ps = replicate MAX_PORTS None"
  shows "\<exists>ps'. control_attach ps \<lparr>cd_identifier = ident, cd_speed = Some High, cd_token = token\<rparr> True =
    Inr (ps', SuccessfulOperation)"
proof -
  have "4 \<in> set (free_ports (from_speed High) (without ident None (replicate MAX_PORTS None :: (device_id, 't) attached_device option list)))"
    by (simp add: free_ports_def without_def MAX_PORTS_def version_of_def from_speed_def is_usb2_speed_def NUM_USB3_PORTS_def)
  then have "free_ports (from_speed High) (without ident None (replicate MAX_PORTS None :: (device_id, 't) attached_device option list)) \<noteq> []"
    by auto
  then show ?thesis
    using attach_listed [OF assms(1), of "\<lparr>cd_identifier = ident, cd_speed = Some High, cd_token = token\<rparr>"] assms(2) by auto
qed

theorem process_start_witness:
  "\<exists>(ps :: (device_id, nat) port_worker) sv st. port_worker_new = Inr ps \<and>
     start_process one_device_cli ps (0 :: nat) = Inr (sv, Multi (st :: (nat, nat) shared)) \<and>
     set (attached_devices (hv_ports sv)) = {(1, 4)} \<and> lease (sh_ownership st) = 7000"
proof -
  obtain ps :: "(device_id, nat) port_worker" where ps: "port_worker_new = Inr ps" "port_ok ps"
    "pw_devices ps = replicate MAX_PORTS None"
    using port_worker_new_ok by blast
  have path: "resolve_path (Some [''/'', ''dev'', ''bus'', ''usb'', ''001'', ''004'']) = Some (1, 4)"
    by (simp add: resolve_path_def parse_u8_def parse_u64_def)
  obtain ps' where "control_attach ps \<lparr>cd_identifier = (1, 4), cd_speed = Some High, cd_token = 9\<rparr> True = Inr (ps', SuccessfulOperation)"
    using fresh_attach [of ps "(1, 4)" 9] ps(2,3) by (auto simp: port_ok_def)
  then have "start_process one_device_cli ps (0 :: nat) \<noteq> Inl AssertFailed"
    by (simp add: start_process_def one_device_cli_def cli_default_def add_device_from_path_def path Let_def)
  with process_start [OF ps(1), of one_device_cli "0 :: nat"] obtain sv st where
    "start_process one_device_cli ps (0 :: nat) = Inr (sv, Multi (st :: (nat, nat) shared))"
    "set (attached_devices (hv_ports sv)) = named (cli_devices one_device_cli)" "lease (sh_ownership st) = unat (cli_lease_ms one_device_cli)"
    by (auto simp: one_device_cli_def cli_default_def split: if_splits)
  then show ?thesis using ps(1) by (auto simp: one_device_cli_def cli_default_def path)
qed

section \<open>Client threads\<close>

fun thread_conn :: "client_thread \<Rightarrow> connection option" where
  "thread_conn Connecting = None"
| "thread_conn (Serving c) = Some c"
| "thread_conn (Waiting c deadline) = Some c"
| "thread_conn (Panicked c) = Some c"

definition thread_id :: "client_thread \<Rightarrow> conn option" where
  "thread_id t = map_option conn_id (thread_conn t)"

text \<open>The same, if the connection has sent its first request.\<close>

definition established_id :: "client_thread \<Rightarrow> conn option" where
  "established_id t = (case thread_conn t of Some c \<Rightarrow> if established c then Some (conn_id c) else None | None \<Rightarrow> None)"

lemma established_id_iff:
  "established_id t = Some cid \<longleftrightarrow> (\<exists>c. thread_conn t = Some c \<and> established c \<and> conn_id c = cid)"
  by (auto simp: established_id_def split: option.splits)

text \<open>What one step of a connection does to the bookkeeping of connections and, if it is not the owner, to the ownership.\<close>

definition keeps_owner :: "'f ownership \<Rightarrow> 'f ownership \<Rightarrow> bool" where
  "keeps_owner ow ow' \<longleftrightarrow> owner ow' = owner ow \<and> epoch ow' = epoch ow \<and> owner_reg ow' = owner_reg ow"

lemma touch_effect:
  "touch st c = (st1, c1) \<Longrightarrow> conn_id c1 = conn_id c \<and> established c1 \<and> sh_next_id st1 = sh_next_id st \<and>
     live (sh_ownership st1) = (if established c then live (sh_ownership st) else insert (conn_id c) (live (sh_ownership st))) \<and>
     keeps_owner (sh_ownership st) (sh_ownership st1)"
  by (auto simp: touch_def establish_def keeps_owner_def split: if_splits)

lemma thread_after_conn [simp]: "thread_conn (thread_after c r) = Some c"
  by (auto simp: thread_after_def split: sum.splits)

lemma set_irqs_effect:
  assumes "sb_set_irqs os bops st c reg n1 n2 n3 = (st', c', r)"
  shows "conn_id c' = conn_id c \<and> established c' \<and> sh_next_id st' = sh_next_id st \<and>
     live (sh_ownership st') = (if established c then live (sh_ownership st) else insert (conn_id c) (live (sh_ownership st))) \<and>
     (owner (sh_ownership st) \<notin> {NO_OWNER, conn_id c} \<longrightarrow> keeps_owner (sh_ownership st) (sh_ownership st'))"
proof -
  obtain st1 c1 where t: "touch st c = (st1, c1)" by (cases "touch st c")
  have "c' = c1 \<and> sh_next_id st' = sh_next_id st1 \<and> live (sh_ownership st') = live (sh_ownership st1) \<and>
      (owner (sh_ownership st1) \<notin> {NO_OWNER, conn_id c1} \<longrightarrow> keeps_owner (sh_ownership st1) (sh_ownership st'))"
  proof (cases "reg_fds reg = []")
    case True
    then show ?thesis using assms
      by (auto simp: sb_set_irqs_def t Let_def keeps_owner_def split: if_split_asm prod.splits)
  next
    case False
    then show ?thesis using assms
      by (auto simp: sb_set_irqs_def t Let_def keeps_owner_def split: if_split_asm sum.split_asm prod.split_asm)
  qed
  then show ?thesis using touch_effect [OF t] by (simp add: keeps_owner_def)
qed

lemma serve_client_effect:
  assumes "serve_client os bops st c rq = (st', t)"
  shows "\<exists>c'. thread_conn t = Some c' \<and> conn_id c' = conn_id c \<and> established c' \<and> sh_next_id st' = sh_next_id st \<and>
     live (sh_ownership st') = (if established c then live (sh_ownership st) else insert (conn_id c) (live (sh_ownership st))) \<and>
     (owner (sh_ownership st) \<notin> {NO_OWNER, conn_id c} \<longrightarrow> keeps_owner (sh_ownership st) (sh_ownership st'))"
proof -
  obtain st1 c1 where t: "touch st c = (st1, c1)" by (cases "touch st c")
  show ?thesis
  proof (cases rq)
    case (SetIrqs reg n1 n2 n3)
    obtain st2 c2 r where s: "sb_set_irqs os bops st c reg n1 n2 n3 = (st2, c2, r)" by (metis surj_pair)
    then show ?thesis using assms SetIrqs set_irqs_effect [OF s] by (cases r) auto
  qed (use assms t touch_effect [OF t] in \<open>auto simp: sb_region_read_def sb_region_write_def sb_dma_map_def sb_dma_unmap_def
      sb_reset_def Let_def keeps_owner_def split: prod.splits if_splits option.splits\<close>)
qed

lemma promote_live:
  "promote_candidate os bops b ow rs now = (b', ow') \<Longrightarrow> live ow' = live ow"
  by (auto simp: promote_candidate_def Let_def make_unowned_def split: if_splits option.splits sum.splits prod.splits)

lemma disconnect_effect:
  "sh_next_id (disconnect os bops st cid now) = sh_next_id st \<and>
   live (sh_ownership (disconnect os bops st cid now)) = live (sh_ownership st) - {cid} \<and>
   (owner (sh_ownership st) \<noteq> cid \<longrightarrow> keeps_owner (sh_ownership st) (sh_ownership (disconnect os bops st cid now)))"
proof (cases "owner (sh_ownership st) = cid")
  case True
  then show ?thesis
    by (simp add: disconnect_def Let_def split: if_split option.split sum.split prod.split) (auto dest: promote_live)
qed (simp add: disconnect_def Let_def keeps_owner_def)

lemma parked_effect:
  "parked_round st c deadline now = (st', r) \<Longrightarrow> sh_next_id st' = sh_next_id st \<and>
     live (sh_ownership st') = live (sh_ownership st) \<and> keeps_owner (sh_ownership st) (sh_ownership st')"
  by (auto simp: parked_round_def Let_def keeps_owner_def split: if_splits option.splits)

text \<open>A command of the control socket touches no connection, and only a commit or a reclaim moves the device.\<close>

abbreviation same_conns :: "('f, 'b) shared \<Rightarrow> ('f, 'b) shared \<Rightarrow> bool" where
  "same_conns st st' \<equiv> sh_next_id st' = sh_next_id st \<and> live (sh_ownership st') = live (sh_ownership st)"

definition moves_device :: "handover_command \<Rightarrow> bool" where
  "moves_device c = (case c of HoCommit _ _ \<Rightarrow> True | HoReclaim _ _ \<Rightarrow> True | _ \<Rightarrow> False)"

lemma watch_round_effect:
  "handover_watch_round st e d now = (st', r) \<Longrightarrow> same_conns st st' \<and> keeps_owner (sh_ownership st) (sh_ownership st')"
  by (auto simp: handover_watch_round_def Let_def keeps_owner_def case_prod_unfold split: option.splits if_splits)

lemma watch_effect:
  "watch_rounds st e d rounds = (st', r) \<Longrightarrow> same_conns st st' \<and> keeps_owner (sh_ownership st) (sh_ownership st')"
  by (induction st e d rounds arbitrary: st' r rule: watch_rounds.induct)
    (auto simp: keeps_owner_def dest!: watch_round_effect split: prod.splits option.splits)

lemma status_effect:
  "same_conns st (fst (handover_status_of st now)) \<and> keeps_owner (sh_ownership st) (sh_ownership (fst (handover_status_of st now)))"
  by (simp add: handover_status_of_def Let_def keeps_owner_def)

lemma ready_effect:
  "same_conns st (fst (handover_ready st cid now)) \<and> keeps_owner (sh_ownership st) (sh_ownership (fst (handover_ready st cid now)))"
  by (auto simp: handover_ready_def Let_def case_prod_unfold keeps_owner_def split: option.splits)

lemma abort_effect:
  "same_conns st (fst (handover_abort st cid now)) \<and> keeps_owner (sh_ownership st) (sh_ownership (fst (handover_abort st cid now)))"
  by (auto simp: handover_abort_def Let_def keeps_owner_def split: option.splits)

lemma commit_conns: "handover_commit os bops st cid ep now = Inr (st', r) \<Longrightarrow> same_conns st st'"
  by (auto simp: handover_commit_def commit_install_def Let_def case_prod_unfold
      split: option.splits if_splits sum.splits prod.splits)

lemma reclaim_conns: "handover_reclaim os bops st cid ep now = (st', r) \<Longrightarrow> same_conns st st'"
  by (auto simp: handover_reclaim_def Let_def split: option.splits if_splits sum.splits prod.splits)

lemma noted_conns:
  "same_conns st (note_device_inventory (note_controller_seen st) n) \<and>
   keeps_owner (sh_ownership st) (sh_ownership (note_device_inventory (note_controller_seen st) n))"
  by (simp add: note_device_inventory_def note_controller_seen_def keeps_owner_def)

lemma keeps_owner_trans: "keeps_owner a b \<Longrightarrow> keeps_owner b c \<Longrightarrow> keeps_owner a c"
  by (simp add: keeps_owner_def)

lemma control_effect:
  assumes "handle_handover os bops (Some st) c attached now rounds = Inr (Some st', r)"
  shows "same_conns st st' \<and> (\<not> moves_device c \<longrightarrow> keeps_owner (sh_ownership st) (sh_ownership st'))"
proof -
  let ?st = "note_device_inventory (note_controller_seen st) attached"
  have "same_conns ?st st' \<and> (\<not> moves_device c \<longrightarrow> keeps_owner (sh_ownership ?st) (sh_ownership st'))"
  proof (cases c)
    case HoStatus
    then show ?thesis using assms status_effect [of ?st now] by (auto simp: Let_def split: prod.splits)
  next
    case (HoWatch ms)
    obtain st2 h where "watch_rounds ?st (epoch (sh_ownership ?st)) (now + unat ms) rounds = (st2, h)" by fastforce
    then show ?thesis using assms HoWatch watch_effect [of ?st _ _ rounds st2 h] by simp
  next
    case (HoReady cid)
    then show ?thesis using assms ready_effect [of ?st cid now] by (auto simp: Let_def split: prod.splits)
  next
    case (HoAbort cid reason)
    then show ?thesis using assms abort_effect [of ?st cid now] by (auto simp: Let_def split: prod.splits)
  next
    case (HoCommit cid ep)
    then show ?thesis using assms commit_conns by (fastforce simp: Let_def moves_device_def split: prod.splits)
  next
    case (HoReclaim cid ep)
    then show ?thesis using assms reclaim_conns by (fastforce simp: Let_def moves_device_def split: prod.splits)
  qed
  then show ?thesis using noted_conns [of st attached] keeps_owner_trans by metis
qed

text \<open>The three kinds of turns: a new connection, a turn of a connection, the end of one.\<close>

lemma client_turn_cases:
  assumes "client_turn os bops st act t = Some (st', t')"
  obtains
    (connected) "t = Connecting" "st' = st\<lparr>sh_next_id := sh_next_id st + 1\<rparr>"
      "t' = Serving \<lparr>conn_id = sh_next_id st, established = False\<rparr>"
  | (served) c c' where "thread_conn t = Some c" "t \<noteq> Panicked c" "thread_conn t' = Some c'" "conn_id c' = conn_id c"
      "t' = Panicked c' \<longrightarrow> established c'" "sh_next_id st' = sh_next_id st"
      "live (sh_ownership st') = (if established c' \<and> \<not> established c
         then insert (conn_id c) (live (sh_ownership st)) else live (sh_ownership st))"
      "established c \<longrightarrow> established c'"
      "owner (sh_ownership st) \<notin> {NO_OWNER, conn_id c} \<longrightarrow> keeps_owner (sh_ownership st) (sh_ownership st')"
  | (gone) c where "t = Serving c" "t' = Connecting" "sh_next_id st' = sh_next_id st"
      "live (sh_ownership st') = live (sh_ownership st) - {conn_id c}"
      "owner (sh_ownership st) \<noteq> conn_id c \<longrightarrow> keeps_owner (sh_ownership st) (sh_ownership st')"
  using assms
proof (cases "(os, bops, st, act, t)" rule: client_turn.cases)
  case (2 os' bops' st0 i rq c)
  then have rq: "serve_client os bops st c rq = (st', t')" "t = Serving c" using assms by auto
  obtain c' where "thread_conn t' = Some c'" "conn_id c' = conn_id c" "established c'" "sh_next_id st' = sh_next_id st"
    "live (sh_ownership st') = (if established c then live (sh_ownership st) else insert (conn_id c) (live (sh_ownership st)))"
    "owner (sh_ownership st) \<notin> {NO_OWNER, conn_id c} \<longrightarrow> keeps_owner (sh_ownership st) (sh_ownership st')"
    using serve_client_effect [OF rq(1)] by blast
  with rq(2) show ?thesis by (intro served [of c c']) simp_all
next
  case (3 os' bops' st0 i now c deadline)
  then obtain r where "parked_round st c deadline now = (st', r)" "t = Waiting c deadline"
    "t' = Waiting c deadline \<or> t' = Serving c"
    using assms by (auto split: prod.splits option.splits)
  with parked_effect [OF this(1)] show ?thesis by (auto intro: served [of c c])
next
  case (4 os' bops' st0 i now c)
  then show ?thesis using assms disconnect_effect [of os bops st "conn_id c" now] by (auto intro: gone)
qed (auto simp: connect_def intro: connected)

section \<open>The invariant of the threads\<close>

text \<open>\<open>n\<close> bounds the number of connections made so far, so that no id has come around again.\<close>

definition thread_ok :: "nat \<Rightarrow> conn set \<Rightarrow> client_thread \<Rightarrow> bool" where
  "thread_ok k lv t \<longleftrightarrow> (\<forall>c. thread_conn t = Some c \<longrightarrow> unat (conn_id c) < k \<and>
     (established c \<longrightarrow> conn_id c \<in> lv) \<and> (t = Panicked c \<longrightarrow> established c))"

definition each_once :: "'a option list \<Rightarrow> bool" where
  "each_once xs \<longleftrightarrow> (\<forall>i < length xs. \<forall>j < length xs. xs ! i = xs ! j \<longrightarrow> xs ! i \<noteq> None \<longrightarrow> i = j)"

lemma each_once_update:
  "each_once xs \<Longrightarrow> x = None \<or> x \<notin> set xs \<Longrightarrow> each_once (xs[i := x])"
proof (cases "i < length xs")
  case True
  assume "each_once xs" "x = None \<or> x \<notin> set xs"
  then show ?thesis using True
    by (auto simp: each_once_def nth_list_update dest: nth_mem)
qed (simp add: not_less list_update_beyond)

lemma each_once_replicate: "each_once (replicate n None)"
  by (simp add: each_once_def)

definition daemon_inv :: "nat \<Rightarrow> ('f, 'b) daemon \<Rightarrow> bool" where
  "daemon_inv n d \<longleftrightarrow> (\<exists>k \<le> n. sh_next_id (dm_shared d) = of_nat k \<and>
     (\<forall>t \<in> set (dm_threads d). thread_ok k (live (sh_ownership (dm_shared d))) t)) \<and>
     each_once (map thread_id (dm_threads d)) \<and>
     Some ` live (sh_ownership (dm_shared d)) \<subseteq> set (map established_id (dm_threads d))"

lemma daemon_inv_start:
  "sh_next_id st = 0 \<Longrightarrow> live (sh_ownership st) = {} \<Longrightarrow> daemon_inv 0 (run_multi_client st n)"
  by (simp add: daemon_inv_def run_multi_client_def thread_ok_def thread_id_def each_once_replicate)

lemma daemon_inv_same_conns:
  assumes "daemon_inv n d" "same_conns (dm_shared d) st"
  shows "daemon_inv (Suc n) (d\<lparr>dm_shared := st\<rparr>)"
proof -
  from assms(1) obtain k where "k \<le> n" "sh_next_id (dm_shared d) = of_nat k"
    "\<forall>t \<in> set (dm_threads d). thread_ok k (live (sh_ownership (dm_shared d))) t"
    unfolding daemon_inv_def by blast
  then have "\<exists>k \<le> Suc n. sh_next_id st = of_nat k \<and> (\<forall>t \<in> set (dm_threads d). thread_ok k (live (sh_ownership st)) t)"
    using assms(2) by (intro exI [of _ k]) simp
  then show ?thesis using assms unfolding daemon_inv_def by simp
qed

lemma thread_ok_mono: "thread_ok k lv t \<Longrightarrow> k \<le> k' \<Longrightarrow> lv \<subseteq> lv' \<Longrightarrow> thread_ok k' lv' t"
  by (fastforce simp: thread_ok_def)

lemma set_update_None: "i < length xs \<Longrightarrow> xs ! i = None \<Longrightarrow> Some x \<in> set xs \<Longrightarrow> Some x \<in> set (xs[i := y])"
  by (metis in_set_conv_nth length_list_update nth_list_update option.distinct(1))

lemma set_update_other: "i < length xs \<Longrightarrow> xs ! i \<noteq> x \<Longrightarrow> x \<in> set xs \<Longrightarrow> x \<in> set (xs[i := y])"
  by (metis in_set_conv_nth length_list_update nth_list_update_neq)

lemma daemon_inv_turn:
  assumes inv: "daemon_inv n d" and n: "Suc n < 2 ^ 64" and i: "i < length (dm_threads d)"
    and turn: "client_turn os bops (dm_shared d) act (dm_threads d ! i) = Some (st', t')"
  shows "daemon_inv (Suc n) \<lparr>dm_shared = st', dm_threads = (dm_threads d)[i := t']\<rparr>"
proof -
  let ?ts = "dm_threads d" and ?lv = "live (sh_ownership (dm_shared d))" and ?lv' = "live (sh_ownership st')"
  let ?ids = "map thread_id ?ts" and ?est = "map established_id ?ts"
  obtain k where k: "k \<le> n" "sh_next_id (dm_shared d) = of_nat k" "\<forall>t \<in> set ?ts. thread_ok k ?lv t"
    using inv unfolding daemon_inv_def by blast
  have once: "each_once ?ids" and cover: "Some ` ?lv \<subseteq> set ?est"
    using inv unfolding daemon_inv_def by blast+
  have t: "thread_ok k ?lv (?ts ! i)" "?ids ! i = thread_id (?ts ! i)" "?est ! i = established_id (?ts ! i)"
    using k(3) i by simp_all
  have upd: "\<forall>t \<in> set (?ts[i := t']). P t" if "\<And>j. j < length ?ts \<Longrightarrow> j \<noteq> i \<Longrightarrow> P (?ts ! j)" "P t'" for P
    using that i by (auto simp: in_set_conv_nth nth_list_update)
  from turn show ?thesis
  proof (cases rule: client_turn_cases)
    case connected
    have fresh: "Some (of_nat k :: u64) \<notin> set ?ids"
    proof
      assume "Some (of_nat k :: u64) \<in> set ?ids"
      then obtain t where "t \<in> set ?ts" "thread_id t = Some (of_nat k)" by (metis imageE set_map)
      moreover from this(2) obtain c where "thread_conn t = Some c" "conn_id c = of_nat k" by (auto simp: thread_id_def)
      ultimately have "\<exists>t c. t \<in> set ?ts \<and> thread_conn t = Some c \<and> conn_id c = of_nat k" by blast
      then show False using k(1,3) n by (auto simp: thread_ok_def unat_of_nat)
    qed
    have id: "thread_id t' = Some (of_nat k)" using connected(3) k(2) by (simp add: thread_id_def)
    have "\<forall>t \<in> set (?ts[i := t']). thread_ok (Suc k) ?lv' t"
      using k n connected by (intro upd) (auto simp: thread_ok_def unat_of_nat less_Suc_eq dest!: nth_mem)
    moreover have "Some ` ?lv' \<subseteq> set (?est[i := established_id t'])"
      using cover connected(1,2) i t(3) set_update_None [of i ?est] by (auto simp: established_id_def image_subset_iff)
    ultimately show ?thesis
      using k(1,2) connected(2) each_once_update [OF once, of "thread_id t'" i] fresh
      unfolding daemon_inv_def by (auto simp: map_update id intro!: exI [of _ "Suc k"])
  next
    case (served c c')
    have id: "thread_id t' = ?ids ! i" using served(1,3,4) t(2) by (simp add: thread_id_def)
    have ids: "?ids[i := thread_id t'] = ?ids" by (simp add: id)
    have sub: "?lv \<subseteq> ?lv'" using served(7) by auto
    have "\<forall>t \<in> set (?ts[i := t']). thread_ok k ?lv' t"
    proof (rule upd)
      show "thread_ok k ?lv' (?ts ! j)" if "j < length ?ts" "j \<noteq> i" for j
        using thread_ok_mono [OF _ order_refl sub] k(3) that by simp
      show "thread_ok k ?lv' t'" using t(1) served by (auto simp: thread_ok_def)
    qed
    moreover have "Some ` ?lv' \<subseteq> set (?est[i := established_id t'])"
    proof (cases "established c")
      case True
      then have "?est[i := established_id t'] = ?est"
        using served(1,3,4,8) t(3) by (intro list_update_same_conv [THEN iffD2]) (simp_all add: established_id_def i)
      then show ?thesis using cover served(7) True by simp
    next
      case False
      then have "?est ! i = None" using served(1) t(3) by (simp add: established_id_def)
      then have "Some ` ?lv \<subseteq> set (?est[i := established_id t'])"
        using cover i by (auto intro!: set_update_None)
      moreover have "Some (conn_id c) \<in> set (?est[i := established_id t'])" if "established c'"
        using that served(3,4) i by (auto simp: established_id_def intro!: set_update_memI)
      ultimately show ?thesis using served(7) by auto
    qed
    ultimately show ?thesis
      using k(1,2) served(6) once unfolding daemon_inv_def by (auto simp: ids map_update intro!: exI [of _ k])
  next
    case (gone c)
    have id: "thread_id t' = None" using gone(2) by (simp add: thread_id_def)
    have ti: "?ids ! i = Some (conn_id c)" using gone(1) t(2) by (simp add: thread_id_def)
    have "\<forall>t \<in> set (?ts[i := t']). thread_ok k ?lv' t"
    proof (rule upd)
      fix j assume j: "j < length ?ts" "j \<noteq> i"
      then have "?ids ! j \<noteq> Some (conn_id c)"
        using once i ti by (auto simp: each_once_def)
      moreover have "thread_ok k ?lv (?ts ! j)" using k(3) j by simp
      ultimately show "thread_ok k ?lv' (?ts ! j)" using j gone(4) by (auto simp: thread_ok_def thread_id_def)
    qed (simp add: gone(2) thread_ok_def)
    moreover have "Some ` ?lv' \<subseteq> set (?est[i := established_id t'])"
      using cover gone(1,4) t(3) i by (auto simp: established_id_def intro!: set_update_other split: if_splits)
    ultimately show ?thesis
      using k(1,2) gone(3) each_once_update [OF once, of None i]
      unfolding daemon_inv_def by (auto simp: map_update id intro!: exI [of _ k])
  qed
qed

lemma daemon_inv_mono: "daemon_inv n d \<Longrightarrow> daemon_inv (Suc n) d"
  unfolding daemon_inv_def by (meson le_SucI)

lemma daemon_inv_at_thread:
  assumes "daemon_inv n d" "Suc n < 2 ^ 64"
  shows "daemon_inv (Suc n) (at_thread d i (client_turn os bops (dm_shared d) act))"
  using assms daemon_inv_turn [OF assms, of i os bops act] daemon_inv_mono [OF assms(1)]
  by (auto simp: at_thread_def split: option.split)

lemma daemon_inv_step:
  assumes "daemon_inv n d" "Suc n < 2 ^ 64"
  shows "daemon_inv (Suc n) (daemon_step os bops act d)"
proof (cases act)
  case (Control c attached now rounds)
  show ?thesis
  proof (cases "handle_handover os bops (Some (dm_shared d)) c attached now rounds")
    case (Inr a)
    then show ?thesis
      using daemon_inv_same_conns [OF assms(1)] control_effect [of os bops "dm_shared d" c attached now rounds]
        daemon_inv_mono [OF assms(1)] Control by (cases a) (auto split: option.split)
  qed (use Control daemon_inv_mono [OF assms(1)] in simp)
next
  case (DeviceWorks f)
  then show ?thesis using daemon_inv_same_conns [OF assms(1)] by simp
qed (use daemon_inv_at_thread [OF assms] in simp_all)

lemma daemon_run_simps [simp]:
  "daemon_run os bops [] d = d"
  "daemon_run os bops (act # acts) d = daemon_run os bops acts (daemon_step os bops act d)"
  "daemon_run os bops (acts @ acts') d = daemon_run os bops acts' (daemon_run os bops acts d)"
  by (simp_all add: daemon_run_def)

lemma daemon_inv_run:
  "daemon_inv n d \<Longrightarrow> n + length acts < 2 ^ 64 \<Longrightarrow> daemon_inv (n + length acts) (daemon_run os bops acts d)"
proof (induction acts arbitrary: n d)
  case (Cons act acts)
  then show ?case using Cons.IH [OF daemon_inv_step [OF Cons.prems(1)]] by simp
qed simp

lemma at_thread_length [simp]: "length (dm_threads (at_thread d i f)) = length (dm_threads d)"
  by (simp add: at_thread_def split: option.split prod.split)

lemma daemon_step_length [simp]: "length (dm_threads (daemon_step os bops act d)) = length (dm_threads d)"
  by (cases act) (auto split: sum.split option.split)

lemma daemon_run_length [simp]: "length (dm_threads (daemon_run os bops acts d)) = length (dm_threads d)"
  by (induction acts arbitrary: d) simp_all

lemma multi_start:
  "make_runner cli b = Multi st \<Longrightarrow> sh_next_id st = 0 \<and> live (sh_ownership st) = {}"
  by (auto simp: make_runner_def configure_handover_def handover_init_def split: if_splits)

lemma daemon_inv_reached:
  assumes "make_runner cli b = Multi st" "length acts < 2 ^ 64"
  shows "daemon_inv (length acts) (daemon_run os bops acts (run_multi_client st n))"
proof -
  have "daemon_inv 0 (run_multi_client st n)" using multi_start [OF assms(1)] by (intro daemon_inv_start) auto
  from daemon_inv_run [OF this, of acts] show ?thesis using assms(2) by simp
qed

text \<open>
  C7: The connections the ownership counts as live are exactly those that client threads hold and that have
  sent a request: a connection that has only been accepted is not live, one that has sent a request is live
  until its client is gone, also while its thread is parked or after a panic of the thread, and no
  connection outlives its thread's turn with it. Whatever the clients, the control socket and the device
  do, the process has as many client threads as it may have clients, no two threads hold connections of
  the same id, and so no more than that many connections are ever live. The run is shorter than it takes
  for the connection ids to wrap around.
\<close>

theorem live_connections_have_threads:
  assumes "make_runner cli b = Multi st" "length acts < 2 ^ 64"
    "d = daemon_run os bops acts (run_multi_client st (cli_max_clients cli))"
  shows "length (dm_threads d) = cli_max_clients cli \<and>
    live (sh_ownership (dm_shared d)) =
      {conn_id c |c t. t \<in> set (dm_threads d) \<and> thread_conn t = Some c \<and> established c} \<and>
    (\<forall>i < length (dm_threads d). \<forall>j < length (dm_threads d). \<forall>c c'.
       thread_conn (dm_threads d ! i) = Some c \<and> thread_conn (dm_threads d ! j) = Some c' \<and> conn_id c = conn_id c' \<longrightarrow> i = j) \<and>
    card (live (sh_ownership (dm_shared d))) \<le> cli_max_clients cli"
proof -
  let ?ids = "map thread_id (dm_threads d)" and ?est = "map established_id (dm_threads d)"
  let ?lv = "live (sh_ownership (dm_shared d))"
  have inv: "daemon_inv (length acts) d" using daemon_inv_reached [OF assms(1,2)] assms(3) by simp
  then have once: "each_once ?ids" and cover: "Some ` ?lv \<subseteq> set ?est"
    and ok: "\<forall>t \<in> set (dm_threads d). \<exists>k. thread_ok k ?lv t"
    unfolding daemon_inv_def by blast+
  have len: "length (dm_threads d) = cli_max_clients cli" by (simp add: assms(3) run_multi_client_def)
  have "card ?lv = card (Some ` ?lv)" by (simp add: card_image)
  also have "\<dots> \<le> card (set ?est)" using cover by (intro card_mono) auto
  also have "\<dots> \<le> cli_max_clients cli" using card_length [of ?est] len by simp
  finally have "card ?lv \<le> cli_max_clients cli" .
  moreover have "?lv = {conn_id c |c t. t \<in> set (dm_threads d) \<and> thread_conn t = Some c \<and> established c}"
  proof (intro equalityI subsetI)
    fix cid assume "cid \<in> ?lv"
    then have "Some cid \<in> established_id ` set (dm_threads d)" using cover by auto
    then obtain t where "t \<in> set (dm_threads d)" "established_id t = Some cid" by auto
    then show "cid \<in> {conn_id c |c t. t \<in> set (dm_threads d) \<and> thread_conn t = Some c \<and> established c}"
      unfolding established_id_iff by blast
  qed (use ok in \<open>auto simp: thread_ok_def\<close>)
  moreover have "i = j" if "i < length (dm_threads d)" "j < length (dm_threads d)" "thread_conn (dm_threads d ! i) = Some c"
      "thread_conn (dm_threads d ! j) = Some c'" "conn_id c = conn_id c'" for i j c c'
    using once that unfolding each_once_def by (auto simp: thread_id_def)
  ultimately show ?thesis using len by blast
qed

text \<open>Two clients: both are accepted, only the second one reads a register, and only it is live.\<close>

theorem live_connections_have_threads_witness:
  "\<exists>st :: (nat, nat option) shared. make_runner one_device_cli None = Multi st \<and>
     (let d = daemon_run plain_os line_backend [NextTurn 0, NextTurn 1, ClientRequest 1 (RegionRead 0 0 4)] (run_multi_client st 2) in
      live (sh_ownership (dm_shared d)) = {1} \<and>
      dm_threads d = [Serving \<lparr>conn_id = 0, established = False\<rparr>, Serving \<lparr>conn_id = 1, established = True\<rparr>])"
proof -
  let ?acts = "[NextTurn 0, NextTurn 1, ClientRequest 1 (RegionRead 0 0 4)] :: (nat, nat option) daemon_action list"
  obtain st :: "(nat, nat option) shared" where st: "make_runner one_device_cli None = Multi st"
    by (simp add: make_runner_def one_device_cli_def)
  define d where "d = daemon_run plain_os line_backend ?acts (run_multi_client st 2)"
  have n: "cli_max_clients one_device_cli = 2" by (simp add: one_device_cli_def)
  have ts: "dm_threads d = [Serving \<lparr>conn_id = 0, established = False\<rparr>, Serving \<lparr>conn_id = 1, established = True\<rparr>]"
    using multi_start [OF st]
    by (simp add: d_def run_multi_client_def at_thread_def connect_def sb_region_read_def touch_def establish_def Let_def
        line_backend_def numeral_2_eq_2 thread_after_def)
  have "length ?acts < 2 ^ 64" "d = daemon_run plain_os line_backend ?acts (run_multi_client st (cli_max_clients one_device_cli))"
    by (simp_all only: n d_def) simp
  note t = live_connections_have_threads [OF st this]
  have "live (sh_ownership (dm_shared d)) = {1}"
    using conjunct1 [OF conjunct2 [OF t]]
    by (auto simp: ts intro!: exI [of _ "\<lparr>conn_id = 1, established = True\<rparr>"])
  with ts show ?thesis using st unfolding Let_def d_def by blast
qed

lemma idle_thread [simp]: "client_turn os bops st act (Panicked c) = None"
  by (cases act) auto

lemma panicked_owner_step:
  assumes inv: "daemon_inv n d" and n: "Suc n < 2 ^ 64" and i: "i < length (dm_threads d)"
    "dm_threads d ! i = Panicked c" and own: "owner (sh_ownership (dm_shared d)) = conn_id c"
    and quiet: "\<forall>co a now rounds. act = Control co a now rounds \<longrightarrow> \<not> moves_device co"
  shows "dm_threads (daemon_step os bops act d) ! i = Panicked c \<and>
    keeps_owner (sh_ownership (dm_shared d)) (sh_ownership (dm_shared (daemon_step os bops act d)))"
proof -
  obtain k where k: "k \<le> n" "thread_ok k (live (sh_ownership (dm_shared d))) (Panicked c)"
    using inv i nth_mem [OF i(1)] unfolding daemon_inv_def by auto
  have no: "conn_id c \<noteq> NO_OWNER"
  proof
    assume "conn_id c = NO_OWNER"
    then have "unat (conn_id c) = 2 ^ 64 - 1" by (simp add: NO_OWNER_def unat_m1_u64)
    then show False using k n by (simp add: thread_ok_def)
  qed
  have turn: "dm_threads (at_thread d j (client_turn os bops (dm_shared d) act)) ! i = Panicked c \<and>
    keeps_owner (sh_ownership (dm_shared d)) (sh_ownership (dm_shared (at_thread d j (client_turn os bops (dm_shared d) act))))" for j
  proof (cases "j < length (dm_threads d) \<and> client_turn os bops (dm_shared d) act (dm_threads d ! j) \<noteq> None")
    case True
    then obtain st' t' where t: "client_turn os bops (dm_shared d) act (dm_threads d ! j) = Some (st', t')" by auto
    then have j: "j \<noteq> i" using i by auto
    have "keeps_owner (sh_ownership (dm_shared d)) (sh_ownership st')"
      using t
    proof (cases rule: client_turn_cases)
      case connected
      then show ?thesis by (simp add: keeps_owner_def)
    next
      case (served c0 c')
      have "thread_id (dm_threads d ! j) \<noteq> thread_id (dm_threads d ! i)"
        using inv j i True by (auto simp: daemon_inv_def each_once_def thread_id_def)
      then show ?thesis using served no own i by (simp add: thread_id_def)
    next
      case (gone c0)
      have "thread_id (dm_threads d ! j) \<noteq> thread_id (dm_threads d ! i)"
        using inv j i True by (auto simp: daemon_inv_def each_once_def thread_id_def)
      then show ?thesis using gone own i by (simp add: thread_id_def)
    qed
    then show ?thesis using t True j i by (simp add: at_thread_def)
  next
    case False
    then have "at_thread d j (client_turn os bops (dm_shared d) act) = d"
      by (cases "client_turn os bops (dm_shared d) act (dm_threads d ! j)") (auto simp: at_thread_def)
    then show ?thesis using i by (simp add: keeps_owner_def)
  qed
  show ?thesis
  proof (cases act)
    case (Control co a now rounds)
    then show ?thesis using quiet i control_effect [of os bops "dm_shared d" co a now rounds]
      by (auto simp: keeps_owner_def split: sum.split option.split)
  qed (use turn i in \<open>simp_all add: keeps_owner_def\<close>)
qed

lemma panicked_owner_run:
  assumes "daemon_inv n d" "n + length acts < 2 ^ 64" "i < length (dm_threads d)" "dm_threads d ! i = Panicked c"
    "owner (sh_ownership (dm_shared d)) = conn_id c"
    "\<forall>co a now rounds. Control co a now rounds \<in> set acts \<longrightarrow> \<not> moves_device co"
  shows "dm_threads (daemon_run os bops acts d) ! i = Panicked c \<and>
    keeps_owner (sh_ownership (dm_shared d)) (sh_ownership (dm_shared (daemon_run os bops acts d)))"
  using assms
proof (induction acts arbitrary: n d)
  case (Cons act acts)
  have n: "Suc n < 2 ^ 64" using Cons.prems(2) by simp
  have step: "dm_threads (daemon_step os bops act d) ! i = Panicked c \<and>
    keeps_owner (sh_ownership (dm_shared d)) (sh_ownership (dm_shared (daemon_step os bops act d)))"
    by (rule panicked_owner_step [OF Cons.prems(1) n Cons.prems(3-5)]) (use Cons.prems(6) in auto)
  have inv: "daemon_inv (Suc n) (daemon_step os bops act d)" by (rule daemon_inv_step [OF Cons.prems(1) n])
  have "dm_threads (daemon_run os bops acts (daemon_step os bops act d)) ! i = Panicked c \<and>
    keeps_owner (sh_ownership (dm_shared (daemon_step os bops act d))) (sh_ownership (dm_shared (daemon_run os bops acts (daemon_step os bops act d))))"
    by (rule Cons.IH [OF inv]) (use step Cons.prems in \<open>auto simp: keeps_owner_def\<close>)
  with step show ?case by (simp add: keeps_owner_def)
qed (simp add: keeps_owner_def)

text \<open>
  C8: When a request panics the thread of the owner, the device stays with a connection nobody serves.
  Whatever the other clients, the device and the control socket do, short of an operator's commit or
  reclaim: the dead connection stays the owner at the same epoch with its interrupt registration, it counts
  as live, and its thread never serves another client. An orderly end of the same connection would have
  passed the device on or freed it.
\<close>

theorem panicked_owner_keeps_device:
  assumes "make_runner cli b = Multi st" "length acts + length later < 2 ^ 64"
    "d = daemon_run os bops acts (run_multi_client st (cli_max_clients cli))"
    "i < cli_max_clients cli" "dm_threads d ! i = Panicked c" "owner (sh_ownership (dm_shared d)) = conn_id c"
    "\<forall>co a now rounds. Control co a now rounds \<in> set later \<longrightarrow> \<not> moves_device co"
    "d' = daemon_run os bops later d"
  shows "dm_threads d' ! i = Panicked c \<and> owner (sh_ownership (dm_shared d')) = conn_id c \<and>
    conn_id c \<in> live (sh_ownership (dm_shared d')) \<and> epoch (sh_ownership (dm_shared d')) = epoch (sh_ownership (dm_shared d)) \<and>
    owner_reg (sh_ownership (dm_shared d')) = owner_reg (sh_ownership (dm_shared d))"
proof -
  have inv: "daemon_inv (length acts) d" using daemon_inv_reached [OF assms(1)] assms(2,3) by simp
  have i: "i < length (dm_threads d)" using assms(3,4) by (simp add: run_multi_client_def)
  have run: "dm_threads d' ! i = Panicked c \<and> keeps_owner (sh_ownership (dm_shared d)) (sh_ownership (dm_shared d'))"
    using panicked_owner_run [OF inv assms(2) i assms(5-7)] assms(8) by simp
  have inv': "daemon_inv (length acts + length later) d'"
    using daemon_inv_run [OF inv assms(2)] assms(8) by simp
  have "Panicked c \<in> set (dm_threads d')"
    using run nth_mem [of i "dm_threads d'"] i assms(8) by simp
  then have "conn_id c \<in> live (sh_ownership (dm_shared d'))"
    using inv' by (auto simp: daemon_inv_def thread_ok_def)
  then show ?thesis using run assms(6) by (simp add: keeps_owner_def)
qed

text \<open>
  The owner's guest writes 9 to the CONFIG register, more than there are slots; a second client then registers.
\<close>

lemma registers_first:
  assumes "candidate (sh_ownership st) = None" "owner (sh_ownership st) = NO_OWNER"
    "be_set_irqs bops (sh_backend st) (reg_example f) = (b', Inr ())"
  shows "sb_set_irqs plain_os bops st \<lparr>conn_id = cid, established = False\<rparr> (reg_example f) n1 n2 n3 =
    (st\<lparr>sh_backend := b', sh_ownership := (sh_ownership st)\<lparr>live := insert cid (live (sh_ownership st)),
       owner := cid, owner_reg := Some (reg_example f), epoch := Suc (epoch (sh_ownership st))\<rparr>\<rparr>,
     \<lparr>conn_id = cid, established = True\<rparr>, Replied (Inr ()))"
  using assms by (simp add: sb_set_irqs_def touch_def establish_def expire_candidate_def Let_def)

lemma config_write_panics:
  assumes "workers_up (bk_controller b)"
  shows "backend_region_write b 0 0x78 [9] = (b, Inl PANIC)"
proof -
  obtain sz where sz: "request_size_try_from (of_nat (length [9 :: u8])) = Some sz" using write_size [of "[9 :: u8]"] by auto
  have "\<not> write_accepted 0x78 (of_le_bytes [9])" by code_simp
  then obtain e where "write_io (bk_coordinator_waits b) (bk_interrupter_waits b) (bk_controller b) 0 (request_new 0x78 sz) (of_le_bytes [9]) = Inl e"
    using write_io_outcome [OF assms, of "bk_coordinator_waits b" "bk_interrupter_waits b" "0x78" sz "of_le_bytes [9]"]
    by (metis isl_def)
  then show ?thesis using sz by (simp add: backend_region_write_def VFIO_PCI_CONFIG_REGION_INDEX_def Let_def)
qed

theorem panicked_owner_keeps_device_witness:
  "\<exists>(b :: (nat, nat, nat, nat, nat) xhci_backend) st. backend_new = Inr b \<and> make_runner one_device_cli b = Multi st \<and>
     (let ops = xhci_backend_ops (\<lambda>_ _ _. Inl []);
          d = daemon_run plain_os ops [NextTurn 0, ClientRequest 0 (SetIrqs (reg_example 10) 0 0 0),
            ClientRequest 0 (RegionWrite 0 0x78 [9])] (run_multi_client st 2);
          d' = daemon_run plain_os ops [NextTurn 1, ClientRequest 1 (SetIrqs (reg_example 11) 10 10 10),
            ClientGone 0 20, Control HoStatus 1 30 []] d in
      owner (sh_ownership (dm_shared d')) = 0 \<and> 0 \<in> live (sh_ownership (dm_shared d')) \<and>
      owner_reg (sh_ownership (dm_shared d')) = Some (reg_example 10))"
proof -
  let ?ops = "xhci_backend_ops (\<lambda>_ _ _. Inl []) :: (nat, (nat, nat, nat, nat, nat) xhci_backend) backend_ops"
  let ?acts = "[NextTurn 0, ClientRequest 0 (SetIrqs (reg_example 10) 0 0 0), ClientRequest 0 (RegionWrite 0 0x78 [9])]
    :: (nat, (nat, nat, nat, nat, nat) xhci_backend) daemon_action list"
  let ?later = "[NextTurn 1, ClientRequest 1 (SetIrqs (reg_example 11) 10 10 10), ClientGone 0 20, Control HoStatus 1 30 []]
    :: (nat, (nat, nat, nat, nat, nat) xhci_backend) daemon_action list"
  obtain x :: "(nat irq_line, nat, nat, nat, nat) xhci_controller" where x: "controller_new None = Inr x" "workers_up x"
    using controller_new_up [of "None :: nat irq_line"] by metis
  then obtain b :: "(nat, nat, nat, nat, nat) xhci_backend" where b: "backend_new = Inr b" "bk_controller b = x"
    by (auto simp: backend_new_def)
  obtain st :: "(nat, (nat, nat, nat, nat, nat) xhci_backend) shared" where st: "make_runner one_device_cli b = Multi st"
    by (simp add: make_runner_def one_device_cli_def)
  then have st_ow: "candidate (sh_ownership st) = None" "owner (sh_ownership st) = NO_OWNER" "sh_backend st = b" "sh_next_id st = 0"
    by (auto simp: make_runner_def one_device_cli_def configure_handover_def handover_init_def)
  define d where "d = daemon_run plain_os ?ops ?acts (run_multi_client st 2)"
  let ?b' = "b\<lparr>bk_controller := x\<lparr>xc_events := xc_events x @ [UpdateInterruptLine (Some 10)]\<rparr>\<rparr>"
  have irqs: "be_set_irqs ?ops b (reg_example 10) = (?b', Inr ())"
    using x(2) b(2) by (simp add: xhci_backend_ops_def backend_set_irqs_def connect_irq_def workers_up_def)
  have panics: "be_region_write ?ops ?b' 0 0x78 [9] = (?b', Inl PANIC)"
    using config_write_panics [of ?b'] x(2) by (simp add: xhci_backend_ops_def workers_up_def)
  let ?ow = "(sh_ownership st)\<lparr>live := insert 0 (live (sh_ownership st)), owner := 0,
    owner_reg := Some (reg_example 10), epoch := Suc (epoch (sh_ownership st))\<rparr>"
  have d: "d = \<lparr>dm_shared = \<lparr>sh_backend = ?b', sh_ownership = ?ow, sh_next_id = 1\<rparr>,
      dm_threads = [Panicked \<lparr>conn_id = 0, established = True\<rparr>, Connecting]\<rparr>"
    using registers_first [of "st\<lparr>sh_next_id := 1\<rparr>" ?ops 10 ?b' 0 0 0 0] st_ow irqs panics
    by (simp add: d_def run_multi_client_def at_thread_def connect_def numeral_2_eq_2 thread_after_def
        sb_region_write_def touch_def Let_def)
  have thread: "dm_threads d ! 0 = Panicked \<lparr>conn_id = 0, established = True\<rparr>"
    "owner (sh_ownership (dm_shared d)) = conn_id \<lparr>conn_id = 0, established = True\<rparr>"
    "owner_reg (sh_ownership (dm_shared d)) = Some (reg_example 10)"
    by (simp_all add: d)
  have n: "cli_max_clients one_device_cli = 2" by (simp add: one_device_cli_def)
  have start: "d = daemon_run plain_os ?ops ?acts (run_multi_client st (cli_max_clients one_device_cli))"
    unfolding n d_def ..
  have "length ?acts + length ?later < 2 ^ 64" "0 < cli_max_clients one_device_cli"
    "\<forall>co a now rounds. Control co a now rounds \<in> set ?later \<longrightarrow> \<not> moves_device co"
    by (auto simp: n moves_device_def)
  from panicked_owner_keeps_device [OF st this(1) start this(2) thread(1,2) this(3) refl] thread(3)
  have "owner (sh_ownership (dm_shared (daemon_run plain_os ?ops ?later d))) = 0 \<and>
    0 \<in> live (sh_ownership (dm_shared (daemon_run plain_os ?ops ?later d))) \<and>
    owner_reg (sh_ownership (dm_shared (daemon_run plain_os ?ops ?later d))) = Some (reg_example 10)"
    by (simp only: connection.simps simp_thms)
  then show ?thesis using b(1) st unfolding Let_def d_def by blast
qed

end
