(* ===== verification/Spec2Isabelle.thy ===== *)
theory Spec2Isabelle
  imports TrbLayout HandoverTrace PciGuest ProtocolRoundtrip DriverCommands ControllerReset BackendSpec Remote NusbSpec PcapSpec DaemonSpec
begin

text \<open>
  \<^bold>\<open>What the program is.\<close> usbvfiod is a vfio-user server: it emulates an xHCI USB controller for a virtual
  machine and forwards the guest's USB transfers to real devices. A virtual machine monitor connects to a
  socket, maps guest memory, registers an eventfd as the interrupt, and reads and writes the controller's
  PCI configuration space and registers. Devices come and go over a second socket, the hotplug socket, and
  the same socket steers the hand-over of the controller from one connection to another during a live
  migration. This development models the program from the two sockets down to the calls of the USB library
  and proves what the parts promise each other, the guest and the operator.

  \<^bold>\<open>How the parts interact.\<close> The client threads (\<open>main.rs\<close>) serve connections; each request goes through the
  ownership (\<open>shared_backend.rs\<close>) to the backend (\<open>xhci_backend.rs\<close>), which holds the DMA bus and the
  controller (\<open>device/pci/xhci.rs\<close>). Register writes of the guest become messages to the workers: the
  command ring, the interrupter, the port worker and, through the command ring, the slot worker, which
  launches one endpoint worker per endpoint. The workers read rings and contexts in guest memory over the
  DMA bus, hand requests to the real device (\<open>device/xhci/nusb.rs\<close>), and report events through the
  interrupter, which writes the event ring and raises the interrupt. The control server
  (\<open>hotplug_server.rs\<close>) attaches and detaches devices and runs the hand-over commands that the control
  tool (\<open>bin/remote.rs\<close>) sends.

  \<^bold>\<open>Conventions.\<close> Machine integers are words of their width. A Rust panic is a value of the datatype \<open>fault\<close> in
  the result type \<open>'a res\<close>; arithmetic that overflows is the fault \<open>ArithOverflow\<close> (overflow checks on), while
  explicitly wrapping operations wrap. A worker that ends with an error, or a channel whose other end is gone,
  is \<open>ChannelClosed\<close>. Errors that the code returns are sum types with the code's own error values. A trait
  object is a record of its operations, passed as an argument (\<open>bus_device\<close>, \<open>backend_ops\<close>, \<open>slot_env\<close>). A
  worker's loop is a function that takes one turn from a state and the thing it was waiting for to the next
  state and its outputs; runs are lists of actions, so every interleaving is a list. Time is a number of
  milliseconds passed in wherever the code reads the clock. Code outside the repository (the operating
  system's files, mmap, the nusb library, opening a device) is a parameter of the definitions that use it.
\<close>

text \<open>
  \<^bold>\<open>Theories and what they model.\<close> Paths are below \<open>src/\<close>; every group names the state and operations by the
  names of the code, with a prefix where a name is used twice.

  Foundations.
  \<^item> \<open>Prelude\<close>: words, faults, the result type, little-endian bytes, shared lemmas.
  \<^item> \<open>Interval\<close> (\<open>device/interval.rs\<close>), \<open>Bus\<close> (\<open>device/bus.rs\<close>): requests, the \<open>BusDevice\<close> trait with its bulk
    loops, the multiplexing bus and its bulk iterator.
  \<^item> \<open>BusContract\<close>: the locales \<open>bulk_device\<close> and \<open>word_device\<close>, what a device promises as memory, and the
    proof that a bus of such devices is one again.
  \<^item> \<open>MemorySegment\<close> (\<open>memory_segment.rs\<close>), \<open>DynamicBus\<close> (\<open>dynamic_bus.rs\<close>): mapped guest memory and the bus
    that is rebuilt when a mapping comes or goes. \<open>GuestMemory\<close>: the locale \<open>guest_memory\<close> with the word
    accesses rings need, interpreted on the DMA bus. \<open>GuestAccess\<close>: the locale \<open>accessible_memory\<close>, which
    accesses to guest memory return, interpreted on the DMA bus.

  Rings and events.
  \<^item> \<open>Trb\<close>, \<open>TrbLayout\<close> (\<open>device/xhci/trb.rs\<close>): TRB parsing and event encoding, and an independent description
    of the layouts as a driver sees them.
  \<^item> \<open>LinkedRing\<close> (\<open>linked_ring.rs\<close>): the rings the guest produces into. \<open>EventRing\<close> (\<open>event_ring.rs\<close>): the
    ring the controller produces into, with an abstract producer position as specification.
  \<^item> \<open>Registers\<close> (\<open>registers.rs\<close>), \<open>Interrupter\<close> (\<open>interrupter.rs\<close>, \<open>device/interrupt_line.rs\<close>).

  Devices and endpoints.
  \<^item> \<open>RealEndpoint\<close>, \<open>Nusb\<close>, \<open>NusbSpec\<close> (\<open>real_endpoint_handle.rs\<close>, \<open>usbrequest.rs\<close>, \<open>nusb.rs\<close>): the interface of
    a real endpoint and its implementation over the USB library, with the worker of a control endpoint.
  \<^item> \<open>EndpointHandle\<close>, \<open>TransferLemmas\<close> (\<open>endpoint_handle.rs\<close>, \<open>hotplug_endpoint_handle.rs\<close>): TRBs to USB
    requests and answers to guest memory and events.
  \<^item> \<open>Endpoint\<close>, \<open>EndpointSpec\<close> (\<open>endpoint.rs\<close>, \<open>endpoint_launcher.rs\<close>): the endpoint worker and the endpoint
    state diagram of the xHCI specification that it implements.
  \<^item> \<open>Slots\<close>, \<open>SlotSpec\<close>, \<open>SlotService\<close>, \<open>SlotWorld\<close> (\<open>slot_manager.rs\<close>): the slot worker, what its commands
    keep whatever guest memory does, the slot state diagram it follows on memory it can access, and the
    composition with the endpoint workers it launched.
  \<^item> \<open>Port\<close> (\<open>port.rs\<close>, \<open>real_device.rs\<close>): ports, attach and detach, port registers.
  \<^item> \<open>Pcap\<close>, \<open>PcapSpec\<close> (\<open>device/pcap/\<close>): the packet capture and an independent reader of its file.

  The controller.
  \<^item> \<open>CommandRing\<close>, \<open>DriverCommands\<close> (\<open>command_ring.rs\<close>): the command worker, and a driver's command end to end
    through the slot worker and the endpoint worker.
  \<^item> \<open>RegisterSet\<close>, \<open>PciConfig\<close>, \<open>PciGuest\<close> (\<open>device/register_set.rs\<close>, \<open>device/pci/\<close>): register files with
    writability masks, the configuration space, what guest writes cannot change.
  \<^item> \<open>Controller\<close>, \<open>ControllerSpec\<close>, \<open>ControllerReset\<close> (\<open>device/pci/xhci.rs\<close>, \<open>controller_reset.rs\<close>): the MMIO
    dispatch, the capability registers, and the host controller reset over its three components.

  The process.
  \<^item> \<open>Handover\<close>, \<open>HandoverInv\<close>, \<open>HandoverTrace\<close> (\<open>shared_backend.rs\<close>): ownership, staging, commit, reclaim, the
    reachable states, concrete runs.
  \<^item> \<open>Backend\<close>, \<open>BackendSpec\<close> (\<open>xhci_backend.rs\<close>): the \<open>ServerBackend\<close> operations and their composition with the
    ownership.
  \<^item> \<open>Response\<close>, \<open>HandoverProtocol\<close>, \<open>ProtocolRoundtrip\<close> (\<open>hotplug_protocol/\<close>), \<open>HotplugServer\<close>
    (\<open>hotplug_server.rs\<close>), \<open>Remote\<close> (\<open>bin/remote.rs\<close>, \<open>hotplug_protocol/device_paths.rs\<close>): the control protocol,
    its server and its client.
  \<^item> \<open>Daemon\<close>, \<open>DaemonSpec\<close> (\<open>main.rs\<close>, \<open>cli.rs\<close>): start of the process and the client threads.
\<close>

text \<open>
  \<^bold>\<open>What is shown.\<close> The properties carry their claim id in the text before them.
  \<^item> Hand-over: the invariants of the ownership and its fencing by the epoch, what an accepted commit or
    reclaim did, which connection owns the device after a disconnect, that a stale connection changes nothing, that a
    parked registration is answered, and that interrupts go to the eventfd of the owner in every
    interleaving with the workers. The control tool's commit acts on what the operator saw.
  \<^item> Process: the live connections are the established ones of the client threads, as many as allowed at most; what a panic
    in a client's thread leaves behind; what exactly a client's or guest's write can do.
  \<^item> Command path: every command of a batch is executed in order by the slot worker and completed once, up
    to the first one that ends the worker; slot and endpoint
    commands complete with the code and the next state of the specification's diagrams; the slots stay
    consistent along every run; an endpoint ends when told to, except where the code drops the request.
  \<^item> Data path: the link-TRB walk finds the first fresh TRB; an IN transfer fills the buffers of its
    descriptor like the reference split; the stages of a control transfer become one request; the control
    worker of a device serves requests in order; an event ends up in the right slot of the ring with the
    right cycle bit and is followed by an interrupt on the line in force.
  \<^item> Memory and registers: the DMA bus behaves as byte memory, a mapping shows the bytes of the file; the
    configuration space keeps its identity, its capability list and its BAR sizes under guest writes; the
    capability registers tell the truth about ports and slots.
  \<^item> Formats: replies, TRBs and the packet capture read back as what was written; what becomes of a command
    on the control socket, whose lines are limited, and of a command TRB, whose stream id is misread.
  \<^item> Defects: several properties state what goes wrong (a full event ring that is overwritten, a lost reset acknowledgement, a reset defeated by a
    busy endpoint, a stale control answer, panics a guest can cause). They are stated as the code behaves.

  \<^bold>\<open>Locales and their interpretations.\<close> \<open>bulk_device\<close> and \<open>word_device\<close> (the memory contract) are interpreted on
  memory segments, the default device, the two together, the bus built of them and the dynamic bus;
  \<open>guest_memory\<close> extends \<open>bulk_device\<close> and is interpreted on the DMA bus, with the ring lemmas proved inside it.
  \<open>irq_backend\<close> (what the ownership needs of a backend's interrupt line) is interpreted on the XHCI backend.
  \<open>endpoint_service\<close> (what a slot command may do to the endpoint workers) is interpreted on the world of
  launched endpoint workers over any bus; \<open>served_slots\<close> extends it by \<open>accessible_memory\<close> and by the
  termination of endpoints, and is interpreted on the same world over the DMA bus.

  \<^bold>\<open>Guest memory.\<close> What depends on guest memory is stated on the DMA bus of \<open>DynamicBus\<close> in a well-formed state
  (\<open>dyn_ok\<close>), as \<open>dma_map\<close> and \<open>dma_unmap\<close> keep it. There a read returns and a write is dropped or lands in a
  segment, unless the access runs over the end of the address space, which panics. So a command is said to
  complete when the contexts it touches end below that limit (\<open>contexts_fit\<close> for a slot's device context,
  \<open>context_in_memory\<close> for the context of one endpoint, which has to lie in one writable mapping), and the
  memory after an endpoint command is the memory before but for the state and the ring position stored in
  that context (\<open>context_saved\<close>).

  \<^bold>\<open>Bounds and fuel.\<close> The walk over link TRBs stops after 256 links, as the code does (\<open>follow_links\<close>). The
  command worker's turns are counted: a batch of \<open>n\<close> commands needs \<open>2 * n + 2\<close> turns, and that many are shown
  to be enough. The driver's walk over the extended capabilities reads at most 256 entries, more than the
  capability area holds; two are there. A watch and a parked registration are the list of the moments at
  which they wake up. The properties of the client threads bound the run by \<open>2 ^ 64\<close> steps, before connection
  ids wrap; those of the control tool bound epoch and lease by 64 bits, their width on the wire. All other loops are structural or
  have a termination proof.

  \<^bold>\<open>Not modelled.\<close> Logging and the wording of printed text, \<open>Display\<close> and \<open>Debug\<close> implementations except the error
  texts that travel over the control socket; the command-line parser, set-up of logging, sockets and the async
  runtime (\<open>main.rs\<close>, \<open>cli.rs\<close>, \<open>async_runtime.rs\<close>): glue around the modelled parts; opening, resetting and
  reopening USB devices, which is I/O of the nusb library; the module files and the helper that turns a failed
  oneshot send into an error (\<open>oneshot_anyhow/\<close>), which is \<open>ChannelClosed\<close> where it is used; debug-build test hooks
  and the environment variables that drive them; the tests. The capture hooks of OUT and IN endpoint handles cannot fail and are
  modelled in \<open>Pcap\<close> only. Atomic accesses, locks and the atomic exchange of the memory map are single steps;
  the poisoning of locks is modelled where it is visible (\<open>bk_config_poisoned\<close>). A panic inside the
  hand-over itself, which needs an interrupter that has already ended, counts as a failed registration.
\<close>

end
